(* ===== verification/Go_Prelude.thy ===== *)
theory Go_Prelude
  imports Main "HOL-Library.Sublist" "HOL-Library.Char_ord" "HOL-Library.List_Lexorder"
begin

text \<open>
  What every other theory of the development shares: the part of Go and of its standard
  library that crabwise's sources use. A Go string is a sequence of bytes and is modelled by
  \<open>string\<close> (one \<open>char\<close> is one byte, so \<open>length\<close> is Go's \<open>len\<close>). A Go error is the left
  side of a sum. A Go map is a partial function where only lookups
  matter and an association list (distinct keys, some iteration order) where the code
  ranges over it. \<open>strings.TrimSpace\<close> and \<open>strings.Fields\<close> know the Unicode white-space
  runes by their UTF-8 bytes; \<open>strings.ToLower\<close> and \<open>strings.EqualFold\<close> are exact on ASCII
  text, and a byte from 128 on is kept as it is.
\<close>

section \<open>Collections of facts\<close>

named_theorems go_str \<open>facts on the functions of package strings\<close>
named_theorems go_map \<open>facts on association lists used as Go maps\<close>
named_theorems inv_rule \<open>preservation rules: each operation keeps its component's invariant\<close>

section \<open>Errors and results\<close>

type_synonym error = string

text \<open>What reading a file gives: its contents, that it does not exist, or another error.\<close>

datatype ReadResult = FileData string | FileMissing | FileFailed error

abbreviation Err :: "'e \<Rightarrow> 'e + 'a" where "Err e \<equiv> Inl e"
abbreviation Ok :: "'a \<Rightarrow> 'e + 'a" where "Ok x \<equiv> Inr x"

text \<open>\<open>if err != nil { return err }\<close> and go on with the value.\<close>

definition bind_result :: "'e + 'a \<Rightarrow> ('a \<Rightarrow> 'e + 'b) \<Rightarrow> 'e + 'b" where
  "bind_result r f = (case r of Inl e \<Rightarrow> Err e | Inr x \<Rightarrow> f x)"

lemma bind_result_simps [simp]:
  "bind_result (Inl e) f = Inl e"
  "bind_result (Inr x) f = f x"
  by (simp_all add: bind_result_def)

lemma bind_result_Inr_iff: "bind_result r f = Inr y \<longleftrightarrow> (\<exists>x. r = Inr x \<and> f x = Inr y)"
  by (cases r) auto

lemma bind_result_Inl_iff: "bind_result r f = Inl e \<longleftrightarrow> r = Inl e \<or> (\<exists>x. r = Inr x \<and> f x = Inl e)"
  by (cases r) auto

section \<open>Package strings\<close>

definition ascii_lower :: "char \<Rightarrow> char" where
  "ascii_lower c = (if CHR ''A'' \<le> c \<and> c \<le> CHR ''Z'' then char_of (of_char c + 32 :: nat) else c)"

definition to_lower :: "string \<Rightarrow> string" where
  "to_lower s = map ascii_lower s"

definition equal_fold :: "string \<Rightarrow> string \<Rightarrow> bool" where
  "equal_fold s t = (to_lower s = to_lower t)"

text \<open>The runes \<open>unicode.IsSpace\<close> accepts, as their UTF-8 bytes.\<close>

definition space_seqs :: "string list" where
  "space_seqs =
     [[CHR 0x09], [CHR 0x0A], [CHR 0x0B], [CHR 0x0C], [CHR 0x0D], [CHR 0x20],
      [CHR 0xC2, CHR 0x85], [CHR 0xC2, CHR 0xA0], [CHR 0xE1, CHR 0x9A, CHR 0x80],
      [CHR 0xE2, CHR 0x80, CHR 0x80], [CHR 0xE2, CHR 0x80, CHR 0x81], [CHR 0xE2, CHR 0x80, CHR 0x82],
      [CHR 0xE2, CHR 0x80, CHR 0x83], [CHR 0xE2, CHR 0x80, CHR 0x84], [CHR 0xE2, CHR 0x80, CHR 0x85],
      [CHR 0xE2, CHR 0x80, CHR 0x86], [CHR 0xE2, CHR 0x80, CHR 0x87], [CHR 0xE2, CHR 0x80, CHR 0x88],
      [CHR 0xE2, CHR 0x80, CHR 0x89], [CHR 0xE2, CHR 0x80, CHR 0x8A], [CHR 0xE2, CHR 0x80, CHR 0xA8],
      [CHR 0xE2, CHR 0x80, CHR 0xA9], [CHR 0xE2, CHR 0x80, CHR 0xAF], [CHR 0xE2, CHR 0x81, CHR 0x9F],
      [CHR 0xE3, CHR 0x80, CHR 0x80]]"

fun lead_len :: "string list \<Rightarrow> string \<Rightarrow> nat" where
  "lead_len [] s = 0"
| "lead_len (q # qs) s = (if prefix q s then length q else lead_len qs s)"

lemma lead_len_le: "lead_len qs s \<le> length s"
  by (induction qs) (auto dest: prefix_length_le)

lemma drop_lead_shorter: "lead_len qs s \<noteq> 0 \<Longrightarrow> length (drop (lead_len qs s) s) < length s"
  using lead_len_le [of qs s] by simp

function trim_front :: "string list \<Rightarrow> string \<Rightarrow> string" where
  "trim_front qs s = (if lead_len qs s = 0 then s else trim_front qs (drop (lead_len qs s) s))"
  by pat_completeness auto
termination
  by (relation "measure (length \<circ> snd)") (use drop_lead_shorter in auto)

declare trim_front.simps [simp del]

definition trim_space :: "string \<Rightarrow> string" where
  "trim_space s = rev (trim_front (map rev space_seqs) (rev (trim_front space_seqs s)))"

definition has_prefix :: "string \<Rightarrow> string \<Rightarrow> bool" where
  "has_prefix s p = prefix p s"

definition has_suffix :: "string \<Rightarrow> string \<Rightarrow> bool" where
  "has_suffix s p = prefix (rev p) (rev s)"

definition trim_prefix :: "string \<Rightarrow> string \<Rightarrow> string" where
  "trim_prefix s p = (if has_prefix s p then drop (length p) s else s)"

definition trim_suffix :: "string \<Rightarrow> string \<Rightarrow> string" where
  "trim_suffix s p = (if has_suffix s p then take (length s - length p) s else s)"

fun contains :: "string \<Rightarrow> string \<Rightarrow> bool" where
  "contains [] p = (p = [])"
| "contains (c # s) p = (prefix p (c # s) \<or> contains s p)"

fun join :: "string list \<Rightarrow> string \<Rightarrow> string" where
  "join [] sep = []"
| "join [x] sep = x"
| "join (x # y # xs) sep = x @ sep @ join (y # xs) sep"

text \<open>\<open>strings.Split\<close> at a one-byte separator: never the empty list.\<close>

fun split_at :: "char \<Rightarrow> string \<Rightarrow> string list" where
  "split_at sep [] = [[]]"
| "split_at sep (c # s) =
     (if c = sep then [] # split_at sep s
      else (case split_at sep s of [] \<Rightarrow> [[c]] | w # ws \<Rightarrow> (c # w) # ws))"

text \<open>\<open>strings.ReplaceAll\<close> of a one-byte string by a string.\<close>

definition replace_char :: "char \<Rightarrow> string \<Rightarrow> string \<Rightarrow> string" where
  "replace_char c r s = concat (map (\<lambda>x. if x = c then r else [x]) s)"

text \<open>\<open>strings.Fields\<close>: \<open>cur\<close> is the field being read.\<close>

function fields_from :: "string \<Rightarrow> string \<Rightarrow> string list" where
  "fields_from cur s =
     (case s of
        [] \<Rightarrow> (if cur = [] then [] else [cur])
      | c # s' \<Rightarrow>
         (if lead_len space_seqs s = 0 then fields_from (cur @ [c]) s'
          else (if cur = [] then [] else [cur]) @ fields_from [] (drop (lead_len space_seqs s) s)))"
  by pat_completeness auto
termination
  by (relation "measure (length \<circ> snd)") (use drop_lead_shorter in auto)

declare fields_from.simps [simp del]

definition str_fields :: "string \<Rightarrow> string list" where
  "str_fields s = fields_from [] s"

section \<open>Decimal output\<close>

fun show_nat :: "nat \<Rightarrow> string" where
  "show_nat n = (if n < 10 then [char_of (48 + n)] else show_nat (n div 10) @ [char_of (48 + n mod 10)])"

declare show_nat.simps [simp del]

definition show_int :: "int \<Rightarrow> string" where
  "show_int i = (if i < 0 then CHR ''-'' # show_nat (nat (- i)) else show_nat (nat i))"

fun read_nat_from :: "nat \<Rightarrow> string \<Rightarrow> nat" where
  "read_nat_from acc [] = acc"
| "read_nat_from acc (c # s) = read_nat_from (10 * acc + (of_char c - 48)) s"

section \<open>Lemmas on strings\<close>

lemma lead_len_pos: "lead_len qs s \<noteq> 0 \<Longrightarrow> \<exists>q \<in> set qs. q \<noteq> [] \<and> prefix q s"
  by (induction qs) (auto split: if_splits)

lemma lead_len_0_take:
  assumes "[] \<notin> set qs" and "lead_len qs s = 0"
  shows "lead_len qs (take n s) = 0"
proof (rule ccontr)
  assume "lead_len qs (take n s) \<noteq> 0"
  from lead_len_pos [OF this]
  obtain q where q: "q \<in> set qs" "q \<noteq> []" "prefix q (take n s)" by blast
  then have "prefix q s" by (meson prefix_order.trans take_is_prefix)
  with q(1,2) assms show False
    by (induction qs) (auto split: if_splits)
qed

lemma trim_front_fix: "lead_len qs s = 0 \<Longrightarrow> trim_front qs s = s"
  by (simp add: trim_front.simps)

lemma lead_len_trim_front [go_str]: "lead_len qs (trim_front qs s) = 0"
  by (induction qs s rule: trim_front.induct) (subst trim_front.simps, auto simp: trim_front.simps)

lemma trim_front_suffix: "suffix (trim_front qs s) s"
proof (induction qs s rule: trim_front.induct)
  case (1 qs s)
  show ?case
  proof (cases "lead_len qs s = 0")
    case True
    then show ?thesis by (simp add: trim_front_fix)
  next
    case False
    with 1 have "suffix (trim_front qs (drop (lead_len qs s) s)) (drop (lead_len qs s) s)" by simp
    also have "suffix (drop (lead_len qs s) s) s" by (rule suffix_drop)
    finally show ?thesis using False by (simp add: trim_front.simps [of qs s])
  qed
qed

lemma space_seqs_nonempty: "[] \<notin> set space_seqs" "[] \<notin> set (map rev space_seqs)"
  by (simp_all add: space_seqs_def)

lemma lead_len_Nil [simp]: "[] \<notin> set qs \<Longrightarrow> lead_len qs [] = 0"
  by (induction qs) auto

lemma trim_space_Nil [simp, go_str]: "trim_space [] = []"
  using space_seqs_nonempty by (simp add: trim_space_def trim_front_fix)

text \<open>Trimming twice is trimming once.\<close>

lemma trim_space_idem [simp, go_str]: "trim_space (trim_space s) = trim_space s"
proof -
  let ?f = "trim_front space_seqs s"
  let ?b = "trim_front (map rev space_seqs) (rev ?f)"
  obtain zs where zs: "rev ?f = zs @ ?b"
    using trim_front_suffix [of "map rev space_seqs" "rev ?f"] by (auto elim: suffixE)
  then have "?f = rev ?b @ rev zs" by (metis rev_append rev_rev_ident)
  then have take_f: "rev ?b = take (length ?b) ?f"
    by (metis append_eq_conv_conj length_rev)
  have "lead_len space_seqs ?f = 0" by (rule lead_len_trim_front)
  then have front: "lead_len space_seqs (rev ?b) = 0"
    unfolding take_f by (rule lead_len_0_take [OF space_seqs_nonempty(1)])
  have rear: "lead_len (map rev space_seqs) ?b = 0" by (rule lead_len_trim_front)
  show ?thesis
    using front rear by (simp add: trim_space_def trim_front_fix)
qed

lemma length_trim_space [go_str]: "length (trim_space s) \<le> length s"
proof -
  have "length (trim_front (map rev space_seqs) (rev (trim_front space_seqs s)))
      \<le> length (rev (trim_front space_seqs s))"
    by (rule suffix_length_le [OF trim_front_suffix])
  also have "\<dots> \<le> length s"
    using suffix_length_le [OF trim_front_suffix, of space_seqs s] by simp
  finally show ?thesis by (simp add: trim_space_def)
qed

lemma to_lower_idem_char: "ascii_lower (ascii_lower c) = ascii_lower c"
proof (cases "CHR ''A'' \<le> c \<and> c \<le> CHR ''Z''")
  case True
  then have "65 \<le> (of_char c :: nat)" "(of_char c :: nat) \<le> 90"
    by (simp_all add: less_eq_char_def)
  then show ?thesis using True by (simp add: ascii_lower_def less_eq_char_def)
next
  case False
  then show ?thesis by (auto simp: ascii_lower_def)
qed

lemma to_lower_idem [simp, go_str]: "to_lower (to_lower s) = to_lower s"
  by (simp add: to_lower_def to_lower_idem_char)

lemma length_to_lower [simp, go_str]: "length (to_lower s) = length s"
  by (simp add: to_lower_def)

lemma to_lower_Nil_iff [simp, go_str]: "to_lower s = [] \<longleftrightarrow> s = []"
  by (simp add: to_lower_def)

lemma has_prefix_append [simp, go_str]: "has_prefix (p @ s) p"
  by (simp add: has_prefix_def)

lemma has_suffix_append [simp, go_str]: "has_suffix (s @ p) p"
  by (simp add: has_suffix_def)

lemma trim_suffix_append [simp, go_str]: "trim_suffix (s @ p) p = s"
  by (simp add: trim_suffix_def)

lemma trim_prefix_append [simp, go_str]: "trim_prefix (p @ s) p = s"
  by (simp add: trim_prefix_def)

lemma contains_iff: "contains s p \<longleftrightarrow> (\<exists>a b. s = a @ p @ b)"
proof (induction s)
  case Nil
  then show ?case by auto
next
  case (Cons c s)
  have "(\<exists>a b. c # s = a @ p @ b) \<longleftrightarrow> prefix p (c # s) \<or> (\<exists>a b. s = a @ p @ b)"
    by (auto simp: prefix_def Cons_eq_append_conv)
  with Cons show ?case by simp
qed

lemma split_at_not_Nil [simp]: "split_at c s \<noteq> []"
  by (induction s) (auto split: list.splits)

lemma join_split_at: "join (split_at c s) [c] = s"
proof (induction s)
  case Nil
  then show ?case by simp
next
  case (Cons x s)
  obtain w ws where w: "split_at c s = w # ws" by (cases "split_at c s") auto
  with Cons show ?case by (cases ws) auto
qed

lemma split_at_line: "c \<notin> set s \<Longrightarrow> split_at c (s @ c # rest) = s # split_at c rest"
  by (induction s) auto

lemma split_at_whole: "c \<notin> set s \<Longrightarrow> split_at c s = [s]"
  by (induction s) auto

lemma split_at_append: "split_at c (s @ c # t) = split_at c s @ split_at c t"
  by (induction s) (auto split: list.splits)

lemma split_at_free: "w \<in> set (split_at c s) \<Longrightarrow> c \<notin> set w"
  by (induction s arbitrary: w) (auto split: list.splits if_splits)

lemma split_at_pieces: "\<forall>e \<in> set es. c \<notin> set e \<Longrightarrow> es \<noteq> [] \<Longrightarrow> split_at c (join es [c]) = es"
  by (induction es "[c]" rule: join.induct) (simp_all add: split_at_whole split_at_line)

lemma split_at_extend: "c \<notin> set t \<Longrightarrow> split_at c (s @ t) = butlast (split_at c s) @ [last (split_at c s) @ t]"
  by (induction s) (auto simp: split_at_whole split: list.splits)

lemma last_split_at_append: "c \<notin> set t \<Longrightarrow> last (split_at c (s @ t)) = last (split_at c s) @ t"
  by (simp add: split_at_extend)

section \<open>Lemmas on decimals\<close>

lemma read_nat_from_append: "read_nat_from a (s @ t) = read_nat_from (read_nat_from a s) t"
  by (induction s arbitrary: a) auto

lemma read_show_nat [simp]: "read_nat_from 0 (show_nat n) = n"
proof (induction n rule: show_nat.induct)
  case (1 n)
  show ?case
  proof (cases "n < 10")
    case True
    then show ?thesis by (simp add: show_nat.simps)
  next
    case False
    with 1 have "read_nat_from 0 (show_nat (n div 10)) = n div 10" by simp
    with False show ?thesis
      by (subst show_nat.simps) (simp add: read_nat_from_append)
  qed
qed

lemma show_nat_inj [simp]: "show_nat m = show_nat n \<longleftrightarrow> m = n"
  by (metis read_show_nat)

lemma show_nat_digits: "\<forall>c \<in> set (show_nat n). CHR ''0'' \<le> c \<and> c \<le> CHR ''9''"
proof (induction n rule: show_nat.induct)
  case (1 n)
  then show ?case
    by (subst show_nat.simps) (auto simp: less_eq_char_def)
qed

lemma show_nat_not_Nil [simp]: "show_nat n \<noteq> []"
  by (subst show_nat.simps) simp

lemma show_nat_no_minus: "CHR ''-'' \<notin> set (show_nat n)"
proof
  assume "CHR ''-'' \<in> set (show_nat n)"
  with show_nat_digits have "CHR ''0'' \<le> CHR ''-''" by blast
  then show False by (simp add: less_eq_char_def)
qed

lemma show_int_inj [simp]: "show_int i = show_int j \<longleftrightarrow> i = j"
proof -
  have "CHR ''-'' # s \<noteq> show_nat n" and "show_nat n \<noteq> CHR ''-'' # s" for s n
    using show_nat_no_minus [of n] by (metis list.set_intros(1))+
  then show ?thesis by (auto simp: show_int_def)
qed

end
