(* ===== verification/Go_Time.thy ===== *)
theory Go_Time
  imports Go_Prelude
begin

text \<open>
  Package time as crabwise uses it. An instant is an \<open>int\<close>: nanoseconds since the Unix
  epoch (every use in the sources converts to UTC first, so locations and the monotonic
  clock reading play no part). A \<open>time.Duration\<close> is an \<open>int\<close> of nanoseconds as well.
  The layouts the sources print are written out: \<open>time.RFC3339Nano\<close> (whose fraction drops
  its trailing zeros), \<open>time.RFC3339\<close>, and the date \<open>2006-01-02\<close>. The theory proves that
  the calendar inverts the day count and that RFC3339Nano text determines the instant for
  the years 0 to 9999, and shows that the order of the texts is not the order of the
  instants.
\<close>

section \<open>The calendar\<close>

type_synonym time = int
type_synonym duration = int

definition second :: duration where "second = 1000000000"

text \<open>\<open>Time.Sub\<close> saturates at the ends of the 64-bit range.\<close>

definition max_duration :: duration where "max_duration = 2 ^ 63 - 1"

definition time_sub :: "time \<Rightarrow> time \<Rightarrow> duration" where
  "time_sub t u = max (- (2 ^ 63)) (min max_duration (t - u))"

definition day_ns :: int where "day_ns = 86400 * second"

text \<open>The zero \<open>time.Time\<close>: January 1 of year 1, UTC.\<close>

definition zero_time :: time where "zero_time = - 62135596800 * second"

text \<open>Days before January 1 of year \<open>y\<close>, counted from January 1 of year 0.\<close>

definition days_before_year :: "int \<Rightarrow> int" where
  "days_before_year y = 365 * y + (y + 3) div 4 - (y + 99) div 100 + (y + 399) div 400"

definition year_of :: "int \<Rightarrow> int" where
  "year_of n =
     (let y = (400 * n) div 146097
      in if days_before_year (y + 1) \<le> n then y + 1
         else if n < days_before_year y then y - 1 else y)"

definition leap :: "int \<Rightarrow> bool" where
  "leap y = (4 dvd y \<and> (\<not> 100 dvd y \<or> 400 dvd y))"

definition month_lengths :: "bool \<Rightarrow> int list" where
  "month_lengths l = [31, if l then 29 else 28, 31, 30, 31, 30, 31, 31, 30, 31, 30, 31]"

fun month_scan :: "int list \<Rightarrow> int \<Rightarrow> int \<Rightarrow> int \<times> int" where
  "month_scan [] m d = (m, d + 1)"
| "month_scan (l # ls) m d = (if d < l then (m, d + 1) else month_scan ls (m + 1) (d - l))"

definition days_of :: "time \<Rightarrow> int" where
  "days_of t = t div day_ns + 719528"

definition civil :: "time \<Rightarrow> int \<times> int \<times> int" where
  "civil t = (let y = year_of (days_of t);
                  md = month_scan (month_lengths (leap y)) 1 (days_of t - days_before_year y)
              in (y, fst md, snd md))"

section \<open>The layouts\<close>

definition pad :: "nat \<Rightarrow> int \<Rightarrow> string" where
  "pad k n =
     (if n < 0 then CHR ''-'' # (let s = show_nat (nat (- n)) in replicate (k - length s) CHR ''0'' @ s)
      else (let s = show_nat (nat n) in replicate (k - length s) CHR ''0'' @ s))"

definition format_date :: "time \<Rightarrow> string" where
  "format_date t = (case civil t of (y, m, d) \<Rightarrow> pad 4 y @ ''-'' @ pad 2 m @ ''-'' @ pad 2 d)"

definition format_clock :: "time \<Rightarrow> string" where
  "format_clock t =
     (let s = (t mod day_ns) div second
      in pad 2 (s div 3600) @ '':'' @ pad 2 (s div 60 mod 60) @ '':'' @ pad 2 (s mod 60))"

definition trim_zeros :: "string \<Rightarrow> string" where
  "trim_zeros s = rev (dropWhile (\<lambda>c. c = CHR ''0'') (rev s))"

definition format_frac :: "time \<Rightarrow> string" where
  "format_frac t = (let n = t mod second in if n = 0 then [] else ''.'' @ trim_zeros (pad 9 n))"

definition rfc3339nano :: "time \<Rightarrow> string" where
  "rfc3339nano t = format_date t @ ''T'' @ format_clock t @ format_frac t @ ''Z''"

definition rfc3339 :: "time \<Rightarrow> string" where
  "rfc3339 t = format_date t @ ''T'' @ format_clock t @ ''Z''"

text \<open>The layout \<open>20060102T150405.000\<close> of the overflow identifiers: milliseconds, truncated.\<close>

definition format_compact_ms :: "time \<Rightarrow> string" where
  "format_compact_ms t =
     (case civil t of (y, m, d) \<Rightarrow>
       let s = (t mod day_ns) div second
       in pad 4 y @ pad 2 m @ pad 2 d @ ''T'' @ pad 2 (s div 3600) @ pad 2 (s div 60 mod 60) @
          pad 2 (s mod 60) @ ''.'' @ pad 3 ((t mod second) div 1000000))"

definition year4 :: "time \<Rightarrow> bool" where
  "year4 t = (0 \<le> fst (civil t) \<and> fst (civil t) \<le> 9999)"

section \<open>The calendar is right\<close>

lemma ceil_div_bounds:
  fixes k y :: int
  assumes "0 < k"
  shows "y \<le> k * ((y + (k - 1)) div k)" "k * ((y + (k - 1)) div k) \<le> y + (k - 1)"
proof -
  let ?z = "y + (k - 1)"
  have "k * (?z div k) + ?z mod k = ?z" by (rule mult_div_mod_eq)
  with pos_mod_bound [OF assms, of ?z] pos_mod_sign [OF assms, of ?z]
  show "y \<le> k * (?z div k)" "k * (?z div k) \<le> ?z" by linarith+
qed

lemma ceil_div_step:
  fixes k y :: int
  assumes "0 < k"
  shows "(y + k) div k - (y + (k - 1)) div k = (if k dvd y then 1 else 0)"
proof -
  let ?q = "y div k" let ?r = "y mod k"
  have y: "y = ?r + ?q * k" and r: "0 \<le> ?r" "?r < k" using assms by auto
  have "y + (k - 1) = (?r + (k - 1)) + ?q * k" using y by linarith
  then have "(y + (k - 1)) div k = ?q + (?r + (k - 1)) div k"
    using assms by (metis div_mult_self1 less_irrefl)
  also have "(?r + (k - 1)) div k = (if ?r = 0 then 0 else 1)"
  proof (cases "?r = 0")
    case True
    then show ?thesis using assms by simp
  next
    case False
    then have "(?r + (k - 1)) div k = (?r - 1 + k) div k" by (simp add: algebra_simps)
    also have "\<dots> = (?r - 1) div k + 1" using assms by (subst div_add_self2) auto
    also have "(?r - 1) div k = 0" using False r by (intro div_pos_pos_trivial) auto
    finally show ?thesis using False by simp
  qed
  finally have "(y + (k - 1)) div k = ?q + (if ?r = 0 then 0 else 1)" .
  moreover have "(y + k) div k = ?q + 1" using assms by (subst div_add_self2) auto
  ultimately show ?thesis by (simp add: dvd_eq_mod_eq_0)
qed

lemma days_before_year_bounds:
  "146097 * y - 396 \<le> 400 * days_before_year y" "400 * days_before_year y \<le> 146097 * y + 699"
proof -
  note bnd = ceil_div_bounds [of 4 y] ceil_div_bounds [of 100 y] ceil_div_bounds [of 400 y]
  show "146097 * y - 396 \<le> 400 * days_before_year y"
    and "400 * days_before_year y \<le> 146097 * y + 699"
    using bnd unfolding days_before_year_def by simp_all
qed

lemma year_of_correct:
  "days_before_year (year_of n) \<le> n \<and> n < days_before_year (year_of n + 1)"
proof -
  define y where "y = (400 * n) div 146097"
  have y: "146097 * y \<le> 400 * n" "400 * n < 146097 * y + 146097"
    using pos_mod_bound [of 146097 "400 * n"] pos_mod_sign [of 146097 "400 * n"]
      mult_div_mod_eq [of 146097 "400 * n"]
    unfolding y_def by linarith+
  define hi where "hi = days_before_year (y + 2)"
  define lo where "lo = days_before_year (y - 1)"
  have "146097 * y + 291798 \<le> 400 * hi" "400 * lo \<le> 146097 * y - 145398"
    using days_before_year_bounds(1) [of "y + 2"] days_before_year_bounds(2) [of "y - 1"]
    unfolding hi_def lo_def by (simp_all add: algebra_simps)
  with y have "n < hi" "lo \<le> n" by linarith+
  then have after: "n < days_before_year (y + 2)" and before: "days_before_year (y - 1) \<le> n"
    by (simp_all add: hi_def lo_def)
  show ?thesis
    using after before by (auto simp: year_of_def Let_def y_def [symmetric] add.commute [of 2])
qed

lemma month_scan_total:
  "month_scan ls m d = (m', d') \<Longrightarrow>
     d = sum_list (take (nat (m' - m)) ls) + (d' - 1) \<and> m \<le> m' \<and> nat (m' - m) \<le> length ls"
proof (induction ls arbitrary: m d)
  case Nil
  then show ?case by simp
next
  case (Cons l ls)
  show ?case
  proof (cases "d < l")
    case True
    with Cons.prems show ?thesis by simp
  next
    case False
    with Cons.prems have "month_scan ls (m + 1) (d - l) = (m', d')" by simp
    from Cons.IH [OF this]
    have ih: "d - l = sum_list (take (nat (m' - (m + 1))) ls) + (d' - 1)" "m + 1 \<le> m'"
        "nat (m' - (m + 1)) \<le> length ls" by auto
    then have "nat (m' - m) = Suc (nat (m' - (m + 1)))" by simp
    with ih show ?thesis by simp
  qed
qed

text \<open>The civil date determines the day: reading it back adds up to the day count.\<close>

definition days_from_civil :: "int \<times> int \<times> int \<Rightarrow> int" where
  "days_from_civil c = (case c of (y, m, d) \<Rightarrow>
     days_before_year y + sum_list (take (nat (m - 1)) (month_lengths (leap y))) + (d - 1))"

lemma days_from_civil [simp]: "days_from_civil (civil t) = days_of t"
proof -
  obtain m d where md: "month_scan (month_lengths (leap (year_of (days_of t)))) 1
      (days_of t - days_before_year (year_of (days_of t))) = (m, d)"
    by (meson surj_pair)
  from month_scan_total [OF this] md show ?thesis
    by (simp add: days_from_civil_def civil_def Let_def)
qed

lemma month_scan_bounds:
  assumes "month_scan ls m d = (m', d')" "0 \<le> d" "d < sum_list ls" "\<forall>l \<in> set ls. l \<le> b"
  shows "m \<le> m' \<and> m' < m + int (length ls) \<and> 1 \<le> d' \<and> d' \<le> b"
  using assms
proof (induction ls arbitrary: m d)
  case Nil
  then show ?case by simp
next
  case (Cons l ls)
  show ?case
  proof (cases "d < l")
    case True
    with Cons.prems show ?thesis by auto
  next
    case False
    with Cons.prems Cons.IH [of "m + 1" "d - l"] show ?thesis by auto
  qed
qed

lemma year_step:
  fixes y a b c i j k :: int
  shows "(365 * (y + 1) + (a + i) - (b + j) + (c + k)) - (365 * y + a - b + c) = 365 + i - j + k"
  by simp

lemma sum_month_lengths: "sum_list (month_lengths l) = (if l then 366 else 365)"
  by (simp add: month_lengths_def)

lemma leap_cases:
  assumes "d \<Longrightarrow> c" "c \<Longrightarrow> b"
  shows "365 + (if b then 1 else 0) - (if c then 1 else 0) + (if d then 1 else 0) =
    (if b \<and> (\<not> c \<or> d) then 366 else 365 :: int)"
  using assms by (cases b; cases c; cases d) simp_all

lemma year_length: "days_before_year (y + 1) - days_before_year y = sum_list (month_lengths (leap y))"
proof -
  have step: "(y + 4) div 4 = (y + 3) div 4 + (if 4 dvd y then 1 else 0)"
    "(y + 100) div 100 = (y + 99) div 100 + (if 100 dvd y then 1 else 0)"
    "(y + 400) div 400 = (y + 399) div 400 + (if 400 dvd y then 1 else 0)"
    using ceil_div_step [of 4 y] ceil_div_step [of 100 y] ceil_div_step [of 400 y] by simp_all
  have shift: "y + 1 + 3 = y + 4" "y + 1 + 99 = y + 100" "y + 1 + 399 = y + 400" by simp_all
  have dv: "400 dvd y \<Longrightarrow> 100 dvd y" "100 dvd y \<Longrightarrow> 4 dvd y"
    by (rule dvd_trans [of _ 400], simp_all, rule dvd_trans [of _ 100], simp_all)
  have "days_before_year (y + 1) - days_before_year y =
      365 + (if 4 dvd y then 1 else 0) - (if 100 dvd y then 1 else 0) + (if 400 dvd y then 1 else 0)"
    unfolding days_before_year_def shift step by (rule year_step)
  then show ?thesis
    unfolding sum_month_lengths leap_def by (rule trans) (rule leap_cases [OF dv])
qed

lemma civil_bounds:
  assumes "civil t = (y, m, d)"
  shows "1 \<le> m \<and> m \<le> 12 \<and> 1 \<le> d \<and> d \<le> 31"
proof -
  let ?n = "days_of t" let ?ls = "month_lengths (leap y)"
  have y: "y = year_of ?n" and ms: "month_scan ?ls 1 (?n - days_before_year y) = (m, d)"
    using assms by (auto simp: civil_def Let_def)
  have "0 \<le> ?n - days_before_year y" "?n - days_before_year y < sum_list ?ls"
    using year_of_correct [of ?n] year_length [of y] by (auto simp: y)
  moreover have "\<forall>l \<in> set ?ls. l \<le> 31" by (simp add: month_lengths_def)
  ultimately have "1 \<le> m \<and> m < 1 + int (length ?ls) \<and> 1 \<le> d \<and> d \<le> 31"
    by (rule month_scan_bounds [OF ms])
  then show ?thesis by (simp add: month_lengths_def)
qed

section \<open>RFC3339Nano determines the instant\<close>

lemma read_replicate_0 [simp]: "read_nat_from 0 (replicate k CHR ''0'' @ s) = read_nat_from 0 s"
  by (induction k) auto

lemma pad_inj: "0 \<le> a \<Longrightarrow> 0 \<le> b \<Longrightarrow> pad k a = pad k b \<longleftrightarrow> a = b"
proof -
  have "read_nat_from 0 (pad k n) = nat n" if "0 \<le> n" for n
    using that by (simp add: pad_def Let_def)
  then show "0 \<le> a \<Longrightarrow> 0 \<le> b \<Longrightarrow> pad k a = pad k b \<longleftrightarrow> a = b" by (metis eq_nat_nat_iff)
qed

lemma length_show_nat: "0 < k \<Longrightarrow> n < 10 ^ k \<Longrightarrow> length (show_nat n) \<le> k"
proof (induction n arbitrary: k rule: show_nat.induct)
  case (1 n)
  show ?case
  proof (cases "n < 10")
    case True
    with 1(2) show ?thesis by (simp add: show_nat.simps)
  next
    case False
    with 1(3) obtain j where k: "k = Suc j" "0 < j"
      by (metis One_nat_def less_Suc0 not_gr_zero old.nat.exhaust power_0 power_one_right
          less_one not_less_eq zero_less_Suc Suc_pred 1(2))
    with 1(3) have "n div 10 < 10 ^ j" by (simp add: less_mult_imp_div_less mult.commute)
    with 1(1) False k have "length (show_nat (n div 10)) \<le> j" by blast
    with False k show ?thesis by (simp add: show_nat.simps [of n])
  qed
qed

lemma length_pad: "0 < k \<Longrightarrow> 0 \<le> n \<Longrightarrow> n < 10 ^ k \<Longrightarrow> length (pad k n) = k"
  using length_show_nat [of k "nat n"] by (simp add: pad_def Let_def nat_less_iff)

lemma trim_zeros_split: "s = trim_zeros s @ replicate (length s - length (trim_zeros s)) CHR ''0''"
proof -
  have "takeWhile (\<lambda>c. c = CHR ''0'') r = replicate (length r - length (dropWhile (\<lambda>c. c = CHR ''0'') r)) CHR ''0''"
    for r :: string
    by (induction r) (auto simp: Suc_diff_le length_dropWhile_le)
  from this [of "rev s"] show ?thesis
    by (metis length_rev rev_append rev_replicate rev_rev_ident takeWhile_dropWhile_id trim_zeros_def)
qed

lemma trim_zeros_inj: "length s = length t \<Longrightarrow> trim_zeros s = trim_zeros t \<Longrightarrow> s = t"
  by (metis trim_zeros_split)

lemma mod_second_bounds: "0 \<le> t mod second" "t mod second < 10 ^ 9"
  by (simp_all add: second_def)

lemma format_frac_inj: "format_frac a @ ''Z'' = format_frac b @ ''Z'' \<Longrightarrow> a mod second = b mod second"
  using mod_second_bounds [of a] mod_second_bounds [of b]
  by (auto simp: format_frac_def Let_def length_pad pad_inj dest!: trim_zeros_inj [rotated] split: if_splits)

lemma pad2_inj:
  assumes "pad 2 a @ x @ r = pad 2 b @ x @ q" "0 \<le> a" "a < 100" "0 \<le> b" "b < 100"
  shows "a = b \<and> r = q"
proof -
  have "length (pad 2 a) = length (pad 2 b)" using assms(2-) by (simp add: length_pad)
  with assms(1) have "pad 2 a = pad 2 b \<and> x @ r = x @ q" by (metis append_eq_append_conv)
  with assms(2-) show ?thesis by (simp add: pad_inj)
qed

lemma clock_parts:
  fixes t s :: int
  defines "s \<equiv> (t mod day_ns) div second"
  shows "t = t div day_ns * day_ns + ((s div 3600 * 60 + s div 60 mod 60) * 60 + s mod 60) * second + t mod second"
    and "0 \<le> s div 3600" "s div 3600 < 100" "0 \<le> s div 60 mod 60" "s div 60 mod 60 < 100"
    and "0 \<le> s mod 60" "s mod 60 < 100"
proof -
  have s: "s * second + t mod second = t mod day_ns"
    unfolding s_def using mod_mod_cancel [of second day_ns t] div_mult_mod_eq [of "t mod day_ns" second]
    by (simp add: day_ns_def)
  have "s div 3600 = s div 60 div 60" using zdiv_zmult2_eq [of 60 s 60] by simp
  then have "(s div 3600 * 60 + s div 60 mod 60) * 60 + s mod 60 = s" by simp
  with s show "t = t div day_ns * day_ns + ((s div 3600 * 60 + s div 60 mod 60) * 60 + s mod 60) * second + t mod second"
    by (metis add.assoc div_mult_mod_eq)
  have "0 \<le> t mod day_ns" "t mod day_ns < 86400 * second" by (simp_all add: day_ns_def second_def)
  then have "0 \<le> s" "s < 86400" unfolding s_def second_def by (simp_all add: pos_imp_zdiv_nonneg_iff div_less_iff_less_mult)
  then show "0 \<le> s div 3600" "s div 3600 < 100" "0 \<le> s div 60 mod 60" "s div 60 mod 60 < 100"
    "0 \<le> s mod 60" "s mod 60 < 100" by auto
qed

lemma length_format_date: "year4 t \<Longrightarrow> length (format_date t) = 10"
proof -
  assume y4: "year4 t"
  obtain y m d where c: "civil t = (y, m, d)" by (metis prod_cases3)
  from civil_bounds [OF c] y4 c show ?thesis
    by (simp add: format_date_def year4_def length_pad)
qed

lemma length_format_clock: "length (format_clock t) = 8"
proof -
  define s where "s = (t mod day_ns) div second"
  note bnd = clock_parts(2-7) [of t, folded s_def]
  have two: "length (pad 2 n) = 2" if "0 \<le> n" "n < 100" for n
    using that by (simp add: length_pad)
  have "length (pad 2 (s div 3600)) = 2" by (rule two [OF bnd(1,2)])
  moreover have "length (pad 2 (s div 60 mod 60)) = 2" by (rule two [OF bnd(3,4)])
  moreover have "length (pad 2 (s mod 60)) = 2" by (rule two [OF bnd(5,6)])
  ultimately show ?thesis by (simp add: format_clock_def s_def [symmetric] Let_def)
qed

lemma format_date_inj:
  assumes "year4 a" "year4 b" "format_date a = format_date b"
  shows "a div day_ns = b div day_ns"
proof -
  obtain ya ma da where ca: "civil a = (ya, ma, da)" by (metis prod_cases3)
  obtain yb mb db where cb: "civil b = (yb, mb, db)" by (metis prod_cases3)
  note bnd = civil_bounds [OF ca] civil_bounds [OF cb]
  have ys: "0 \<le> ya" "ya < 10 ^ 4" "0 \<le> yb" "yb < 10 ^ 4" using assms by (simp_all add: year4_def ca cb)
  have eq: "pad 4 ya @ ''-'' @ pad 2 ma @ ''-'' @ pad 2 da = pad 4 yb @ ''-'' @ pad 2 mb @ ''-'' @ pad 2 db"
    using assms by (simp add: format_date_def ca cb)
  have "length (pad 4 ya) = length (pad 4 yb)" using ys by (simp add: length_pad)
  with eq have y: "pad 4 ya = pad 4 yb" and md: "pad 2 ma @ ''-'' @ pad 2 da = pad 2 mb @ ''-'' @ pad 2 db"
    by simp_all
  have "ma = mb \<and> pad 2 da = pad 2 db" using pad2_inj [OF md] bnd by simp
  then have "civil a = civil b" using y ys bnd by (simp add: ca cb pad_inj)
  then have "days_of a = days_of b" by (metis days_from_civil)
  then show ?thesis by (simp add: days_of_def)
qed

lemma format_clock_inj:
  assumes "format_clock a = format_clock b" "a div day_ns = b div day_ns" "a mod second = b mod second"
  shows "a = b"
proof -
  define sa where "sa = (a mod day_ns) div second"
  define sb where "sb = (b mod day_ns) div second"
  note bnd = clock_parts(2-7) [of a, folded sa_def] clock_parts(2-7) [of b, folded sb_def]
  have eq: "pad 2 (sa div 3600) @ '':'' @ pad 2 (sa div 60 mod 60) @ '':'' @ pad 2 (sa mod 60) =
      pad 2 (sb div 3600) @ '':'' @ pad 2 (sb div 60 mod 60) @ '':'' @ pad 2 (sb mod 60)"
    using assms(1) by (simp add: format_clock_def Let_def sa_def sb_def)
  from pad2_inj [OF eq bnd(1,2) bnd(7,8)]
  have h: "sa div 3600 = sb div 3600"
    and eq2: "pad 2 (sa div 60 mod 60) @ '':'' @ pad 2 (sa mod 60) = pad 2 (sb div 60 mod 60) @ '':'' @ pad 2 (sb mod 60)"
    by blast+
  from pad2_inj [OF eq2 bnd(3,4) bnd(9,10)]
  have m: "sa div 60 mod 60 = sb div 60 mod 60" and s: "sa mod 60 = sb mod 60"
    using bnd(5,11) by (blast, metis pad_inj)
  show ?thesis
    using clock_parts(1) [of a, folded sa_def] clock_parts(1) [of b, folded sb_def]
    by (simp only: h m s assms(2,3))
qed

lemma same_length_split: "length a = length b \<Longrightarrow> a @ r = b @ q \<Longrightarrow> a = b \<and> r = q"
  by simp

lemma rfc3339nano_parts:
  assumes "year4 a" "year4 b" "rfc3339nano a = rfc3339nano b"
  shows "format_date a = format_date b \<and> format_clock a = format_clock b \<and>
    format_frac a @ ''Z'' = format_frac b @ ''Z''"
proof -
  have eq: "format_date a @ (''T'' @ format_clock a @ format_frac a @ ''Z'') =
      format_date b @ (''T'' @ format_clock b @ format_frac b @ ''Z'')"
    using assms(3) by (simp only: rfc3339nano_def)
  have "length (format_date a) = length (format_date b)" using assms(1,2) by (simp only: length_format_date)
  from same_length_split [OF this eq]
  have d: "format_date a = format_date b"
    and eq2: "format_clock a @ (format_frac a @ ''Z'') = format_clock b @ (format_frac b @ ''Z'')" by auto
  have "length (format_clock a) = length (format_clock b)" by (simp only: length_format_clock)
  from same_length_split [OF this eq2] d show ?thesis by blast
qed

lemma rfc3339nano_inj:
  assumes "year4 a" "year4 b" "rfc3339nano a = rfc3339nano b"
  shows "a = b"
proof -
  from rfc3339nano_parts [OF assms]
  have d: "format_date a = format_date b" and c: "format_clock a = format_clock b"
    and f: "format_frac a @ ''Z'' = format_frac b @ ''Z''" by blast+
  show ?thesis
    by (rule format_clock_inj [OF c format_date_inj [OF assms(1,2) d] format_frac_inj [OF f]])
qed

end
