(* ===== verification/Go_Time_Parse.thy ===== *)
theory Go_Time_Parse
  imports Go_Time
begin

text \<open>
  \<open>time.Parse(time.RFC3339Nano, s)\<close>, with which events read from the database and log lines
  read by the watchers get their timestamps: the date, the clock, an optional fraction and
  the zone (\<open>Z\<close> or a numeric offset), each checked against its range. An error is \<open>None\<close>.
  The theory proves that parsing inverts printing for the years 0 to 9999.
\<close>

definition is_digit :: "char \<Rightarrow> bool" where
  "is_digit c = (CHR ''0'' \<le> c \<and> c \<le> CHR ''9'')"

text \<open>Exactly \<open>k\<close> digits, and what follows them.\<close>

definition take_digits :: "nat \<Rightarrow> string \<Rightarrow> (int \<times> string) option" where
  "take_digits k s =
     (if k \<le> length s \<and> list_all is_digit (take k s) then Some (int (read_nat_from 0 (take k s)), drop k s) else None)"

text \<open>An hour may have one digit.\<close>

definition take_hour :: "string \<Rightarrow> (int \<times> string) option" where
  "take_hour s = (case take_digits 2 s of Some r \<Rightarrow> Some r | None \<Rightarrow> take_digits 1 s)"

definition take_char :: "char \<Rightarrow> string \<Rightarrow> string option" where
  "take_char c s = (case s of [] \<Rightarrow> None | x # xs \<Rightarrow> if x = c then Some xs else None)"

text \<open>The fraction in nanoseconds: digits beyond the ninth are dropped.\<close>

definition frac_ns :: "string \<Rightarrow> int" where
  "frac_ns ds = int (read_nat_from 0 (take 9 (ds @ replicate 9 CHR ''0'')))"

definition take_frac :: "string \<Rightarrow> int \<times> string" where
  "take_frac s =
     (case s of
        c # r \<Rightarrow> (if (c = CHR ''.'' \<or> c = CHR '','') \<and> takeWhile is_digit r \<noteq> []
                  then (frac_ns (takeWhile is_digit r), dropWhile is_digit r) else (0, s))
      | [] \<Rightarrow> (0, s))"

text \<open>The seconds east of UTC.\<close>

definition take_zone :: "string \<Rightarrow> int option" where
  "take_zone s =
     (if s = ''Z'' then Some 0
      else case s of
        c # r \<Rightarrow>
          (if c = CHR ''+'' \<or> c = CHR ''-'' then
             Option.bind (take_digits 2 r) (\<lambda>(hh, r).
             Option.bind (take_char CHR '':'' r) (\<lambda>r.
             Option.bind (take_digits 2 r) (\<lambda>(mm, r).
               if r = [] \<and> hh \<le> 24 \<and> mm \<le> 60
               then Some ((if c = CHR ''-'' then -1 else 1) * (hh * 60 + mm) * 60) else None)))
           else None)
      | [] \<Rightarrow> None)"

definition valid_civil :: "int \<times> int \<times> int \<Rightarrow> bool" where
  "valid_civil c = (case c of (y, m, d) \<Rightarrow>
     1 \<le> m \<and> m \<le> 12 \<and> 1 \<le> d \<and> d \<le> month_lengths (leap y) ! nat (m - 1))"

definition time_of :: "int \<times> int \<times> int \<Rightarrow> int \<Rightarrow> int \<Rightarrow> int \<Rightarrow> int \<Rightarrow> time" where
  "time_of c h mi s ns = (days_from_civil c - 719528) * day_ns + ((h * 60 + mi) * 60 + s) * second + ns"

definition parse_rfc3339nano :: "string \<Rightarrow> time option" where
  "parse_rfc3339nano s =
     Option.bind (take_digits 4 s) (\<lambda>(y, s).
     Option.bind (take_char CHR ''-'' s) (\<lambda>s.
     Option.bind (take_digits 2 s) (\<lambda>(m, s).
     Option.bind (take_char CHR ''-'' s) (\<lambda>s.
     Option.bind (take_digits 2 s) (\<lambda>(d, s).
     Option.bind (take_char CHR ''T'' s) (\<lambda>s.
     Option.bind (take_hour s) (\<lambda>(h, s).
     Option.bind (take_char CHR '':'' s) (\<lambda>s.
     Option.bind (take_digits 2 s) (\<lambda>(mi, s).
     Option.bind (take_char CHR '':'' s) (\<lambda>s.
     Option.bind (take_digits 2 s) (\<lambda>(sec, s).
       (case take_frac s of (ns, z) \<Rightarrow>
          Option.bind (take_zone z) (\<lambda>off.
            if valid_civil (y, m, d) \<and> h < 24 \<and> mi < 60 \<and> sec < 60
            then Some (time_of (y, m, d) h mi sec ns - off * second) else None)))))))))))))"

text \<open>\<open>t, _ := time.Parse(...)\<close>: the zero time where the text does not parse.\<close>

definition parse_or_zero :: "string \<Rightarrow> time" where
  "parse_or_zero s = (case parse_rfc3339nano s of Some t \<Rightarrow> t | None \<Rightarrow> zero_time)"

section \<open>Parsing inverts printing\<close>

lemma pad_digits: "0 \<le> n \<Longrightarrow> list_all is_digit (pad k n)"
  using show_nat_digits [of "nat n"] by (auto simp: pad_def Let_def list_all_iff is_digit_def)

lemma read_pad: "0 \<le> n \<Longrightarrow> read_nat_from 0 (pad k n) = nat n"
  by (simp add: pad_def Let_def)

lemma take_digits_pad [simp]:
  assumes "0 \<le> n" "n < 10 ^ k" "0 < k"
  shows "take_digits k (pad k n @ r) = Some (n, r)"
  using assms by (simp add: take_digits_def length_pad pad_digits read_pad)

lemma take_digits_pad_num [simp]:
  "0 \<le> n \<Longrightarrow> n < 100 \<Longrightarrow> take_digits 2 (pad 2 n @ r) = Some (n, r)"
  "0 \<le> n \<Longrightarrow> n < 10000 \<Longrightarrow> take_digits 4 (pad 4 n @ r) = Some (n, r)"
  by simp_all

lemma take_char_same [simp]: "take_char c (c # s) = Some s"
  by (simp add: take_char_def)

lemma month_scan_within:
  assumes "month_scan ls m d = (m', d')" "0 \<le> d" "d < sum_list ls"
  shows "m \<le> m' \<and> m' < m + int (length ls) \<and> d' \<le> ls ! nat (m' - m)"
  using assms
proof (induction ls arbitrary: m d)
  case Nil
  then show ?case by simp
next
  case (Cons l ls)
  show ?case
  proof (cases "d < l")
    case True
    with Cons.prems show ?thesis by auto
  next
    case False
    with Cons.prems have "m + 1 \<le> m' \<and> m' < m + 1 + int (length ls) \<and> d' \<le> ls ! nat (m' - (m + 1))"
      by (intro Cons.IH [of "m + 1" "d - l"]) auto
    moreover from this have "nat (m' - m) = Suc (nat (m' - (m + 1)))" by (simp add: Suc_nat_eq_nat_zadd1)
    ultimately show ?thesis by simp
  qed
qed

lemma valid_civil_civil: "valid_civil (civil t)"
proof -
  obtain y m d where c: "civil t = (y, m, d)" by (metis prod_cases3)
  let ?n = "days_of t" let ?ls = "month_lengths (leap y)"
  have y: "y = year_of ?n" and ms: "month_scan ?ls 1 (?n - days_before_year y) = (m, d)"
    using c by (auto simp: civil_def Let_def)
  have "0 \<le> ?n - days_before_year y" "?n - days_before_year y < sum_list ?ls"
    using year_of_correct [of ?n] year_length [of y] by (auto simp: y)
  from month_scan_within [OF ms this] civil_bounds [OF c] c show ?thesis
    by (simp add: valid_civil_def)
qed

lemma trim_zeros_digits: "list_all is_digit s \<Longrightarrow> list_all is_digit (trim_zeros s)"
  by (metis list_all_append trim_zeros_split)

lemma takeWhile_digits_Z: "list_all is_digit ds \<Longrightarrow> takeWhile is_digit (ds @ ''Z'') = ds"
  by (simp add: takeWhile_append list_all_iff is_digit_def)

lemma dropWhile_digits_Z: "list_all is_digit ds \<Longrightarrow> dropWhile is_digit (ds @ ''Z'') = ''Z''"
  by (simp add: dropWhile_append list_all_iff is_digit_def)

lemma frac_ns_trim: "0 \<le> n \<Longrightarrow> n < 10 ^ 9 \<Longrightarrow> frac_ns (trim_zeros (pad 9 n)) = n"
proof -
  assume n: "0 \<le> n" "n < 10 ^ 9"
  let ?p = "pad 9 n" let ?k = "length ?p - length (trim_zeros ?p)"
  have len: "length ?p = 9" using n by (simp add: length_pad)
  have p: "?p = trim_zeros ?p @ replicate ?k CHR ''0''" by (rule trim_zeros_split)
  then have "length (trim_zeros ?p) \<le> 9" using len by (metis length_append le_add1)
  then have "take 9 (trim_zeros ?p @ replicate 9 CHR ''0'') = ?p"
    using p len by (simp add: min_def)
  with n show ?thesis by (simp add: frac_ns_def read_pad)
qed

lemma trim_zeros_pad_Nil: "0 < n \<Longrightarrow> n < 10 ^ 9 \<Longrightarrow> trim_zeros (pad 9 n) \<noteq> []"
  using frac_ns_trim [of n] read_replicate_0 [of 9 "[]"] by (auto simp: frac_ns_def)

lemma take_frac_format: "take_frac (format_frac t @ ''Z'') = (t mod second, ''Z'')"
proof (cases "t mod second = 0")
  case True
  then show ?thesis by (simp add: format_frac_def take_frac_def)
next
  case False
  then have n: "0 < t mod second" "t mod second < 10 ^ 9" using mod_second_bounds [of t] by auto
  then have ds: "list_all is_digit (trim_zeros (pad 9 (t mod second)))"
    by (simp add: trim_zeros_digits pad_digits)
  show ?thesis
    using n ds trim_zeros_pad_Nil [OF n] frac_ns_trim [of "t mod second"] False
    by (simp add: format_frac_def Let_def take_frac_def takeWhile_digits_Z dropWhile_digits_Z)
qed

lemma clock_ranges:
  "(t mod day_ns) div second div 3600 < 24" "(t mod day_ns) div second div 60 mod 60 < (60 :: int)"
  "(t mod day_ns) div second mod 60 < (60 :: int)"
proof -
  have "t mod day_ns < 86400 * second" by (simp add: day_ns_def second_def)
  then have "(t mod day_ns) div second < 86400" by (simp add: second_def div_less_iff_less_mult)
  then show "(t mod day_ns) div second div 3600 < 24" by (simp add: div_less_iff_less_mult)
qed simp_all

text \<open>A text of the layout whose parts are in range parses to the instant they name.\<close>

lemma parse_layout:
  assumes "valid_civil (y, m, d)" "0 \<le> y" "y < 10000" "0 \<le> m" "m < 100" "0 \<le> d" "d < 100"
    and "0 \<le> h" "h < 24" "0 \<le> mi" "mi < 60" "0 \<le> s" "s < 60" and "take_frac fz = (ns, ''Z'')"
  shows "parse_rfc3339nano (pad 4 y @ ''-'' @ pad 2 m @ ''-'' @ pad 2 d @ ''T'' @
      pad 2 h @ '':'' @ pad 2 mi @ '':'' @ pad 2 s @ fz) = Some (time_of (y, m, d) h mi s ns)"
proof -
  have "take_zone ''Z'' = Some 0" by (simp add: take_zone_def)
  with assms show ?thesis by (simp add: parse_rfc3339nano_def take_hour_def)
qed

lemma parse_rfc3339nano [simp]:
  assumes "year4 t"
  shows "parse_rfc3339nano (rfc3339nano t) = Some t"
proof -
  define s where "s = (t mod day_ns) div second"
  note cp = clock_parts [of t, folded s_def] and cr = clock_ranges [of t, folded s_def]
  obtain y m d where c: "civil t = (y, m, d)" by (metis prod_cases3)
  note b = civil_bounds [OF c]
  have y: "0 \<le> y" "y < 10000" using assms c by (auto simp: year4_def)
  have "days_from_civil (y, m, d) - 719528 = t div day_ns"
    using days_from_civil [of t] c by (simp add: days_of_def)
  then have t: "time_of (y, m, d) (s div 3600) (s div 60 mod 60) (s mod 60) (t mod second) = t"
    using cp(1) by (simp add: time_of_def)
  have "valid_civil (y, m, d)" using valid_civil_civil [of t] c by simp
  moreover have "0 \<le> m" "m < 100" "0 \<le> d" "d < 100" using b by linarith+
  ultimately have "parse_rfc3339nano (pad 4 y @ ''-'' @ pad 2 m @ ''-'' @ pad 2 d @ ''T'' @ pad 2 (s div 3600) @ '':'' @
      pad 2 (s div 60 mod 60) @ '':'' @ pad 2 (s mod 60) @ format_frac t @ ''Z'') =
      Some (time_of (y, m, d) (s div 3600) (s div 60 mod 60) (s mod 60) (t mod second))"
    using parse_layout [OF _ y _ _ _ _ cp(2) cr(1) cp(4) cr(2) cp(6) cr(3) take_frac_format] by blast
  then show ?thesis
    by (simp add: rfc3339nano_def format_date_def c format_clock_def s_def [symmetric] Let_def t)
qed

lemma parse_or_zero [simp]: "year4 t \<Longrightarrow> parse_or_zero (rfc3339nano t) = t"
  by (simp add: parse_or_zero_def)

text \<open>
  Texts do not sort as instants do: half past a second sorts before the second, because the
  fraction's point sorts before the zone's letter.
\<close>

lemmas time_eval =
  rfc3339nano_def format_date_def format_clock_def format_frac_def civil_def days_of_def day_ns_def second_def
  year_of_def days_before_year_def Let_def leap_def month_lengths_def pad_def show_nat.simps trim_zeros_def char_of_def bit_0

lemma rfc3339nano_samples:
  "rfc3339nano 0 = ''1970-01-01T00:00:00Z''"
  "rfc3339nano 500000000 = ''1970-01-01T00:00:00.5Z''"
  "rfc3339nano 1000000000 = ''1970-01-01T00:00:01Z''"
  by (simp_all add: time_eval)

lemma rfc3339nano_order: "rfc3339nano 500000000 < rfc3339nano 0"
  by (simp add: rfc3339nano_samples less_char_def)

end
