(* ===== verification/Audit_Event.thy ===== *)
theory Audit_Event
  imports Go_Time "HOL-Library.Word"
begin

text \<open>
  \<open>internal/audit/events.go\<close>: the event every adapter produces, its canonical byte
  serialisation, and the hash the audit chain is built from. \<open>ActionType\<close> and \<open>Outcome\<close>
  are string types in Go (any string can arrive in them), so they stay strings here, with
  the source's constants. Go's \<open>int\<close> and \<open>int64\<close> are 64-bit words; a \<open>float64\<close> is its
  64 bits, as \<open>math.Float64bits\<close> gives them. SHA-256 is the parameter \<open>sum256\<close> of the
  definitions that hash: bytes to bytes, nothing assumed of it. The theory proves that the
  serialisation is injective on the hashed fields, so that two different events with one
  hash exhibit a collision of \<open>sum256\<close>.
\<close>

section \<open>The event\<close>

type_synonym int64 = "64 word"
type_synonym float64 = "64 word"

type_synonym ActionType = string
type_synonym Outcome = string

definition ActionToolCall :: ActionType where "ActionToolCall = ''tool_call''"
definition ActionFileAccess :: ActionType where "ActionFileAccess = ''file_access''"
definition ActionCommandExecution :: ActionType where "ActionCommandExecution = ''command_execution''"
definition ActionAIRequest :: ActionType where "ActionAIRequest = ''ai_request''"
definition ActionSystem :: ActionType where "ActionSystem = ''system''"
definition ActionUnknown :: ActionType where "ActionUnknown = ''unknown''"

definition OutcomeSuccess :: Outcome where "OutcomeSuccess = ''success''"
definition OutcomeFailure :: Outcome where "OutcomeFailure = ''failure''"
definition OutcomeBlocked :: Outcome where "OutcomeBlocked = ''blocked''"
definition OutcomeWarned :: Outcome where "OutcomeWarned = ''warned''"

lemmas action_defs =
  ActionToolCall_def ActionFileAccess_def ActionCommandExecution_def ActionAIRequest_def
  ActionSystem_def ActionUnknown_def

lemmas outcome_defs = OutcomeSuccess_def OutcomeFailure_def OutcomeBlocked_def OutcomeWarned_def

record AuditEvent =
  ev_ID :: string
  ev_Timestamp :: time
  ev_AgentID :: string
  ev_AgentPID :: int64
  ev_ActionType :: ActionType
  ev_Action :: string
  ev_Arguments :: string
  ev_SessionID :: string
  ev_ParentSessionID :: string
  ev_WorkingDir :: string
  ev_ParserVersion :: string
  ev_Outcome :: Outcome
  ev_CommandmentsEvaluated :: string
  ev_CommandmentsTriggered :: string
  ev_Provider :: string
  ev_Model :: string
  ev_ToolCategory :: string
  ev_ToolEffect :: string
  ev_ToolName :: string
  ev_TaxonomyVersion :: string
  ev_ClassificationSource :: string
  ev_InputTokens :: int64
  ev_OutputTokens :: int64
  ev_CostUSD :: float64
  ev_AdapterID :: string
  ev_AdapterType :: string
  ev_RawPayloadRef :: string
  ev_Hostname :: string
  ev_UserID :: string
  ev_PrevHash :: string
  ev_EventHash :: string
  ev_Redacted :: bool
  ev_SourceFile :: string
  ev_SourceOffset :: int64

text \<open>\<open>AuditEvent{}\<close>: every field at its zero value.\<close>

definition zero_event :: AuditEvent where
  "zero_event = \<lparr>ev_ID = [], ev_Timestamp = zero_time, ev_AgentID = [], ev_AgentPID = 0,
     ev_ActionType = [], ev_Action = [], ev_Arguments = [], ev_SessionID = [],
     ev_ParentSessionID = [], ev_WorkingDir = [], ev_ParserVersion = [], ev_Outcome = [],
     ev_CommandmentsEvaluated = [], ev_CommandmentsTriggered = [], ev_Provider = [],
     ev_Model = [], ev_ToolCategory = [], ev_ToolEffect = [], ev_ToolName = [],
     ev_TaxonomyVersion = [], ev_ClassificationSource = [], ev_InputTokens = 0,
     ev_OutputTokens = 0, ev_CostUSD = 0, ev_AdapterID = [], ev_AdapterType = [],
     ev_RawPayloadRef = [], ev_Hostname = [], ev_UserID = [], ev_PrevHash = [],
     ev_EventHash = [], ev_Redacted = False, ev_SourceFile = [], ev_SourceOffset = 0\<rparr>"

section \<open>The canonical serialisation\<close>

text \<open>\<open>binary.BigEndian\<close>: the \<open>k\<close> low bytes of a number, most significant first.\<close>

fun be_bytes :: "nat \<Rightarrow> nat \<Rightarrow> string" where
  "be_bytes 0 v = []"
| "be_bytes (Suc k) v = be_bytes k (v div 256) @ [char_of v]"

fun from_be :: "nat \<Rightarrow> string \<Rightarrow> nat" where
  "from_be acc [] = acc"
| "from_be acc (c # s) = from_be (256 * acc + of_char c) s"

definition put_uint32 :: "32 word \<Rightarrow> string" where
  "put_uint32 w = be_bytes 4 (unat w)"

definition put_uint64 :: "64 word \<Rightarrow> string" where
  "put_uint64 w = be_bytes 8 (unat w)"

definition appendString :: "string \<Rightarrow> string \<Rightarrow> string" where
  "appendString buf s = buf @ put_uint32 (word_of_nat (length s)) @ s"

definition appendInt :: "string \<Rightarrow> int64 \<Rightarrow> string" where
  "appendInt buf v = buf @ put_uint64 v"

definition appendFloat :: "string \<Rightarrow> float64 \<Rightarrow> string" where
  "appendFloat buf v = buf @ put_uint64 v"

definition appendTime :: "string \<Rightarrow> time \<Rightarrow> string" where
  "appendTime buf t = appendString buf (rfc3339nano t)"

definition appendBool :: "string \<Rightarrow> bool \<Rightarrow> string" where
  "appendBool buf v = (if v then buf @ [char_of (1::nat)] else buf @ [char_of (0::nat)])"

definition CanonicalBytes :: "AuditEvent \<Rightarrow> string" where
  "CanonicalBytes e =
    (let buf = [];
         buf = appendString buf (ev_ID e);
         buf = appendTime buf (ev_Timestamp e);
         buf = appendString buf (ev_AgentID e);
         buf = appendInt buf (ev_AgentPID e);
         buf = appendString buf (ev_ActionType e);
         buf = appendString buf (ev_Action e);
         buf = appendString buf (ev_Arguments e);
         buf = appendString buf (ev_SessionID e);
         buf = appendString buf (ev_ParentSessionID e);
         buf = appendString buf (ev_WorkingDir e);
         buf = appendString buf (ev_ParserVersion e);
         buf = appendString buf (ev_Outcome e);
         buf = appendString buf (ev_CommandmentsEvaluated e);
         buf = appendString buf (ev_CommandmentsTriggered e);
         buf = appendString buf (ev_Provider e);
         buf = appendString buf (ev_Model e);
         buf = appendString buf (ev_ToolCategory e);
         buf = appendString buf (ev_ToolEffect e);
         buf = appendString buf (ev_ToolName e);
         buf = appendString buf (ev_TaxonomyVersion e);
         buf = appendString buf (ev_ClassificationSource e);
         buf = appendInt buf (ev_InputTokens e);
         buf = appendInt buf (ev_OutputTokens e);
         buf = appendFloat buf (ev_CostUSD e);
         buf = appendString buf (ev_AdapterID e);
         buf = appendString buf (ev_AdapterType e);
         buf = appendString buf (ev_RawPayloadRef e);
         buf = appendString buf (ev_Hostname e);
         buf = appendString buf (ev_UserID e);
         buf = appendString buf (ev_PrevHash e);
         buf = appendBool buf (ev_Redacted e)
     in buf)"

text \<open>\<open>fmt.Sprintf("%x", b)\<close>: two lower-case hexadecimal digits per byte.\<close>

definition hex_digit :: "nat \<Rightarrow> char" where
  "hex_digit n = (if n < 10 then char_of (48 + n) else char_of (87 + n))"

definition hex :: "string \<Rightarrow> string" where
  "hex b = concat (map (\<lambda>c. [hex_digit (of_char c div 16), hex_digit (of_char c mod 16)]) b)"

definition ComputeHash :: "(string \<Rightarrow> string) \<Rightarrow> AuditEvent \<Rightarrow> string \<Rightarrow> string" where
  "ComputeHash sum256 e prevHash = hex (sum256 (CanonicalBytes e @ prevHash))"

section \<open>The serialisation is injective\<close>

lemma length_be_bytes [simp]: "length (be_bytes k v) = k"
  by (induction k arbitrary: v) auto

lemma from_be_append: "from_be a (s @ t) = from_be (from_be a s) t"
  by (induction s arbitrary: a) auto

lemma from_be_bytes: "from_be 0 (be_bytes k v) = v mod 256 ^ k"
proof (induction k arbitrary: v)
  case 0
  then show ?case by simp
next
  case (Suc k)
  have "v mod (256 * 256 ^ k) = 256 * (v div 256 mod 256 ^ k) + v mod 256"
    by (rule mod_mult2_eq)
  with Suc show ?case by (simp add: from_be_append)
qed

lemma be_bytes_unat32 [simp]: "be_bytes 4 (unat (a :: 32 word)) = be_bytes 4 (unat b) \<longleftrightarrow> a = b"
proof
  assume "be_bytes 4 (unat a) = be_bytes 4 (unat b)"
  then have "unat a mod 256 ^ 4 = unat b mod 256 ^ 4" by (metis from_be_bytes)
  then show "a = b" using unsigned_less [of a, where ?'a = nat] unsigned_less [of b, where ?'a = nat]
    by (simp add: word_unat_eq_iff)
qed simp

lemma be_bytes_unat64 [simp]: "be_bytes 8 (unat (a :: 64 word)) = be_bytes 8 (unat b) \<longleftrightarrow> a = b"
proof
  assume "be_bytes 8 (unat a) = be_bytes 8 (unat b)"
  then have "unat a mod 256 ^ 8 = unat b mod 256 ^ 8" by (metis from_be_bytes)
  then show "a = b" using unsigned_less [of a, where ?'a = nat] unsigned_less [of b, where ?'a = nat]
    by (simp add: word_unat_eq_iff)
qed simp

definition enc_str :: "string \<Rightarrow> string" where
  "enc_str s = put_uint32 (word_of_nat (length s)) @ s"

text \<open>A string whose length the 32-bit prefix can hold.\<close>

definition fits :: "string \<Rightarrow> bool" where
  "fits s = (length s < 2 ^ 32)"

lemma enc_str_inj:
  assumes "fits s" "fits t"
  shows "enc_str s @ r = enc_str t @ q \<longleftrightarrow> s = t \<and> r = q"
proof
  assume eq: "enc_str s @ r = enc_str t @ q"
  then have "put_uint32 (word_of_nat (length s)) = put_uint32 (word_of_nat (length t)) \<and> s @ r = t @ q"
    by (simp add: enc_str_def put_uint32_def)
  then have w: "(word_of_nat (length s) :: 32 word) = word_of_nat (length t)" and rest: "s @ r = t @ q"
    by (simp_all add: put_uint32_def)
  from w have "unat (word_of_nat (length s) :: 32 word) = unat (word_of_nat (length t) :: 32 word)" by simp
  then have "length s = length t"
    using assms by (simp add: fits_def unat_of_nat)
  with rest show "s = t \<and> r = q" by simp
qed simp

lemma put_uint64_inj: "put_uint64 a @ r = put_uint64 b @ q \<longleftrightarrow> a = b \<and> r = q"
  by (simp add: put_uint64_def)

definition enc_bool :: "bool \<Rightarrow> string" where
  "enc_bool v = [char_of (if v then 1 else 0 :: nat)]"

lemma enc_bool_inj: "enc_bool a @ r = enc_bool b @ q \<longleftrightarrow> a = b \<and> r = q"
  by (auto simp: enc_bool_def split: if_splits)

lemma append_is_enc:
  "appendString buf s = buf @ enc_str s"
  "appendTime buf t = buf @ enc_str (rfc3339nano t)"
  "appendInt buf v = buf @ put_uint64 v"
  "appendFloat buf v = buf @ put_uint64 v"
  "appendBool buf b = buf @ enc_bool b"
  by (simp_all add: appendString_def appendTime_def appendInt_def appendFloat_def appendBool_def
      enc_str_def enc_bool_def)

lemma CanonicalBytes_enc:
  "CanonicalBytes e =
     enc_str (ev_ID e) @ enc_str (rfc3339nano (ev_Timestamp e)) @ enc_str (ev_AgentID e) @
     put_uint64 (ev_AgentPID e) @ enc_str (ev_ActionType e) @ enc_str (ev_Action e) @
     enc_str (ev_Arguments e) @ enc_str (ev_SessionID e) @ enc_str (ev_ParentSessionID e) @
     enc_str (ev_WorkingDir e) @ enc_str (ev_ParserVersion e) @ enc_str (ev_Outcome e) @
     enc_str (ev_CommandmentsEvaluated e) @ enc_str (ev_CommandmentsTriggered e) @
     enc_str (ev_Provider e) @ enc_str (ev_Model e) @ enc_str (ev_ToolCategory e) @
     enc_str (ev_ToolEffect e) @ enc_str (ev_ToolName e) @ enc_str (ev_TaxonomyVersion e) @
     enc_str (ev_ClassificationSource e) @ put_uint64 (ev_InputTokens e) @
     put_uint64 (ev_OutputTokens e) @ put_uint64 (ev_CostUSD e) @ enc_str (ev_AdapterID e) @
     enc_str (ev_AdapterType e) @ enc_str (ev_RawPayloadRef e) @ enc_str (ev_Hostname e) @
     enc_str (ev_UserID e) @ enc_str (ev_PrevHash e) @ enc_bool (ev_Redacted e)"
  by (simp only: CanonicalBytes_def Let_def append_is_enc append_Nil append_assoc)

text \<open>
  An event within the bounds of the format: every string under 2^32 bytes and the year of
  the timestamp between 0 and 9999, as RFC 3339 requires.
\<close>

definition encodable :: "AuditEvent \<Rightarrow> bool" where
  "encodable e =
     (fits (ev_ID e) \<and> year4 (ev_Timestamp e) \<and> fits (ev_AgentID e) \<and> fits (ev_ActionType e) \<and>
      fits (ev_Action e) \<and> fits (ev_Arguments e) \<and> fits (ev_SessionID e) \<and>
      fits (ev_ParentSessionID e) \<and> fits (ev_WorkingDir e) \<and> fits (ev_ParserVersion e) \<and>
      fits (ev_Outcome e) \<and> fits (ev_CommandmentsEvaluated e) \<and> fits (ev_CommandmentsTriggered e) \<and>
      fits (ev_Provider e) \<and> fits (ev_Model e) \<and> fits (ev_ToolCategory e) \<and> fits (ev_ToolEffect e) \<and>
      fits (ev_ToolName e) \<and> fits (ev_TaxonomyVersion e) \<and> fits (ev_ClassificationSource e) \<and>
      fits (ev_AdapterID e) \<and> fits (ev_AdapterType e) \<and> fits (ev_RawPayloadRef e) \<and>
      fits (ev_Hostname e) \<and> fits (ev_UserID e) \<and> fits (ev_PrevHash e))"

text \<open>
  The two events agree on every hashed field: setting the three fields the serialisation
  leaves out (the hash itself and the transport-only source position) to one event's values
  makes them equal.
\<close>

definition same_hashed_fields :: "AuditEvent \<Rightarrow> AuditEvent \<Rightarrow> bool" where
  "same_hashed_fields a b =
     (a\<lparr>ev_EventHash := ev_EventHash b, ev_SourceFile := ev_SourceFile b, ev_SourceOffset := ev_SourceOffset b\<rparr> = b)"

lemma length_trim_zeros: "length (trim_zeros s) \<le> length s"
  using length_dropWhile_le [of "\<lambda>c. c = CHR ''0''" "rev s"] by (simp add: trim_zeros_def)

lemma fits_rfc3339nano: "year4 t \<Longrightarrow> fits (rfc3339nano t)"
proof -
  assume y: "year4 t"
  have "length (format_frac t) \<le> 10"
    using mod_second_bounds [of t] length_trim_zeros [of "pad 9 (t mod second)"]
    by (simp add: format_frac_def Let_def length_pad)
  then show ?thesis
    using length_format_date [OF y] length_format_clock [of t] by (simp add: fits_def rfc3339nano_def)
qed

lemma CanonicalBytes_prefix_free:
  assumes "encodable a" "encodable b" "CanonicalBytes a @ r = CanonicalBytes b @ q"
  shows "same_hashed_fields a b \<and> r = q"
proof -
  have "fits (rfc3339nano (ev_Timestamp a))" "fits (rfc3339nano (ev_Timestamp b))"
    using assms(1,2) by (simp_all add: encodable_def fits_rfc3339nano)
  moreover have "rfc3339nano (ev_Timestamp a) = rfc3339nano (ev_Timestamp b) \<longleftrightarrow> ev_Timestamp a = ev_Timestamp b"
    using assms(1,2) rfc3339nano_inj by (auto simp: encodable_def)
  ultimately show ?thesis
    using assms
    by (simp add: CanonicalBytes_enc append_assoc enc_str_inj put_uint64_inj enc_bool_inj
        encodable_def same_hashed_fields_def)
qed

lemma of_char_hex_digit: "k < 16 \<Longrightarrow> of_char (hex_digit k) = (if k < 10 then 48 + k else 87 + k)"
  by (simp add: hex_digit_def)

lemma hex_digit_inj: "m < 16 \<Longrightarrow> n < 16 \<Longrightarrow> hex_digit m = hex_digit n \<longleftrightarrow> m = n"
proof
  assume mn: "m < 16" "n < 16" and "hex_digit m = hex_digit n"
  then have "(if m < 10 then 48 + m else 87 + m) = (if n < 10 then 48 + n else 87 + n)"
    by (simp only: of_char_hex_digit [symmetric])
  with mn show "m = n" by (simp split: if_splits)
qed simp

lemma hex_inj: "hex a = hex b \<Longrightarrow> a = b"
proof (induction a arbitrary: b)
  case Nil
  then show ?case by (cases b) (auto simp: hex_def)
next
  case (Cons c a)
  then obtain d b' where b: "b = d # b'" by (cases b) (auto simp: hex_def)
  from Cons.prems have "hex a = hex b'"
    and dig: "hex_digit (of_char c div 16) = hex_digit (of_char d div 16)"
      "hex_digit (of_char c mod 16) = hex_digit (of_char d mod 16)"
    by (simp_all add: hex_def b)
  moreover have "of_char c < (256::nat)" "of_char d < (256::nat)" using nat_of_char_less_256 by blast+
  then have "(of_char c :: nat) div 16 < 16" "(of_char d :: nat) div 16 < 16"
    by (simp_all only: div_less_iff_less_mult)
  with dig have "(of_char c :: nat) div 16 = of_char d div 16 \<and> (of_char c :: nat) mod 16 = of_char d mod 16"
    by (simp add: hex_digit_inj)
  then have "(of_char c :: nat) = of_char d" by (metis div_mult_mod_eq)
  ultimately show ?case using Cons.IH b by simp
qed

section \<open>The hash binds the event\<close>

text \<open>C34: A chain hash binds the event and its predecessor: when two encodable events, each hashed
  with a previous hash, get the same \<open>ComputeHash\<close>, then they agree on every hashed field and
  on the previous hash, or the inputs exhibit a collision of the digest.\<close>

theorem ComputeHash_binding:
  assumes "encodable a" "encodable b" "ComputeHash sum256 a p = ComputeHash sum256 b q"
  shows "(same_hashed_fields a b \<and> p = q) \<or>
    (CanonicalBytes a @ p \<noteq> CanonicalBytes b @ q \<and> sum256 (CanonicalBytes a @ p) = sum256 (CanonicalBytes b @ q))"
proof (cases "CanonicalBytes a @ p = CanonicalBytes b @ q")
  case True
  with assms(1,2) show ?thesis by (blast dest: CanonicalBytes_prefix_free)
next
  case False
  moreover have "sum256 (CanonicalBytes a @ p) = sum256 (CanonicalBytes b @ q)"
    using assms(3) by (auto simp: ComputeHash_def dest: hex_inj)
  ultimately show ?thesis by blast
qed

lemma encodable_zero_event: "encodable zero_event"
  by (simp add: encodable_def zero_event_def fits_def year4_def civil_def days_of_def year_of_def
      days_before_year_def zero_time_def day_ns_def second_def Let_def)

theorem ComputeHash_binding_witness:
  "let e = zero_event; f = e\<lparr>ev_EventHash := ''aa''\<rparr>
   in (same_hashed_fields e f \<and> ''genesis'' = ''genesis'') \<or>
     (CanonicalBytes e @ ''genesis'' \<noteq> CanonicalBytes f @ ''genesis'' \<and>
      rev (CanonicalBytes e @ ''genesis'') = rev (CanonicalBytes f @ ''genesis''))"
proof -
  let ?f = "zero_event\<lparr>ev_EventHash := ''aa''\<rparr>"
  have "encodable ?f" using encodable_zero_event by (simp add: encodable_def)
  moreover have "CanonicalBytes zero_event = CanonicalBytes ?f" by (simp add: CanonicalBytes_def)
  ultimately show ?thesis
    using ComputeHash_binding [OF encodable_zero_event, of ?f rev "''genesis''" "''genesis''"]
    by (simp add: ComputeHash_def Let_def)
qed

end
