(* ===== verification/Event_Store.thy ===== *)
theory Event_Store
  imports Audit_Event
begin

text \<open>
  The interface \<open>EventStore\<close> of \<open>internal/audit/logger.go\<close>, between the audit logger, which
  calls it, and the database, which provides it. The interface value is a record of its
  methods over a state; its contract is the locale \<open>event_store\<close>: \<open>rows s\<close> are what a store
  holds, in the order it came, \<open>row_for e\<close> is what it makes of an event and \<open>key\<close> what it
  identifies a row by.
\<close>

record 's EventStore =
  es_InsertEvents :: "'s \<Rightarrow> AuditEvent list \<Rightarrow> error option \<times> 's"
  es_GetLastEventHash :: "'s \<Rightarrow> (error + string) \<times> 's"
  es_InsertChainAnchor :: "'s \<Rightarrow> string \<Rightarrow> string \<Rightarrow> string \<Rightarrow> error option \<times> 's"

text \<open>A row whose key is taken is not stored again.\<close>

definition save :: "('r \<Rightarrow> string) \<Rightarrow> 'r list \<Rightarrow> 'r \<Rightarrow> 'r list" where
  "save key rs r = (if key r \<in> key ` set rs then rs else rs @ [r])"

lemma save_fresh: "distinct (map key (rs @ xs)) \<Longrightarrow> foldl (save key) rs xs = rs @ xs"
proof (induction xs arbitrary: rs)
  case (Cons x xs)
  then have "key x \<notin> key ` set rs" by auto
  with Cons.IH [of "rs @ [x]"] Cons.prems show ?case by (simp add: save_def)
qed simp

locale event_store =
  fixes api :: "'s EventStore" and rows :: "'s \<Rightarrow> 'r list" and row_for :: "AuditEvent \<Rightarrow> 'r"
    and key :: "'r \<Rightarrow> string" and reliable :: "'s \<Rightarrow> bool"
  assumes insert_ok: "es_InsertEvents api s es = (None, s') \<Longrightarrow> rows s' = foldl (save key) (rows s) (map row_for es)"
    and insert_err: "es_InsertEvents api s es = (Some err, s') \<Longrightarrow> rows s' = rows s"
    and anchor_rows: "rows (snd (es_InsertChainAnchor api s epoch i h)) = rows s"
    and reliable_insert: "reliable s \<Longrightarrow> \<exists>s'. es_InsertEvents api s es = (None, s') \<and> reliable s'"
    and reliable_anchor: "reliable s \<Longrightarrow> reliable (snd (es_InsertChainAnchor api s epoch i h))"
    and read_hash: "es_GetLastEventHash api s = (r, s') \<Longrightarrow> rows s' = rows s \<and> (reliable s \<longrightarrow> reliable s')"
begin

lemma insert_rows_cases:
  "es_InsertEvents api s es = (r, s') \<Longrightarrow>
     rows s' = (if r = None then foldl (save key) (rows s) (map row_for es) else rows s)"
  using insert_ok insert_err by (cases r) auto

text \<open>A batch of new rows is appended when it is stored, and nothing is when it is not.\<close>

lemma insert_fresh:
  assumes "es_InsertEvents api s es = (r, s')" "distinct (map key (rows s @ map row_for es))"
  shows "rows s' = rows s @ (if r = None then map row_for es else [])"
  using insert_rows_cases [OF assms(1)] save_fresh [OF assms(2)] by simp

end

section \<open>Chains\<close>

text \<open>Each event names the hash before it; \<open>end_hash\<close> is the hash the next one has to name.\<close>

fun chain :: "string \<Rightarrow> AuditEvent list \<Rightarrow> bool" where
  "chain p [] = True"
| "chain p (e # es) = (ev_PrevHash e = p \<and> chain (ev_EventHash e) es)"

fun end_hash :: "string \<Rightarrow> AuditEvent list \<Rightarrow> string" where
  "end_hash p [] = p"
| "end_hash p (e # es) = end_hash (ev_EventHash e) es"

lemma end_hash_append [simp]: "end_hash p (xs @ ys) = end_hash (end_hash p xs) ys"
  by (induction xs arbitrary: p) auto

lemma chain_append [simp]: "chain p (xs @ ys) \<longleftrightarrow> chain p xs \<and> chain (end_hash p xs) ys"
  by (induction xs arbitrary: p) auto

end
