(* ===== verification/Event_Queue.thy ===== *)
theory Event_Queue
  imports Go_Time "HOL-Library.Word" "HOL-Library.Multiset"
begin

text \<open>
  \<open>internal/queue/queue.go\<close>: the bounded queue between the adapters and the audit logger.
  A buffered channel is a list with a capacity (the configuration rejects a capacity of 0,
  so sends never need a rendezvous). The operations on the channels are definitions of
  their own: each is one atomic step of the Go program. \<open>Send\<close> composes them for a caller
  that runs alone; the relation \<open>qstep\<close> interleaves any number of senders, a receiver and
  a closer at the granularity of those channel operations (the counter updates that follow
  an operation are one step with it). The theory proves the bounds, the accounting of lost
  events and the FIFO order for every interleaving, and that a send racing with \<open>Close\<close>
  can panic.
\<close>

section \<open>State\<close>

type_synonym OverflowPolicy = string

definition PolicyBlockWithTimeout :: OverflowPolicy where
  "PolicyBlockWithTimeout = ''block_with_timeout''"
definition PolicyDropOldest :: OverflowPolicy where "PolicyDropOldest = ''drop_oldest''"

record Stats =
  st_Depth :: nat
  st_Capacity :: nat
  st_Dropped :: "64 word"
  st_Overflow :: "64 word"

record OverflowEvent =
  oe_ID :: string
  oe_Timestamp :: time

text \<open>\<open>q_closed\<close> is the atomic flag, \<open>q_shut\<close> says that the channels themselves are closed.\<close>

record 'a Queue =
  q_ch :: "'a list"
  q_capacity :: nat
  q_controlC :: "OverflowEvent list"
  q_policy :: OverflowPolicy
  q_timeout :: duration
  q_dropped :: "64 word"
  q_overflow :: "64 word"
  q_closed :: bool
  q_shut :: bool

definition control_capacity :: nat where "control_capacity = 100"

definition New :: "nat \<Rightarrow> OverflowPolicy \<Rightarrow> duration \<Rightarrow> 'a Queue" where
  "New capacity policy blockTimeout =
     \<lparr>q_ch = [], q_capacity = capacity, q_controlC = [], q_policy = policy, q_timeout = blockTimeout,
      q_dropped = 0, q_overflow = 0, q_closed = False, q_shut = False\<rparr>"

section \<open>Channel operations\<close>

text \<open>\<open>select { case q.ch <- event: ... default: ... }\<close>: whether the send went through.\<close>

definition try_send :: "'a Queue \<Rightarrow> 'a \<Rightarrow> bool \<times> 'a Queue" where
  "try_send q event =
     (if length (q_ch q) < q_capacity q then (True, q\<lparr>q_ch := q_ch q @ [event]\<rparr>) else (False, q))"

text \<open>
  \<open>select { case <-q.ch: q.dropped.Add(1) default: }\<close> under \<open>q.mu\<close>. A receive from a closed,
  empty channel is ready too, and is counted.
\<close>

definition drop_oldest :: "'a Queue \<Rightarrow> 'a Queue" where
  "drop_oldest q =
     (case q_ch q of
        [] \<Rightarrow> (if q_shut q then q\<lparr>q_dropped := q_dropped q + 1\<rparr> else q)
      | _ # es \<Rightarrow> q\<lparr>q_ch := es, q_dropped := q_dropped q + 1\<rparr>)"

text \<open>The two readings of the clock are the arguments.\<close>

definition emitOverflow :: "time \<Rightarrow> time \<Rightarrow> 'a Queue \<Rightarrow> 'a Queue" where
  "emitOverflow now now' q =
     (let evt = \<lparr>oe_ID = ''overflow_'' @ format_compact_ms now, oe_Timestamp = now'\<rparr>
      in if length (q_controlC q) < control_capacity then q\<lparr>q_controlC := q_controlC q @ [evt]\<rparr> else q)"

definition count_dropped :: "'a Queue \<Rightarrow> 'a Queue" where
  "count_dropped q = q\<lparr>q_dropped := q_dropped q + 1\<rparr>"

definition count_overflow :: "'a Queue \<Rightarrow> 'a Queue" where
  "count_overflow q = q\<lparr>q_overflow := q_overflow q + 1\<rparr>"

section \<open>Send\<close>

text \<open>
  What happens while \<open>sendBlockTimeout\<close> waits: the consumer takes some events and the send
  goes through, or the timer fires first.
\<close>

datatype wait = Room nat | TimedOut

definition sendBlockTimeout :: "wait \<Rightarrow> time \<Rightarrow> time \<Rightarrow> 'a Queue \<Rightarrow> 'a \<Rightarrow> bool \<times> 'a Queue" where
  "sendBlockTimeout w now now' q event =
     (case try_send q event of
        (True, q1) \<Rightarrow> (True, q1)
      | (False, q1) \<Rightarrow>
         (case w of
            Room k \<Rightarrow>
              (case try_send (q1\<lparr>q_ch := drop k (q_ch q1)\<rparr>) event of
                 (True, q2) \<Rightarrow> (True, q2)
               | (False, q2) \<Rightarrow> (False, emitOverflow now now' (count_overflow (count_dropped q2))))
          | TimedOut \<Rightarrow> (False, emitOverflow now now' (count_overflow (count_dropped q1)))))"

definition sendDropOldest :: "time \<Rightarrow> time \<Rightarrow> 'a Queue \<Rightarrow> 'a \<Rightarrow> bool \<times> 'a Queue" where
  "sendDropOldest now now' q event =
     (case try_send q event of
        (True, q1) \<Rightarrow> (True, q1)
      | (False, q1) \<Rightarrow>
         (case try_send (drop_oldest q1) event of
            (True, q2) \<Rightarrow> (True, emitOverflow now now' (count_overflow q2))
          | (False, q2) \<Rightarrow> (False, emitOverflow now now' (count_overflow (count_dropped q2)))))"

definition Send :: "wait \<Rightarrow> time \<Rightarrow> time \<Rightarrow> 'a Queue \<Rightarrow> 'a \<Rightarrow> bool \<times> 'a Queue" where
  "Send w now now' q event =
     (if q_closed q then (False, q)
      else if q_policy q = PolicyDropOldest then sendDropOldest now now' q event
      else sendBlockTimeout w now now' q event)"

section \<open>Receiving, closing, statistics\<close>

text \<open>
  A receive from the main channel: an event, \<open>Some None\<close> when the channel is closed and
  empty (Go's \<open>ok = false\<close>), \<open>None\<close> when the receive would block.
\<close>

definition try_recv :: "'a Queue \<Rightarrow> 'a option option \<times> 'a Queue" where
  "try_recv q =
     (case q_ch q of
        [] \<Rightarrow> (if q_shut q then Some None else None, q)
      | e # es \<Rightarrow> (Some (Some e), q\<lparr>q_ch := es\<rparr>))"

definition try_recv_control :: "'a Queue \<Rightarrow> OverflowEvent option option \<times> 'a Queue" where
  "try_recv_control q =
     (case q_controlC q of
        [] \<Rightarrow> (if q_shut q then Some None else None, q)
      | e # es \<Rightarrow> (Some (Some e), q\<lparr>q_controlC := es\<rparr>))"

definition Stats_of :: "'a Queue \<Rightarrow> Stats" where
  "Stats_of q = \<lparr>st_Depth = length (q_ch q), st_Capacity = q_capacity q,
     st_Dropped = q_dropped q, st_Overflow = q_overflow q\<rparr>"

definition Close :: "'a Queue \<Rightarrow> 'a Queue" where
  "Close q = (if q_closed q then q else q\<lparr>q_closed := True, q_shut := True\<rparr>)"

text \<open>
  \<open>Drain\<close> ranges over the channel until it is empty and closed; on an open channel the
  range blocks, so there is no result.
\<close>

definition Drain :: "'a Queue \<Rightarrow> ('a list \<times> 'a Queue) option" where
  "Drain q = (if q_shut q then Some (q_ch q, q\<lparr>q_ch := []\<rparr>) else None)"

lemmas queue_defs =
  try_send_def drop_oldest_def emitOverflow_def count_dropped_def count_overflow_def
  try_recv_def try_recv_control_def Close_def Drain_def Let_def

section \<open>Every operation keeps the bounds\<close>

definition queue_ok :: "'a Queue \<Rightarrow> bool" where
  "queue_ok q = (length (q_ch q) \<le> q_capacity q \<and> length (q_controlC q) \<le> control_capacity \<and>
     (q_shut q \<longrightarrow> q_closed q))"

lemma queue_ok_New [inv_rule]: "queue_ok (New c p t)"
  by (simp add: queue_ok_def New_def)

lemma queue_ok_ops [inv_rule]:
  "queue_ok q \<Longrightarrow> queue_ok (snd (try_send q e))"
  "queue_ok q \<Longrightarrow> queue_ok (drop_oldest q)"
  "queue_ok q \<Longrightarrow> queue_ok (emitOverflow n n' q)"
  "queue_ok q \<Longrightarrow> queue_ok (count_dropped q)"
  "queue_ok q \<Longrightarrow> queue_ok (count_overflow q)"
  "queue_ok q \<Longrightarrow> queue_ok (snd (try_recv q))"
  "queue_ok q \<Longrightarrow> queue_ok (snd (try_recv_control q))"
  "queue_ok q \<Longrightarrow> queue_ok (Close q)"
  "queue_ok q \<Longrightarrow> queue_ok (q\<lparr>q_ch := drop k (q_ch q)\<rparr>)"
  by (auto simp: queue_ok_def queue_defs split: list.splits)

lemma queue_ok_Send [inv_rule]:
  assumes "queue_ok q"
  shows "queue_ok (snd (Send w now now' q e))"
proof -
  have ts: "try_send r x = (b, r') \<Longrightarrow> queue_ok r \<Longrightarrow> queue_ok r'" for b and r r' :: "'a Queue" and x
    using queue_ok_ops(1) [of r x] by auto
  show ?thesis
    using assms
    by (auto simp: Send_def sendDropOldest_def sendBlockTimeout_def split: prod.splits bool.splits wait.splits
        intro!: queue_ok_ops dest: ts)
qed

lemma drop_oldest_makes_room:
  "q_ch q \<noteq> [] \<Longrightarrow> queue_ok q \<Longrightarrow> length (q_ch (drop_oldest q)) < q_capacity (drop_oldest q)"
  by (cases "q_ch q") (auto simp: queue_ok_def drop_oldest_def)

section \<open>Senders, a receiver and a closer, interleaved\<close>

text \<open>
  Where a goroutine inside \<open>Send\<close> stands: past the closed check, waiting with its timer
  armed, about to evict, about to retry.
\<close>

datatype 'a pc = Idle | Sending 'a | Blocked 'a | Evicting 'a | Retry 'a

text \<open>
  The queue, the goroutines, and the history: the events that entered the channel, those
  that left it (in order), what became of them, the events given up, the number of forced
  entries and of empty receives from the closed channel, and whether a goroutine panicked.
\<close>

record 'a qsys =
  s_q :: "'a Queue"
  s_pc :: "nat \<Rightarrow> 'a pc"
  s_accepted :: "'a list"
  s_consumed :: "'a list"
  s_received :: "'a list"
  s_evicted :: "'a list"
  s_rejected :: "'a list"
  s_forced :: nat
  s_phantom :: nat
  s_panicked :: bool

definition qsys_init :: "nat \<Rightarrow> OverflowPolicy \<Rightarrow> duration \<Rightarrow> 'a qsys" where
  "qsys_init c p t = \<lparr>s_q = New c p t, s_pc = (\<lambda>_. Idle), s_accepted = [], s_consumed = [],
     s_received = [], s_evicted = [], s_rejected = [], s_forced = 0, s_phantom = 0, s_panicked = False\<rparr>"

definition room :: "'a Queue \<Rightarrow> bool" where
  "room q = (length (q_ch q) < q_capacity q)"

definition at :: "'a qsys \<Rightarrow> nat \<Rightarrow> 'a pc \<Rightarrow> 'a qsys" where
  "at s i p = s\<lparr>s_pc := (s_pc s)(i := p)\<rparr>"

inductive qstep :: "'a qsys \<Rightarrow> 'a qsys \<Rightarrow> bool" where
  call: "\<lbrakk>\<not> s_panicked s; s_pc s i = Idle; \<not> q_closed (s_q s)\<rbrakk> \<Longrightarrow> qstep s (at s i (Sending e))"
| first_send: "\<lbrakk>\<not> s_panicked s; s_pc s i = Sending e; \<not> q_shut (s_q s); room (s_q s)\<rbrakk> \<Longrightarrow>
    qstep s ((at s i Idle)\<lparr>s_q := snd (try_send (s_q s) e), s_accepted := s_accepted s @ [e]\<rparr>)"
| full_block: "\<lbrakk>\<not> s_panicked s; s_pc s i = Sending e; \<not> q_shut (s_q s); \<not> room (s_q s);
    q_policy (s_q s) \<noteq> PolicyDropOldest\<rbrakk> \<Longrightarrow> qstep s (at s i (Blocked e))"
| full_drop: "\<lbrakk>\<not> s_panicked s; s_pc s i = Sending e; \<not> q_shut (s_q s); \<not> room (s_q s);
    q_policy (s_q s) = PolicyDropOldest\<rbrakk> \<Longrightarrow> qstep s (at s i (Evicting e))"
| unblock: "\<lbrakk>\<not> s_panicked s; s_pc s i = Blocked e; \<not> q_shut (s_q s); room (s_q s)\<rbrakk> \<Longrightarrow>
    qstep s ((at s i Idle)\<lparr>s_q := snd (try_send (s_q s) e), s_accepted := s_accepted s @ [e]\<rparr>)"
| timeout: "\<lbrakk>\<not> s_panicked s; s_pc s i = Blocked e; \<not> q_shut (s_q s)\<rbrakk> \<Longrightarrow>
    qstep s ((at s i Idle)\<lparr>s_q := emitOverflow n n' (count_overflow (count_dropped (s_q s))),
      s_rejected := s_rejected s @ [e]\<rparr>)"
| evict: "\<lbrakk>\<not> s_panicked s; s_pc s i = Evicting e; q_ch (s_q s) = x # xs\<rbrakk> \<Longrightarrow>
    qstep s ((at s i (Retry e))\<lparr>s_q := drop_oldest (s_q s), s_consumed := s_consumed s @ [x],
      s_evicted := s_evicted s @ [x]\<rparr>)"
| evict_none: "\<lbrakk>\<not> s_panicked s; s_pc s i = Evicting e; q_ch (s_q s) = []\<rbrakk> \<Longrightarrow>
    qstep s ((at s i (Retry e))\<lparr>s_q := drop_oldest (s_q s),
      s_phantom := s_phantom s + (if q_shut (s_q s) then 1 else 0)\<rparr>)"
| retry_send: "\<lbrakk>\<not> s_panicked s; s_pc s i = Retry e; \<not> q_shut (s_q s); room (s_q s)\<rbrakk> \<Longrightarrow>
    qstep s ((at s i Idle)\<lparr>s_q := emitOverflow n n' (count_overflow (snd (try_send (s_q s) e))),
      s_accepted := s_accepted s @ [e], s_forced := s_forced s + 1\<rparr>)"
| retry_full: "\<lbrakk>\<not> s_panicked s; s_pc s i = Retry e; \<not> q_shut (s_q s); \<not> room (s_q s)\<rbrakk> \<Longrightarrow>
    qstep s ((at s i Idle)\<lparr>s_q := emitOverflow n n' (count_overflow (count_dropped (s_q s))),
      s_rejected := s_rejected s @ [e]\<rparr>)"
| receive: "\<lbrakk>\<not> s_panicked s; try_recv (s_q s) = (Some (Some x), q')\<rbrakk> \<Longrightarrow>
    qstep s (s\<lparr>s_q := q', s_consumed := s_consumed s @ [x], s_received := s_received s @ [x]\<rparr>)"
| receive_control: "\<lbrakk>\<not> s_panicked s; try_recv_control (s_q s) = (Some (Some oe), q')\<rbrakk> \<Longrightarrow>
    qstep s (s\<lparr>s_q := q'\<rparr>)"
| close: "\<not> s_panicked s \<Longrightarrow> qstep s (s\<lparr>s_q := Close (s_q s)\<rparr>)"
| panic: "\<lbrakk>\<not> s_panicked s; s_pc s i \<in> {Sending e, Blocked e, Retry e}; q_shut (s_q s)\<rbrakk> \<Longrightarrow>
    qstep s (s\<lparr>s_panicked := True\<rparr>)"

inductive qreach :: "'a qsys \<Rightarrow> 'a qsys \<Rightarrow> bool" where
  start: "qreach s s"
| step: "qreach s t \<Longrightarrow> qstep t u \<Longrightarrow> qreach s u"

definition qsys_inv :: "'a qsys \<Rightarrow> bool" where
  "qsys_inv s =
     (queue_ok (s_q s) \<and> s_consumed s @ q_ch (s_q s) = s_accepted s \<and>
      mset (s_consumed s) = mset (s_received s) + mset (s_evicted s) \<and>
      q_dropped (s_q s) = of_nat (length (s_evicted s) + length (s_rejected s) + s_phantom s) \<and>
      q_overflow (s_q s) = of_nat (length (s_rejected s) + s_forced s) \<and>
      (s_phantom s \<noteq> 0 \<longrightarrow> q_shut (s_q s)))"

lemma queue_fields [simp]:
  "q_ch (emitOverflow n n' q) = q_ch q" "q_dropped (emitOverflow n n' q) = q_dropped q"
  "q_overflow (emitOverflow n n' q) = q_overflow q" "q_shut (emitOverflow n n' q) = q_shut q"
  "q_policy (emitOverflow n n' q) = q_policy q" "q_capacity (emitOverflow n n' q) = q_capacity q"
  "q_ch (count_dropped q) = q_ch q" "q_dropped (count_dropped q) = q_dropped q + 1"
  "q_overflow (count_dropped q) = q_overflow q" "q_shut (count_dropped q) = q_shut q"
  "q_policy (count_dropped q) = q_policy q"
  "q_ch (count_overflow q) = q_ch q" "q_dropped (count_overflow q) = q_dropped q"
  "q_overflow (count_overflow q) = q_overflow q + 1" "q_shut (count_overflow q) = q_shut q"
  "q_policy (count_overflow q) = q_policy q"
  "q_ch (Close q) = q_ch q" "q_dropped (Close q) = q_dropped q" "q_overflow (Close q) = q_overflow q"
  "q_policy (Close q) = q_policy q" "q_shut (Close q) = (q_shut q \<or> \<not> q_closed q)"
  by (auto simp: emitOverflow_def count_dropped_def count_overflow_def Close_def Let_def)

lemma try_send_room [simp]: "room q \<Longrightarrow> try_send q e = (True, q\<lparr>q_ch := q_ch q @ [e]\<rparr>)"
  by (simp add: try_send_def room_def)

lemma at_simps [simp]:
  "s_q (at s i p) = s_q s" "s_accepted (at s i p) = s_accepted s" "s_consumed (at s i p) = s_consumed s"
  "s_received (at s i p) = s_received s" "s_evicted (at s i p) = s_evicted s"
  "s_rejected (at s i p) = s_rejected s" "s_forced (at s i p) = s_forced s"
  "s_phantom (at s i p) = s_phantom s" "s_panicked (at s i p) = s_panicked s"
  "s_pc (at s i p) = (s_pc s)(i := p)"
  by (simp_all add: at_def)

lemma qsys_inv_init: "qsys_inv (qsys_init c p t)"
  by (simp add: qsys_inv_def qsys_init_def New_def queue_ok_def)

lemma qstep_inv [inv_rule]: "qstep s t \<Longrightarrow> qsys_inv s \<Longrightarrow> qsys_inv t"
proof (induction rule: qstep.induct)
  case (first_send s i e)
  then show ?case using queue_ok_ops(1) [of "s_q s" e] by (auto simp: qsys_inv_def)
next
  case (unblock s i e)
  then show ?case using queue_ok_ops(1) [of "s_q s" e] by (auto simp: qsys_inv_def)
next
  case (retry_send s i e n n')
  then show ?case
    using queue_ok_ops(1) [of "s_q s" e] queue_ok_ops(3,5) by (auto simp: qsys_inv_def)
next
  case (evict s i e x xs)
  then show ?case using queue_ok_ops(2) [of "s_q s"] by (auto simp: qsys_inv_def drop_oldest_def)
next
  case (evict_none s i e)
  then show ?case using queue_ok_ops(2) [of "s_q s"] by (auto simp: qsys_inv_def drop_oldest_def)
next
  case (receive s x q')
  then show ?case
    using queue_ok_ops(6) [of "s_q s"]
    by (auto simp: qsys_inv_def try_recv_def split: list.splits if_splits)
next
  case (receive_control s oe q')
  then show ?case
    using queue_ok_ops(7) [of "s_q s"]
    by (auto simp: qsys_inv_def try_recv_control_def split: list.splits if_splits)
qed (auto simp: qsys_inv_def queue_ok_ops)

lemma qreach_inv: "qreach s t \<Longrightarrow> qsys_inv s \<Longrightarrow> qsys_inv t"
  by (induction rule: qreach.induct) (auto intro: qstep_inv)

lemma qstep_policy: "qstep s t \<Longrightarrow> q_policy (s_q t) = q_policy (s_q s)"
  by (induction rule: qstep.induct)
    (auto simp: drop_oldest_def try_recv_def try_recv_control_def split: list.splits if_splits)

text \<open>With any policy but \<open>drop_oldest\<close> no goroutine ever evicts.\<close>

definition no_evict :: "'a qsys \<Rightarrow> bool" where
  "no_evict s = (q_policy (s_q s) \<noteq> PolicyDropOldest \<and> s_evicted s = [] \<and> s_consumed s = s_received s \<and>
     s_forced s = 0 \<and> s_phantom s = 0 \<and> (\<forall>i e. s_pc s i \<noteq> Evicting e \<and> s_pc s i \<noteq> Retry e))"

lemma qstep_no_evict [inv_rule]: "qstep s t \<Longrightarrow> no_evict s \<Longrightarrow> no_evict t"
  by (frule qstep_policy, induction rule: qstep.induct) (auto simp: no_evict_def)

lemma qreach_no_evict: "qreach s t \<Longrightarrow> no_evict s \<Longrightarrow> no_evict t"
  by (induction rule: qreach.induct) (auto intro: qstep_no_evict)

lemma qstep_capacity: "qstep s t \<Longrightarrow> q_capacity (s_q t) = q_capacity (s_q s)"
  by (induction rule: qstep.induct)
    (auto simp: queue_defs room_def split: list.splits if_splits)

lemma qreach_capacity: "qreach s t \<Longrightarrow> q_capacity (s_q t) = q_capacity (s_q s)"
  by (induction rule: qreach.induct) (auto simp: qstep_capacity)

section \<open>Properties\<close>

text \<open>C25: In every interleaving of senders, receiver and closer the channel holds at most its capacity,
  everything that entered it left it in order or is still in it, what left it was received or
  evicted, and while the queue is open the dropped counter is (modulo 2^64) the number of
  evicted and refused events: no event disappears uncounted.\<close>

theorem queue_accounting:
  assumes "qreach (qsys_init c p t) s"
  shows "length (q_ch (s_q s)) \<le> c \<and> s_accepted s = s_consumed s @ q_ch (s_q s) \<and>
    mset (s_accepted s) = mset (s_received s) + mset (s_evicted s) + mset (q_ch (s_q s)) \<and>
    (q_shut (s_q s) \<or> q_dropped (s_q s) = of_nat (length (s_evicted s) + length (s_rejected s)))"
proof -
  have inv: "qsys_inv s" by (rule qreach_inv [OF assms qsys_inv_init])
  moreover have "q_capacity (s_q s) = c"
    using qreach_capacity [OF assms] by (simp add: qsys_init_def New_def)
  moreover have "s_accepted s = s_consumed s @ q_ch (s_q s)" using inv by (simp add: qsys_inv_def)
  ultimately show ?thesis by (auto simp: qsys_inv_def queue_ok_def)
qed

lemma queue_run_example:
  "qreach (qsys_init 1 p t)
     ((at (at (qsys_init 1 p t) 0 (Sending e)) 0 Idle)
        \<lparr>s_q := snd (try_send (New 1 p t) e), s_accepted := [e]\<rparr>)"
proof -
  let ?s = "qsys_init 1 p t" let ?a = "at ?s 0 (Sending e)"
  have "qstep ?s ?a" by (rule qstep.call) (simp_all add: qsys_init_def New_def)
  with qreach.start have r: "qreach ?s ?a" by (rule qreach.step)
  have "qstep ?a ((at ?a 0 Idle)\<lparr>s_q := snd (try_send (s_q ?a) e), s_accepted := s_accepted ?a @ [e]\<rparr>)"
    by (rule qstep.first_send) (simp_all add: qsys_init_def New_def room_def)
  with r show ?thesis by (auto simp: qsys_init_def intro: qreach.step)
qed

theorem queue_accounting_witness:
  "\<exists>s :: nat qsys. qreach (qsys_init 1 PolicyDropOldest 0) s \<and> q_ch (s_q s) = [7] \<and>
    length (q_ch (s_q s)) \<le> 1 \<and> s_accepted s = s_consumed s @ q_ch (s_q s)"
  using queue_run_example [of PolicyDropOldest 0 "7 :: nat"]
    queue_accounting [OF queue_run_example [of PolicyDropOldest 0 "7 :: nat"]]
  by (intro exI conjI) (assumption, simp_all add: try_send_def New_def qsys_init_def)

text \<open>C29: With the blocking policy the queue is a FIFO that loses nothing it accepted: in every
  interleaving the events received so far, followed by the events in the channel, are exactly
  the accepted events in the order they were accepted.\<close>

theorem queue_block_fifo:
  assumes "qreach (qsys_init c p t) s" "p \<noteq> PolicyDropOldest"
  shows "s_received s @ q_ch (s_q s) = s_accepted s \<and> s_evicted s = []"
proof -
  have "qsys_inv s" by (rule qreach_inv [OF assms(1) qsys_inv_init])
  moreover have "no_evict (qsys_init c p t)"
    using assms(2) by (simp add: no_evict_def qsys_init_def New_def)
  then have "no_evict s" by (rule qreach_no_evict [OF assms(1)])
  ultimately show ?thesis by (simp add: qsys_inv_def no_evict_def)
qed

theorem queue_block_fifo_witness:
  "\<exists>s :: nat qsys. qreach (qsys_init 1 PolicyBlockWithTimeout 0) s \<and> s_accepted s = [7] \<and>
    s_received s @ q_ch (s_q s) = s_accepted s \<and> s_evicted s = []"
proof -
  have p: "PolicyBlockWithTimeout \<noteq> PolicyDropOldest"
    by (simp add: PolicyBlockWithTimeout_def PolicyDropOldest_def)
  show ?thesis
    using queue_run_example [of PolicyBlockWithTimeout 0 "7 :: nat"]
      queue_block_fifo [OF queue_run_example [of PolicyBlockWithTimeout 0 "7 :: nat"] p]
    by (intro exI conjI) (assumption, simp_all)
qed

text \<open>Under \<open>drop_oldest\<close>, a send on a full open queue always goes through: the oldest event
  leaves, the new one enters at the end, and both counters go up by one.\<close>

theorem sendDropOldest_full:
  assumes "q_policy q = PolicyDropOldest" "\<not> q_closed q" "q_ch q = x # xs"
    "length (q_ch q) = q_capacity q"
  shows "fst (Send w now now' q e) \<and> q_ch (snd (Send w now now' q e)) = xs @ [e] \<and>
    q_dropped (snd (Send w now now' q e)) = q_dropped q + 1 \<and>
    q_overflow (snd (Send w now now' q e)) = q_overflow q + 1"
  using assms by (simp add: Send_def sendDropOldest_def try_send_def drop_oldest_def)

theorem sendDropOldest_full_witness:
  "let q = (New 2 PolicyDropOldest 0)\<lparr>q_ch := [1, 2 :: nat]\<rparr>; r = Send TimedOut 0 0 q 3
   in fst r \<and> q_ch (snd r) = [2, 3] \<and> q_dropped (snd r) = 1 \<and> q_overflow (snd r) = 1"
  using sendDropOldest_full [of "(New 2 PolicyDropOldest 0)\<lparr>q_ch := [1, 2 :: nat]\<rparr>" 1 "[2]" TimedOut 0 0 3]
  by (simp add: New_def Let_def)

text \<open>C39: A send that has passed the closed check races with \<open>Close\<close>: from the initial state of
  any queue of capacity one, whatever the policy, a state is reachable in which a sender has
  panicked by sending on the closed channel.\<close>

theorem send_close_panic:
  "\<exists>s :: nat qsys. qreach (qsys_init 1 p t) s \<and> s_panicked s"
proof -
  let ?s = "qsys_init 1 p t :: nat qsys" let ?a = "at ?s 0 (Sending 7)"
  let ?b = "?a\<lparr>s_q := Close (s_q ?a)\<rparr>"
  have "qstep ?s ?a" by (rule qstep.call) (simp_all add: qsys_init_def New_def)
  moreover have "qstep ?a ?b" by (rule qstep.close) (simp add: qsys_init_def)
  moreover have "qstep ?b (?b\<lparr>s_panicked := True\<rparr>)"
    by (rule qstep.panic [where i = 0 and e = 7]) (simp_all add: qsys_init_def New_def)
  ultimately have "qreach ?s (?b\<lparr>s_panicked := True\<rparr>)"
    by (blast intro: qreach.start qreach.step)
  then show ?thesis by (intro exI conjI) (assumption, simp)
qed

end
