(* ===== verification/Matchers.thy ===== *)
theory Matchers
  imports Audit_Event
begin

text \<open>
  \<open>internal/commandments/matchers.go\<close>: the five kinds of field matchers a commandment is
  compiled to. The regular-expression engine, the decimal-to-float conversion and doublestar
  globs are not under src/: they are the fields of the record \<open>Lib\<close>, an argument of every
  definition that uses one. A \<open>float64\<close> is its bits; its comparisons are written out.
\<close>

section \<open>What the matchers call\<close>

text \<open>
  \<open>regex_error p\<close>: the error of \<open>regexp.Compile p\<close>, if any; \<open>regex_match p s\<close> is
  \<open>MatchString\<close> of the compiled \<open>p\<close>; \<open>regex_find_all p s\<close> are the index pairs of
  \<open>FindAllStringIndex(s, -1)\<close>. \<open>glob_match p s\<close> is \<open>doublestar.Match\<close>. \<open>parse_float\<close> is
  \<open>strconv.ParseFloat(s, 64)\<close>, and \<open>format_float\<close> is \<open>strconv.FormatFloat(x, 'f', -1, 64)\<close>.
\<close>

record Lib =
  regex_error :: "string \<Rightarrow> error option"
  regex_match :: "string \<Rightarrow> string \<Rightarrow> bool"
  regex_find_all :: "string \<Rightarrow> string \<Rightarrow> (nat \<times> nat) list"
  glob_match :: "string \<Rightarrow> string \<Rightarrow> error + bool"
  parse_float :: "string \<Rightarrow> float64 option"
  format_float :: "float64 \<Rightarrow> string"

section \<open>Comparing floats by their bits\<close>

definition f64_magnitude :: "float64 \<Rightarrow> nat" where
  "f64_magnitude x = unat x mod 2 ^ 63"

definition f64_is_nan :: "float64 \<Rightarrow> bool" where
  "f64_is_nan x = (0x7FF0000000000000 < f64_magnitude x)"

definition f64_key :: "float64 \<Rightarrow> int" where
  "f64_key x = (if 2 ^ 63 \<le> unat x then - int (f64_magnitude x) else int (f64_magnitude x))"

definition f64_less :: "float64 \<Rightarrow> float64 \<Rightarrow> bool" where
  "f64_less x y = (\<not> f64_is_nan x \<and> \<not> f64_is_nan y \<and> f64_key x < f64_key y)"

definition f64_eq :: "float64 \<Rightarrow> float64 \<Rightarrow> bool" where
  "f64_eq x y = (\<not> f64_is_nan x \<and> \<not> f64_is_nan y \<and> f64_key x = f64_key y)"

definition f64_le :: "float64 \<Rightarrow> float64 \<Rightarrow> bool" where
  "f64_le x y = (\<not> f64_is_nan x \<and> \<not> f64_is_nan y \<and> f64_key x \<le> f64_key y)"

section \<open>Matchers\<close>

datatype Matcher =
  ExactMatcher string
| RegexMatcher string
| GlobMatcher string
| NumericMatcher string float64
| ListMatcher "string set" bool
| AnyMatcher "Matcher list"

definition NewListMatcher :: "string list \<Rightarrow> string \<Rightarrow> Matcher" where
  "NewListMatcher values op = ListMatcher (set values) (op = ''not_in'')"

definition NumericMatch :: "Lib \<Rightarrow> string \<Rightarrow> float64 \<Rightarrow> string \<Rightarrow> bool" where
  "NumericMatch L op target value =
     (case parse_float L (trim_space value) of
        None \<Rightarrow> False
      | Some n \<Rightarrow>
         (if op = ''gt'' then f64_less target n
          else if op = ''lt'' then f64_less n target
          else if op = ''eq'' then f64_eq n target
          else if op = ''gte'' then f64_le target n
          else if op = ''lte'' then f64_le n target
          else False))"

definition GlobMatch :: "Lib \<Rightarrow> string \<Rightarrow> string \<Rightarrow> bool" where
  "GlobMatch L pattern value = (case glob_match L pattern value of Inl _ \<Rightarrow> False | Inr matched \<Rightarrow> matched)"

fun Match :: "Lib \<Rightarrow> Matcher \<Rightarrow> string \<Rightarrow> bool" where
  "Match L (ExactMatcher expected) value = (value = expected)"
| "Match L (RegexMatcher re) value = regex_match L re value"
| "Match L (GlobMatcher pattern) value = GlobMatch L pattern value"
| "Match L (NumericMatcher op target) value = NumericMatch L op target value"
| "Match L (ListMatcher values negate) value = (if negate then value \<notin> values else value \<in> values)"
| "Match L (AnyMatcher ms) value = list_ex (\<lambda>m. Match L m value) ms"

section \<open>Match conditions\<close>

definition MatcherTypeExact :: string where "MatcherTypeExact = ''exact''"
definition MatcherTypeRegex :: string where "MatcherTypeRegex = ''regex''"
definition MatcherTypeGlob :: string where "MatcherTypeGlob = ''glob''"
definition MatcherTypeNumeric :: string where "MatcherTypeNumeric = ''numeric''"
definition MatcherTypeList :: string where "MatcherTypeList = ''list''"

lemmas matcher_type_defs =
  MatcherTypeExact_def MatcherTypeRegex_def MatcherTypeGlob_def MatcherTypeNumeric_def MatcherTypeList_def

text \<open>
  \<open>mc_Value\<close> is the text \<open>fmt.Sprint\<close> prints for the decoded value, the only way the sources
  read it (\<open><nil>\<close> when it is absent).
\<close>

record MatchCondition =
  mc_Type :: string
  mc_Pattern :: string
  mc_Patterns :: "string list"
  mc_Op :: string
  mc_Values :: "string list"
  mc_Value :: string

datatype SchemaError =
  UnsupportedVersion string
| TooManyRules nat
| NameRequired nat
| DuplicateName nat string
| InvalidEnforcement nat string
| MatchRequired nat
| EmptyMatchField nat
| RuleField nat string SchemaError
| TooManyPatterns nat
| TypeRequired
| PatternRequired
| PatternTooLong nat
| InvalidRegex error
| GlobRequired
| InvalidGlob error
| InvalidNumericOp string
| NumericValueRequired
| InvalidNumericValue string
| InvalidListOp string
| ValuesRequired
| InvalidMatcherType string
| CompileFailed string string SchemaError
| UnsupportedMatcherType string

definition parseNumericValue :: "Lib \<Rightarrow> string \<Rightarrow> SchemaError + float64" where
  "parseNumericValue L v =
     (let s = trim_space v
      in if s = [] \<or> s = ''<nil>'' then Err NumericValueRequired
         else (case parse_float L s of None \<Rightarrow> Err (InvalidNumericValue s) | Some x \<Rightarrow> Ok x))"

text \<open>The non-blank glob patterns of a condition, trimmed; the same loop validates and compiles.\<close>

definition glob_patterns :: "MatchCondition \<Rightarrow> string list" where
  "glob_patterns spec =
     (if trim_space (mc_Pattern spec) \<noteq> [] then [trim_space (mc_Pattern spec)] else []) @
     map trim_space (filter (\<lambda>p. trim_space p \<noteq> []) (mc_Patterns spec))"

definition CompileMatcher :: "Lib \<Rightarrow> MatchCondition \<Rightarrow> SchemaError + Matcher \<times> nat" where
  "CompileMatcher L spec =
     (if mc_Type spec = MatcherTypeExact then Ok (ExactMatcher (mc_Pattern spec), 1)
      else if mc_Type spec = MatcherTypeRegex then
        (case regex_error L (mc_Pattern spec) of
           Some err \<Rightarrow> Err (InvalidRegex err)
         | None \<Rightarrow> Ok (RegexMatcher (mc_Pattern spec), 1))
      else if mc_Type spec = MatcherTypeGlob then
        (let matchers = map GlobMatcher (glob_patterns spec)
         in if length matchers = 1 then Ok (matchers ! 0, 1)
            else Ok (AnyMatcher matchers, length matchers))
      else if mc_Type spec = MatcherTypeNumeric then
        bind_result (parseNumericValue L (mc_Value spec)) (\<lambda>target. Ok (NumericMatcher (mc_Op spec) target, 0))
      else if mc_Type spec = MatcherTypeList then
        Ok (NewListMatcher (mc_Values spec) (mc_Op spec), length (mc_Values spec))
      else Err (UnsupportedMatcherType (mc_Type spec)))"

section \<open>Comparison laws\<close>

lemma f64_less_irrefl [simp]: "\<not> f64_less x x"
  by (simp add: f64_less_def)

lemma f64_less_trans: "f64_less x y \<Longrightarrow> f64_less y z \<Longrightarrow> f64_less x z"
  by (auto simp: f64_less_def)

lemma f64_le_iff: "f64_le x y \<longleftrightarrow> f64_less x y \<or> f64_eq x y"
  by (auto simp: f64_less_def f64_eq_def f64_le_def)

text \<open>What a compiled glob condition accepts: a value that one of its patterns matches.\<close>

lemma CompileMatcher_glob:
  "mc_Type spec = MatcherTypeGlob \<Longrightarrow> CompileMatcher L spec =
     (case glob_patterns spec of
        [p] \<Rightarrow> Ok (GlobMatcher p, 1)
      | ps \<Rightarrow> Ok (AnyMatcher (map GlobMatcher ps), length ps))"
  by (simp add: CompileMatcher_def matcher_type_defs Let_def split: list.splits)

lemma Match_glob_compiled:
  assumes "mc_Type spec = MatcherTypeGlob" "CompileMatcher L spec = Inr (m, n)"
  shows "Match L m value \<longleftrightarrow> (\<exists>p \<in> set (glob_patterns spec). GlobMatch L p value)"
    and "n = length (glob_patterns spec)"
  using assms(2) unfolding CompileMatcher_glob [OF assms(1)]
  by (auto simp: list_ex_iff split: list.splits)

end
