(* ===== verification/Schema.thy ===== *)
theory Schema
  imports Matchers
begin

text \<open>
  \<open>internal/commandments/schema.go\<close>: the rule file's types and its validation. A YAML node is
  what yaml.v3 hands to \<open>UnmarshalYAML\<close>. The map of match conditions is an association list
  in the order the map is ranged over; Go picks that order, so the theorems hold for every
  order.
\<close>

definition SchemaVersionV1 :: string where "SchemaVersionV1 = ''1''"
definition MaxRules :: nat where "MaxRules = 100"
definition MaxCompiledPatterns :: nat where "MaxCompiledPatterns = 200"
definition MaxPatternChars :: nat where "MaxPatternChars = 1024"
definition MaxRedactionsPerField :: nat where "MaxRedactionsPerField = 50"
definition MaxRedactionFieldBytes :: nat where "MaxRedactionFieldBytes = 1048576"

record Commandment =
  c_Name :: string
  c_Description :: string
  c_Enforcement :: string
  c_Priority :: int
  c_Enabled :: "bool option"
  c_Match :: "(string \<times> MatchCondition) list"
  c_Redact :: bool
  c_Message :: string

record RuleSet =
  rs_Version :: string
  rs_Commandments :: "Commandment list"

definition IsEnabled :: "Commandment \<Rightarrow> bool" where
  "IsEnabled c = (case c_Enabled c of None \<Rightarrow> True | Some b \<Rightarrow> b)"

text \<open>
  A node with what decoding it gives: the text \<open>fmt.Sprint\<close> prints for a scalar, the fields
  of a mapping, or the decoder's error.
\<close>

datatype YamlNode = ScalarNode "error + string" | MappingNode "error + MatchCondition" | OtherNode

definition zero_condition :: MatchCondition where
  "zero_condition = \<lparr>mc_Type = [], mc_Pattern = [], mc_Patterns = [], mc_Op = [], mc_Values = [],
     mc_Value = ''<nil>''\<rparr>"

fun UnmarshalYAML :: "YamlNode \<Rightarrow> MatchCondition \<Rightarrow> error + MatchCondition" where
  "UnmarshalYAML (ScalarNode r) m =
     bind_result r (\<lambda>raw. Ok (m\<lparr>mc_Type := MatcherTypeExact, mc_Pattern := raw\<rparr>))"
| "UnmarshalYAML (MappingNode r) m = bind_result r Ok"
| "UnmarshalYAML OtherNode m = Err ''invalid matcher spec''"

definition validatePatternLen :: "string \<Rightarrow> SchemaError option" where
  "validatePatternLen pattern =
     (if length pattern > MaxPatternChars then Some (PatternTooLong (length pattern)) else None)"

text \<open>The first error of a loop over patterns.\<close>

fun first_error :: "('a \<Rightarrow> 'e option) \<Rightarrow> 'a list \<Rightarrow> 'e option" where
  "first_error f [] = None"
| "first_error f (x # xs) = (case f x of Some e \<Rightarrow> Some e | None \<Rightarrow> first_error f xs)"

definition glob_error :: "Lib \<Rightarrow> string \<Rightarrow> SchemaError option" where
  "glob_error L p =
     (case validatePatternLen p of
        Some e \<Rightarrow> Some e
      | None \<Rightarrow> (case glob_match L p ''x'' of Inl err \<Rightarrow> Some (InvalidGlob err) | Inr _ \<Rightarrow> None))"

definition validateMatchCondition :: "Lib \<Rightarrow> MatchCondition \<Rightarrow> SchemaError + nat" where
  "validateMatchCondition L spec =
     (let matcherType = trim_space (mc_Type spec); p = trim_space (mc_Pattern spec)
      in if matcherType = [] then Err TypeRequired
         else if matcherType = MatcherTypeExact then
           (if p = [] then Err PatternRequired
            else case validatePatternLen p of Some e \<Rightarrow> Err e | None \<Rightarrow> Ok 1)
         else if matcherType = MatcherTypeRegex then
           (if p = [] then Err PatternRequired
            else case validatePatternLen p of Some e \<Rightarrow> Err e | None \<Rightarrow>
              (case regex_error L p of Some err \<Rightarrow> Err (InvalidRegex err) | None \<Rightarrow> Ok 1))
         else if matcherType = MatcherTypeGlob then
           (if glob_patterns spec = [] then Err GlobRequired
            else case first_error (glob_error L) (glob_patterns spec) of
              Some e \<Rightarrow> Err e | None \<Rightarrow> Ok (length (glob_patterns spec)))
         else if matcherType = MatcherTypeNumeric then
           (if mc_Op spec \<notin> {''gt'', ''lt'', ''eq'', ''gte'', ''lte''} then Err (InvalidNumericOp (mc_Op spec))
            else bind_result (parseNumericValue L (mc_Value spec)) (\<lambda>_. Ok 0))
         else if matcherType = MatcherTypeList then
           (if mc_Op spec \<notin> {''in'', ''not_in''} then Err (InvalidListOp (mc_Op spec))
            else if mc_Values spec = [] then Err ValuesRequired
            else case first_error validatePatternLen (mc_Values spec) of
              Some e \<Rightarrow> Err e | None \<Rightarrow> Ok (length (mc_Values spec)))
         else Err (InvalidMatcherType matcherType))"

text \<open>The inner loop: the match conditions of rule \<open>i\<close>, with the running pattern total.\<close>

fun validate_fields :: "Lib \<Rightarrow> nat \<Rightarrow> nat \<Rightarrow> (string \<times> MatchCondition) list \<Rightarrow> SchemaError + nat" where
  "validate_fields L i totalPatterns [] = Ok totalPatterns"
| "validate_fields L i totalPatterns ((field, spec) # fs) =
     (if trim_space field = [] then Err (EmptyMatchField i)
      else case validateMatchCondition L spec of
        Inl e \<Rightarrow> Err (RuleField i field e)
      | Inr count \<Rightarrow>
         (if totalPatterns + count > MaxCompiledPatterns then Err (TooManyPatterns (totalPatterns + count))
          else validate_fields L i (totalPatterns + count) fs))"

text \<open>The outer loop: rules from index \<open>i\<close> on, with the names seen before.\<close>

fun validate_rules :: "Lib \<Rightarrow> nat \<Rightarrow> string set \<Rightarrow> nat \<Rightarrow> Commandment list \<Rightarrow> SchemaError + nat" where
  "validate_rules L i seen totalPatterns [] = Ok totalPatterns"
| "validate_rules L i seen totalPatterns (r # rs) =
     (if trim_space (c_Name r) = [] then Err (NameRequired i)
      else if c_Name r \<in> seen then Err (DuplicateName i (c_Name r))
      else if c_Enforcement r \<notin> {''warn'', ''block''} then Err (InvalidEnforcement i (c_Enforcement r))
      else if c_Match r = [] then Err (MatchRequired i)
      else bind_result (validate_fields L i totalPatterns (c_Match r))
        (\<lambda>totalPatterns'. validate_rules L (Suc i) (insert (c_Name r) seen) totalPatterns' rs))"

definition Validate :: "Lib \<Rightarrow> RuleSet \<Rightarrow> SchemaError option" where
  "Validate L rs =
     (if rs_Version rs \<noteq> SchemaVersionV1 then Some (UnsupportedVersion (rs_Version rs))
      else if length (rs_Commandments rs) > MaxRules then Some (TooManyRules (length (rs_Commandments rs)))
      else case validate_rules L 0 {} 0 (rs_Commandments rs) of Inl e \<Rightarrow> Some e | Inr _ \<Rightarrow> None)"

text \<open>\<open>LoadYAML\<close>: \<open>yaml\<close> stands for \<open>yaml.Unmarshal\<close> into a \<open>RuleSet\<close>.\<close>

datatype LoadError = YamlError error | SchemaProblem SchemaError | FileError error | NoSource | NotFound string

definition LoadYAML :: "Lib \<Rightarrow> (string \<Rightarrow> error + RuleSet) \<Rightarrow> string \<Rightarrow> LoadError + RuleSet" where
  "LoadYAML L yaml data =
     (case yaml data of
        Inl e \<Rightarrow> Err (YamlError e)
      | Inr rs \<Rightarrow> (case Validate L rs of Some e \<Rightarrow> Err (SchemaProblem e) | None \<Rightarrow> Ok rs))"

section \<open>What validation guarantees\<close>

lemma first_error_None_iff: "first_error f xs = None \<longleftrightarrow> (\<forall>x \<in> set xs. f x = None)"
  by (induction xs) (auto split: option.splits)

text \<open>The pattern counts of the conditions of a rule, in the terms of the validator.\<close>

definition field_count :: "Lib \<Rightarrow> MatchCondition \<Rightarrow> nat" where
  "field_count L spec = (case validateMatchCondition L spec of Inl _ \<Rightarrow> 0 | Inr n \<Rightarrow> n)"

definition rule_count :: "Lib \<Rightarrow> Commandment \<Rightarrow> nat" where
  "rule_count L r = sum_list (map (\<lambda>fs. field_count L (snd fs)) (c_Match r))"

definition field_ok :: "Lib \<Rightarrow> string \<times> MatchCondition \<Rightarrow> bool" where
  "field_ok L fs = (trim_space (fst fs) \<noteq> [] \<and> (\<exists>n. validateMatchCondition L (snd fs) = Inr n))"

definition rule_ok :: "Lib \<Rightarrow> Commandment \<Rightarrow> bool" where
  "rule_ok L r = (trim_space (c_Name r) \<noteq> [] \<and> c_Enforcement r \<in> {''warn'', ''block''} \<and>
     c_Match r \<noteq> [] \<and> list_all (field_ok L) (c_Match r))"

lemma validate_fields_Ok:
  "totalPatterns \<le> MaxCompiledPatterns \<Longrightarrow> validate_fields L i totalPatterns fs = Inr t \<longleftrightarrow>
     list_all (field_ok L) fs \<and> t = totalPatterns + sum_list (map (\<lambda>f. field_count L (snd f)) fs) \<and> t \<le> MaxCompiledPatterns"
proof (induction fs arbitrary: totalPatterns)
  case Nil
  then show ?case by auto
next
  case (Cons f fs)
  obtain field spec where f: "f = (field, spec)" by (cases f)
  show ?case
  proof (cases "validateMatchCondition L spec")
    case (Inl e)
    then show ?thesis by (simp add: f field_ok_def)
  next
    case (Inr n)
    show ?thesis
    proof (cases "totalPatterns + n \<le> MaxCompiledPatterns")
      case True
      with Cons.IH [of "totalPatterns + n"] Inr show ?thesis
        by (auto simp: f field_ok_def field_count_def)
    next
      case False
      with Inr show ?thesis by (auto simp: f field_ok_def field_count_def)
    qed
  qed
qed

lemma validate_rules_Ok:
  "totalPatterns \<le> MaxCompiledPatterns \<Longrightarrow> validate_rules L i seen totalPatterns rs = Inr t \<longleftrightarrow>
     list_all (rule_ok L) rs \<and> distinct (map c_Name rs) \<and> c_Name ` set rs \<inter> seen = {} \<and>
     t = totalPatterns + sum_list (map (rule_count L) rs) \<and> t \<le> MaxCompiledPatterns"
proof (induction rs arbitrary: i seen totalPatterns)
  case Nil
  then show ?case by auto
next
  case (Cons r rs)
  show ?case
  proof (cases "validate_fields L i totalPatterns (c_Match r)")
    case (Inl e)
    then have "\<not> (list_all (field_ok L) (c_Match r) \<and> totalPatterns + rule_count L r \<le> MaxCompiledPatterns)"
      using validate_fields_Ok [OF Cons.prems, of L i "c_Match r"] by (auto simp: rule_count_def)
    with Inl show ?thesis by (auto simp: rule_ok_def)
  next
    case (Inr t')
    then have t': "list_all (field_ok L) (c_Match r)" "t' = totalPatterns + rule_count L r" "t' \<le> MaxCompiledPatterns"
      using validate_fields_Ok [OF Cons.prems, of L i "c_Match r" t'] by (auto simp: rule_count_def)
    with Cons.IH [of t' "Suc i" "insert (c_Name r) seen"] Inr show ?thesis
      by (auto simp: rule_ok_def)
  qed
qed

text \<open>The rule sets validation accepts, without its loops.\<close>

definition valid_rules :: "Lib \<Rightarrow> RuleSet \<Rightarrow> bool" where
  "valid_rules L rs =
     (rs_Version rs = SchemaVersionV1 \<and> length (rs_Commandments rs) \<le> MaxRules \<and>
      list_all (rule_ok L) (rs_Commandments rs) \<and> distinct (map c_Name (rs_Commandments rs)) \<and>
      sum_list (map (rule_count L) (rs_Commandments rs)) \<le> MaxCompiledPatterns)"

text \<open>Validation accepts exactly the rule sets that have version 1, at most 100 rules with distinct
  non-blank names, a known enforcement, at least one condition each and only valid conditions,
  and at most 200 patterns in total; the order the match maps are ranged over cannot change
  which rule sets are accepted.\<close>

theorem Validate_iff: "(Validate L rs = None) = valid_rules L rs"
proof -
  have "(\<exists>t. validate_rules L 0 {} 0 (rs_Commandments rs) = Inr t) \<longleftrightarrow>
      list_all (rule_ok L) (rs_Commandments rs) \<and> distinct (map c_Name (rs_Commandments rs)) \<and>
      sum_list (map (rule_count L) (rs_Commandments rs)) \<le> MaxCompiledPatterns"
    using validate_rules_Ok [of 0 L 0 "{}" "rs_Commandments rs"] by auto
  then show ?thesis
    by (auto simp: Validate_def valid_rules_def split: sum.splits)
qed

end
