(* ===== verification/Redaction.thy ===== *)
theory Redaction
  imports Schema
begin

text \<open>
  \<open>internal/commandments/redaction.go\<close>: secrets in an event's arguments are replaced before
  the event is hashed and stored. A compiled pattern is its source text; where it matches is
  \<open>regex_find_all\<close> of the library record. What package regexp documents of
  \<open>FindAllStringIndex\<close> (successive matches, in order, not overlapping, inside the text) is the
  predicate \<open>matches_wf\<close>, a hypothesis of the theorems that need it.
\<close>

definition redactionReplacement :: string where "redactionReplacement = ''[REDACTED]''"
definition oversizedMarker :: string where "oversizedMarker = ''[REDACTED_OVERSIZE_TRUNCATED]''"
definition oversizedPreviewSize :: nat where "oversizedPreviewSize = 256"

record Redactor =
  rd_alwaysOn :: "string list"
  rd_ruleTriggered :: "string list"

definition NewRedactor :: Redactor where
  "NewRedactor = \<lparr>
     rd_alwaysOn =
       [''sk-[A-Za-z0-9]{20,}'',
        ''AKIA[0-9A-Z]{16}'',
        ''ghp_[A-Za-z0-9]{36}'',
        ''xox[baprs]-[A-Za-z0-9-]{10,}'',
        ''(?s)-----BEGIN [A-Z ]*PRIVATE KEY-----.*?-----END [A-Z ]*PRIVATE KEY-----'',
        ''(?i)'' @ [CHR 0x5C] @ ''b(password|token|secret|api[_-]?key)'' @ [CHR 0x5C] @ ''s*[:=]'' @ [CHR 0x5C] @ ''s*['' @ [CHR 0x27] @ [CHR 0x22] @ '']?[^'' @ [CHR 0x27] @ [CHR 0x22] @ [CHR 0x5C] @ ''s,}]+''],
     rd_ruleTriggered =
       [''(?m)^[A-Za-z_][A-Za-z0-9_]*'' @ [CHR 0x5C] @ ''s*='' @ [CHR 0x5C] @ ''s*.*$'',
        ''(?i)authorization'' @ [CHR 0x5C] @ ''s*:'' @ [CHR 0x5C] @ ''s*bearer'' @ [CHR 0x5C] @ ''s+[A-Za-z0-9._-]+'']\<rparr>"

section \<open>Replacing matches\<close>

text \<open>The loop that copies the text between the matches; \<open>prev\<close> is where the last match ended.\<close>

fun splice :: "string \<Rightarrow> nat \<Rightarrow> (nat \<times> nat) list \<Rightarrow> string" where
  "splice s prev [] = drop prev s"
| "splice s prev ((start, stop) # ms) =
     take (start - prev) (drop prev s) @ redactionReplacement @ splice s stop ms"

text \<open>\<open>FindAllStringIndex(in, limit+1)\<close>, cut to \<open>limit\<close> matches.\<close>

definition replaceWithLimit :: "Lib \<Rightarrow> string \<Rightarrow> string \<Rightarrow> nat \<Rightarrow> string \<times> nat" where
  "replaceWithLimit L s re limit =
     (if limit = 0 then (s, 0)
      else let ms = take (limit + 1) (regex_find_all L re s)
           in if ms = [] then (s, 0)
              else let ms = (if length ms > limit then take limit ms else ms)
                   in (splice s 0 ms, length ms))"

fun applyPatterns_from :: "Lib \<Rightarrow> string \<Rightarrow> bool \<Rightarrow> string list \<Rightarrow> nat \<Rightarrow> string \<times> bool \<times> nat" where
  "applyPatterns_from L out anyChanged [] remaining = (out, anyChanged, remaining)"
| "applyPatterns_from L out anyChanged (re # res) remaining =
     (if remaining = 0 then (out, anyChanged, remaining)
      else case replaceWithLimit L out re remaining of
        (nxt, replaced) \<Rightarrow>
          (if replaced > 0 then applyPatterns_from L nxt True res (remaining - replaced)
           else applyPatterns_from L out anyChanged res remaining))"

definition applyPatterns :: "Lib \<Rightarrow> string \<Rightarrow> string list \<Rightarrow> nat \<Rightarrow> string \<times> bool \<times> nat" where
  "applyPatterns L s patterns remaining = applyPatterns_from L s False patterns remaining"

definition truncateOversized :: "string \<Rightarrow> string" where
  "truncateOversized s =
     (if length s > oversizedPreviewSize then take oversizedPreviewSize s else s) @ ''...'' @ oversizedMarker"

definition Redact :: "Lib \<Rightarrow> Redactor \<Rightarrow> AuditEvent \<Rightarrow> bool \<Rightarrow> AuditEvent" where
  "Redact L r evt ruleTriggered =
     (let value = ev_Arguments evt;
          (value, redacted) = (if length value > MaxRedactionFieldBytes then (truncateOversized value, True)
                               else (value, False));
          (value, changed, remaining) = applyPatterns L value (rd_alwaysOn r) MaxRedactionsPerField;
          redacted = (redacted \<or> changed);
          (value, redacted) =
            (if ruleTriggered \<and> remaining > 0 then
               (case applyPatterns L value (rd_ruleTriggered r) remaining of
                  (value', changed', _) \<Rightarrow> (value', redacted \<or> changed'))
             else (value, redacted))
      in if redacted then evt\<lparr>ev_Arguments := value, ev_Redacted := True\<rparr> else evt)"

section \<open>The replacement\<close>

text \<open>The documented shape of the matches of one pattern in a text of length \<open>n\<close>, from \<open>prev\<close> on.\<close>

fun matches_wf :: "nat \<Rightarrow> nat \<Rightarrow> (nat \<times> nat) list \<Rightarrow> bool" where
  "matches_wf n prev [] = (prev \<le> n)"
| "matches_wf n prev ((start, stop) # ms) = (prev \<le> start \<and> start \<le> stop \<and> matches_wf n stop ms)"

text \<open>A text cut at the matches: the stretches between them, in order.\<close>

fun gaps :: "string \<Rightarrow> nat \<Rightarrow> (nat \<times> nat) list \<Rightarrow> string list" where
  "gaps s prev [] = [drop prev s]"
| "gaps s prev ((start, stop) # ms) = take (start - prev) (drop prev s) # gaps s stop ms"

lemma gaps_not_Nil [simp]: "gaps s prev ms \<noteq> []"
  by (cases ms) auto

lemma splice_join: "splice s prev ms = join (gaps s prev ms) redactionReplacement"
proof (induction s prev ms rule: splice.induct)
  case (2 s prev start stop ms)
  then show ?case by (cases "gaps s stop ms") auto
qed simp

text \<open>The matched texts, and how gaps and matches make up the original text.\<close>

fun interleave :: "string list \<Rightarrow> string list \<Rightarrow> string" where
  "interleave (g # gs) (m # ms) = g @ m @ interleave gs ms"
| "interleave gs _ = concat gs"

definition matched :: "string \<Rightarrow> (nat \<times> nat) list \<Rightarrow> string list" where
  "matched s ms = map (\<lambda>(a, b). take (b - a) (drop a s)) ms"

lemma matches_wf_le: "matches_wf n prev ms \<Longrightarrow> prev \<le> n"
  by (induction n prev ms rule: matches_wf.induct) auto

lemma interleave_gaps: "matches_wf (length s) prev ms \<Longrightarrow> interleave (gaps s prev ms) (matched s ms) = drop prev s"
proof (induction s prev ms rule: gaps.induct)
  case (1 s prev)
  then show ?case by (simp add: matched_def)
next
  case (2 s prev start stop ms)
  then have le: "prev \<le> start" "start \<le> stop" "stop \<le> length s" by (auto dest: matches_wf_le)
  have "drop prev s = take (start - prev) (drop prev s) @ drop start s"
    using le(1) by (metis append_take_drop_id drop_drop le_add_diff_inverse2)
  moreover have "drop start s = take (stop - start) (drop start s) @ drop stop s"
    using le(2) by (metis append_take_drop_id drop_drop le_add_diff_inverse2)
  ultimately show ?case using 2 by (simp add: matched_def)
qed

lemma matches_wf_take: "matches_wf n prev ms \<Longrightarrow> matches_wf n prev (take k ms)"
  by (induction n prev ms arbitrary: k rule: matches_wf.induct) (auto simp: take_Cons' dest: matches_wf_le)

lemma replaceWithLimit_eq:
  "replaceWithLimit L s re limit =
     (let ms = take limit (regex_find_all L re s) in (if ms = [] then s else splice s 0 ms, length ms))"
  by (auto simp: replaceWithLimit_def Let_def min_def)

text \<open>C31: Replacing with a limit touches the matches only: the text between the first \<open>limit\<close> matches
  is kept, each of these matches becomes the marker, and the original text is the same
  stretches with the matched texts between them.\<close>

theorem replaceWithLimit_spec:
  assumes "matches_wf (length s) 0 (regex_find_all L re s)"
  shows "let ms = take limit (regex_find_all L re s); gs = gaps s 0 ms
    in replaceWithLimit L s re limit = (join gs redactionReplacement, length ms) \<and>
       length gs = length ms + 1 \<and> s = interleave gs (matched s ms)"
proof -
  let ?ms = "take limit (regex_find_all L re s)"
  have len: "length (gaps s p ms) = length ms + 1" for p ms
    by (induction s p ms rule: gaps.induct) auto
  have "s = interleave (gaps s 0 ?ms) (matched s ?ms)"
    using interleave_gaps [OF matches_wf_take [OF assms], of limit] by simp
  then show ?thesis
    by (auto simp: Let_def replaceWithLimit_eq splice_join [symmetric] len)
qed

theorem replaceWithLimit_spec_witness:
  "let L = \<lparr>regex_error = (\<lambda>_. None), regex_match = (\<lambda>_ _. True), regex_find_all = (\<lambda>_ _. [(0, 4), (7, 9)]),
            glob_match = (\<lambda>_ _. Ok False), parse_float = (\<lambda>_. None), format_float = (\<lambda>_. ''0'')\<rparr>
   in replaceWithLimit L ''k=ab;z=cd'' ''k'' 5 = (''[REDACTED];z=[REDACTED]'', 2)"
  using replaceWithLimit_spec [of "''k=ab;z=cd''"
      "\<lparr>regex_error = (\<lambda>_. None), regex_match = (\<lambda>_ _. True), regex_find_all = (\<lambda>_ _. [(0, 4), (7, 9)]),
        glob_match = (\<lambda>_ _. Ok False), parse_float = (\<lambda>_. None), format_float = (\<lambda>_. ''0'')\<rparr>" "''k''" 5]
  by (simp add: redactionReplacement_def Let_def numeral_2_eq_2)

section \<open>The budget\<close>

lemma applyPatterns_budget:
  "applyPatterns_from L s b ps n = (s', b', n') \<Longrightarrow> n' \<le> n \<and> (b' \<longleftrightarrow> b \<or> n' < n) \<and> (n' = n \<longrightarrow> s' = s)"
proof (induction ps arbitrary: s b n)
  case Nil
  then show ?case by auto
next
  case (Cons p ps)
  obtain t k where r: "replaceWithLimit L s p n = (t, k)" by (cases "replaceWithLimit L s p n")
  then have k: "k \<le> n" by (auto simp: replaceWithLimit_eq Let_def)
  show ?case
  proof (cases "n = 0 \<or> k = 0")
    case True
    with Cons r show ?thesis by (auto split: if_splits)
  next
    case False
    with Cons.prems r have "applyPatterns_from L t True ps (n - k) = (s', b', n')" by simp
    from Cons.IH [OF this] False k show ?thesis by auto
  qed
qed

lemma applyPatterns_unmatched:
  assumes "\<And>p. p \<in> set ps \<Longrightarrow> regex_find_all L p s = []"
  shows "applyPatterns_from L s b ps n = (s, b, n)"
  using assms by (induction ps) (auto simp: replaceWithLimit_eq)

lemma Redact_frame:
  "Redact L r evt t = evt \<or> (\<exists>v. Redact L r evt t = evt\<lparr>ev_Arguments := v, ev_Redacted := True\<rparr>)"
  by (auto simp: Redact_def Let_def split: prod.splits if_splits)

lemma Redact_unmatched:
  assumes "length (ev_Arguments evt) \<le> MaxRedactionFieldBytes"
    and "\<And>p. p \<in> set (rd_alwaysOn r) \<Longrightarrow> regex_find_all L p (ev_Arguments evt) = []"
    and "\<And>p. t \<Longrightarrow> p \<in> set (rd_ruleTriggered r) \<Longrightarrow> regex_find_all L p (ev_Arguments evt) = []"
  shows "Redact L r evt t = evt"
  using assms by (simp add: Redact_def Let_def applyPatterns_def applyPatterns_unmatched)

text \<open>Lower the arguments only: what \<open>Redact\<close> leaves alone.\<close>

lemma Redact_fields [simp]:
  "ev_ID (Redact L r e t) = ev_ID e" "ev_Timestamp (Redact L r e t) = ev_Timestamp e"
  "ev_Outcome (Redact L r e t) = ev_Outcome e" "ev_ActionType (Redact L r e t) = ev_ActionType e"
  "ev_Action (Redact L r e t) = ev_Action e" "ev_AgentID (Redact L r e t) = ev_AgentID e"
  "ev_AdapterType (Redact L r e t) = ev_AdapterType e"
  "ev_CommandmentsEvaluated (Redact L r e t) = ev_CommandmentsEvaluated e"
  "ev_CommandmentsTriggered (Redact L r e t) = ev_CommandmentsTriggered e"
  using Redact_frame [of L r e t] by auto

text \<open>Redaction changes an event's arguments and its redacted flag and nothing else, and an event
  within the size bound whose arguments none of the applicable patterns match comes out as it
  went in. The environment and bearer-token patterns apply only when a rule triggered.\<close>

theorem Redact_only_matches:
  assumes "length (ev_Arguments evt) \<le> MaxRedactionFieldBytes"
    and "\<forall>p \<in> set (rd_alwaysOn r). regex_find_all L p (ev_Arguments evt) = []"
    and "t \<longrightarrow> (\<forall>p \<in> set (rd_ruleTriggered r). regex_find_all L p (ev_Arguments evt) = [])"
  shows "Redact L r evt t = evt"
  using assms by (intro Redact_unmatched) auto

theorem Redact_only_matches_witness:
  "Redact \<lparr>regex_error = (\<lambda>_. None), regex_match = (\<lambda>_ _. False), regex_find_all = (\<lambda>_ _. []),
           glob_match = (\<lambda>_ _. Ok False), parse_float = (\<lambda>_. None), format_float = (\<lambda>_. ''0'')\<rparr>
     NewRedactor (zero_event\<lparr>ev_Arguments := ''ls''\<rparr>) True = zero_event\<lparr>ev_Arguments := ''ls''\<rparr>"
  by (rule Redact_only_matches) (simp_all add: MaxRedactionFieldBytes_def)

end
