(* ===== verification/Rule_Engine.thy ===== *)
theory Rule_Engine
  imports Schema "HOL-Library.Product_Lexorder" "HOL-Library.Multiset"
begin

text \<open>
  \<open>internal/commandments/engine.go\<close>: compiling the rules, reloading them and evaluating an
  event. The \<open>EvalResult\<close> and \<open>TriggeredRule\<close> types of package commandments and of package
  audit have the same fields; one record stands for each pair. \<open>sort.Slice\<close> is modelled by
  \<open>sort_key\<close> on the comparison's key; the theorems show that for rules with distinct names
  every sorting algorithm gives the same list. Reading the rule file is the argument
  \<open>readFile\<close>, \<open>yaml.Unmarshal\<close> the argument \<open>yaml\<close>.
\<close>

record TriggeredRule =
  tr_Name :: string
  tr_Enforcement :: string
  tr_Message :: string

record EvalResult =
  er_Evaluated :: "string list"
  er_Triggered :: "TriggeredRule list"

record RuleSummary =
  sum_Name :: string
  sum_Enforcement :: string
  sum_Priority :: int
  sum_Enabled :: bool
  sum_Redact :: bool
  sum_Message :: string

section \<open>The fields of an event\<close>

definition nonempty_field :: "string \<Rightarrow> string \<times> bool" where
  "nonempty_field v = (v, v \<noteq> [])"

definition eventFieldValue :: "Lib \<Rightarrow> AuditEvent \<Rightarrow> string \<Rightarrow> string \<times> bool" where
  "eventFieldValue L evt field =
     (if field = ''id'' then nonempty_field (ev_ID evt)
      else if field = ''agent_id'' then nonempty_field (ev_AgentID evt)
      else if field = ''action_type'' then nonempty_field (ev_ActionType evt)
      else if field = ''action'' then nonempty_field (ev_Action evt)
      else if field = ''arguments'' then nonempty_field (ev_Arguments evt)
      else if field = ''session_id'' then nonempty_field (ev_SessionID evt)
      else if field = ''working_dir'' then nonempty_field (ev_WorkingDir evt)
      else if field = ''provider'' then nonempty_field (ev_Provider evt)
      else if field = ''model'' then nonempty_field (ev_Model evt)
      else if field = ''tool_category'' then nonempty_field (ev_ToolCategory evt)
      else if field = ''tool_effect'' then nonempty_field (ev_ToolEffect evt)
      else if field = ''tool_name'' then nonempty_field (ev_ToolName evt)
      else if field = ''adapter_type'' then nonempty_field (ev_AdapterType evt)
      else if field = ''adapter_id'' then nonempty_field (ev_AdapterID evt)
      else if field = ''outcome'' then nonempty_field (ev_Outcome evt)
      else if field = ''input_tokens'' then (show_int (sint (ev_InputTokens evt)), True)
      else if field = ''output_tokens'' then (show_int (sint (ev_OutputTokens evt)), True)
      else if field = ''cost_usd'' then (format_float L (ev_CostUSD evt), True)
      else if field = ''agent_pid'' then (show_int (sint (ev_AgentPID evt)), True)
      else ([], False))"

section \<open>Compiled rules\<close>

record compiledCondition =
  cc_field :: string
  cc_matcher :: Matcher

record compiledRule =
  cr_rule :: Commandment
  cr_conditions :: "compiledCondition list"

text \<open>The loop over the conditions: false at the first that fails.\<close>

definition condition_holds :: "Lib \<Rightarrow> AuditEvent \<Rightarrow> compiledCondition \<Rightarrow> bool" where
  "condition_holds L e c =
     (case eventFieldValue L e (cc_field c) of
        (value, ok) \<Rightarrow> ok \<and> value \<noteq> [] \<and> Match L (cc_matcher c) value)"

definition matches :: "Lib \<Rightarrow> compiledRule \<Rightarrow> AuditEvent \<Rightarrow> bool" where
  "matches L r e = list_all (condition_holds L e) (cr_conditions r)"

section \<open>Compiling\<close>

text \<open>Higher priority first, then by name: the key of the comparison given to \<open>sort.Slice\<close>.\<close>

definition rule_key :: "Commandment \<Rightarrow> int \<times> string" where
  "rule_key r = (- c_Priority r, c_Name r)"

definition rule_less :: "Commandment \<Rightarrow> Commandment \<Rightarrow> bool" where
  "rule_less a b =
     (if c_Priority a \<noteq> c_Priority b then c_Priority a > c_Priority b else c_Name a < c_Name b)"

lemma rule_less_key: "rule_less a b \<longleftrightarrow> rule_key a < rule_key b"
  by (auto simp: rule_less_def rule_key_def less_prod_def)

text \<open>The inner loop, over the sorted fields of one rule, with the running pattern total.\<close>

fun compile_fields ::
  "Lib \<Rightarrow> string \<Rightarrow> (string \<rightharpoonup> MatchCondition) \<Rightarrow> nat \<Rightarrow> string list \<Rightarrow>
   SchemaError + compiledCondition list \<times> nat" where
  "compile_fields L name m totalPatterns [] = Ok ([], totalPatterns)"
| "compile_fields L name m totalPatterns (field # fs) =
     (case CompileMatcher L (case m field of Some spec \<Rightarrow> spec | None \<Rightarrow> zero_condition) of
        Inl e \<Rightarrow> Err (CompileFailed name field e)
      | Inr (matcher, n) \<Rightarrow>
         (if totalPatterns + n > MaxCompiledPatterns then Err (TooManyPatterns (totalPatterns + n))
          else bind_result (compile_fields L name m (totalPatterns + n) fs)
            (\<lambda>(cs, t). Ok (\<lparr>cc_field = field, cc_matcher = matcher\<rparr> # cs, t))))"

fun compile_sorted :: "Lib \<Rightarrow> nat \<Rightarrow> Commandment list \<Rightarrow> SchemaError + compiledRule list" where
  "compile_sorted L totalPatterns [] = Ok []"
| "compile_sorted L totalPatterns (r # rs) =
     bind_result (compile_fields L (c_Name r) (map_of (c_Match r)) totalPatterns (sort (map fst (c_Match r))))
       (\<lambda>(cs, t). bind_result (compile_sorted L t rs)
         (\<lambda>out. Ok (\<lparr>cr_rule = r, cr_conditions = cs\<rparr> # out)))"

definition compileRules :: "Lib \<Rightarrow> Commandment list \<Rightarrow> SchemaError + compiledRule list" where
  "compileRules L rules = compile_sorted L 0 (sort_key rule_key rules)"

section \<open>The engine\<close>

record Engine =
  en_rules :: "compiledRule list"
  en_path :: string
  en_fallbackYAML :: string

definition loadRuleSet ::
  "Lib \<Rightarrow> (string \<Rightarrow> error + RuleSet) \<Rightarrow> (string \<Rightarrow> ReadResult) \<Rightarrow> string \<Rightarrow> string \<Rightarrow> LoadError + RuleSet" where
  "loadRuleSet L yaml readFile path fallbackYAML =
     (let fallback = (if fallbackYAML \<noteq> [] then LoadYAML L yaml fallbackYAML
                      else if path = [] then Err NoSource else Err (NotFound path))
      in if path \<noteq> [] then
           (case readFile path of
              FileData data \<Rightarrow> LoadYAML L yaml data
            | FileFailed err \<Rightarrow> Err (FileError err)
            | FileMissing \<Rightarrow> fallback)
         else fallback)"

text \<open>\<open>Reload\<close>: the error, if any, and the engine after it.\<close>

definition Reload ::
  "Lib \<Rightarrow> (string \<Rightarrow> error + RuleSet) \<Rightarrow> (string \<Rightarrow> ReadResult) \<Rightarrow> Engine \<Rightarrow> string \<Rightarrow> LoadError option \<times> Engine" where
  "Reload L yaml readFile e path0 =
     (let path = (if path0 = [] then en_path e else path0)
      in case loadRuleSet L yaml readFile path (en_fallbackYAML e) of
           Inl err \<Rightarrow> (Some err, e)
         | Inr rs \<Rightarrow>
            (case compileRules L (rs_Commandments rs) of
               Inl err \<Rightarrow> (Some (SchemaProblem err), e)
             | Inr compiled \<Rightarrow> (None, e\<lparr>en_rules := compiled, en_path := path\<rparr>)))"

definition NewEngine ::
  "Lib \<Rightarrow> (string \<Rightarrow> error + RuleSet) \<Rightarrow> (string \<Rightarrow> ReadResult) \<Rightarrow> string \<Rightarrow> string \<Rightarrow> LoadError + Engine" where
  "NewEngine L yaml readFile path fallbackYAML =
     (case Reload L yaml readFile \<lparr>en_rules = [], en_path = path, en_fallbackYAML = fallbackYAML\<rparr> path of
        (Some err, _) \<Rightarrow> Err err
      | (None, e) \<Rightarrow> Ok e)"

definition triggered_of :: "Commandment \<Rightarrow> TriggeredRule" where
  "triggered_of r = \<lparr>tr_Name = c_Name r, tr_Enforcement = c_Enforcement r, tr_Message = c_Message r\<rparr>"

text \<open>The loop over the rules, appending to the result.\<close>

fun evaluate_rules :: "Lib \<Rightarrow> AuditEvent \<Rightarrow> compiledRule list \<Rightarrow> EvalResult \<Rightarrow> EvalResult" where
  "evaluate_rules L evt [] result = result"
| "evaluate_rules L evt (r # rs) result =
     (if \<not> IsEnabled (cr_rule r) then evaluate_rules L evt rs result
      else
        (let result = result\<lparr>er_Evaluated := er_Evaluated result @ [c_Name (cr_rule r)]\<rparr>;
             result = (if matches L r evt
                       then result\<lparr>er_Triggered := er_Triggered result @ [triggered_of (cr_rule r)]\<rparr>
                       else result)
         in evaluate_rules L evt rs result))"

definition Evaluate :: "Lib \<Rightarrow> Engine \<Rightarrow> AuditEvent option \<Rightarrow> EvalResult" where
  "Evaluate L e evt =
     (case evt of
        None \<Rightarrow> \<lparr>er_Evaluated = [], er_Triggered = []\<rparr>
      | Some ev \<Rightarrow> evaluate_rules L ev (en_rules e) \<lparr>er_Evaluated = [], er_Triggered = []\<rparr>)"

definition Rules :: "Engine \<Rightarrow> RuleSummary list" where
  "Rules e = map (\<lambda>r. \<lparr>sum_Name = c_Name (cr_rule r), sum_Enforcement = c_Enforcement (cr_rule r),
     sum_Priority = c_Priority (cr_rule r), sum_Enabled = IsEnabled (cr_rule r),
     sum_Redact = c_Redact (cr_rule r), sum_Message = c_Message (cr_rule r)\<rparr>) (en_rules e)"

section \<open>What evaluation computes\<close>

lemma evaluate_rules_eq:
  "evaluate_rules L evt rs res =
     \<lparr>er_Evaluated = er_Evaluated res @ map (c_Name \<circ> cr_rule) (filter (IsEnabled \<circ> cr_rule) rs),
      er_Triggered = er_Triggered res @
        map (triggered_of \<circ> cr_rule) (filter (\<lambda>r. IsEnabled (cr_rule r) \<and> matches L r evt) rs)\<rparr>"
  by (induction rs arbitrary: res) (auto simp: Let_def)

lemma Evaluate_eq:
  "Evaluate L e (Some evt) =
     \<lparr>er_Evaluated = map (c_Name \<circ> cr_rule) (filter (IsEnabled \<circ> cr_rule) (en_rules e)),
      er_Triggered = map (triggered_of \<circ> cr_rule) (filter (\<lambda>r. IsEnabled (cr_rule r) \<and> matches L r evt) (en_rules e))\<rparr>"
  by (simp add: Evaluate_def evaluate_rules_eq)

section \<open>Compilation\<close>

text \<open>
  The meaning of one condition on an event, from its source form: the field is present and
  not empty, and the value satisfies the condition.
\<close>

definition spec_holds :: "Lib \<Rightarrow> MatchCondition \<Rightarrow> string \<Rightarrow> bool" where
  "spec_holds L spec value =
     (if mc_Type spec = MatcherTypeExact then value = mc_Pattern spec
      else if mc_Type spec = MatcherTypeRegex then regex_match L (mc_Pattern spec) value
      else if mc_Type spec = MatcherTypeGlob then \<exists>p \<in> set (glob_patterns spec). GlobMatch L p value
      else if mc_Type spec = MatcherTypeNumeric then
        (case parseNumericValue L (mc_Value spec) of
           Inl _ \<Rightarrow> False | Inr target \<Rightarrow> NumericMatch L (mc_Op spec) target value)
      else if mc_Type spec = MatcherTypeList then
        (if mc_Op spec = ''not_in'' then value \<notin> set (mc_Values spec) else value \<in> set (mc_Values spec))
      else False)"

definition field_holds :: "Lib \<Rightarrow> AuditEvent \<Rightarrow> string \<times> MatchCondition \<Rightarrow> bool" where
  "field_holds L evt fs =
     (case eventFieldValue L evt (fst fs) of (value, ok) \<Rightarrow> ok \<and> value \<noteq> [] \<and> spec_holds L (snd fs) value)"

definition rule_holds :: "Lib \<Rightarrow> Commandment \<Rightarrow> AuditEvent \<Rightarrow> bool" where
  "rule_holds L r evt = (\<forall>fs \<in> set (c_Match r). field_holds L evt fs)"

lemma Match_compiled: "CompileMatcher L spec = Inr (m, n) \<Longrightarrow> Match L m value = spec_holds L spec value"
proof -
  assume c: "CompileMatcher L spec = Inr (m, n)"
  show ?thesis
  proof (cases "mc_Type spec = MatcherTypeGlob")
    case True
    with Match_glob_compiled(1) [OF True c] show ?thesis by (simp add: spec_holds_def matcher_type_defs)
  next
    case False
    with c show ?thesis
      by (auto simp: CompileMatcher_def spec_holds_def NewListMatcher_def bind_result_Inr_iff
          split: if_splits option.splits sum.splits)
  qed
qed

lemma compile_fields_holds:
  assumes "compile_fields L name m tot fs = Inr (cs, t)" "set fs \<subseteq> dom m"
  shows "list_all (condition_holds L evt) cs \<longleftrightarrow> (\<forall>f \<in> set fs. field_holds L evt (f, the (m f)))"
  using assms
proof (induction fs arbitrary: tot cs t)
  case Nil
  then show ?case by simp
next
  case (Cons f fs)
  from Cons.prems(2) obtain spec where spec: "m f = Some spec" by auto
  from Cons.prems(1) spec obtain mt n cs' where
    mt: "CompileMatcher L spec = Inr (mt, n)" and
    rest: "compile_fields L name m (tot + n) fs = Inr (cs', t)" and
    cs: "cs = \<lparr>cc_field = f, cc_matcher = mt\<rparr> # cs'"
    by (auto simp: bind_result_Inr_iff split: sum.splits prod.splits if_splits)
  have "condition_holds L evt \<lparr>cc_field = f, cc_matcher = mt\<rparr> = field_holds L evt (f, spec)"
    by (simp add: condition_holds_def field_holds_def Match_compiled [OF mt] split: prod.splits)
  with Cons.IH [OF rest] Cons.prems(2) spec cs show ?case by simp
qed

definition map_ok :: "Commandment \<Rightarrow> bool" where
  "map_ok r = distinct (map fst (c_Match r))"

lemma compile_fields_rule_holds:
  assumes "map_ok r"
    and "compile_fields L (c_Name r) (map_of (c_Match r)) tot (sort (map fst (c_Match r))) = Inr (cs, t)"
  shows "list_all (condition_holds L evt) cs = rule_holds L r evt"
proof -
  have "set (sort (map fst (c_Match r))) \<subseteq> dom (map_of (c_Match r))" by (simp add: dom_map_of_conv_image_fst)
  from compile_fields_holds [OF assms(2) this, of evt]
  have "list_all (condition_holds L evt) cs \<longleftrightarrow>
      (\<forall>f \<in> fst ` set (c_Match r). field_holds L evt (f, the (map_of (c_Match r) f)))" by simp
  also have "\<dots> \<longleftrightarrow> rule_holds L r evt"
    using assms(1) by (auto simp: rule_holds_def map_ok_def map_of_eq_Some_iff [THEN iffD2])
  finally show ?thesis .
qed

lemma compile_sorted_rules:
  assumes "compile_sorted L tot rs = Inr out"
  shows "map cr_rule out = rs \<and>
    (\<forall>cr \<in> set out. map_ok (cr_rule cr) \<longrightarrow> matches L cr evt = rule_holds L (cr_rule cr) evt)"
  using assms
proof (induction rs arbitrary: tot out)
  case Nil
  then show ?case by simp
next
  case (Cons r rs)
  from Cons.prems obtain cs t out' where
    cs: "compile_fields L (c_Name r) (map_of (c_Match r)) tot (sort (map fst (c_Match r))) = Inr (cs, t)" and
    out': "compile_sorted L t rs = Inr out'" and
    out: "out = \<lparr>cr_rule = r, cr_conditions = cs\<rparr> # out'"
    by (auto simp: bind_result_Inr_iff split: prod.splits)
  show ?case
    using Cons.IH [OF out'] out compile_fields_rule_holds [OF _ cs] by (simp add: matches_def)
qed

section \<open>The order of the file does not matter\<close>

text \<open>
  Two rules that differ only in the order their match map is ranged over.
\<close>

definition same_rule :: "Commandment \<Rightarrow> Commandment \<Rightarrow> bool" where
  "same_rule a b = (mset (c_Match a) = mset (c_Match b) \<and> a = b\<lparr>c_Match := c_Match a\<rparr>)"

lemma mset_map_of:
  assumes "mset xs = mset ys" "distinct (map fst xs)"
  shows "map_of xs = map_of ys" and "sort (map fst xs) = sort (map fst ys)"
proof -
  have "mset (map fst xs) = mset (map fst ys)" using assms(1) by simp
  then have "distinct (map fst ys)" using assms(2) by (metis mset_eq_imp_distinct_iff)
  with assms show "map_of xs = map_of ys" by (metis map_of_inject_set mset_eq_setD)
  show "sort (map fst xs) = sort (map fst ys)"
    by (rule sort_key_inj_key_eq) (use assms in \<open>auto simp: sorted_sort\<close>)
qed

text \<open>The compiled rule without the list form of its match map.\<close>

definition core :: "compiledRule \<Rightarrow> Commandment \<times> compiledCondition list" where
  "core cr = ((cr_rule cr)\<lparr>c_Match := []\<rparr>, cr_conditions cr)"

definition map_result :: "('a \<Rightarrow> 'b) \<Rightarrow> 'e + 'a \<Rightarrow> 'e + 'b" where
  "map_result f r = (case r of Inl e \<Rightarrow> Inl e | Inr x \<Rightarrow> Inr (f x))"

lemma compile_sorted_same:
  assumes "list_all2 same_rule rs rs'" "list_all map_ok rs"
  shows "map_result (map core) (compile_sorted L t rs) = map_result (map core) (compile_sorted L t rs')"
  using assms
proof (induction arbitrary: t rule: list_all2_induct)
  case Nil
  then show ?case by simp
next
  case (Cons r rs r' rs')
  have m: "map_of (c_Match r) = map_of (c_Match r')" "sort (map fst (c_Match r)) = sort (map fst (c_Match r'))"
    using mset_map_of [of "c_Match r" "c_Match r'"] Cons.hyps(1) Cons.prems
    by (auto simp: same_rule_def map_ok_def)
  have n: "c_Name r' = c_Name r" and r': "r'\<lparr>c_Match := []\<rparr> = r\<lparr>c_Match := []\<rparr>"
    using Cons.hyps(1) by (cases r; cases r'; simp add: same_rule_def)+
  show ?case
  proof (cases "compile_fields L (c_Name r) (map_of (c_Match r)) t (sort (map fst (c_Match r)))")
    case (Inl e)
    then show ?thesis by (simp add: m [symmetric] n map_result_def)
  next
    case (Inr x)
    obtain cs t' where x: "x = (cs, t')" by (cases x)
    have "map_result (map core) (compile_sorted L t' rs) = map_result (map core) (compile_sorted L t' rs')"
      using Cons by simp
    moreover have "core \<lparr>cr_rule = r, cr_conditions = cs\<rparr> = core \<lparr>cr_rule = r', cr_conditions = cs\<rparr>"
      using r' by (simp add: core_def)
    ultimately show ?thesis
      using Inr x by (simp add: m [symmetric] n map_result_def bind_result_def split: sum.splits)
  qed
qed

lemma inj_on_rule_key: "distinct (map c_Name rs) \<Longrightarrow> inj_on rule_key (set rs)"
  by (auto simp: distinct_map inj_on_def rule_key_def)

lemma insort_key_all2:
  assumes "list_all2 P xs ys" "P x y" "\<And>a b. P a b \<Longrightarrow> f a = f b"
  shows "list_all2 P (insort_key f x xs) (insort_key f y ys)"
  using assms(1,2) assms(3) [OF assms(2)]
  by (induction rule: list_all2_induct) (auto dest: assms(3))

lemma sort_key_all2:
  assumes "list_all2 P xs ys" "\<And>a b. P a b \<Longrightarrow> f a = f b"
  shows "list_all2 P (sort_key f xs) (sort_key f ys)"
  using assms(1) by (induction rule: list_all2_induct) (auto intro: insort_key_all2 dest: assms(2))

lemma same_rule_key: "same_rule a b \<Longrightarrow> rule_key a = rule_key b"
  by (cases a; cases b; simp add: same_rule_def rule_key_def)

text \<open>Evaluating an event against a rule file: compile, then evaluate.\<close>

definition evaluate_file :: "Lib \<Rightarrow> Commandment list \<Rightarrow> AuditEvent \<Rightarrow> SchemaError + EvalResult" where
  "evaluate_file L rules evt =
     map_result (\<lambda>rs. Evaluate L \<lparr>en_rules = rs, en_path = [], en_fallbackYAML = []\<rparr> (Some evt)) (compileRules L rules)"

lemma Evaluate_core:
  assumes "map core rs = map core rs'"
  shows "Evaluate L \<lparr>en_rules = rs, en_path = p, en_fallbackYAML = y\<rparr> (Some evt) =
    Evaluate L \<lparr>en_rules = rs', en_path = p, en_fallbackYAML = y\<rparr> (Some evt)"
proof -
  have fields: "core a = core b \<Longrightarrow> c_Name (cr_rule a) = c_Name (cr_rule b) \<and> IsEnabled (cr_rule a) = IsEnabled (cr_rule b) \<and>
      triggered_of (cr_rule a) = triggered_of (cr_rule b) \<and> matches L a evt = matches L b evt" for a b
    by (cases "cr_rule a"; cases "cr_rule b")
      (simp add: core_def IsEnabled_def triggered_of_def matches_def)
  have "list_all2 (\<lambda>a b. core a = core b) rs rs'"
    using assms by (simp add: list_all2_conv_all_nth list_eq_iff_nth_eq)
  then show ?thesis
    unfolding Evaluate_eq by (induction rule: list_all2_induct) (auto dest: fields)
qed

lemma map_result_core_eq:
  assumes "map_result (map core) a = map_result (map core) b"
  shows "map_result (\<lambda>rs. Evaluate L \<lparr>en_rules = rs, en_path = p, en_fallbackYAML = y\<rparr> (Some evt)) a =
    map_result (\<lambda>rs. Evaluate L \<lparr>en_rules = rs, en_path = p, en_fallbackYAML = y\<rparr> (Some evt)) b"
  using assms by (auto simp: map_result_def intro: Evaluate_core split: sum.splits)

text \<open>The order of the rules in the file, and the order Go ranges over their match maps, do not
  matter: two files that list the same rules (distinct names) in any order give the same
  compile error or the same evaluation of every event, in the same order.\<close>

theorem evaluate_order_independent:
  assumes "mset rules = mset perm" "list_all2 same_rule perm rules'"
    and "distinct (map c_Name rules)" "\<forall>r \<in> set rules. map_ok r"
  shows "evaluate_file L rules evt = evaluate_file L rules' evt"
proof -
  have "sort_key rule_key rules = sort_key rule_key perm"
    by (rule sort_key_inj_key_eq) (use assms inj_on_rule_key [OF assms(3)] in auto)
  moreover have "list_all2 same_rule (sort_key rule_key perm) (sort_key rule_key rules')"
    by (rule sort_key_all2 [OF assms(2) same_rule_key])
  moreover have "list_all map_ok (sort_key rule_key perm)"
    using assms(1,4) by (simp add: list_all_iff mset_eq_setD [OF assms(1), symmetric])
  ultimately show ?thesis
    unfolding evaluate_file_def compileRules_def by (auto intro: map_result_core_eq compile_sorted_same)
qed

definition sample_condition :: "string \<Rightarrow> MatchCondition" where
  "sample_condition p = zero_condition\<lparr>mc_Type := MatcherTypeExact, mc_Pattern := p\<rparr>"

definition sample_rule :: "string \<Rightarrow> int \<Rightarrow> Commandment" where
  "sample_rule name prio = \<lparr>c_Name = name, c_Description = [], c_Enforcement = ''block'', c_Priority = prio,
     c_Enabled = None, c_Match = [(''tool_name'', sample_condition ''Bash''), (''agent_id'', sample_condition ''proxy'')],
     c_Redact = False, c_Message = []\<rparr>"

text \<open>A library for concrete evaluations: no pattern matches, no number parses.\<close>

definition sample_lib :: Lib where
  "sample_lib = \<lparr>regex_error = (\<lambda>_. None), regex_match = (\<lambda>_ _. False), regex_find_all = (\<lambda>_ _. []),
     glob_match = (\<lambda>_ _. Ok False), parse_float = (\<lambda>_. None), format_float = (\<lambda>_. ''0'')\<rparr>"

lemma same_rule_refl [simp]: "same_rule r r"
  by (simp add: same_rule_def)

theorem evaluate_order_independent_witness:
  "let r = sample_rule ''b'' 2
   in evaluate_file sample_lib [sample_rule ''a'' 1, r] zero_event =
      evaluate_file sample_lib [r\<lparr>c_Match := rev (c_Match r)\<rparr>, sample_rule ''a'' 1] zero_event"
proof -
  let ?a = "sample_rule ''a'' 1" let ?r = "sample_rule ''b'' 2"
  let ?r' = "?r\<lparr>c_Match := rev (c_Match ?r)\<rparr>"
  have "list_all2 same_rule [?r, ?a] [?r', ?a]" by (simp add: same_rule_def)
  moreover have "mset [?a, ?r] = mset [?r, ?a]" by simp
  moreover have "distinct (map c_Name [?a, ?r])" by (simp add: sample_rule_def)
  moreover have "\<forall>r \<in> set [?a, ?r]. map_ok r" by (simp add: sample_rule_def map_ok_def)
  ultimately show ?thesis
    using evaluate_order_independent [of "[?a, ?r]" "[?r, ?a]" "[?r', ?a]" sample_lib zero_event] by simp
qed

lemma Evaluate_policy:
  assumes "compileRules L rules = Inr compiled" "\<forall>r \<in> set rules. map_ok r"
  shows "Evaluate L (e\<lparr>en_rules := compiled\<rparr>) (Some evt) =
    \<lparr>er_Evaluated = map c_Name (filter IsEnabled (sort_key rule_key rules)),
     er_Triggered = map triggered_of (filter (\<lambda>r. IsEnabled r \<and> rule_holds L r evt) (sort_key rule_key rules))\<rparr>"
proof -
  have c: "map cr_rule compiled = sort_key rule_key rules"
    and m: "\<forall>cr \<in> set compiled. map_ok (cr_rule cr) \<longrightarrow> matches L cr evt = rule_holds L (cr_rule cr) evt"
    using compile_sorted_rules [OF assms(1) [unfolded compileRules_def], of evt] by auto
  have "cr_rule ` set compiled = set rules" by (metis c list.set_map set_sort)
  with m assms(2) have "filter (\<lambda>r. IsEnabled (cr_rule r) \<and> matches L r evt) compiled =
      filter (\<lambda>r. IsEnabled (cr_rule r) \<and> rule_holds L (cr_rule r) evt) compiled"
    by (intro filter_cong) auto
  then show ?thesis
    unfolding Evaluate_eq c [symmetric] by (simp add: filter_map comp_def)
qed

text \<open>C10: A compiled rule file evaluates to its meaning: the evaluated names are those of the enabled
  rules, highest priority first and by name within a priority, and the triggered rules are
  exactly the enabled rules all of whose conditions the event satisfies, in that order.\<close>

theorem Evaluate_meets_policy:
  assumes "compileRules L rules = Inr compiled" "\<forall>r \<in> set rules. map_ok r"
  shows "Evaluate L (e\<lparr>en_rules := compiled\<rparr>) (Some evt) =
    \<lparr>er_Evaluated = map c_Name (filter IsEnabled (sort_key rule_key rules)),
     er_Triggered = map triggered_of (filter (\<lambda>r. IsEnabled r \<and> rule_holds L r evt) (sort_key rule_key rules))\<rparr>"
  using assms by (rule Evaluate_policy)

definition proxy_bash_event :: AuditEvent where
  "proxy_bash_event = zero_event\<lparr>ev_AgentID := ''proxy'', ev_ToolName := ''Bash''\<rparr>"

lemma compile_sample_rule:
  "compileRules L [sample_rule name p] = Inr [\<lparr>cr_rule = sample_rule name p, cr_conditions =
     [\<lparr>cc_field = ''agent_id'', cc_matcher = ExactMatcher ''proxy''\<rparr>,
      \<lparr>cc_field = ''tool_name'', cc_matcher = ExactMatcher ''Bash''\<rparr>]\<rparr>]"
  by (simp add: compileRules_def sample_rule_def sample_condition_def CompileMatcher_def MaxCompiledPatterns_def)

theorem Evaluate_meets_policy_witness:
  "\<exists>compiled. compileRules sample_lib [sample_rule ''no-bash'' 5] = Inr compiled \<and>
    Evaluate sample_lib \<lparr>en_rules = compiled, en_path = [], en_fallbackYAML = []\<rparr> (Some proxy_bash_event) =
      \<lparr>er_Evaluated = [''no-bash''],
       er_Triggered = [\<lparr>tr_Name = ''no-bash'', tr_Enforcement = ''block'', tr_Message = []\<rparr>]\<rparr>"
proof -
  have "\<forall>r \<in> set [sample_rule ''no-bash'' 5]. map_ok r" by (simp add: map_ok_def sample_rule_def)
  from Evaluate_meets_policy [OF compile_sample_rule this, of sample_lib
      "\<lparr>en_rules = [], en_path = [], en_fallbackYAML = []\<rparr>" proxy_bash_event]
  show ?thesis
    unfolding compile_sample_rule
    by (simp add: sample_rule_def IsEnabled_def rule_holds_def field_holds_def eventFieldValue_def
        nonempty_field_def sample_condition_def spec_holds_def triggered_of_def proxy_bash_event_def)
qed

section \<open>Validation and compilation\<close>

text \<open>
  The validator trims the type of a condition and the pattern of a regular expression before
  it looks at them; the compiler does not. For a rule whose types and regular expressions
  carry no surrounding white space the two agree.
\<close>

definition trimmed :: "MatchCondition \<Rightarrow> bool" where
  "trimmed spec = (trim_space (mc_Type spec) = mc_Type spec \<and>
     (mc_Type spec = MatcherTypeRegex \<longrightarrow> trim_space (mc_Pattern spec) = mc_Pattern spec))"

lemma validated_compiles:
  assumes "validateMatchCondition L spec = Inr n" "trimmed spec"
  shows "\<exists>m. CompileMatcher L spec = Inr (m, n)"
proof (cases "mc_Type spec = MatcherTypeGlob")
  case True
  with assms show ?thesis
    by (auto simp: CompileMatcher_glob validateMatchCondition_def trimmed_def matcher_type_defs Let_def
        split: if_splits option.splits list.splits)
next
  case False
  with assms show ?thesis
    by (auto simp: CompileMatcher_def validateMatchCondition_def trimmed_def bind_result_Inr_iff Let_def
        split: if_splits option.splits)
qed

lemma compile_fields_Ok:
  assumes "\<forall>f \<in> set fs. \<exists>spec n. m f = Some spec \<and> validateMatchCondition L spec = Inr n \<and> trimmed spec"
    and "tot + sum_list (map (\<lambda>f. field_count L (the (m f))) fs) \<le> MaxCompiledPatterns"
  shows "\<exists>cs. compile_fields L name m tot fs = Inr (cs, tot + sum_list (map (\<lambda>f. field_count L (the (m f))) fs))"
  using assms
proof (induction fs arbitrary: tot)
  case Nil
  then show ?case by simp
next
  case (Cons f fs)
  from Cons.prems(1) obtain spec n where f: "m f = Some spec" "validateMatchCondition L spec = Inr n" "trimmed spec"
    by auto
  from validated_compiles [OF f(2,3)] obtain mt where mt: "CompileMatcher L spec = Inr (mt, n)" ..
  have n: "field_count L spec = n" using f(2) by (simp add: field_count_def)
  from Cons.IH [of "tot + n"] Cons.prems f(1) n obtain cs where
    "compile_fields L name m (tot + n) fs = Inr (cs, tot + n + sum_list (map (\<lambda>f. field_count L (the (m f))) fs))"
    by (auto simp: add.assoc)
  with Cons.prems f(1) mt n show ?case by (simp add: add.assoc)
qed

lemma sum_over_map_of:
  assumes "map_ok r"
  shows "sum_list (map (\<lambda>f. field_count L (the (map_of (c_Match r) f))) (sort (map fst (c_Match r)))) = rule_count L r"
proof -
  have "sum_list (map g (sort (map fst (c_Match r)))) = sum_list (map g (map fst (c_Match r)))" for g :: "string \<Rightarrow> nat"
    by (metis mset_map mset_sort sum_mset_sum_list)
  moreover have "map (\<lambda>f. field_count L (the (map_of (c_Match r) f))) (map fst (c_Match r)) =
      map (\<lambda>fs. field_count L (snd fs)) (c_Match r)"
    using assms by (auto simp: map_ok_def map_of_eq_Some_iff [THEN iffD2])
  ultimately show ?thesis by (simp only: rule_count_def)
qed

lemma compile_sorted_Ok:
  assumes "list_all (rule_ok L) rs" "list_all map_ok rs" "\<forall>r \<in> set rs. \<forall>fs \<in> set (c_Match r). trimmed (snd fs)"
    and "tot + sum_list (map (rule_count L) rs) \<le> MaxCompiledPatterns"
  shows "\<exists>out. compile_sorted L tot rs = Inr out"
  using assms
proof (induction rs arbitrary: tot)
  case Nil
  then show ?case by simp
next
  case (Cons r rs)
  let ?fs = "sort (map fst (c_Match r))"
  have "\<forall>f \<in> set ?fs. \<exists>spec n. map_of (c_Match r) f = Some spec \<and> validateMatchCondition L spec = Inr n \<and> trimmed spec"
    using Cons.prems(1-3) by (fastforce simp: rule_ok_def field_ok_def map_ok_def list_all_iff)
  moreover have sum: "sum_list (map (\<lambda>f. field_count L (the (map_of (c_Match r) f))) ?fs) = rule_count L r"
    using Cons.prems(2) by (simp add: sum_over_map_of)
  ultimately obtain cs where
    cs: "compile_fields L (c_Name r) (map_of (c_Match r)) tot ?fs = Inr (cs, tot + rule_count L r)"
    using compile_fields_Ok [of ?fs "map_of (c_Match r)" L tot "c_Name r"] Cons.prems(4) by auto
  from Cons.IH [of "tot + rule_count L r"] Cons.prems obtain out where
    "compile_sorted L (tot + rule_count L r) rs = Inr out" by (auto simp: add.assoc)
  with cs show ?case by simp
qed

text \<open>A rule set that validation accepts compiles, whatever its order, as long as no condition type
  and no regular expression carries surrounding white space.\<close>

theorem Validate_compiles:
  assumes "Validate L rs = None" "\<forall>r \<in> set (rs_Commandments rs). map_ok r"
    and "\<forall>r \<in> set (rs_Commandments rs). \<forall>fs \<in> set (c_Match r). trimmed (snd fs)"
  shows "\<exists>compiled. compileRules L (rs_Commandments rs) = Inr compiled"
proof -
  let ?rs = "rs_Commandments rs" let ?ss = "sort_key rule_key ?rs"
  have v: "valid_rules L rs"
    using assms(1) validate_rules_Ok [of 0 L 0 "{}" ?rs]
    by (auto simp: Validate_def valid_rules_def split: if_splits sum.splits)
  have "sum_list (map (rule_count L) ?ss) = sum_list (map (rule_count L) ?rs)"
    by (metis mset_map mset_sort sum_mset_sum_list)
  with v assms(2,3) show ?thesis
    unfolding compileRules_def by (intro compile_sorted_Ok) (auto simp: valid_rules_def list_all_iff)
qed

theorem Validate_compiles_witness:
  "\<exists>compiled. compileRules sample_lib [sample_rule ''no-bash'' 5] = Inr compiled"
proof -
  let ?rs = "\<lparr>rs_Version = ''1'', rs_Commandments = [sample_rule ''no-bash'' 5]\<rparr>"
  have "Validate sample_lib ?rs = None" by code_simp
  moreover have "\<forall>r \<in> set (rs_Commandments ?rs). map_ok r" by (simp add: map_ok_def sample_rule_def)
  moreover have "\<forall>r \<in> set (rs_Commandments ?rs). \<forall>fs \<in> set (c_Match r). trimmed (snd fs)"
    by code_simp
  ultimately show ?thesis using Validate_compiles [of sample_lib ?rs] by simp
qed

text \<open>Where they disagree: validation accepts a rule whose condition type is \<open>exact\<close> followed by a
  blank, and compiling the same rule set fails with an unsupported matcher type.\<close>

theorem padded_type_validates_not_compiles:
  "let r = (sample_rule ''no-bash'' 5)\<lparr>c_Match := [(''tool_name'', (sample_condition ''Bash'')\<lparr>mc_Type := ''exact ''\<rparr>)]\<rparr>
   in Validate L \<lparr>rs_Version = ''1'', rs_Commandments = [r]\<rparr> = None \<and>
      compileRules L [r] = Inl (CompileFailed ''no-bash'' ''tool_name'' (UnsupportedMatcherType ''exact ''))"
proof -
  have "trim_space ''exact '' = ''exact''" "trim_space ''no-bash'' = ''no-bash''"
    "trim_space ''tool_name'' = ''tool_name''" "trim_space ''Bash'' = ''Bash''"
    by code_simp+
  then show ?thesis
    by (simp add: Validate_def SchemaVersionV1_def MaxRules_def sample_rule_def sample_condition_def
        validateMatchCondition_def matcher_type_defs MaxCompiledPatterns_def validatePatternLen_def
        MaxPatternChars_def compileRules_def CompileMatcher_def Let_def)
qed

section \<open>Reloading\<close>

text \<open>What an engine holds: nothing yet, or rules compiled from a validated rule set.\<close>

definition engine_ok :: "Lib \<Rightarrow> Engine \<Rightarrow> bool" where
  "engine_ok L e = (\<exists>rs. Validate L rs = None \<and> compileRules L (rs_Commandments rs) = Inr (en_rules e))"

lemma loadRuleSet_valid: "loadRuleSet L yaml readFile path fb = Inr rs \<Longrightarrow> Validate L rs = None"
  by (auto simp: loadRuleSet_def LoadYAML_def Let_def split: if_splits ReadResult.splits sum.splits option.splits)

text \<open>A reload is atomic: if it reports an error the engine is unchanged, otherwise its rules are the
  compilation of a validated rule set; so an engine that ever held validated rules always does.\<close>

theorem Reload_atomic:
  "case Reload L yaml readFile e path of
     (Some err, e') \<Rightarrow> e' = e
   | (None, e') \<Rightarrow> engine_ok L e' \<and> en_fallbackYAML e' = en_fallbackYAML e"
  by (auto simp: Reload_def Let_def engine_ok_def dest: loadRuleSet_valid split: sum.splits)

lemma engine_ok_Reload [inv_rule]: "engine_ok L e \<Longrightarrow> engine_ok L (snd (Reload L yaml readFile e path))"
  by (auto simp: Reload_def Let_def engine_ok_def dest: loadRuleSet_valid split: sum.splits)

lemma engine_ok_New: "NewEngine L yaml readFile path fb = Inr e \<Longrightarrow> engine_ok L e"
  by (auto simp: NewEngine_def Reload_def Let_def engine_ok_def dest: loadRuleSet_valid split: sum.splits)

end
