(* ===== verification/Go_Json.thy ===== *)
theory Go_Json
  imports Go_Prelude "HOL-Library.Product_Lexorder"
begin

text \<open>
  Package encoding/json as crabwise uses it. A JSON value is a datatype, an object the list
  of its members in the order they are written. \<open>json_print\<close> is \<open>json.Marshal\<close>'s output: no
  spaces, the string escapes of the encoder (with HTML escaping, and \<open>\ufffd\<close> for invalid
  UTF-8), a number as its literal; \<open>JRaw\<close> is a value given as encoded (\<open>json.RawMessage\<close>), which
  parsing never yields. A Go map is written with its keys sorted. Parsing
  (\<open>json.Unmarshal\<close>) is a parameter of the definitions that need it.
\<close>

section \<open>Values\<close>

datatype json =
  JNull
| JBool bool
| JNum string
| JStr string
| JArr "json list"
| JObj "(string \<times> json) list"
| JRaw string

section \<open>String escapes\<close>

definition in_range :: "nat \<Rightarrow> nat \<Rightarrow> char \<Rightarrow> bool" where
  "in_range lo hi c = (lo \<le> of_char c \<and> of_char c \<le> hi)"

text \<open>The length of the UTF-8 encoded rune a string starts with, 0 where it is invalid.\<close>

fun utf8_len :: "string \<Rightarrow> nat" where
  "utf8_len [] = 0"
| "utf8_len (a # s) =
     (if in_range 0 127 a then 1
      else (case s of
        [] \<Rightarrow> 0
      | b # s' \<Rightarrow>
         (if in_range 0xC2 0xDF a then (if in_range 0x80 0xBF b then 2 else 0)
          else (case s' of
            [] \<Rightarrow> 0
          | c # s'' \<Rightarrow>
             (if in_range 0xE0 0xEF a then
                (if (if a = CHR 0xE0 then in_range 0xA0 0xBF b
                     else if a = CHR 0xED then in_range 0x80 0x9F b else in_range 0x80 0xBF b)
                    \<and> in_range 0x80 0xBF c then 3 else 0)
              else (case s'' of
                [] \<Rightarrow> 0
              | d # _ \<Rightarrow>
                 (if in_range 0xF0 0xF4 a \<and>
                     (if a = CHR 0xF0 then in_range 0x90 0xBF b
                      else if a = CHR 0xF4 then in_range 0x80 0x8F b else in_range 0x80 0xBF b)
                     \<and> in_range 0x80 0xBF c \<and> in_range 0x80 0xBF d then 4 else 0)))))))"

definition backslash :: string where "backslash = [CHR 0x5C]"

definition hex_lower :: "nat \<Rightarrow> char" where
  "hex_lower n = (if n < 10 then char_of (48 + n) else char_of (87 + n))"

text \<open>How the encoder writes one ASCII byte.\<close>

definition escape_byte :: "char \<Rightarrow> string" where
  "escape_byte c =
     (if c = CHR 0x22 \<or> c = CHR 0x5C then backslash @ [c]
      else if c = CHR 0x08 then backslash @ ''b''
      else if c = CHR 0x0C then backslash @ ''f''
      else if c = CHR 0x0A then backslash @ ''n''
      else if c = CHR 0x0D then backslash @ ''r''
      else if c = CHR 0x09 then backslash @ ''t''
      else if of_char c < (32 :: nat) \<or> c = CHR ''<'' \<or> c = CHR ''>'' \<or> c = CHR ''&'' then
        backslash @ ''u00'' @ [hex_lower (of_char c div 16), hex_lower (of_char c mod 16)]
      else [c])"

function escape_string :: "string \<Rightarrow> string" where
  "escape_string s =
     (case s of
        [] \<Rightarrow> []
      | c # s' \<Rightarrow>
         (if in_range 0 127 c then escape_byte c @ escape_string s'
          else if utf8_len s = 0 then backslash @ ''ufffd'' @ escape_string s'
          else if take 3 s = [CHR 0xE2, CHR 0x80, CHR 0xA8] then backslash @ ''u2028'' @ escape_string (drop 3 s)
          else if take 3 s = [CHR 0xE2, CHR 0x80, CHR 0xA9] then backslash @ ''u2029'' @ escape_string (drop 3 s)
          else take (utf8_len s) s @ escape_string (drop (utf8_len s) s)))"
  by pat_completeness auto
termination
  by (relation "measure length") auto

declare escape_string.simps [simp del]

definition quote_string :: "string \<Rightarrow> string" where
  "quote_string s = [CHR 0x22] @ escape_string s @ [CHR 0x22]"

section \<open>Marshal\<close>

fun json_print :: "json \<Rightarrow> string" where
  "json_print JNull = ''null''"
| "json_print (JBool b) = (if b then ''true'' else ''false'')"
| "json_print (JNum n) = n"
| "json_print (JStr s) = quote_string s"
| "json_print (JArr vs) = ''['' @ join (map json_print vs) '','' @ '']''"
| "json_print (JRaw s) = s"
| "json_print (JObj kvs) =
     ''{'' @ join (map (\<lambda>kv. quote_string (fst kv) @ '':'' @ json_print (snd kv)) kvs) '','' @ ''}''"

text \<open>A \<open>map[string]T\<close>: distinct keys, written in sorted order.\<close>

definition json_map :: "(string \<times> json) list \<Rightarrow> json" where
  "json_map kvs = JObj (sort_key fst kvs)"

lemma json_print_empty_array [simp]: "json_print (JArr []) = ''[]''"
  by simp

lemma json_print_array_empty_iff:
  assumes "\<forall>v \<in> set vs. json_print v \<noteq> []"
  shows "json_print (JArr vs) = ''[]'' \<longleftrightarrow> vs = []"
proof
  assume eq: "json_print (JArr vs) = ''[]''"
  show "vs = []"
  proof (cases vs)
    case (Cons v ws)
    then have "json_print v \<noteq> []" using assms by simp
    with eq Cons show ?thesis by (cases ws) auto
  qed
qed simp

lemma json_print_JStr_nonempty [simp]: "json_print (JStr s) \<noteq> []"
  by (simp add: quote_string_def)

lemma json_print_JObj_nonempty [simp]: "json_print (JObj kvs) \<noteq> []"
  by simp

end
