(* ===== verification/Logger.thy ===== *)
theory Logger
  imports Event_Store Event_Queue Redaction Rule_Engine Go_Json
begin

text \<open>
  \<open>internal/audit/logger.go\<close>: one goroutine takes the events from the queue, evaluates the
  commandments, escalates the outcome, redacts, chains the hashes and writes batches to the
  store. \<open>flush\<close>, \<open>processEvent\<close> and \<open>processOverflow\<close> are functions on the logger's state;
  the loop that calls them is the relation \<open>lstep\<close>, one step per channel operation, in which
  senders and a closer interleave. The evaluator, the redactor and the store are the
  interfaces of the code, given as functions. A missing evaluator or redactor is \<open>None\<close>.
\<close>

section \<open>Types\<close>

record AuditTriggeredRule =
  atr_Name :: string
  atr_Enforcement :: string
  atr_Message :: string

record AuditEvalResult =
  aer_Evaluated :: "string list"
  aer_Triggered :: "AuditTriggeredRule list"

type_synonym Evaluator = "AuditEvent \<Rightarrow> AuditEvalResult"
type_synonym EventRedactor = "AuditEvent \<Rightarrow> bool \<Rightarrow> AuditEvent"

text \<open>What the queue carries: \<open>interface{}\<close> values, of which the logger takes the events.\<close>

datatype QItem = EventItem AuditEvent | OtherItem

text \<open>
  \<open>batch\<close>, \<open>lastEpoch\<close> are the loop's local variables. A subscriber is a channel with its
  buffered events; \<open>lg_gone\<close> are the channels that were closed.
\<close>

record 's Logger =
  lg_store :: 's
  lg_batchSize :: int
  lg_prevHash :: string
  lg_subscribers :: "(nat \<times> AuditEvent list) list"
  lg_nextChan :: nat
  lg_gone :: "nat set"
  lg_batch :: "AuditEvent list"
  lg_lastEpoch :: string

definition NewLogger :: "'s EventStore \<Rightarrow> 's \<Rightarrow> int \<Rightarrow> error + 's Logger" where
  "NewLogger api s batchSize =
     (case es_GetLastEventHash api s of
        (Inl err, s) \<Rightarrow> Err err
      | (Inr prevHash, s) \<Rightarrow> Ok \<lparr>lg_store = s, lg_batchSize = batchSize, lg_prevHash = prevHash,
          lg_subscribers = [], lg_nextChan = 0, lg_gone = {}, lg_batch = [], lg_lastEpoch = []\<rparr>)"

section \<open>Subscribers\<close>

definition sub_capacity :: nat where "sub_capacity = 256"

definition Subscribe :: "'s Logger \<Rightarrow> nat \<times> 's Logger" where
  "Subscribe l = (lg_nextChan l,
     l\<lparr>lg_subscribers := lg_subscribers l @ [(lg_nextChan l, [])], lg_nextChan := Suc (lg_nextChan l)\<rparr>)"

text \<open>Closing a channel a second time panics: no result.\<close>

definition Unsubscribe :: "'s Logger \<Rightarrow> nat \<Rightarrow> 's Logger option" where
  "Unsubscribe l ch =
     (if ch \<in> lg_gone l then None
      else Some (l\<lparr>lg_subscribers := filter (\<lambda>(c, _). c \<noteq> ch) (lg_subscribers l), lg_gone := insert ch (lg_gone l)\<rparr>))"

text \<open>\<open>select { case ch <- e: default: }\<close>\<close>

definition offer :: "AuditEvent \<Rightarrow> nat \<times> AuditEvent list \<Rightarrow> nat \<times> AuditEvent list" where
  "offer e c = (fst c, if length (snd c) < sub_capacity then snd c @ [e] else snd c)"

definition notify :: "AuditEvent list \<Rightarrow> (nat \<times> AuditEvent list) list \<Rightarrow> (nat \<times> AuditEvent list) list" where
  "notify batch subs = foldl (\<lambda>subs e. map (offer e) subs) subs batch"

section \<open>Outcomes\<close>

definition outcomeForEnforcement :: "string \<Rightarrow> string \<Rightarrow> Outcome" where
  "outcomeForEnforcement enforcement adapterType =
     (if to_lower enforcement = ''warn'' then OutcomeWarned
      else if to_lower enforcement = ''block'' then
        (if adapterType = ''log_watcher'' then OutcomeWarned else OutcomeBlocked)
      else OutcomeSuccess)"

definition outcomeRank :: "Outcome \<Rightarrow> int" where
  "outcomeRank out =
     (if out = OutcomeSuccess then 0 else if out = OutcomeWarned then 1
      else if out = OutcomeFailure then 2 else if out = OutcomeBlocked then 3 else -1)"

definition isCommandmentsExemptSystemEvent :: "AuditEvent \<Rightarrow> bool" where
  "isCommandmentsExemptSystemEvent e =
     (ev_ActionType e = ActionSystem \<and>
      ev_Action e \<in> {''commandments_reload_ok'', ''commandments_reload_failed'', ''commandments_load_failed'',
        ''commandments_load_ok'', ''tool_registry_reload_ok'', ''tool_registry_reload_failed''})"

text \<open>The loop over the triggered rules.\<close>

definition escalate :: "AuditTriggeredRule list \<Rightarrow> AuditEvent \<Rightarrow> AuditEvent" where
  "escalate triggered e =
     foldl (\<lambda>e r. let candidate = outcomeForEnforcement (atr_Enforcement r) (ev_AdapterType e)
                  in if outcomeRank candidate > outcomeRank (ev_Outcome e) then e\<lparr>ev_Outcome := candidate\<rparr> else e)
       e triggered"

section \<open>Processing\<close>

definition json_triggered :: "AuditTriggeredRule \<Rightarrow> json" where
  "json_triggered r =
     JObj ([(''name'', JStr (atr_Name r)), (''enforcement'', JStr (atr_Enforcement r))] @
           (if atr_Message r = [] then [] else [(''message'', JStr (atr_Message r))]))"

text \<open>What the commandments make of an event, before it is hashed.\<close>

definition judge :: "Evaluator option \<Rightarrow> EventRedactor option \<Rightarrow> AuditEvent \<Rightarrow> AuditEvent" where
  "judge evaluator redactor e =
     (if isCommandmentsExemptSystemEvent e then e
      else
        let result = (case evaluator of Some f \<Rightarrow> f e | None \<Rightarrow> \<lparr>aer_Evaluated = [], aer_Triggered = []\<rparr>);
            e = e\<lparr>ev_CommandmentsEvaluated := json_print (JArr (map JStr (aer_Evaluated result))),
                  ev_CommandmentsTriggered := json_print (JArr (map json_triggered (aer_Triggered result)))\<rparr>;
            e = escalate (aer_Triggered result) e
        in (case redactor of Some f \<Rightarrow> f e (aer_Triggered result \<noteq> []) | None \<Rightarrow> e))"

definition seal :: "(string \<Rightarrow> string) \<Rightarrow> string \<Rightarrow> AuditEvent \<Rightarrow> AuditEvent" where
  "seal sum256 prevHash e =
     (let e = e\<lparr>ev_PrevHash := prevHash\<rparr> in e\<lparr>ev_EventHash := ComputeHash sum256 e prevHash\<rparr>)"

definition flush :: "'s EventStore \<Rightarrow> 's Logger \<Rightarrow> 's Logger" where
  "flush api l =
     (if lg_batch l = [] then l
      else case es_InsertEvents api (lg_store l) (lg_batch l) of
        (Some err, s) \<Rightarrow> l\<lparr>lg_store := s\<rparr>
      | (None, s) \<Rightarrow> l\<lparr>lg_store := s, lg_subscribers := notify (lg_batch l) (lg_subscribers l), lg_batch := []\<rparr>)"

definition processEvent ::
  "'s EventStore \<Rightarrow> Evaluator option \<Rightarrow> EventRedactor option \<Rightarrow> (string \<Rightarrow> string) \<Rightarrow> AuditEvent \<Rightarrow> 's Logger \<Rightarrow> 's Logger" where
  "processEvent api evaluator redactor sum256 e l =
     (let e = seal sum256 (lg_prevHash l) (judge evaluator redactor e);
          l = l\<lparr>lg_prevHash := ev_EventHash e\<rparr>;
          epoch = format_date (ev_Timestamp e);
          l = (if epoch \<noteq> lg_lastEpoch l
               then l\<lparr>lg_store := snd (es_InsertChainAnchor api (lg_store l) epoch (ev_ID e) (ev_EventHash e)),
                      lg_lastEpoch := epoch\<rparr>
               else l);
          l = l\<lparr>lg_batch := lg_batch l @ [e]\<rparr>
      in if int (length (lg_batch l)) \<ge> lg_batchSize l then flush api l else l)"

definition overflow_event :: "OverflowEvent \<Rightarrow> AuditEvent" where
  "overflow_event oe = zero_event\<lparr>ev_ID := oe_ID oe, ev_Timestamp := oe_Timestamp oe, ev_AgentID := ''crabwise'',
     ev_ActionType := ActionSystem, ev_Action := ''pipeline_overflow'', ev_Outcome := OutcomeWarned\<rparr>"

definition processItem ::
  "'s EventStore \<Rightarrow> Evaluator option \<Rightarrow> EventRedactor option \<Rightarrow> (string \<Rightarrow> string) \<Rightarrow> QItem \<Rightarrow> 's Logger \<Rightarrow> 's Logger" where
  "processItem api evaluator redactor sum256 item l =
     (case item of EventItem e \<Rightarrow> processEvent api evaluator redactor sum256 e l | OtherItem \<Rightarrow> l)"

section \<open>The serializer loop\<close>

text \<open>
  Where \<open>serializerLoop\<close> stands: emptying the control channel at the top of an iteration,
  in the \<open>select\<close>, draining after the context is done, emptying the control channel for the
  last time, returned. \<open>l_received\<close> is the history of the events taken from the channels.
\<close>

datatype loc = Top | Selecting | Draining | Final | Returned

record 's lsys =
  l_queue :: "QItem Queue"
  l_logger :: "'s Logger"
  l_loc :: loc
  l_received :: "AuditEvent list"

text \<open>Taking one event off a channel and processing it.\<close>

definition take_event ::
  "(AuditEvent \<Rightarrow> 's Logger \<Rightarrow> 's Logger) \<Rightarrow> AuditEvent \<Rightarrow> QItem Queue \<Rightarrow> loc \<Rightarrow> 's lsys \<Rightarrow> 's lsys" where
  "take_event process e q loc s =
     s\<lparr>l_queue := q, l_logger := process e (l_logger s), l_loc := loc, l_received := l_received s @ [e]\<rparr>"

definition take_item ::
  "(AuditEvent \<Rightarrow> 's Logger \<Rightarrow> 's Logger) \<Rightarrow> QItem \<Rightarrow> QItem Queue \<Rightarrow> loc \<Rightarrow> 's lsys \<Rightarrow> 's lsys" where
  "take_item process item q loc s =
     (case item of EventItem e \<Rightarrow> take_event process e q loc s | OtherItem \<Rightarrow> s\<lparr>l_queue := q, l_loc := loc\<rparr>)"

definition flush_to :: "'s EventStore \<Rightarrow> loc \<Rightarrow> 's lsys \<Rightarrow> 's lsys" where
  "flush_to api loc s = s\<lparr>l_logger := flush api (l_logger s), l_loc := loc\<rparr>"

inductive lstep ::
  "'s EventStore \<Rightarrow> (AuditEvent \<Rightarrow> 's Logger \<Rightarrow> 's Logger) \<Rightarrow> 's lsys \<Rightarrow> 's lsys \<Rightarrow> bool"
  for api :: "'s EventStore" and process :: "AuditEvent \<Rightarrow> 's Logger \<Rightarrow> 's Logger" where
  top_control: "\<lbrakk>l_loc s = Top; try_recv_control (l_queue s) = (Some (Some oe), q)\<rbrakk> \<Longrightarrow>
    lstep api process s (take_event process (overflow_event oe) q Top s)"
| top_done: "\<lbrakk>l_loc s = Top; fst (try_recv_control (l_queue s)) \<in> {None, Some None}\<rbrakk> \<Longrightarrow>
    lstep api process s (s\<lparr>l_loc := Selecting\<rparr>)"
| cancelled: "l_loc s = Selecting \<Longrightarrow> lstep api process s (s\<lparr>l_loc := Draining\<rparr>)"
| item: "\<lbrakk>l_loc s = Selecting; try_recv (l_queue s) = (Some (Some it), q)\<rbrakk> \<Longrightarrow>
    lstep api process s (take_item process it q Top s)"
| closed: "\<lbrakk>l_loc s = Selecting; fst (try_recv (l_queue s)) = Some None\<rbrakk> \<Longrightarrow>
    lstep api process s (flush_to api Returned s)"
| control: "\<lbrakk>l_loc s = Selecting; try_recv_control (l_queue s) = (Some (Some oe), q)\<rbrakk> \<Longrightarrow>
    lstep api process s (take_event process (overflow_event oe) q Top s)"
| control_closed: "\<lbrakk>l_loc s = Selecting; fst (try_recv_control (l_queue s)) = Some None\<rbrakk> \<Longrightarrow>
    lstep api process s (s\<lparr>l_loc := Top\<rparr>)"
| tick: "l_loc s = Selecting \<Longrightarrow> lstep api process s (flush_to api Top s)"
| drain_item: "\<lbrakk>l_loc s = Draining; try_recv (l_queue s) = (Some (Some it), q)\<rbrakk> \<Longrightarrow>
    lstep api process s (take_item process it q Draining s)"
| drain_closed: "\<lbrakk>l_loc s = Draining; fst (try_recv (l_queue s)) = Some None\<rbrakk> \<Longrightarrow>
    lstep api process s (s\<lparr>l_loc := Final\<rparr>)"
| drain_control: "\<lbrakk>l_loc s = Draining; try_recv_control (l_queue s) = (Some (Some oe), q)\<rbrakk> \<Longrightarrow>
    lstep api process s (take_event process (overflow_event oe) q Draining s)"
| drain_control_closed: "\<lbrakk>l_loc s = Draining; fst (try_recv_control (l_queue s)) = Some None\<rbrakk> \<Longrightarrow>
    lstep api process s s"
| drain_done: "\<lbrakk>l_loc s = Draining; fst (try_recv (l_queue s)) = None; fst (try_recv_control (l_queue s)) = None\<rbrakk> \<Longrightarrow>
    lstep api process s (s\<lparr>l_loc := Final\<rparr>)"
| final_control: "\<lbrakk>l_loc s = Final; try_recv_control (l_queue s) = (Some (Some oe), q)\<rbrakk> \<Longrightarrow>
    lstep api process s (take_event process (overflow_event oe) q Final s)"
| final_done: "\<lbrakk>l_loc s = Final; fst (try_recv_control (l_queue s)) \<in> {None, Some None}\<rbrakk> \<Longrightarrow>
    lstep api process s (flush_to api Returned s)"
| sender: "lstep api process s (s\<lparr>l_queue := snd (Send w n n' (l_queue s) it)\<rparr>)"
| closer: "lstep api process s (s\<lparr>l_queue := Close (l_queue s)\<rparr>)"

inductive lreach ::
  "'s EventStore \<Rightarrow> (AuditEvent \<Rightarrow> 's Logger \<Rightarrow> 's Logger) \<Rightarrow> 's lsys \<Rightarrow> 's lsys \<Rightarrow> bool"
  for api :: "'s EventStore" and process :: "AuditEvent \<Rightarrow> 's Logger \<Rightarrow> 's Logger" where
  start: "lreach api process s s"
| step: "lreach api process s t \<Longrightarrow> lstep api process t u \<Longrightarrow> lreach api process s u"

definition lsys_init :: "QItem Queue \<Rightarrow> 's Logger \<Rightarrow> 's lsys" where
  "lsys_init q l = \<lparr>l_queue = q, l_logger = l, l_loc = Top, l_received = []\<rparr>"

section \<open>Outcomes only escalate\<close>

lemma outcomeRank_le: "outcomeRank out \<le> 3"
  by (simp add: outcomeRank_def)

lemma candidate_cases:
  "outcomeForEnforcement s t \<in> {OutcomeSuccess, OutcomeWarned, OutcomeBlocked}"
  "outcomeForEnforcement s ''log_watcher'' \<noteq> OutcomeBlocked"
  by (simp_all add: outcomeForEnforcement_def OutcomeSuccess_def OutcomeWarned_def OutcomeBlocked_def)

lemma escalate_Nil [simp]: "escalate [] e = e"
  by (simp add: escalate_def)

lemma escalate_Cons:
  "escalate (r # rs) e =
     escalate rs (if outcomeRank (outcomeForEnforcement (atr_Enforcement r) (ev_AdapterType e)) > outcomeRank (ev_Outcome e)
                  then e\<lparr>ev_Outcome := outcomeForEnforcement (atr_Enforcement r) (ev_AdapterType e)\<rparr> else e)"
  by (simp add: escalate_def Let_def)

lemma escalate_frame: "escalate rs e = e\<lparr>ev_Outcome := ev_Outcome (escalate rs e)\<rparr>"
proof (induction rs arbitrary: e)
  case (Cons r rs)
  show ?case unfolding escalate_Cons by (subst Cons.IH) simp
qed simp

lemma escalate_fields [simp]:
  "ev_ID (escalate rs e) = ev_ID e" "ev_Timestamp (escalate rs e) = ev_Timestamp e"
  "ev_AdapterType (escalate rs e) = ev_AdapterType e"
  "ev_CommandmentsEvaluated (escalate rs e) = ev_CommandmentsEvaluated e"
  "ev_CommandmentsTriggered (escalate rs e) = ev_CommandmentsTriggered e"
  by (subst escalate_frame, simp)+

definition candidates :: "AuditTriggeredRule list \<Rightarrow> string \<Rightarrow> Outcome set" where
  "candidates rs adapterType = (\<lambda>r. outcomeForEnforcement (atr_Enforcement r) adapterType) ` set rs"

lemma escalate_rank_lemma:
  "escalate rs e = e\<lparr>ev_Outcome := ev_Outcome (escalate rs e)\<rparr> \<and>
   ev_Outcome (escalate rs e) \<in> insert (ev_Outcome e) (candidates rs (ev_AdapterType e)) \<and>
   outcomeRank (ev_Outcome (escalate rs e)) =
     Max (outcomeRank ` insert (ev_Outcome e) (candidates rs (ev_AdapterType e))) \<and>
   OutcomeBlocked \<notin> candidates rs ''log_watcher''"
proof -
  have main: "ev_Outcome (escalate rs e) \<in> insert (ev_Outcome e) (candidates rs (ev_AdapterType e)) \<and>
      outcomeRank (ev_Outcome (escalate rs e)) =
        Max (outcomeRank ` insert (ev_Outcome e) (candidates rs (ev_AdapterType e)))"
  proof (induction rs arbitrary: e)
    case Nil
    then show ?case by (simp add: candidates_def)
  next
    case (Cons r rs)
    let ?c = "outcomeForEnforcement (atr_Enforcement r) (ev_AdapterType e)"
    let ?e = "if outcomeRank ?c > outcomeRank (ev_Outcome e) then e\<lparr>ev_Outcome := ?c\<rparr> else e"
    have at: "ev_AdapterType ?e = ev_AdapterType e" by simp
    let ?R = "outcomeRank ` candidates rs (ev_AdapterType e)"
    have fin: "finite ?R" by (simp add: candidates_def)
    have C: "candidates (r # rs) (ev_AdapterType e) = insert ?c (candidates rs (ev_AdapterType e))"
      by (simp add: candidates_def)
    have "outcomeRank (ev_Outcome (escalate (r # rs) e)) = Max (insert (outcomeRank (ev_Outcome ?e)) ?R)"
      using Cons.IH [of ?e] by (simp only: escalate_Cons at image_insert)
    also have "outcomeRank (ev_Outcome ?e) = max (outcomeRank (ev_Outcome e)) (outcomeRank ?c)" by (simp add: max_def)
    also have "Max (insert (max (outcomeRank (ev_Outcome e)) (outcomeRank ?c)) ?R) =
        Max (outcomeRank ` insert (ev_Outcome e) (candidates (r # rs) (ev_AdapterType e)))"
      using fin by (cases "?R = {}") (simp_all add: C max.assoc)
    finally show ?case
      using Cons.IH [of ?e] by (auto simp: escalate_Cons C split: if_splits)
  qed
  moreover have "x \<noteq> OutcomeBlocked" if "x \<in> candidates rs ''log_watcher''" for x
    using that candidate_cases(2) unfolding candidates_def by (elim imageE) simp
  ultimately show ?thesis using escalate_frame [of rs e] by blast
qed

lemma escalate_rank:
  "outcomeRank (ev_Outcome (escalate rs e)) =
     Max (outcomeRank ` insert (ev_Outcome e) (candidates rs (ev_AdapterType e)))"
  using escalate_rank_lemma by blast

text \<open>The outcome after the rules is the gravest of the outcome the adapter gave and of what the
  triggered rules ask for (success, warned, failure, blocked, in that order), whatever the
  order of the rules; nothing else of the event changes; and rules never turn an event that
  a log watcher read into a blocked one, since the action it reports is over.\<close>

theorem escalate_gravest:
  "escalate rs e = e\<lparr>ev_Outcome := ev_Outcome (escalate rs e)\<rparr> \<and>
   ev_Outcome (escalate rs e) \<in> insert (ev_Outcome e) (candidates rs (ev_AdapterType e)) \<and>
   outcomeRank (ev_Outcome (escalate rs e)) =
     Max (outcomeRank ` insert (ev_Outcome e) (candidates rs (ev_AdapterType e))) \<and>
   OutcomeBlocked \<notin> candidates rs ''log_watcher''"
  by (rule escalate_rank_lemma)

section \<open>What the store ends up with\<close>

text \<open>The events a logger that starts from hash \<open>p\<close> makes of those it receives: judged, chained, sealed.\<close>

fun seal_all ::
  "Evaluator option \<Rightarrow> EventRedactor option \<Rightarrow> (string \<Rightarrow> string) \<Rightarrow> string \<Rightarrow> AuditEvent list \<Rightarrow> AuditEvent list" where
  "seal_all ev rd sum256 p [] = []"
| "seal_all ev rd sum256 p (e # es) =
     (let e' = seal sum256 p (judge ev rd e) in e' # seal_all ev rd sum256 (ev_EventHash e') es)"

lemma seal_all_append:
  "seal_all ev rd f p (xs @ ys) = seal_all ev rd f p xs @ seal_all ev rd f (end_hash p (seal_all ev rd f p xs)) ys"
  by (induction xs arbitrary: p) (auto simp: Let_def)

lemma seal_fields [simp]:
  "ev_PrevHash (seal f p e) = p" "ev_ID (seal f p e) = ev_ID e" "ev_Timestamp (seal f p e) = ev_Timestamp e"
  by (simp_all add: seal_def Let_def)

lemma length_seal_all [simp]: "length (seal_all ev rd f p es) = length es"
  by (induction es arbitrary: p) (auto simp: Let_def)

lemma chain_seal_all: "chain p (seal_all ev rd f p es)"
  by (induction es arbitrary: p) (auto simp: Let_def seal_def)

section \<open>The commandments as an interface\<close>

text \<open>
  What the logger and the proxy rely on of the service behind \<open>Evaluator\<close> and \<open>Redactor\<close>:
  a rule that triggers was evaluated, and redaction rewrites an event's arguments and its
  redacted flag only.
\<close>

locale commandments =
  fixes evaluate :: Evaluator and redact :: EventRedactor
  assumes triggered_evaluated: "subseq (map atr_Name (aer_Triggered (evaluate e))) (aer_Evaluated (evaluate e))"
    and redact_frame: "\<exists>v b. redact e t = e\<lparr>ev_Arguments := v, ev_Redacted := b\<rparr>"
begin

lemma redact_fields [simp]:
  "ev_ID (redact e t) = ev_ID e" "ev_Timestamp (redact e t) = ev_Timestamp e"
  "ev_Outcome (redact e t) = ev_Outcome e" "ev_CommandmentsTriggered (redact e t) = ev_CommandmentsTriggered e"
  using redact_frame [of e t] by auto

lemma judge_fields [simp]:
  "ev_ID (judge (Some evaluate) (Some redact) e) = ev_ID e"
  "ev_Timestamp (judge (Some evaluate) (Some redact) e) = ev_Timestamp e"
  by (simp_all add: judge_def Let_def)

text \<open>The outcome the logger stores is never below the outcome the event came with.\<close>

lemma judge_outcome:
  "outcomeRank (ev_Outcome e) \<le> outcomeRank (ev_Outcome (judge (Some evaluate) (Some redact) e))"
proof -
  have "outcomeRank (ev_Outcome e) \<le> outcomeRank (ev_Outcome (escalate rs e))" for rs e
    using escalate_rank [of rs e] by (simp add: candidates_def)
  from this [of "e\<lparr>ev_CommandmentsEvaluated := x, ev_CommandmentsTriggered := y\<rparr>" for x y]
  show ?thesis by (simp add: judge_def Let_def)
qed

lemma judge_blocked:
  "ev_Outcome e = OutcomeBlocked \<Longrightarrow> ev_Outcome (judge (Some evaluate) (Some redact) e) = OutcomeBlocked"
  using judge_outcome [of e] outcomeRank_le [of "ev_Outcome (judge (Some evaluate) (Some redact) e)"]
  by (auto simp: outcomeRank_def OutcomeBlocked_def OutcomeSuccess_def OutcomeWarned_def OutcomeFailure_def split: if_splits)

end

context event_store
begin

text \<open>
  The invariant: the events received so far, sealed, are those flushed followed by the
  batch; the store holds what it began with and the flushed ones; the last hash is theirs.
\<close>

definition linv ::
  "Evaluator option \<Rightarrow> EventRedactor option \<Rightarrow> (string \<Rightarrow> string) \<Rightarrow> 'r list \<Rightarrow> string \<Rightarrow> AuditEvent list \<Rightarrow> 's Logger \<Rightarrow> bool" where
  "linv ev rd f rows0 p received l \<longleftrightarrow>
     (\<exists>flushed. seal_all ev rd f p received = flushed @ lg_batch l \<and>
        rows (lg_store l) = foldl (save key) rows0 (map row_for flushed)) \<and>
     lg_prevHash l = end_hash p (seal_all ev rd f p received)"

lemma flush_inv: "linv ev rd f s0 p es l \<Longrightarrow> linv ev rd f s0 p es (flush api l)"
proof (cases "lg_batch l = []")
  case False
  obtain r s where ins: "es_InsertEvents api (lg_store l) (lg_batch l) = (r, s)" by fastforce
  assume inv: "linv ev rd f s0 p es l"
  then show ?thesis
    using insert_rows_cases [OF ins] False ins by (cases r) (auto simp: flush_def linv_def)
qed (simp add: flush_def)

lemma flush_reliable: "reliable (lg_store l) \<Longrightarrow> reliable (lg_store (flush api l)) \<and> lg_batch (flush api l) = []"
  using reliable_insert [of "lg_store l" "lg_batch l"] by (auto simp: flush_def)

lemma processEvent_inv:
  assumes "linv ev rd f s0 p es l"
  shows "linv ev rd f s0 p (es @ [e]) (processEvent api ev rd f e l)"
proof -
  let ?e = "seal f (lg_prevHash l) (judge ev rd e)"
  let ?ep = "format_date (ev_Timestamp ?e)"
  let ?s = "if ?ep \<noteq> lg_lastEpoch l
            then snd (es_InsertChainAnchor api (lg_store l) ?ep (ev_ID ?e) (ev_EventHash ?e)) else lg_store l"
  let ?l = "l\<lparr>lg_prevHash := ev_EventHash ?e, lg_store := ?s,
     lg_lastEpoch := (if ?ep \<noteq> lg_lastEpoch l then ?ep else lg_lastEpoch l), lg_batch := lg_batch l @ [?e]\<rparr>"
  have "linv ev rd f s0 p (es @ [e]) ?l"
    using assms by (auto simp: linv_def seal_all_append Let_def anchor_rows)
  moreover have "processEvent api ev rd f e l = (if int (length (lg_batch ?l)) \<ge> lg_batchSize l then flush api ?l else ?l)"
    by (cases l) (simp add: processEvent_def Let_def)
  ultimately show ?thesis using flush_inv by simp
qed

lemma processEvent_reliable:
  "reliable (lg_store l) \<Longrightarrow> reliable (lg_store (processEvent api ev rd f e l))"
  by (auto simp: processEvent_def Let_def intro!: flush_reliable [THEN conjunct1] reliable_anchor)

definition sys_inv where
  "sys_inv ev rd f s0 p s \<longleftrightarrow> linv ev rd f s0 p (l_received s) (l_logger s)"

lemma take_item_inv:
  "sys_inv ev rd f s0 p s \<Longrightarrow> sys_inv ev rd f s0 p (take_item (processEvent api ev rd f) it q loc s)"
  "sys_inv ev rd f s0 p s \<Longrightarrow> sys_inv ev rd f s0 p (take_event (processEvent api ev rd f) e q loc s)"
  by (auto simp: sys_inv_def take_item_def take_event_def intro!: processEvent_inv split: QItem.splits)

lemma sys_inv_moves [simp]:
  "sys_inv ev rd f s0 p (s\<lparr>l_loc := loc\<rparr>) \<longleftrightarrow> sys_inv ev rd f s0 p s"
  "sys_inv ev rd f s0 p (s\<lparr>l_queue := q\<rparr>) \<longleftrightarrow> sys_inv ev rd f s0 p s"
  by (simp_all add: sys_inv_def)

lemma flush_to_inv: "sys_inv ev rd f s0 p s \<Longrightarrow> sys_inv ev rd f s0 p (flush_to api loc s)"
  by (simp add: sys_inv_def flush_to_def flush_inv)

lemma lstep_inv: "lstep api (processEvent api ev rd f) s t \<Longrightarrow> sys_inv ev rd f s0 p s \<Longrightarrow> sys_inv ev rd f s0 p t"
  by (induction rule: lstep.induct) (simp_all add: take_item_inv flush_to_inv)

lemma lreach_inv: "lreach api (processEvent api ev rd f) s t \<Longrightarrow> sys_inv ev rd f s0 p s \<Longrightarrow> sys_inv ev rd f s0 p t"
  by (induction rule: lreach.induct) (auto intro: lstep_inv)

text \<open>With a store that does not fail, the loop returns with an empty batch.\<close>

definition returned_flushed :: "'s lsys \<Rightarrow> bool" where
  "returned_flushed s \<longleftrightarrow> reliable (lg_store (l_logger s)) \<and> (l_loc s = Returned \<longrightarrow> lg_batch (l_logger s) = [])"

lemma lstep_flushed:
  "lstep api (processEvent api ev rd f) s t \<Longrightarrow> returned_flushed s \<Longrightarrow> returned_flushed t"
proof (induction rule: lstep.induct)
qed (auto simp: returned_flushed_def take_item_def take_event_def flush_to_def flush_reliable processEvent_reliable
    split: QItem.splits)

lemma lreach_flushed:
  "lreach api (processEvent api ev rd f) s t \<Longrightarrow> returned_flushed s \<Longrightarrow> returned_flushed t"
  by (induction rule: lreach.induct) (auto intro: lstep_flushed)

text \<open>What every run of the loop has stored: what came in, judged and chained, but for the batch.\<close>

lemma logger_stores:
  assumes "NewLogger api s0 n = Inr l" "lreach api (processEvent api ev rd f) (lsys_init q l) t"
  obtains flushed where "seal_all ev rd f (lg_prevHash l) (l_received t) = flushed @ lg_batch (l_logger t)"
    "rows (lg_store (l_logger t)) = foldl (save key) (rows s0) (map row_for flushed)"
    "reliable s0 \<Longrightarrow> l_loc t = Returned \<Longrightarrow> lg_batch (l_logger t) = []"
proof -
  obtain s where g: "es_GetLastEventHash api s0 = (Inr (lg_prevHash l), s)" and l: "lg_batch l = []" "lg_store l = s"
    using assms(1) by (auto simp: NewLogger_def split: prod.splits sum.splits)
  have s: "rows s = rows s0" "reliable s0 \<Longrightarrow> reliable s" using read_hash [OF g] by auto
  from l s have "sys_inv ev rd f (rows s0) (lg_prevHash l) (lsys_init q l)"
    by (simp add: sys_inv_def linv_def lsys_init_def)
  from lreach_inv [OF assms(2) this] obtain flushed where
    fl: "seal_all ev rd f (lg_prevHash l) (l_received t) = flushed @ lg_batch (l_logger t)"
    "rows (lg_store (l_logger t)) = foldl (save key) (rows s0) (map row_for flushed)"
    by (auto simp: sys_inv_def linv_def)
  have "lg_batch (l_logger t) = []" if "reliable s0" "l_loc t = Returned"
    using lreach_flushed [OF assms(2)] that l s by (simp add: returned_flushed_def lsys_init_def)
  with fl show ?thesis by (rule that)
qed

text \<open>With new keys only, the store grows by exactly the sealed events, in order.\<close>

lemma logger_appends:
  assumes "NewLogger api s0 n = Inr l" "lreach api (processEvent api ev rd f) (lsys_init q l) t"
    and "reliable s0" "l_loc t = Returned"
    and "distinct (map key (rows s0 @ map row_for (seal_all ev rd f (lg_prevHash l) (l_received t))))"
  shows "rows (lg_store (l_logger t)) = rows s0 @ map row_for (seal_all ev rd f (lg_prevHash l) (l_received t))"
  using logger_stores [OF assms(1,2)] assms(3-5) save_fresh [of key "rows s0"]
  by (metis append_Nil2)

end

end
