(* ===== verification/Sqlite_Store.thy ===== *)
theory Sqlite_Store
  imports Go_Time_Parse Logger "HOL-Library.AList" "HOL-Library.Product_Lexorder"
begin

text \<open>
  \<open>internal/store/sqlite.go\<close> over the schema of \<open>migrations/001_initial.sql\<close>, and
  \<open>internal/audit/query.go\<close>, which reads the same tables. A row is its columns by name, the
  table \<open>events\<close> the rows in rowid order (the code deletes none, so a new row is the last),
  the other tables maps from their primary keys. Every call to the database may fail: the
  \<open>n\<close>-th call made fails with \<open>db_fault n\<close>, and \<open>db_now n\<close> is the clock it reads. A statement
  that fails changes nothing, and a transaction that is not committed leaves the tables as
  they were. Texts compare by their bytes.
\<close>

section \<open>Rows\<close>

datatype sql = Null | Text string | Integer int64 | Real float64

type_synonym Row = "(string \<times> sql) list"

definition col :: "Row \<Rightarrow> string \<Rightarrow> sql" where
  "col r c = (case map_of r c of Some v \<Rightarrow> v | None \<Rightarrow> Null)"

text \<open>What \<open>sql.NullString\<close>, \<open>sql.NullInt64\<close> and \<open>sql.NullFloat64\<close> hold after a scan.\<close>

fun sql_text :: "sql \<Rightarrow> string" where "sql_text (Text s) = s" | "sql_text _ = []"
fun sql_integer :: "sql \<Rightarrow> int64" where "sql_integer (Integer n) = n" | "sql_integer _ = 0"
fun sql_real :: "sql \<Rightarrow> float64" where "sql_real (Real x) = x" | "sql_real _ = 0"

text \<open>A NaN is stored as NULL, and both zeros as the same zero.\<close>

definition real_column :: "float64 \<Rightarrow> sql" where
  "real_column x = (if f64_is_nan x then Null else if f64_key x = 0 then Real 0 else Real x)"

text \<open>The parameters bound to the \<open>INSERT\<close>, in the order of its columns.\<close>

definition row_of :: "AuditEvent \<Rightarrow> Row" where
  "row_of e =
     [(''id'', Text (ev_ID e)), (''timestamp'', Text (rfc3339nano (ev_Timestamp e))),
      (''agent_id'', Text (ev_AgentID e)), (''agent_pid'', Integer (ev_AgentPID e)),
      (''action_type'', Text (ev_ActionType e)), (''action'', Text (ev_Action e)),
      (''arguments'', Text (ev_Arguments e)), (''session_id'', Text (ev_SessionID e)),
      (''parent_session_id'', Text (ev_ParentSessionID e)), (''working_dir'', Text (ev_WorkingDir e)),
      (''parser_version'', Text (ev_ParserVersion e)), (''outcome'', Text (ev_Outcome e)),
      (''commandments_evaluated'', Text (ev_CommandmentsEvaluated e)),
      (''commandments_triggered'', Text (ev_CommandmentsTriggered e)),
      (''provider'', Text (ev_Provider e)), (''model'', Text (ev_Model e)),
      (''tool_category'', Text (ev_ToolCategory e)), (''tool_effect'', Text (ev_ToolEffect e)),
      (''tool_name'', Text (ev_ToolName e)), (''taxonomy_version'', Text (ev_TaxonomyVersion e)),
      (''classification_source'', Text (ev_ClassificationSource e)),
      (''input_tokens'', Integer (ev_InputTokens e)), (''output_tokens'', Integer (ev_OutputTokens e)),
      (''cost_usd'', real_column (ev_CostUSD e)), (''adapter_id'', Text (ev_AdapterID e)),
      (''adapter_type'', Text (ev_AdapterType e)), (''raw_payload_ref'', Text (ev_RawPayloadRef e)),
      (''prev_hash'', Text (ev_PrevHash e)), (''event_hash'', Text (ev_EventHash e)),
      (''redacted'', Integer (if ev_Redacted e then 1 else 0)),
      (''hostname'', Text (ev_Hostname e)), (''user_id'', Text (ev_UserID e))]"

section \<open>The database\<close>

record Store =
  db_events :: "Row list"
  db_offsets :: "string \<rightharpoonup> int64 \<times> string"
  db_anchors :: "string \<rightharpoonup> string \<times> string \<times> string"
  db_version :: "int option"
  db_calls :: nat
  db_fault :: "nat \<Rightarrow> error option"
  db_now :: "nat \<Rightarrow> time"

text \<open>One call to the driver: the error it returns, if any, and the calls so far.\<close>

definition db_call :: "Store \<Rightarrow> error option \<times> Store" where
  "db_call s = (db_fault s (db_calls s), s\<lparr>db_calls := Suc (db_calls s)\<rparr>)"

definition row_id :: "Row \<Rightarrow> string" where
  "row_id r = sql_text (col r ''id'')"

text \<open>\<open>INSERT OR IGNORE\<close>: a row whose primary key is taken is dropped without an error.\<close>

definition insert_or_ignore :: "Row list \<Rightarrow> Row \<Rightarrow> Row list" where
  "insert_or_ignore rs r = (if row_id r \<in> row_id ` set rs then rs else rs @ [r])"

section \<open>Writing\<close>

text \<open>The highest offset of each source file, over the events inserted so far.\<close>

definition track_offset :: "(string \<times> int64) list \<Rightarrow> AuditEvent \<Rightarrow> (string \<times> int64) list" where
  "track_offset offsets e =
     (let cur = (case map_of offsets (ev_SourceFile e) of Some n \<Rightarrow> n | None \<Rightarrow> 0)
      in if ev_SourceFile e \<noteq> [] \<and> word_sless cur (ev_SourceOffset e)
         then AList.update (ev_SourceFile e) (ev_SourceOffset e) offsets else offsets)"

fun insert_rows ::
  "AuditEvent list \<Rightarrow> (string \<times> int64) list \<Rightarrow> Store \<Rightarrow> error option \<times> (string \<times> int64) list \<times> Store" where
  "insert_rows [] offsets s = (None, offsets, s)"
| "insert_rows (e # es) offsets s =
     (case db_call s of
        (Some err, s) \<Rightarrow> (Some (''insert event '' @ ev_ID e @ '': '' @ err), offsets, s)
      | (None, s) \<Rightarrow>
          insert_rows es (track_offset offsets e) (s\<lparr>db_events := insert_or_ignore (db_events s) (row_of e)\<rparr>))"

text \<open>The map's iteration order is Go's choice; the table is the same for each.\<close>

fun upsert_offsets :: "(string \<times> int64) list \<Rightarrow> Store \<Rightarrow> error option \<times> Store" where
  "upsert_offsets [] s = (None, s)"
| "upsert_offsets ((path, offset) # os) s =
     (let now = rfc3339nano (db_now s (db_calls s))
      in case db_call s of
        (Some err, s) \<Rightarrow> (Some (''update offset '' @ path @ '': '' @ err), s)
      | (None, s) \<Rightarrow> upsert_offsets os (s\<lparr>db_offsets := (db_offsets s)(path \<mapsto> (offset, now))\<rparr>))"

text \<open>The body of the transaction after \<open>Begin\<close>: prepare, insert, upsert, commit.\<close>

definition insert_tx :: "AuditEvent list \<Rightarrow> Store \<Rightarrow> error option \<times> Store" where
  "insert_tx events s =
     (case db_call s of
        (Some err, s) \<Rightarrow> (Some (''prepare: '' @ err), s)
      | (None, s) \<Rightarrow>
         (case insert_rows events [] s of
            (Some err, _, s) \<Rightarrow> (Some err, s)
          | (None, offsets, s) \<Rightarrow>
             (case upsert_offsets offsets s of
                (Some err, s) \<Rightarrow> (Some err, s)
              | (None, s) \<Rightarrow> db_call s)))"

text \<open>When the body returns an error the deferred \<open>Rollback\<close> restores the tables.\<close>

definition InsertEvents :: "Store \<Rightarrow> AuditEvent list \<Rightarrow> error option \<times> Store" where
  "InsertEvents s events =
     (if events = [] then (None, s)
      else case db_call s of
        (Some err, s) \<Rightarrow> (Some (''begin tx: '' @ err), s)
      | (None, s) \<Rightarrow>
         (case insert_tx events s of
            (Some err, s') \<Rightarrow> (Some err, s\<lparr>db_calls := db_calls s'\<rparr>)
          | (None, s') \<Rightarrow> (None, s')))"

definition GetFileOffset :: "Store \<Rightarrow> string \<Rightarrow> (error + int64) \<times> Store" where
  "GetFileOffset s filePath =
     (case db_call s of
        (Some err, s) \<Rightarrow> (Err err, s)
      | (None, s) \<Rightarrow> (Ok (case db_offsets s filePath of Some (n, _) \<Rightarrow> n | None \<Rightarrow> 0), s))"

definition SetFileOffset :: "Store \<Rightarrow> string \<Rightarrow> int64 \<Rightarrow> error option \<times> Store" where
  "SetFileOffset s filePath offset =
     (let now = rfc3339nano (db_now s (db_calls s))
      in case db_call s of
        (Some err, s) \<Rightarrow> (Some err, s)
      | (None, s) \<Rightarrow> (None, s\<lparr>db_offsets := (db_offsets s)(filePath \<mapsto> (offset, now))\<rparr>))"

definition InsertChainAnchor :: "Store \<Rightarrow> string \<Rightarrow> string \<Rightarrow> string \<Rightarrow> error option \<times> Store" where
  "InsertChainAnchor s epoch eventID eventHash =
     (let now = rfc3339nano (db_now s (db_calls s))
      in case db_call s of
        (Some err, s) \<Rightarrow> (Some err, s)
      | (None, s) \<Rightarrow>
          (None, if db_anchors s epoch = None
                 then s\<lparr>db_anchors := (db_anchors s)(epoch \<mapsto> (eventID, eventHash, now))\<rparr> else s))"

definition ts_text :: "Row \<Rightarrow> string" where
  "ts_text r = sql_text (col r ''timestamp'')"

text \<open>\<open>ORDER BY timestamp ASC, rowid ASC\<close>: a stable sort by the text.\<close>

definition in_time_order :: "Row list \<Rightarrow> Row list" where
  "in_time_order rs = sort_key ts_text rs"

definition genesis :: string where "genesis = ''genesis''"

definition GetLastEventHash :: "Store \<Rightarrow> (error + string) \<times> Store" where
  "GetLastEventHash s =
     (case db_call s of
        (Some err, s) \<Rightarrow> (Err err, s)
      | (None, s) \<Rightarrow>
          (Ok (if db_events s = [] then genesis
               else sql_text (col (last (in_time_order (db_events s))) ''event_hash'')), s))"

text \<open>\<open>migrate\<close>: the script creates what is missing and inserts version 1 if it is not there.\<close>

definition migrate :: "Store \<Rightarrow> error option \<times> Store" where
  "migrate s =
     (case db_call s of
        (err, s) \<Rightarrow>
          (let version = (case err of Some _ \<Rightarrow> 0 | None \<Rightarrow> (case db_version s of Some v \<Rightarrow> v | None \<Rightarrow> 0))
           in if version < 1
              then (case db_call s of
                      (Some err, s) \<Rightarrow> (Some err, s)
                    | (None, s) \<Rightarrow> (None, s\<lparr>db_version := Some (case db_version s of Some v \<Rightarrow> max v 1 | None \<Rightarrow> 1)\<rparr>))
              else (None, s)))"

section \<open>Reading: audit/query.go\<close>

record QueryFilter =
  qf_Since :: "time option"
  qf_Until :: "time option"
  qf_Agent :: string
  qf_Action :: string
  qf_Session :: string
  qf_Outcome :: string
  qf_TriggeredOnly :: bool
  qf_Limit :: int
  qf_Offset :: int

record QueryResult =
  qr_Events :: "AuditEvent list"
  qr_Total :: nat

text \<open>The conditions of the \<open>WHERE\<close> clause; a comparison with NULL selects nothing.\<close>

datatype sql_cond = Ge string string | Le string string | Eq string string | Ne string string | NotNull string

fun cond_holds :: "Row \<Rightarrow> sql_cond \<Rightarrow> bool" where
  "cond_holds r (Ge c v) = (case col r c of Text s \<Rightarrow> v \<le> s | _ \<Rightarrow> False)"
| "cond_holds r (Le c v) = (case col r c of Text s \<Rightarrow> s \<le> v | _ \<Rightarrow> False)"
| "cond_holds r (Eq c v) = (col r c = Text v)"
| "cond_holds r (Ne c v) = (case col r c of Text s \<Rightarrow> s \<noteq> v | _ \<Rightarrow> False)"
| "cond_holds r (NotNull c) = (col r c \<noteq> Null)"

definition selected :: "sql_cond list \<Rightarrow> Row \<Rightarrow> bool" where
  "selected conditions r = list_all (cond_holds r) conditions"

definition range_conditions :: "QueryFilter \<Rightarrow> sql_cond list" where
  "range_conditions f =
     (case qf_Since f of Some t \<Rightarrow> [Ge ''timestamp'' (rfc3339nano t)] | None \<Rightarrow> []) @
     (case qf_Until f of Some t \<Rightarrow> [Le ''timestamp'' (rfc3339nano t)] | None \<Rightarrow> []) @
     (if qf_Agent f \<noteq> [] then [Eq ''agent_id'' (qf_Agent f)] else [])"

definition query_conditions :: "QueryFilter \<Rightarrow> sql_cond list" where
  "query_conditions f =
     range_conditions f @
     (if qf_Action f \<noteq> [] then [Eq ''action_type'' (qf_Action f)] else []) @
     (if qf_Session f \<noteq> [] then [Eq ''session_id'' (qf_Session f)] else []) @
     (if qf_Outcome f \<noteq> [] then [Eq ''outcome'' (qf_Outcome f)] else []) @
     (if qf_TriggeredOnly f then [NotNull ''commandments_triggered'', Ne ''commandments_triggered'' [],
        Ne ''commandments_triggered'' ''[]''] else [])"

text \<open>The loop body over \<open>rows.Scan\<close>.\<close>

definition scan_event :: "Row \<Rightarrow> AuditEvent" where
  "scan_event r = zero_event\<lparr>
     ev_ID := sql_text (col r ''id''), ev_Timestamp := parse_or_zero (sql_text (col r ''timestamp'')),
     ev_AgentID := sql_text (col r ''agent_id''), ev_AgentPID := sql_integer (col r ''agent_pid''),
     ev_ActionType := sql_text (col r ''action_type''), ev_Action := sql_text (col r ''action''),
     ev_Arguments := sql_text (col r ''arguments''), ev_SessionID := sql_text (col r ''session_id''),
     ev_ParentSessionID := sql_text (col r ''parent_session_id''),
     ev_WorkingDir := sql_text (col r ''working_dir''), ev_ParserVersion := sql_text (col r ''parser_version''),
     ev_Outcome := sql_text (col r ''outcome''),
     ev_CommandmentsEvaluated := sql_text (col r ''commandments_evaluated''),
     ev_CommandmentsTriggered := sql_text (col r ''commandments_triggered''),
     ev_Provider := sql_text (col r ''provider''), ev_Model := sql_text (col r ''model''),
     ev_ToolCategory := sql_text (col r ''tool_category''), ev_ToolEffect := sql_text (col r ''tool_effect''),
     ev_ToolName := sql_text (col r ''tool_name''),
     ev_TaxonomyVersion := sql_text (col r ''taxonomy_version''),
     ev_ClassificationSource := sql_text (col r ''classification_source''),
     ev_InputTokens := sql_integer (col r ''input_tokens''), ev_OutputTokens := sql_integer (col r ''output_tokens''),
     ev_CostUSD := sql_real (col r ''cost_usd''), ev_AdapterID := sql_text (col r ''adapter_id''),
     ev_AdapterType := sql_text (col r ''adapter_type''), ev_RawPayloadRef := sql_text (col r ''raw_payload_ref''),
     ev_Hostname := sql_text (col r ''hostname''), ev_UserID := sql_text (col r ''user_id''),
     ev_PrevHash := sql_text (col r ''prev_hash''), ev_EventHash := sql_text (col r ''event_hash''),
     ev_Redacted := (sql_integer (col r ''redacted'') \<noteq> 0)\<rparr>"

text \<open>
  \<open>LIMIT\<close> and \<open>OFFSET\<close>. SQLite has no \<open>OFFSET\<close> without a \<open>LIMIT\<close>: that query is a syntax error.
\<close>

definition page :: "int \<Rightarrow> int \<Rightarrow> 'a list \<Rightarrow> error + 'a list" where
  "page limit offset rs =
     (if limit > 0 then Ok (take (nat limit) (drop (nat offset) rs))
      else if offset > 0 then Err ''near OFFSET: syntax error''
      else Ok rs)"

text \<open>
  \<open>ORDER BY timestamp ASC\<close> alone leaves the order of equal texts open; the model takes rowid
  order, which the index on the column gives.
\<close>

definition QueryEvents :: "Store \<Rightarrow> QueryFilter \<Rightarrow> (error + QueryResult) \<times> Store" where
  "QueryEvents s f =
     (let rs = filter (selected (query_conditions f)) (db_events s)
      in case db_call s of
        (Some err, s) \<Rightarrow> (Err (''count: '' @ err), s)
      | (None, s) \<Rightarrow>
         (case db_call s of
            (Some err, s) \<Rightarrow> (Err (''query: '' @ err), s)
          | (None, s) \<Rightarrow>
             (case page (qf_Limit f) (qf_Offset f) (in_time_order rs) of
                Inl err \<Rightarrow> (Err (''query: '' @ err), s)
              | Inr rs' \<Rightarrow> (Ok \<lparr>qr_Events = map scan_event rs', qr_Total = length rs\<rparr>, s))))"

text \<open>
  \<open>QueryTokenSummary\<close>: one row for each day, agent and model, in their order. \<open>SUM\<close> over
  integers fails where it leaves 64 bits.
\<close>

record TokenSummaryRow =
  tsr_Day :: string
  tsr_AgentID :: string
  tsr_Model :: string
  tsr_InputTokens :: int
  tsr_OutputTokens :: int

definition group_key :: "Row \<Rightarrow> string \<times> string \<times> string" where
  "group_key r = (take 10 (ts_text r), sql_text (col r ''agent_id''), sql_text (col r ''model''))"

fun sum_from :: "int \<Rightarrow> int list \<Rightarrow> error + int" where
  "sum_from acc [] = Ok acc"
| "sum_from acc (n # ns) =
     (if acc + n < - (2 ^ 63) \<or> 2 ^ 63 \<le> acc + n then Err ''integer overflow'' else sum_from (acc + n) ns)"

definition sum_column :: "string \<Rightarrow> Row list \<Rightarrow> error + int" where
  "sum_column c rs = sum_from 0 (map (\<lambda>r. sint (sql_integer (col r c))) rs)"

fun summarize :: "Row list \<Rightarrow> (string \<times> string \<times> string) list \<Rightarrow> error + TokenSummaryRow list" where
  "summarize rs [] = Ok []"
| "summarize rs (k # ks) =
     (let grp = filter (\<lambda>r. group_key r = k) rs
      in bind_result (sum_column ''input_tokens'' grp) (\<lambda>i.
         bind_result (sum_column ''output_tokens'' grp) (\<lambda>out.
         bind_result (summarize rs ks) (\<lambda>rows.
           Ok (\<lparr>tsr_Day = fst k, tsr_AgentID = fst (snd k), tsr_Model = snd (snd k),
                tsr_InputTokens = i, tsr_OutputTokens = out\<rparr> # rows)))))"

definition QueryTokenSummary :: "Store \<Rightarrow> QueryFilter \<Rightarrow> (error + TokenSummaryRow list) \<times> Store" where
  "QueryTokenSummary s f =
     (let rs = filter (selected (range_conditions f @ [Eq ''action_type'' ''ai_request''])) (db_events s)
      in case db_call s of
        (Some err, s) \<Rightarrow> (Err (''query token summary: '' @ err), s)
      | (None, s) \<Rightarrow>
         (case summarize rs (sort (remdups (map group_key rs))) of
            Inl err \<Rightarrow> (Err (''query token summary: '' @ err), s)
          | Inr rows \<Rightarrow> (Ok rows, s)))"

text \<open>\<open>VerifyIntegrity\<close>: the loop, \<open>n\<close> rows in, then the query around it.\<close>

fun verify_rows :: "string \<Rightarrow> nat \<Rightarrow> Row list \<Rightarrow> bool \<times> nat \<times> string" where
  "verify_rows prevHash n [] = (True, n, [])"
| "verify_rows prevHash n (r # rs) =
     (if sql_text (col r ''prev_hash'') \<noteq> prevHash then (False, n + 1, row_id r)
      else verify_rows (sql_text (col r ''event_hash'')) (n + 1) rs)"

definition VerifyIntegrity :: "Store \<Rightarrow> (error + bool \<times> nat \<times> string) \<times> Store" where
  "VerifyIntegrity s =
     (case db_call s of
        (Some err, s) \<Rightarrow> (Err (''query: '' @ err), s)
      | (None, s) \<Rightarrow> (Ok (verify_rows genesis 0 (in_time_order (db_events s))), s))"

section \<open>A row holds the event\<close>

text \<open>What is stored of an event: all but its source file and offset, with its cost as a column keeps it.\<close>

definition stored :: "AuditEvent \<Rightarrow> AuditEvent" where
  "stored e = e\<lparr>ev_CostUSD := sql_real (real_column (ev_CostUSD e)), ev_SourceFile := [], ev_SourceOffset := 0\<rparr>"

lemma map_of_key: "map_of ((k, v) # xs) k' = (if k' = k then Some v else map_of xs k')"
  by simp

lemma scan_row_of: "year4 (ev_Timestamp e) \<Longrightarrow> scan_event (row_of e) = stored e"
  by (cases e) (simp add: scan_event_def row_of_def col_def stored_def zero_event_def)

lemma row_of_cols [simp]:
  "row_id (row_of e) = ev_ID e" "ts_text (row_of e) = rfc3339nano (ev_Timestamp e)"
  "col (row_of e) ''prev_hash'' = Text (ev_PrevHash e)" "col (row_of e) ''event_hash'' = Text (ev_EventHash e)"
  "col (row_of e) ''timestamp'' = Text (rfc3339nano (ev_Timestamp e))"
  "col (row_of e) ''agent_id'' = Text (ev_AgentID e)" "col (row_of e) ''action_type'' = Text (ev_ActionType e)"
  "col (row_of e) ''session_id'' = Text (ev_SessionID e)" "col (row_of e) ''outcome'' = Text (ev_Outcome e)"
  "col (row_of e) ''commandments_triggered'' = Text (ev_CommandmentsTriggered e)"
  by (simp_all add: row_id_def ts_text_def col_def row_of_def)

section \<open>The transaction\<close>

lemma db_call_fields:
  assumes "db_call s = (err, s')"
  shows "db_events s' = db_events s" "db_offsets s' = db_offsets s" "db_anchors s' = db_anchors s"
    "db_version s' = db_version s" "db_fault s' = db_fault s" "db_now s' = db_now s"
  using assms by (auto simp: db_call_def)

lemma insert_rows_result:
  "insert_rows es os s = (err, os', s') \<Longrightarrow>
     db_offsets s' = db_offsets s \<and> db_anchors s' = db_anchors s \<and> db_version s' = db_version s \<and>
     db_fault s' = db_fault s \<and> db_now s' = db_now s \<and>
     (err = None \<longrightarrow> db_events s' = foldl insert_or_ignore (db_events s) (map row_of es) \<and>
        os' = foldl track_offset os es)"
proof (induction es arbitrary: os s)
  case Nil
  then show ?case by auto
next
  case (Cons e es)
  obtain er t where c: "db_call s = (er, t)" by (cases "db_call s")
  show ?case
  proof (cases er)
    case None
    with Cons.prems c have "insert_rows es (track_offset os e)
        (t\<lparr>db_events := insert_or_ignore (db_events t) (row_of e)\<rparr>) = (err, os', s')" by simp
    from Cons.IH [OF this] show ?thesis by (simp add: db_call_fields [OF c])
  next
    case (Some x)
    with Cons.prems c db_call_fields [OF c] show ?thesis by auto
  qed
qed

lemma upsert_offsets_result:
  "upsert_offsets os s = (err, s') \<Longrightarrow> distinct (map fst os) \<Longrightarrow>
     db_events s' = db_events s \<and> db_anchors s' = db_anchors s \<and> db_version s' = db_version s \<and>
     db_fault s' = db_fault s \<and> db_now s' = db_now s \<and>
     (err = None \<longrightarrow> (\<forall>p. map_option fst (db_offsets s' p) =
        (case map_of os p of Some n \<Rightarrow> Some n | None \<Rightarrow> map_option fst (db_offsets s p))))"
proof (induction os arbitrary: s)
  case Nil
  then show ?case by auto
next
  case (Cons a os)
  obtain path n where a: "a = (path, n)" by (cases a)
  obtain er t where c: "db_call s = (er, t)" by (cases "db_call s")
  show ?case
  proof (cases er)
    case None
    let ?now = "rfc3339nano (db_now s (db_calls s))"
    have "upsert_offsets os (t\<lparr>db_offsets := (db_offsets t)(path \<mapsto> (n, ?now))\<rparr>) = (err, s')"
      using Cons.prems(1) None c a by (simp add: Let_def)
    from Cons.IH [OF this] Cons.prems(2) a show ?thesis
      by (auto simp: db_call_fields [OF c] map_of_eq_None_iff [THEN iffD2] image_iff split: option.splits)
  next
    case (Some x)
    with Cons.prems c a db_call_fields [OF c] show ?thesis by (auto simp: Let_def)
  qed
qed

lemma track_offset_distinct: "distinct (map fst os) \<Longrightarrow> distinct (map fst (track_offset os e))"
  by (simp add: track_offset_def Let_def distinct_update)

lemma track_offsets_distinct: "distinct (map fst os) \<Longrightarrow> distinct (map fst (foldl track_offset os es))"
  by (induction es arbitrary: os) (auto simp: track_offset_distinct)

lemma track_offsets_no_Nil: "map_of (foldl track_offset [] es) [] = None"
proof -
  have "map_of os [] = None \<Longrightarrow> map_of (track_offset os e) [] = None" for os e
    by (simp add: track_offset_def Let_def update_conv')
  then have "map_of os [] = None \<Longrightarrow> map_of (foldl track_offset os es) [] = None" for os
    by (induction es arbitrary: os) auto
  then show ?thesis by simp
qed

text \<open>The offset a batch leaves for a file: its highest positive one, if it has any.\<close>

definition highest_offset :: "AuditEvent list \<Rightarrow> string \<Rightarrow> int" where
  "highest_offset es p = Max (insert 0 {sint (ev_SourceOffset e) |e. e \<in> set es \<and> ev_SourceFile e = p})"

lemma highest_offset_snoc:
  "highest_offset (es @ [e]) p =
     (if ev_SourceFile e = p then max (highest_offset es p) (sint (ev_SourceOffset e)) else highest_offset es p)"
proof -
  let ?S = "\<lambda>es. {sint (ev_SourceOffset e) |e. e \<in> set es \<and> ev_SourceFile e = p}"
  have fin: "finite (?S es)" for es by simp
  show ?thesis
  proof (cases "ev_SourceFile e = p")
    case True
    then have "insert 0 (?S (es @ [e])) = insert (sint (ev_SourceOffset e)) (insert 0 (?S es))" by auto
    with True fin [of es] show ?thesis unfolding highest_offset_def by (simp add: max.commute)
  next
    case False
    then have "?S (es @ [e]) = ?S es" by auto
    with False show ?thesis unfolding highest_offset_def by simp
  qed
qed

lemma track_offset_lookup:
  assumes "sint (case map_of os p of Some n \<Rightarrow> n | None \<Rightarrow> 0) = h" "p \<noteq> []"
  shows "map_of (track_offset os e) p =
    (if ev_SourceFile e = p \<and> h < sint (ev_SourceOffset e) then Some (ev_SourceOffset e) else map_of os p)"
  using assms by (auto simp: track_offset_def Let_def word_sless_alt update_conv')

lemma track_offsets_highest:
  "p \<noteq> [] \<Longrightarrow> map_option sint (map_of (foldl track_offset [] es) p) =
     (if highest_offset es p > 0 then Some (highest_offset es p) else None)"
proof (induction es rule: rev_induct)
  case Nil
  then show ?case by (simp add: highest_offset_def)
next
  case (snoc e es)
  let ?os = "foldl track_offset [] es" let ?h = "highest_offset es p"
  have h: "0 \<le> ?h" by (simp add: highest_offset_def)
  with snoc have "sint (case map_of ?os p of Some n \<Rightarrow> n | None \<Rightarrow> 0) = ?h"
    by (cases "map_of ?os p") (auto split: if_splits)
  from track_offset_lookup [OF this snoc.prems, of e]
  have "map_option sint (map_of (track_offset ?os e) p) =
      (if ev_SourceFile e = p \<and> ?h < sint (ev_SourceOffset e) then Some (sint (ev_SourceOffset e))
       else map_option sint (map_of ?os p))" by simp
  with snoc h show ?case by (simp add: highest_offset_snoc max_def)
qed

lemma insert_tx_committed:
  assumes "insert_tx es t = (None, t')"
  shows "db_anchors t' = db_anchors t \<and> db_version t' = db_version t \<and>
    db_events t' = foldl insert_or_ignore (db_events t) (map row_of es) \<and>
    (\<forall>p. map_option (sint \<circ> fst) (db_offsets t' p) =
       (if p \<noteq> [] \<and> highest_offset es p > 0 then Some (highest_offset es p)
        else map_option (sint \<circ> fst) (db_offsets t p)))"
proof -
  obtain u os v w where c: "db_call t = (None, u)" and ir: "insert_rows es [] u = (None, os, v)"
    and up: "upsert_offsets os v = (None, w)" and cm: "db_call w = (None, t')"
    using assms by (auto simp: insert_tx_def split: prod.splits option.splits)
  note [simp] = db_call_fields [OF c] db_call_fields [OF cm]
  from insert_rows_result [OF ir] have os: "os = foldl track_offset [] es"
    and v [simp]: "db_events v = foldl insert_or_ignore (db_events t) (map row_of es)"
      "db_offsets v = db_offsets t" "db_anchors v = db_anchors t" "db_version v = db_version t" by auto
  have "distinct (map fst os)" by (simp add: os track_offsets_distinct)
  from upsert_offsets_result [OF up this]
  have w [simp]: "db_events w = db_events v" "db_anchors w = db_anchors v" "db_version w = db_version v"
    and look: "map_option fst (db_offsets w p) =
      (case map_of os p of Some n \<Rightarrow> Some n | None \<Rightarrow> map_option fst (db_offsets t p))" for p
    unfolding v(2) [symmetric] by auto
  have "map_option (sint \<circ> fst) (db_offsets w p) =
      (if p \<noteq> [] \<and> highest_offset es p > 0 then Some (highest_offset es p)
       else map_option (sint \<circ> fst) (db_offsets t p))" for p
  proof -
    have "map_option (sint \<circ> fst) (db_offsets w p) = map_option sint (map_option fst (db_offsets w p))"
      by (simp add: option.map_comp)
    also have "\<dots> = (case map_option sint (map_of os p) of Some n \<Rightarrow> Some n
        | None \<Rightarrow> map_option (sint \<circ> fst) (db_offsets t p))"
      by (simp add: look option.map_comp split: option.splits)
    finally show ?thesis
      using track_offsets_highest [of p es] track_offsets_no_Nil [of es] by (cases "p = []") (auto simp: os)
  qed
  then show ?thesis by simp
qed

lemma InsertEvents_tables:
  "case InsertEvents s es of (err, s') \<Rightarrow>
     db_anchors s' = db_anchors s \<and> db_version s' = db_version s \<and>
     (if err = None
      then db_events s' = foldl insert_or_ignore (db_events s) (map row_of es) \<and>
           (\<forall>p. map_option (sint \<circ> fst) (db_offsets s' p) =
              (if p \<noteq> [] \<and> highest_offset es p > 0 then Some (highest_offset es p)
               else map_option (sint \<circ> fst) (db_offsets s p)))
      else db_events s' = db_events s \<and> db_offsets s' = db_offsets s)"
proof (cases "es = []")
  case True
  then show ?thesis by (simp add: InsertEvents_def highest_offset_def)
next
  case ne: False
  obtain er t where c: "db_call s = (er, t)" by (cases "db_call s")
  note cf = db_call_fields [OF c]
  show ?thesis
  proof (cases er)
    case (Some x)
    with ne c cf show ?thesis by (simp add: InsertEvents_def)
  next
    case None
    obtain err t' where tx: "insert_tx es t = (err, t')" by (cases "insert_tx es t")
    show ?thesis
    proof (cases err)
      case (Some x)
      with ne c cf None tx show ?thesis by (simp add: InsertEvents_def)
    next
      case ok: None
      from insert_tx_committed [OF tx [unfolded ok]] ne c cf None tx ok show ?thesis
        by (simp add: InsertEvents_def)
    qed
  qed
qed

text \<open>C33: A batch is written as a whole or not at all. When \<open>InsertEvents\<close> returns an error, whichever of
  its calls failed, the tables are as before. When it does not, the events table has the
  rows of the batch whose identifier was new, in order, and every source file's offset is
  the highest its events in the batch carry; files without a positive offset keep theirs.\<close>

theorem InsertEvents_atomic:
  "case InsertEvents s es of (err, s') \<Rightarrow>
     db_anchors s' = db_anchors s \<and> db_version s' = db_version s \<and>
     (if err = None
      then db_events s' = foldl insert_or_ignore (db_events s) (map row_of es) \<and>
           (\<forall>p. map_option (sint \<circ> fst) (db_offsets s' p) =
              (if p \<noteq> [] \<and> highest_offset es p > 0 then Some (highest_offset es p)
               else map_option (sint \<circ> fst) (db_offsets s p)))
      else db_events s' = db_events s \<and> db_offsets s' = db_offsets s)"
  by (rule InsertEvents_tables)

section \<open>The database is an event store\<close>

definition sqlite_api :: "Store EventStore" where
  "sqlite_api = \<lparr>es_InsertEvents = InsertEvents, es_GetLastEventHash = GetLastEventHash,
     es_InsertChainAnchor = InsertChainAnchor\<rparr>"

definition fault_free :: "Store \<Rightarrow> bool" where
  "fault_free s = (\<forall>n. db_fault s n = None)"

lemma insert_or_ignore_save: "insert_or_ignore = save row_id"
  by (intro ext) (simp add: insert_or_ignore_def save_def)

lemma fault_free_call: "fault_free s \<Longrightarrow> db_call s = (None, s\<lparr>db_calls := Suc (db_calls s)\<rparr>)"
  by (simp add: db_call_def fault_free_def)

lemma insert_rows_fault_free: "fault_free s \<Longrightarrow> \<exists>os' s'. insert_rows es os s = (None, os', s') \<and> fault_free s'"
  by (induction es arbitrary: os s) (simp_all add: fault_free_call, simp add: fault_free_def)

lemma upsert_offsets_fault_free: "fault_free s \<Longrightarrow> \<exists>s'. upsert_offsets os s = (None, s') \<and> fault_free s'"
  by (induction os arbitrary: s) (auto simp: fault_free_call Let_def, simp add: fault_free_def)

lemma fault_free_calls [simp]: "fault_free (s\<lparr>db_calls := n\<rparr>) = fault_free s"
  by (simp add: fault_free_def)

lemma InsertEvents_fault_free:
  assumes "fault_free s"
  shows "\<exists>s'. InsertEvents s es = (None, s') \<and> fault_free s'"
proof (cases "es = []")
  case True
  with assms show ?thesis by (simp add: InsertEvents_def)
next
  case False
  let ?s = "s\<lparr>db_calls := Suc (Suc (db_calls s))\<rparr>"
  obtain os s1 where 1: "insert_rows es [] ?s = (None, os, s1)" "fault_free s1"
    using insert_rows_fault_free [of ?s es "[]"] assms by auto
  obtain s2 where 2: "upsert_offsets os s1 = (None, s2)" "fault_free s2"
    using upsert_offsets_fault_free [OF 1(2)] by blast
  from False 1 2 assms show ?thesis
    by (simp add: InsertEvents_def insert_tx_def fault_free_call)
qed

interpretation sqlite: event_store sqlite_api db_events row_of row_id fault_free
proof unfold_locales
  fix s s' :: Store and es err epoch i h r
  show "es_InsertEvents sqlite_api s es = (None, s') \<Longrightarrow>
      db_events s' = foldl (save row_id) (db_events s) (map row_of es)"
    using InsertEvents_tables [of s es] by (simp add: sqlite_api_def insert_or_ignore_save)
  show "es_InsertEvents sqlite_api s es = (Some err, s') \<Longrightarrow> db_events s' = db_events s"
    using InsertEvents_tables [of s es] by (simp add: sqlite_api_def)
  show "db_events (snd (es_InsertChainAnchor sqlite_api s epoch i h)) = db_events s"
    by (simp add: sqlite_api_def InsertChainAnchor_def Let_def db_call_def split: option.splits)
  show "fault_free s \<Longrightarrow> \<exists>s'. es_InsertEvents sqlite_api s es = (None, s') \<and> fault_free s'"
    by (simp add: sqlite_api_def InsertEvents_fault_free)
  show "fault_free s \<Longrightarrow> fault_free (snd (es_InsertChainAnchor sqlite_api s epoch i h))"
    by (simp add: sqlite_api_def InsertChainAnchor_def Let_def fault_free_def db_call_def split: option.splits)
  show "es_GetLastEventHash sqlite_api s = (r, s') \<Longrightarrow>
      db_events s' = db_events s \<and> (fault_free s \<longrightarrow> fault_free s')"
    by (auto simp: sqlite_api_def GetLastEventHash_def db_call_def fault_free_def split: option.splits)
qed

section \<open>A small database\<close>

definition empty_db :: Store where
  "empty_db = \<lparr>db_events = [], db_offsets = Map.empty, db_anchors = Map.empty, db_version = None,
     db_calls = 0, db_fault = (\<lambda>_. None), db_now = (\<lambda>_. 0)\<rparr>"

definition sample_event :: "string \<Rightarrow> time \<Rightarrow> AuditEvent" where
  "sample_event i t = zero_event\<lparr>ev_ID := i, ev_Timestamp := t\<rparr>"

lemma empty_db_simps: "db_events empty_db = []"
  by (simp add: empty_db_def)

lemma fault_free_empty: "fault_free empty_db"
  by (simp add: fault_free_def empty_db_def)

definition any_event :: QueryFilter where
  "any_event = \<lparr>qf_Since = None, qf_Until = None, qf_Agent = [], qf_Action = [], qf_Session = [], qf_Outcome = [],
     qf_TriggeredOnly = False, qf_Limit = 0, qf_Offset = 0\<rparr>"

section \<open>Queries\<close>

text \<open>The filter as it reads on events; instants compare by their texts, as in the database.\<close>

definition filter_matches :: "QueryFilter \<Rightarrow> AuditEvent \<Rightarrow> bool" where
  "filter_matches f e =
     ((case qf_Since f of Some t \<Rightarrow> rfc3339nano t \<le> rfc3339nano (ev_Timestamp e) | None \<Rightarrow> True) \<and>
      (case qf_Until f of Some t \<Rightarrow> rfc3339nano (ev_Timestamp e) \<le> rfc3339nano t | None \<Rightarrow> True) \<and>
      (qf_Agent f = [] \<or> ev_AgentID e = qf_Agent f) \<and> (qf_Action f = [] \<or> ev_ActionType e = qf_Action f) \<and>
      (qf_Session f = [] \<or> ev_SessionID e = qf_Session f) \<and> (qf_Outcome f = [] \<or> ev_Outcome e = qf_Outcome f) \<and>
      (qf_TriggeredOnly f \<longrightarrow> ev_CommandmentsTriggered e \<notin> {[], ''[]''}))"

lemma selected_row_of: "selected (query_conditions f) (row_of e) = filter_matches f e"
  by (auto simp: selected_def query_conditions_def range_conditions_def filter_matches_def split: option.splits)

lemma sort_key_map: "sort_key k (map f xs) = map f (sort_key (\<lambda>x. k (f x)) xs)"
proof -
  have ins: "insort_key k (f x) (map f ys) = map f (insort_key (\<lambda>x. k (f x)) x ys)" for x ys
    by (induction ys) auto
  show ?thesis by (induction xs) (auto simp: ins)
qed

text \<open>C36: A query answers with the events themselves. Over a table of stored events, \<open>QueryEvents\<close> with a
  limit returns the page of the events the filter selects, sorted by the text of their
  timestamps, every field as it was written, and their number over all pages.\<close>

theorem QueryEvents_spec:
  assumes "db_events s = map row_of es" "\<forall>e \<in> set es. year4 (ev_Timestamp e)"
    and "0 < qf_Limit f" "\<forall>n. db_fault s n = None"
  shows "fst (QueryEvents s f) = Inr \<lparr>
    qr_Events = take (nat (qf_Limit f)) (drop (nat (qf_Offset f))
      (map stored (sort_key (\<lambda>e. rfc3339nano (ev_Timestamp e)) (filter (filter_matches f) es)))),
    qr_Total = length (filter (filter_matches f) es)\<rparr>"
proof -
  let ?es = "filter (filter_matches f) es"
  have rs: "filter (selected (query_conditions f)) (db_events s) = map row_of ?es"
    by (simp add: assms(1) filter_map o_def selected_row_of)
  have sorted_rows: "in_time_order (map row_of ?es) = map row_of (sort_key (\<lambda>e. rfc3339nano (ev_Timestamp e)) ?es)"
    by (simp add: in_time_order_def sort_key_map o_def)
  have "map scan_event (map row_of (sort_key k ?es)) = map stored (sort_key k ?es)" for k :: "AuditEvent \<Rightarrow> string"
    using assms(2) by (auto simp: scan_row_of)
  then show ?thesis
    using assms(3,4)
    by (simp add: QueryEvents_def Let_def rs sorted_rows db_call_def page_def take_map [symmetric] drop_map [symmetric]
        del: map_map)
qed

lemma year4_samples: "year4 0" "year4 500000000" "year4 1000000000"
  by (simp_all add: year4_def civil_def days_of_def year_of_def days_before_year_def day_ns_def second_def
      Let_def month_lengths_def leap_def)

theorem QueryEvents_spec_witness:
  "fst (QueryEvents (empty_db\<lparr>db_events := map row_of [sample_event ''b'' 1000000000, sample_event ''a'' 0]\<rparr>)
     (any_event\<lparr>qf_Limit := 1\<rparr>)) = Inr \<lparr>qr_Events = [stored (sample_event ''a'' 0)], qr_Total = 2\<rparr>"
proof -
  let ?es = "[sample_event ''b'' 1000000000, sample_event ''a'' 0]" let ?f = "any_event\<lparr>qf_Limit := 1\<rparr>"
  have "db_events (empty_db\<lparr>db_events := map row_of ?es\<rparr>) = map row_of ?es" by simp
  moreover have "\<forall>e \<in> set ?es. year4 (ev_Timestamp e)" by (simp add: sample_event_def year4_samples)
  moreover have "0 < qf_Limit ?f" "\<forall>n. db_fault (empty_db\<lparr>db_events := map row_of ?es\<rparr>) n = None"
    by (simp_all add: empty_db_def)
  moreover have "\<not> rfc3339nano 1000000000 \<le> rfc3339nano 0"
    by (simp add: rfc3339nano_samples less_eq_list_code less_char_def less_eq_char_def)
  moreover have "filter_matches ?f e" for e by (simp add: filter_matches_def any_event_def)
  ultimately show ?thesis
    using QueryEvents_spec [of "empty_db\<lparr>db_events := map row_of ?es\<rparr>" ?es ?f]
    by (simp add: any_event_def sample_event_def)
qed

text \<open>Ranges miss events. An event half a second after the start of the range is not found, because the
  database compares texts: a query since a whole second leaves out the events of that
  second that have a fraction.\<close>

theorem QueryEvents_since_misses:
  "let s = empty_db\<lparr>db_events := [row_of (sample_event ''a'' 500000000)]\<rparr>
   in fst (QueryEvents s (any_event\<lparr>qf_Since := Some 0\<rparr>)) = Inr \<lparr>qr_Events = [], qr_Total = 0\<rparr> \<and>
      fst (QueryEvents s any_event) = Inr \<lparr>qr_Events = [stored (sample_event ''a'' 500000000)], qr_Total = 1\<rparr>"
proof -
  have "\<not> selected (query_conditions (any_event\<lparr>qf_Since := Some 0\<rparr>)) (row_of (sample_event ''a'' 500000000))"
    using rfc3339nano_order by (simp add: selected_row_of filter_matches_def sample_event_def not_le)
  moreover have "selected (query_conditions any_event) (row_of (sample_event ''a'' 500000000))"
    by (simp add: selected_row_of filter_matches_def any_event_def)
  moreover have "scan_event (row_of (sample_event ''a'' 500000000)) = stored (sample_event ''a'' 500000000)"
    by (rule scan_row_of) (simp add: sample_event_def year4_samples)
  ultimately show ?thesis
    by (simp add: QueryEvents_def db_call_def empty_db_def page_def in_time_order_def any_event_def Let_def)
qed

section \<open>Integrity\<close>

text \<open>Every row names the hash of the row before it.\<close>

fun linked :: "string \<Rightarrow> Row list \<Rightarrow> bool" where
  "linked p [] = True"
| "linked p (r # rs) = (sql_text (col r ''prev_hash'') = p \<and> linked (sql_text (col r ''event_hash'')) rs)"

lemma verify_rows_linked: "linked p rs \<Longrightarrow> verify_rows p n rs = (True, n + length rs, [])"
  by (induction p n rs rule: verify_rows.induct) auto

lemma verify_rows_linked_iff: "fst (verify_rows p n rs) \<longleftrightarrow> linked p rs"
  by (induction p n rs rule: verify_rows.induct) auto

lemma verify_rows_broken:
  "\<not> linked p rs \<Longrightarrow> \<exists>k < length rs. linked p (take k rs) \<and> \<not> linked p (take (Suc k) rs) \<and>
     verify_rows p n rs = (False, n + k + 1, row_id (rs ! k))"
proof (induction p n rs rule: verify_rows.induct)
  case (2 p n r rs)
  show ?case
  proof (cases "sql_text (col r ''prev_hash'') = p")
    case True
    with 2 obtain k where "k < length rs" "linked (sql_text (col r ''event_hash'')) (take k rs)"
        "\<not> linked (sql_text (col r ''event_hash'')) (take (Suc k) rs)"
        "verify_rows (sql_text (col r ''event_hash'')) (n + 1) rs = (False, n + 1 + k + 1, row_id (rs ! k))"
      by auto
    with True show ?thesis by (intro exI [of _ "Suc k"]) auto
  qed auto
qed simp

text \<open>C21: \<open>VerifyIntegrity\<close> finds the first broken link. In the order of the timestamps it counts every
  row and reports none when each row's previous hash is the hash of the row before it, and
  otherwise stops at the first row for which it is not, with that row's identifier.\<close>

theorem VerifyIntegrity_spec:
  "case fst (VerifyIntegrity s) of
     Inl err \<Rightarrow> db_fault s (db_calls s) \<noteq> None
   | Inr (valid, n, brokenAt) \<Rightarrow>
       (let rs = in_time_order (db_events s) in
        valid = linked genesis rs \<and>
        (if valid then n = length rs \<and> brokenAt = []
         else 0 < n \<and> n \<le> length rs \<and> linked genesis (take (n - 1) rs) \<and> \<not> linked genesis (take n rs) \<and>
              brokenAt = row_id (rs ! (n - 1))))"
proof (cases "db_fault s (db_calls s)")
  case (Some err)
  then show ?thesis by (simp add: VerifyIntegrity_def db_call_def)
next
  case None
  let ?rs = "in_time_order (db_events s)"
  show ?thesis
  proof (cases "linked genesis ?rs")
    case True
    with None show ?thesis by (simp add: VerifyIntegrity_def db_call_def verify_rows_linked Let_def)
  next
    case False
    from verify_rows_broken [OF this, of 0] False None show ?thesis
      by (auto simp: VerifyIntegrity_def db_call_def Let_def)
  qed
qed

text \<open>The columns \<open>VerifyIntegrity\<close> reads. It recomputes no hash: rewriting any other column goes unseen.\<close>

definition chain_columns :: "string set" where
  "chain_columns = {''id'', ''timestamp'', ''prev_hash'', ''event_hash''}"

definition set_col :: "string \<Rightarrow> sql \<Rightarrow> Row \<Rightarrow> Row" where
  "set_col c v r = (c, v) # filter (\<lambda>(c', _). c' \<noteq> c) r"

lemma col_set_col: "col (set_col c v r) c' = (if c' = c then v else col r c')"
proof -
  have "map_of (filter (\<lambda>(k, _). k \<noteq> c) r) c' = (if c' = c then None else map_of r c')"
    by (induction r) auto
  then show ?thesis by (simp add: col_def set_col_def)
qed

text \<open>C30: Tampering with what an event says is not detected: whatever a row is overwritten with in a column
  other than its identifier, timestamp and hashes (its action, its arguments, its outcome,
  the rules it triggered), \<open>VerifyIntegrity\<close> answers as before.\<close>

theorem VerifyIntegrity_ignores_content:
  assumes "c \<notin> chain_columns"
  shows "fst (VerifyIntegrity (s\<lparr>db_events := map (\<lambda>r. if P r then set_col c v r else r) (db_events s)\<rparr>)) =
         fst (VerifyIntegrity s)"
proof -
  let ?f = "\<lambda>r. if P r then set_col c v r else r"
  have [simp]: "ts_text (?f r) = ts_text r" "row_id (?f r) = row_id r"
      "col (?f r) ''prev_hash'' = col r ''prev_hash''" "col (?f r) ''event_hash'' = col r ''event_hash''" for r
    using assms by (auto simp: ts_text_def row_id_def chain_columns_def col_set_col)
  have "verify_rows p n (map ?f rs) = verify_rows p n rs" for p n rs
    by (induction p n rs rule: verify_rows.induct) simp_all
  moreover have "in_time_order (map ?f rs) = map ?f (in_time_order rs)" for rs
    by (simp add: in_time_order_def sort_key_map o_def)
  ultimately show ?thesis
    by (cases "db_fault s (db_calls s)") (simp_all add: VerifyIntegrity_def db_call_def)
qed

theorem VerifyIntegrity_ignores_content_witness:
  "fst (VerifyIntegrity (empty_db\<lparr>db_events := [set_col ''outcome'' (Text ''success'') (row_of (sample_event ''a'' 0))]\<rparr>)) =
   fst (VerifyIntegrity (empty_db\<lparr>db_events := [row_of (sample_event ''a'' 0)]\<rparr>))"
  using VerifyIntegrity_ignores_content [of "''outcome''" "\<lambda>_. True" "Text ''success''"
      "empty_db\<lparr>db_events := [row_of (sample_event ''a'' 0)]\<rparr>"]
  by (simp add: chain_columns_def)

end
