(* ===== verification/Audit_Trail.thy ===== *)
theory Audit_Trail
  imports Sqlite_Store
begin

text \<open>
  The logger over the SQLite store: what a run of the serializer leaves in the database, and
  when the integrity check accepts it. The proofs use the contract \<open>event_store\<close> that the
  database fulfils and the logger's lemmas under it.
\<close>

section \<open>The stored chain\<close>

lemma linked_rows: "linked p (map row_of es) \<longleftrightarrow> chain p es"
  by (induction es arbitrary: p) auto

text \<open>The redactor of the commandments service, if one is set, as the logger calls it.\<close>

definition redactor_of :: "Lib \<Rightarrow> Redactor option \<Rightarrow> EventRedactor option" where
  "redactor_of L r = map_option (Redact L) r"

lemma judged_row_fields [simp]:
  "ev_ID (judge ev (redactor_of L r) e) = ev_ID e"
  "ev_Timestamp (judge ev (redactor_of L r) e) = ev_Timestamp e"
  by (auto simp: judge_def redactor_of_def Let_def split: option.splits)

lemma judge_plain [simp]: "ev_ID (judge None None e) = ev_ID e" "ev_Timestamp (judge None None e) = ev_Timestamp e"
  by (simp_all add: judge_def Let_def)

lemma map_seal_all [simp]:
  "map ev_ID (seal_all ev (redactor_of L r) f p es) = map ev_ID es"
  "map ev_Timestamp (seal_all ev (redactor_of L r) f p es) = map ev_Timestamp es"
  by (induction es arbitrary: p) (simp_all add: Let_def)

lemma audit_trail_lemma:
  assumes "NewLogger sqlite_api s0 n = Inr l" "fault_free s0"
    and "lreach sqlite_api (processEvent sqlite_api ev (redactor_of L r) f) (lsys_init q l) t" "l_loc t = Returned"
    and "distinct (map row_id (db_events s0) @ map ev_ID (l_received t))"
  shows "db_events (lg_store (l_logger t)) =
    db_events s0 @ map row_of (seal_all ev (redactor_of L r) f (lg_prevHash l) (l_received t))"
proof -
  have "map row_id (map row_of (seal_all ev (redactor_of L r) f p es)) = map ev_ID es" for p es
    by (simp add: o_def)
  then show ?thesis
    using sqlite.logger_appends [OF assms(1,3,2,4)] assms(5) by (simp del: map_map)
qed

text \<open>C3: When the logger has returned, the database holds exactly what it received. Over a database that
  does not fail, every event taken from the queue or from its control channel, in that
  order, is a row: with the outcome the rules escalate it to, redacted, naming the hash of
  the row before it and carrying the hash of its own fields and of that hash. This holds
  for every interleaving of senders, ticks, shutdown and queue closing and every batch size.\<close>

theorem audit_trail_contents:
  assumes "NewLogger sqlite_api s0 n = Inr l" "fault_free s0"
    and "lreach sqlite_api (processEvent sqlite_api ev (redactor_of L r) f) (lsys_init q l) t" "l_loc t = Returned"
    and "distinct (map row_id (db_events s0) @ map ev_ID (l_received t))"
  shows "db_events (lg_store (l_logger t)) =
    db_events s0 @ map row_of (seal_all ev (redactor_of L r) f (lg_prevHash l) (l_received t))"
  using assms by (rule audit_trail_lemma)

text \<open>A run: the queue holds some events and is closed, and the loop takes them one by one.\<close>

lemma run_closed_queue:
  assumes "q_shut (l_queue s)" "q_controlC (l_queue s) = []" "q_ch (l_queue s) = map EventItem es" "l_loc s = Top"
  shows "\<exists>t. lreach api process s t \<and> l_loc t = Returned \<and> l_received t = l_received s @ es"
  using assms
proof (induction es arbitrary: s)
  case Nil
  let ?s = "s\<lparr>l_loc := Selecting\<rparr>"
  have "lstep api process s ?s" using Nil by (intro lstep.top_done) (auto simp: try_recv_control_def)
  moreover have "lstep api process ?s (flush_to api Returned ?s)"
    using Nil by (intro lstep.closed) (auto simp: try_recv_def)
  ultimately have "lreach api process s (flush_to api Returned ?s)" by (meson lreach.intros)
  then show ?case by (intro exI [of _ "flush_to api Returned ?s"]) (simp add: flush_to_def)
next
  case (Cons e es)
  let ?s = "s\<lparr>l_loc := Selecting\<rparr>" let ?q = "(l_queue s)\<lparr>q_ch := map EventItem es\<rparr>"
  let ?t = "take_event process e ?q Top ?s"
  have 1: "lstep api process s ?s" using Cons.prems by (intro lstep.top_done) (auto simp: try_recv_control_def)
  have "try_recv (l_queue ?s) = (Some (Some (EventItem e)), ?q)" using Cons.prems by (simp add: try_recv_def)
  from lstep.item [OF _ this] have 2: "lstep api process ?s ?t" by (simp add: take_item_def)
  obtain u where u: "lreach api process ?t u" "l_loc u = Returned" "l_received u = l_received s @ e # es"
    using Cons.IH [of ?t] Cons.prems by (auto simp: take_event_def)
  have trans: "lreach api process b c \<Longrightarrow> lreach api process a b \<Longrightarrow> lreach api process a c" for a b c
    by (induction rule: lreach.induct) (auto intro: lreach.intros)
  have "lreach api process s ?t" using 1 2 by (meson lreach.intros)
  from trans [OF u(1) this] u show ?case by auto
qed

definition closed_queue :: "AuditEvent list \<Rightarrow> QItem Queue" where
  "closed_queue es = \<lparr>q_ch = map EventItem es, q_capacity = length es, q_controlC = [], q_policy = [],
     q_timeout = 0, q_dropped = 0, q_overflow = 0, q_closed = True, q_shut = True\<rparr>"

definition empty_logger :: "Store Logger" where
  "empty_logger = \<lparr>lg_store = empty_db\<lparr>db_calls := 1\<rparr>, lg_batchSize = 100, lg_prevHash = genesis,
     lg_subscribers = [], lg_nextChan = 0, lg_gone = {}, lg_batch = [], lg_lastEpoch = []\<rparr>"

lemma empty_logger_prev: "lg_prevHash empty_logger = genesis"
  by (simp add: empty_logger_def)

lemma empty_logger: "NewLogger sqlite_api empty_db 100 = Inr empty_logger"
  by (simp add: NewLogger_def sqlite_api_def GetLastEventHash_def db_call_def empty_db_def empty_logger_def)

lemma sample_run:
  obtains t where "lreach sqlite_api process (lsys_init (closed_queue es) empty_logger) t" "l_loc t = Returned"
    "l_received t = es"
  using run_closed_queue [of "lsys_init (closed_queue es) empty_logger" es sqlite_api process]
  by (auto simp: lsys_init_def closed_queue_def)

theorem audit_trail_contents_witness:
  "\<exists>t :: Store lsys. l_received t = [sample_event ''a'' 0, sample_event ''b'' 1] \<and>
     db_events (lg_store (l_logger t)) =
       map row_of (seal_all None (redactor_of sample_lib (Some NewRedactor)) (\<lambda>s. s) genesis [sample_event ''a'' 0, sample_event ''b'' 1])"
proof -
  let ?es = "[sample_event ''a'' 0, sample_event ''b'' 1]"
  let ?process = "processEvent sqlite_api None (redactor_of sample_lib (Some NewRedactor)) (\<lambda>s. s)"
  obtain t where t: "lreach sqlite_api ?process (lsys_init (closed_queue ?es) empty_logger) t" "l_loc t = Returned"
    "l_received t = ?es" by (rule sample_run)
  have "fault_free empty_db" by (simp add: fault_free_def empty_db_def)
  moreover have "distinct (map row_id (db_events empty_db) @ map ev_ID (l_received t))"
    by (simp add: t sample_event_def empty_db_def)
  ultimately have "db_events (lg_store (l_logger t)) = db_events empty_db @
      map row_of (seal_all None (redactor_of sample_lib (Some NewRedactor)) (\<lambda>s. s) (lg_prevHash empty_logger) (l_received t))"
    using audit_trail_contents [OF empty_logger _ t(1,2)] by blast
  then have "db_events (lg_store (l_logger t)) = map row_of (seal_all None (redactor_of sample_lib (Some NewRedactor)) (\<lambda>s. s) genesis ?es)"
    by (simp only: t(3) empty_db_simps empty_logger_prev append_Nil)
  with t(3) show ?thesis by blast
qed

section \<open>When the integrity check accepts it\<close>

lemma chain_unique:
  assumes "chain p xs" "linked p ys" "mset ys = mset (map row_of xs)" "distinct (p # map ev_EventHash xs)"
  shows "ys = map row_of xs"
  using assms
proof (induction xs arbitrary: p ys)
  case Nil
  then show ?case by simp
next
  case (Cons x xs)
  then obtain y zs where ys: "ys = y # zs" by (cases ys) auto
  have "y \<in> set (map row_of (x # xs))" using Cons.prems(3) ys by (metis list.set_intros(1) set_mset_mset)
  then obtain z where z: "z \<in> set (x # xs)" "y = row_of z" by auto
  have prev: "ev_PrevHash z = p" using Cons.prems(2) ys z by simp
  have in_chain: "z \<in> set es \<Longrightarrow> chain h es \<Longrightarrow> ev_PrevHash z \<in> insert h (ev_EventHash ` set es)" for h es
    by (induction es arbitrary: h) auto
  have "z = x"
  proof (rule ccontr)
    assume "z \<noteq> x"
    with z have "z \<in> set xs" by simp
    from in_chain [OF this] Cons.prems(1,4) prev show False by auto
  qed
  with Cons.IH [of "ev_EventHash x" zs] Cons.prems ys z show ?case by simp
qed

text \<open>C24: The integrity check trusts the clock. A trail the logger wrote into an empty database, untouched
  and free of hash collisions, passes \<open>VerifyIntegrity\<close> if and only if the events were
  processed in the order of their timestamps' texts.\<close>

theorem audit_trail_integrity_iff:
  assumes "NewLogger sqlite_api s0 n = Inr l" "fault_free s0" "db_events s0 = []"
    and "lreach sqlite_api (processEvent sqlite_api ev (redactor_of L r) f) (lsys_init q l) t" "l_loc t = Returned"
    and "distinct (map ev_ID (l_received t))"
    and "distinct (genesis # map ev_EventHash (seal_all ev (redactor_of L r) f genesis (l_received t)))"
  shows "verify_rows genesis 0 (in_time_order (db_events (lg_store (l_logger t)))) = (True, length (l_received t), [])
    \<longleftrightarrow> sorted (map (\<lambda>e. rfc3339nano (ev_Timestamp e)) (l_received t))"
proof -
  have p: "lg_prevHash l = genesis"
    using assms(1-3) by (auto simp: NewLogger_def sqlite_api_def GetLastEventHash_def fault_free_call split: prod.splits)
  let ?es = "seal_all ev (redactor_of L r) f genesis (l_received t)"
  have rows: "db_events (lg_store (l_logger t)) = map row_of ?es"
    using audit_trail_lemma [OF assms(1,2,4,5)] assms(3,6) p by simp
  have "map ts_text (map row_of xs) = map rfc3339nano (map ev_Timestamp xs)" for xs by (induction xs) simp_all
  then have keys: "map ts_text (map row_of ?es) = map (\<lambda>e. rfc3339nano (ev_Timestamp e)) (l_received t)"
    by (simp only: map_seal_all) (simp only: map_map o_def)
  have srt: "in_time_order (map row_of ?es) = map row_of ?es \<longleftrightarrow> sorted (map ts_text (map row_of ?es))"
    unfolding in_time_order_def by (metis sort_key_id_if_sorted sorted_sort_key)
  have "linked genesis (in_time_order (map row_of ?es)) \<longleftrightarrow> in_time_order (map row_of ?es) = map row_of ?es"
  proof
    assume "linked genesis (in_time_order (map row_of ?es))"
    from chain_unique [OF chain_seal_all this _ assms(7)]
    show "in_time_order (map row_of ?es) = map row_of ?es" by (simp add: in_time_order_def)
  next
    assume "in_time_order (map row_of ?es) = map row_of ?es"
    then show "linked genesis (in_time_order (map row_of ?es))" by (simp add: linked_rows chain_seal_all)
  qed
  moreover have "verify_rows genesis 0 rs = (True, length rs, []) \<longleftrightarrow> linked genesis rs" for rs
    using verify_rows_linked [of genesis rs 0] verify_rows_linked_iff [of genesis 0 rs] by auto
  moreover have "length (in_time_order (map row_of ?es)) = length (l_received t)"
    by (simp add: in_time_order_def)
  ultimately show ?thesis
    unfolding rows keys [symmetric] srt [symmetric] by metis
qed

text \<open>A hash function of one byte is enough for two events: the hashes are \<open>73\<close> and \<open>33\<close>.\<close>

definition last_byte :: "string \<Rightarrow> string" where
  "last_byte s = [last s]"

lemma last_byte_seal: "p \<noteq> [] \<Longrightarrow> ev_EventHash (seal last_byte p e) = hex [last p]"
  by (simp add: seal_def ComputeHash_def last_byte_def Let_def)

theorem audit_trail_integrity_iff_witness:
  "\<exists>t :: Store lsys. l_received t = [sample_event ''a'' 0, sample_event ''b'' 1000000000] \<and>
     verify_rows genesis 0 (in_time_order (db_events (lg_store (l_logger t)))) = (True, 2, [])"
proof -
  let ?es = "[sample_event ''a'' 0, sample_event ''b'' 1000000000]"
  let ?process = "processEvent sqlite_api None (redactor_of sample_lib None) last_byte"
  obtain t where t: "lreach sqlite_api ?process (lsys_init (closed_queue ?es) empty_logger) t" "l_loc t = Returned"
    "l_received t = ?es" by (rule sample_run)
  have 1: "fault_free empty_db" "db_events empty_db = []" by (simp_all add: fault_free_def empty_db_def)
  have 2: "distinct (map ev_ID (l_received t))" by (simp add: t sample_event_def)
  have h: "hex [last genesis] = ''73''" "hex ''3'' = ''33''" by code_simp+
  have 3: "distinct (genesis # map ev_EventHash (seal_all None (redactor_of sample_lib None) last_byte genesis (l_received t)))"
  proof -
    have "genesis \<noteq> []" by (simp add: genesis_def)
    then have "map ev_EventHash (seal_all None (redactor_of sample_lib None) last_byte genesis (l_received t)) = [''73'', ''33'']"
      by (simp add: t Let_def last_byte_seal h)
    then show ?thesis by (simp add: genesis_def)
  qed
  have "sorted (map (\<lambda>e. rfc3339nano (ev_Timestamp e)) (l_received t))"
    by (simp add: t sample_event_def rfc3339nano_samples less_eq_list_code less_char_def)
  then have "verify_rows genesis 0 (in_time_order (db_events (lg_store (l_logger t)))) = (True, length (l_received t), [])"
    using audit_trail_integrity_iff [OF empty_logger 1 t(1,2) 2 3] by simp
  then have "verify_rows genesis 0 (in_time_order (db_events (lg_store (l_logger t)))) = (True, 2, [])"
    by (simp add: t)
  with t(3) show ?thesis by blast
qed

text \<open>C39: A false alarm. Two events half a second apart, processed and stored in order and untouched, make
  \<open>VerifyIntegrity\<close> report a broken chain, for every hash function: RFC3339Nano drops the
  trailing zeros of the fraction, and \<open>00.5Z\<close> sorts before \<open>00Z\<close>.\<close>

theorem VerifyIntegrity_false_alarm:
  "fst (VerifyIntegrity (snd (InsertEvents empty_db
     (seal_all None None f genesis [sample_event ''a'' 0, sample_event ''b'' 500000000])))) = Inr (False, 1, ''b'')"
proof -
  let ?a = "seal f genesis (judge None None (sample_event ''a'' 0))"
  let ?b = "seal f (ev_EventHash ?a) (judge None None (sample_event ''b'' 500000000))"
  have ids: "ev_ID ?a = ''a''" "ev_ID ?b = ''b''" "ev_Timestamp ?a = 0" "ev_Timestamp ?b = 500000000"
    by (simp_all add: sample_event_def)
  have es: "seal_all None None f genesis [sample_event ''a'' 0, sample_event ''b'' 500000000] = [?a, ?b]"
    by (simp add: Let_def)
  have "fault_free empty_db" by (simp add: fault_free_def empty_db_def)
  from InsertEvents_fault_free [OF this, of "[?a, ?b]"]
  obtain s where s: "InsertEvents empty_db [?a, ?b] = (None, s)" "fault_free s" by blast
  have "distinct (map row_id (db_events empty_db @ map row_of [?a, ?b]))" by (simp add: empty_db_def sample_event_def)
  from sqlite.insert_fresh [OF _ this, of None s] s
  have rows: "db_events s = [row_of ?a, row_of ?b]" by (simp add: sqlite_api_def empty_db_def)
  have "in_time_order (db_events s) = [row_of ?b, row_of ?a]"
    using rfc3339nano_order [unfolded not_le [symmetric]] by (simp add: rows in_time_order_def sample_event_def)
  moreover have "ev_EventHash ?a \<noteq> genesis"
  proof
    assume "ev_EventHash ?a = genesis"
    moreover have "even (length (ev_EventHash ?a))" by (simp add: seal_def ComputeHash_def hex_def Let_def length_concat sum_list_triv o_def)
    ultimately show False by (simp add: genesis_def)
  qed
  ultimately show ?thesis
    unfolding es using s by (simp add: VerifyIntegrity_def fault_free_call sample_event_def)
qed

end
