(* ===== verification/Classify.thy ===== *)
theory Classify
  imports Go_Json "HOL-Library.AList" "HOL-Library.Word"
begin

text \<open>
  \<open>internal/classify\<close>: the registry that maps a provider's tool to a category and an effect.
  Go's maps that are ranged over are association lists in the iteration's order. The glob
  matcher (doublestar) and the decoders of YAML and JSON are arguments; the warnings, which
  only log, are left out. The interface \<open>Classifier\<close> is the locale \<open>classifier\<close>.
\<close>

section \<open>Taxonomy\<close>

definition CategoryShell :: string where "CategoryShell = ''shell''"
definition CategoryFileRead :: string where "CategoryFileRead = ''file.read''"
definition CategoryFileWrite :: string where "CategoryFileWrite = ''file.write''"
definition CategoryFileEdit :: string where "CategoryFileEdit = ''file.edit''"
definition CategoryFileSearch :: string where "CategoryFileSearch = ''file.search''"
definition CategoryCodeExec :: string where "CategoryCodeExec = ''code.exec''"
definition CategoryOther :: string where "CategoryOther = ''other''"
definition EffectUnknown :: string where "EffectUnknown = ''unknown''"
definition SourceExact :: string where "SourceExact = ''exact''"
definition SourcePattern :: string where "SourcePattern = ''pattern''"
definition SourceHeuristic :: string where "SourceHeuristic = ''heuristic''"
definition SourceFallback :: string where "SourceFallback = ''fallback''"
definition DefaultTaxonomyVersion :: string where "DefaultTaxonomyVersion = ''v1''"
definition defaultProviderKey :: string where "defaultProviderKey = ''_default''"

record ClassifyResult =
  cl_Category :: string
  cl_Effect :: string
  cl_TaxonomyVersion :: string
  cl_ClassificationSource :: string

definition fallbackResult :: "string \<Rightarrow> ClassifyResult" where
  "fallbackResult version =
     \<lparr>cl_Category = CategoryOther, cl_Effect = EffectUnknown,
      cl_TaxonomyVersion = (if version = [] then DefaultTaxonomyVersion else version),
      cl_ClassificationSource = SourceFallback\<rparr>"

section \<open>Argument keys\<close>

definition normalizeArgKey :: "string \<Rightarrow> string" where
  "normalizeArgKey key = to_lower (trim_space key)"

text \<open>Copying a map's keys to a slice and sorting it: the map is the set of its keys.\<close>

definition sortUniqueKeys :: "string set \<Rightarrow> string list" where
  "sortUniqueKeys m = sorted_list_of_set m"

definition NormalizeArgKeys :: "string list \<Rightarrow> string list" where
  "NormalizeArgKeys keys = sortUniqueKeys (set (filter (\<lambda>k. k \<noteq> []) (map normalizeArgKey keys)))"

fun collectArgKeys :: "json \<Rightarrow> string set \<Rightarrow> string set" where
  "collectArgKeys (JObj kvs) out =
     fold (\<lambda>(k, child) out. collectArgKeys child
        (let normalized = normalizeArgKey k in if normalized \<noteq> [] then insert normalized out else out)) kvs out"
| "collectArgKeys (JArr vs) out = fold collectArgKeys vs out"
| "collectArgKeys _ out = out"

definition ExtractArgKeys :: "(string \<Rightarrow> json option) \<Rightarrow> string \<Rightarrow> string list" where
  "ExtractArgKeys unmarshal raw =
     (if raw = [] \<or> raw = ''null'' then []
      else case unmarshal raw of None \<Rightarrow> [] | Some payload \<Rightarrow> sortUniqueKeys (collectArgKeys payload {}))"

definition toSet :: "string list \<Rightarrow> string set" where
  "toSet values = set (filter (\<lambda>v. v \<noteq> []) values)"

section \<open>The registry\<close>

record ToolMapping =
  tm_Category :: string
  tm_Effect :: string

record RuleMatch =
  rm_NameGlob :: "string list"
  rm_ArgKeysAny :: "string list"

record RuleSpec =
  rsp_Match :: RuleMatch
  rsp_Set :: ToolMapping

record ProviderRegistry =
  pr_Tools :: "(string \<times> ToolMapping) list"
  pr_Patterns :: "RuleSpec list"

record RegistryConfig =
  rc_Version :: string
  rc_Providers :: "(string \<times> ProviderRegistry) list"
  rc_Heuristics :: "RuleSpec list"

record ToolRule =
  tru_nameGlobs :: "string list"
  tru_argKeysAny :: "string set"
  tru_mapping :: ToolMapping
  tru_source :: string
  tru_description :: string

record compiledProvider =
  cp_Tools :: "(string \<times> ToolMapping) list"
  cp_Patterns :: "ToolRule list"

record Registry =
  reg_version :: string
  reg_providers :: "(string \<times> compiledProvider) list"
  reg_heuristics :: "ToolRule list"
  reg_unclassified :: "64 word"

definition normalizeTaxonomyVersion :: "string \<Rightarrow> string" where
  "normalizeTaxonomyVersion version =
     (let version = trim_space version
      in if version = [] then [] else if has_prefix version ''v'' then version else ''v'' @ version)"

definition normalizeProvider :: "string \<Rightarrow> string" where
  "normalizeProvider provider =
     (let provider = to_lower (trim_space provider) in if provider = [] then defaultProviderKey else provider)"

definition normalizeGlobs :: "string list \<Rightarrow> string list" where
  "normalizeGlobs globs = filter (\<lambda>p. p \<noteq> []) (map (\<lambda>p. to_lower (trim_space p)) globs)"

definition validateMapping :: "ToolMapping \<Rightarrow> error option" where
  "validateMapping mapping =
     (if trim_space (tm_Category mapping) = [] then Some ''category is required''
      else if trim_space (tm_Effect mapping) = [] then Some ''effect is required''
      else None)"

definition section_index :: "string \<Rightarrow> nat \<Rightarrow> string" where
  "section_index sec idx = sec @ ''['' @ show_nat idx @ '']''"

text \<open>\<open>compileRules\<close> of this package, from index \<open>idx\<close> on.\<close>

fun compile_tool_rules :: "nat \<Rightarrow> RuleSpec list \<Rightarrow> string \<Rightarrow> string \<Rightarrow> error + ToolRule list" where
  "compile_tool_rules idx [] source sec = Ok []"
| "compile_tool_rules idx (spec # specs) source sec =
     (case validateMapping (rsp_Set spec) of
        Some err \<Rightarrow> Err (section_index sec idx @ '': '' @ err)
      | None \<Rightarrow>
          (let rule = \<lparr>tru_nameGlobs = normalizeGlobs (rm_NameGlob (rsp_Match spec)),
                       tru_argKeysAny = toSet (NormalizeArgKeys (rm_ArgKeysAny (rsp_Match spec))),
                       tru_mapping = rsp_Set spec, tru_source = source, tru_description = section_index sec idx\<rparr>
           in if tru_nameGlobs rule = [] \<and> tru_argKeysAny rule = {} then Err (section_index sec idx @ '': empty matcher'')
              else bind_result (compile_tool_rules (Suc idx) specs source sec) (\<lambda>rules. Ok (rule # rules))))"

fun compile_tools :: "string \<Rightarrow> (string \<times> ToolMapping) list \<Rightarrow> (string \<times> ToolMapping) list \<Rightarrow>
    error + (string \<times> ToolMapping) list" where
  "compile_tools providerName [] tools = Ok tools"
| "compile_tools providerName ((toolName, mapping) # rest) tools =
     (if trim_space toolName = [] then compile_tools providerName rest tools
      else case validateMapping mapping of
        Some err \<Rightarrow> Err (''provider '' @ quote_string providerName @ '' tool '' @ quote_string toolName @ '': '' @ err)
      | None \<Rightarrow> compile_tools providerName rest (AList.update toolName mapping tools))"

definition compileProvider :: "ProviderRegistry \<Rightarrow> string \<Rightarrow> error + compiledProvider" where
  "compileProvider provider providerName =
     bind_result (compile_tools providerName (pr_Tools provider) []) (\<lambda>tools.
     bind_result (compile_tool_rules 0 (pr_Patterns provider) SourcePattern (''provider.'' @ providerName @ ''.patterns'')) (\<lambda>patterns.
       Ok \<lparr>cp_Tools = tools, cp_Patterns = patterns\<rparr>))"

text \<open>Two provider keys that normalize to the same one overwrite each other, the one ranged over last wins.\<close>

fun compile_providers :: "(string \<times> ProviderRegistry) list \<Rightarrow> (string \<times> compiledProvider) list \<Rightarrow>
    error + (string \<times> compiledProvider) list" where
  "compile_providers [] compiled = Ok compiled"
| "compile_providers ((provider, pr) # rest) compiled =
     (let providerKey = normalizeProvider provider
      in if providerKey = [] then compile_providers rest compiled
         else bind_result (compileProvider pr providerKey) (\<lambda>cp.
           compile_providers rest (AList.update providerKey cp compiled)))"

definition NewRegistry :: "RegistryConfig \<Rightarrow> error + Registry" where
  "NewRegistry cfg =
     (let version = normalizeTaxonomyVersion (rc_Version cfg);
          version = (if version = [] then DefaultTaxonomyVersion else version)
      in bind_result (compile_providers (rc_Providers cfg) []) (\<lambda>providers.
         bind_result (compile_tool_rules 0 (rc_Heuristics cfg) SourceHeuristic ''heuristics'') (\<lambda>heuristics.
           Ok \<lparr>reg_version = version, reg_providers = providers, reg_heuristics = heuristics, reg_unclassified = 0\<rparr>)))"

definition NewFallbackRegistry :: Registry where
  "NewFallbackRegistry = \<lparr>reg_version = DefaultTaxonomyVersion, reg_providers = [], reg_heuristics = [], reg_unclassified = 0\<rparr>"

definition loadRegistryWithConfig :: "(string \<Rightarrow> error + RegistryConfig) \<Rightarrow> string \<Rightarrow> error + Registry" where
  "loadRegistryWithConfig yaml data = bind_result (yaml data) NewRegistry"

definition LoadRegistry ::
  "(string \<Rightarrow> error + RegistryConfig) \<Rightarrow> (string \<Rightarrow> ReadResult) \<Rightarrow> string \<Rightarrow> string \<Rightarrow> error + Registry" where
  "LoadRegistry yaml readFile path fallbackYAML =
     (let fallback = (if fallbackYAML = [] then Err ''no tool registry source available''
                      else loadRegistryWithConfig yaml fallbackYAML)
      in if path = [] then fallback
         else case readFile path of
           FileData data \<Rightarrow> loadRegistryWithConfig yaml data
         | FileMissing \<Rightarrow> fallback
         | FileFailed err \<Rightarrow> Err err)"

section \<open>Classifying\<close>

definition matchesRule :: "(string \<Rightarrow> string \<Rightarrow> error + bool) \<Rightarrow> ToolRule \<Rightarrow> string \<Rightarrow> string set \<Rightarrow> bool" where
  "matchesRule glob rule lowerTool argKeys =
     (let nameMatch = (tru_nameGlobs rule = [] \<or> list_ex (\<lambda>p. glob p lowerTool = Ok True) (tru_nameGlobs rule));
          argMatch = (tru_argKeysAny rule = {} \<or> tru_argKeysAny rule \<inter> argKeys \<noteq> {})
      in nameMatch \<and> argMatch)"

fun matchRules :: "(string \<Rightarrow> string \<Rightarrow> error + bool) \<Rightarrow> ToolRule list \<Rightarrow> string \<Rightarrow> string set \<Rightarrow> ToolMapping option" where
  "matchRules glob [] lowerTool argKeys = None"
| "matchRules glob (r # rs) lowerTool argKeys =
     (if \<not> matchesRule glob r lowerTool argKeys then matchRules glob rs lowerTool argKeys else Some (tru_mapping r))"

definition resultFor :: "Registry \<Rightarrow> ToolMapping \<Rightarrow> string \<Rightarrow> ClassifyResult" where
  "resultFor r mapping source =
     \<lparr>cl_Category = tm_Category mapping, cl_Effect = tm_Effect mapping, cl_TaxonomyVersion = reg_version r,
      cl_ClassificationSource = source\<rparr>"

definition provider_tool :: "Registry \<Rightarrow> string \<Rightarrow> string \<Rightarrow> ToolMapping option" where
  "provider_tool r provider name = Option.bind (map_of (reg_providers r) provider) (\<lambda>p. map_of (cp_Tools p) name)"

definition provider_pattern ::
  "(string \<Rightarrow> string \<Rightarrow> error + bool) \<Rightarrow> Registry \<Rightarrow> string \<Rightarrow> string \<Rightarrow> string set \<Rightarrow> ToolMapping option" where
  "provider_pattern glob r provider lowerTool argKeys =
     Option.bind (map_of (reg_providers r) provider) (\<lambda>p. matchRules glob (cp_Patterns p) lowerTool argKeys)"

definition matchPattern ::
  "(string \<Rightarrow> string \<Rightarrow> error + bool) \<Rightarrow> Registry \<Rightarrow> string \<Rightarrow> string \<Rightarrow> string set \<Rightarrow> ClassifyResult option" where
  "matchPattern glob r provider lowerTool argKeys =
     (case provider_pattern glob r provider lowerTool argKeys of
        Some mapping \<Rightarrow> Some (resultFor r mapping SourcePattern)
      | None \<Rightarrow>
         (case provider_pattern glob r defaultProviderKey lowerTool argKeys of
            Some mapping \<Rightarrow> Some (resultFor r mapping SourcePattern)
          | None \<Rightarrow> None))"

text \<open>\<open>Classify\<close> of a registry that is not nil; the counter of unclassified tools is part of the state.\<close>

definition Classify ::
  "(string \<Rightarrow> string \<Rightarrow> error + bool) \<Rightarrow> Registry \<Rightarrow> string \<Rightarrow> string \<Rightarrow> string list \<Rightarrow> ClassifyResult \<times> Registry" where
  "Classify glob r provider toolName argKeys =
     (let providerKey = normalizeProvider provider;
          lowerTool = to_lower (trim_space toolName);
          argKeysSet = toSet (NormalizeArgKeys argKeys)
      in case provider_tool r providerKey toolName of
        Some mapping \<Rightarrow> (resultFor r mapping SourceExact, r)
      | None \<Rightarrow>
       (case provider_tool r providerKey lowerTool of
          Some mapping \<Rightarrow> (resultFor r mapping SourceExact, r)
        | None \<Rightarrow>
         (case provider_tool r defaultProviderKey lowerTool of
            Some mapping \<Rightarrow> (resultFor r mapping SourceExact, r)
          | None \<Rightarrow>
           (case matchPattern glob r providerKey lowerTool argKeysSet of
              Some result \<Rightarrow> (result, r)
            | None \<Rightarrow>
             (case matchRules glob (reg_heuristics r) lowerTool argKeysSet of
                Some mapping \<Rightarrow> (resultFor r mapping SourceHeuristic, r)
              | None \<Rightarrow> (fallbackResult (reg_version r), r\<lparr>reg_unclassified := reg_unclassified r + 1\<rparr>))))))"

definition UnclassifiedCount :: "Registry \<Rightarrow> 64 word" where
  "UnclassifiedCount r = reg_unclassified r"

section \<open>Argument keys are a set\<close>

lemma NormalizeArgKeys_set [simp]: "set (NormalizeArgKeys keys) = normalizeArgKey ` set keys - {[]}"
  by (auto simp: NormalizeArgKeys_def sortUniqueKeys_def)

lemma toSet_NormalizeArgKeys [simp]: "toSet (NormalizeArgKeys keys) = normalizeArgKey ` set keys - {[]}"
  by (auto simp: toSet_def)

text \<open>The keys of an argument object, at any depth.\<close>

fun all_keys :: "json \<Rightarrow> string set" where
  "all_keys (JObj kvs) = (\<Union>(k, child) \<in> set kvs. insert k (all_keys child))"
| "all_keys (JArr vs) = (\<Union>v \<in> set vs. all_keys v)"
| "all_keys _ = {}"

definition normal_keys :: "string set \<Rightarrow> string set" where
  "normal_keys ks = normalizeArgKey ` ks - {[]}"

lemma normal_keys_simps [simp]:
  "normal_keys {} = {}" "normal_keys (A \<union> B) = normal_keys A \<union> normal_keys B"
  "normal_keys (insert k A) = (if normalizeArgKey k = [] then normal_keys A else insert (normalizeArgKey k) (normal_keys A))"
  by (auto simp: normal_keys_def)

lemma collectArgKeys_keys: "collectArgKeys v out = out \<union> normal_keys (all_keys v)"
proof (induction v arbitrary: out)
  case (JArr vs)
  have "fold collectArgKeys ws out = out \<union> normal_keys (\<Union>v \<in> set ws. all_keys v)" if "set ws \<subseteq> set vs" for ws out
    using that
  proof (induction ws arbitrary: out)
    case (Cons w ws)
    then have w: "collectArgKeys w out = out \<union> normal_keys (all_keys w)" for out using JArr by auto
    from Cons show ?case by (simp add: w Un_assoc)
  qed simp
  then show ?case by simp
next
  case (JObj kvs)
  let ?step = "\<lambda>(k, child) out. collectArgKeys child
        (let normalized = normalizeArgKey k in if normalized \<noteq> [] then insert normalized out else out)"
  have "fold ?step ws out = out \<union> normal_keys (\<Union>(k, child) \<in> set ws. insert k (all_keys child))"
    if "set ws \<subseteq> set kvs" for ws out
    using that
  proof (induction ws arbitrary: out)
    case (Cons w ws)
    obtain k c where w: "w = (k, c)" by (cases w)
    have c: "collectArgKeys c o' = o' \<union> normal_keys (all_keys c)" for o'
      using JObj [of w c] Cons.prems w by (auto simp: snds.simps)
    have ih: "fold ?step ws o' = o' \<union> normal_keys (\<Union>(k, child) \<in> set ws. insert k (all_keys child))" for o'
      using Cons by auto
    have "?step w out = out \<union> normal_keys (insert k (all_keys c))" by (simp add: w c Let_def)
    moreover have "fold ?step (w # ws) out = fold ?step ws (?step w out)" by simp
    ultimately show ?case unfolding ih by (simp only: w) (simp add: Un_assoc)
  qed simp
  then show ?case by simp
qed simp_all

lemma finite_all_keys [simp]: "finite (all_keys v)"
  by (induction v rule: all_keys.induct) auto

text \<open>C26: Argument keys are a set, whatever the nesting, order, case and padding: \<open>ExtractArgKeys\<close> of a JSON
  text lists the trimmed and lowered keys of the objects at any depth, sorted and once each,
  and \<open>NormalizeArgKeys\<close> does the same with a list of keys.\<close>

theorem ExtractArgKeys_spec:
  "sorted (ExtractArgKeys unmarshal raw) \<and> distinct (ExtractArgKeys unmarshal raw) \<and>
   set (ExtractArgKeys unmarshal raw) =
     (if raw \<in> {[], ''null''} then {}
      else case unmarshal raw of None \<Rightarrow> {} | Some v \<Rightarrow> normalizeArgKey ` all_keys v - {[]}) \<and>
   NormalizeArgKeys keys = sorted_list_of_set (normalizeArgKey ` set keys - {[]})"
  by (auto simp: ExtractArgKeys_def sortUniqueKeys_def collectArgKeys_keys normal_keys_def NormalizeArgKeys_def
      set_diff_eq image_iff intro!: arg_cong [of _ _ sorted_list_of_set] split: option.splits)

section \<open>The registry is well formed\<close>

definition mapping_ok :: "ToolMapping \<Rightarrow> bool" where
  "mapping_ok mapping = (trim_space (tm_Category mapping) \<noteq> [] \<and> trim_space (tm_Effect mapping) \<noteq> [])"

lemma validateMapping_None: "validateMapping mapping = None \<longleftrightarrow> mapping_ok mapping"
  by (simp add: validateMapping_def mapping_ok_def)

lemma compile_tool_rules_ok:
  "compile_tool_rules idx specs source sec = Inr rules \<Longrightarrow> \<forall>tr \<in> set rules. mapping_ok (tru_mapping tr)"
  by (induction idx specs source sec arbitrary: rules rule: compile_tool_rules.induct)
    (auto simp: validateMapping_None bind_result_Inr_iff Let_def split: option.splits if_splits)

lemma update_vals: "snd ` set (AList.update k v al) \<subseteq> insert v (snd ` set al)"
  by (induction al) auto

lemma compile_tools_ok:
  "compile_tools name tools acc = Inr res \<Longrightarrow> Ball (snd ` set acc) mapping_ok \<Longrightarrow> Ball (snd ` set res) mapping_ok"
proof (induction name tools acc arbitrary: res rule: compile_tools.induct)
  case (2 name toolName mapping rest tools)
  show ?case
  proof (cases "trim_space toolName = []")
    case True
    with 2 show ?thesis by simp
  next
    case False
    with 2(3) have v: "validateMapping mapping = None"
      and res: "compile_tools name rest (AList.update toolName mapping tools) = Inr res"
      by (auto split: option.splits)
    have "Ball (snd ` set (AList.update toolName mapping tools)) mapping_ok"
      using v 2(4) update_vals [of toolName mapping tools] unfolding validateMapping_None by blast
    with 2(2) [OF False v res] show ?thesis by simp
  qed
qed simp

definition provider_ok :: "compiledProvider \<Rightarrow> bool" where
  "provider_ok p = (Ball (snd ` set (cp_Tools p)) mapping_ok \<and> (\<forall>tr \<in> set (cp_Patterns p). mapping_ok (tru_mapping tr)))"

lemma compileProvider_ok: "compileProvider pr name = Inr cp \<Longrightarrow> provider_ok cp"
  using compile_tools_ok [of name "pr_Tools pr" "[]"] compile_tool_rules_ok
  by (fastforce simp: compileProvider_def bind_result_Inr_iff provider_ok_def)

lemma normalizeProvider_not_Nil [simp]: "normalizeProvider provider \<noteq> []"
  by (simp add: normalizeProvider_def Let_def defaultProviderKey_def)

lemma compile_providers_ok:
  "compile_providers ps acc = Inr res \<Longrightarrow> Ball (snd ` set acc) provider_ok \<Longrightarrow> Ball (snd ` set res) provider_ok"
proof (induction ps arbitrary: acc)
  case (Cons x ps)
  obtain provider pr where x: "x = (provider, pr)" by (cases x)
  from Cons.prems(1) x obtain cp where cp: "compileProvider pr (normalizeProvider provider) = Inr cp"
    and rest: "compile_providers ps (AList.update (normalizeProvider provider) cp acc) = Inr res"
    by (auto simp: Let_def bind_result_Inr_iff)
  have "Ball (snd ` set (AList.update (normalizeProvider provider) cp acc)) provider_ok"
    using compileProvider_ok [OF cp] Cons.prems(2) update_vals [of "normalizeProvider provider" cp acc] by blast
  from Cons.IH [OF rest this] show ?case .
qed simp

definition registry_ok :: "Registry \<Rightarrow> bool" where
  "registry_ok r =
     (has_prefix (reg_version r) ''v'' \<and> Ball (snd ` set (reg_providers r)) provider_ok \<and>
      (\<forall>tr \<in> set (reg_heuristics r). mapping_ok (tru_mapping tr)))"

lemma NewRegistry_ok:
  assumes "NewRegistry cfg = Inr r"
  shows "registry_ok r"
proof -
  from assms have "compile_providers (rc_Providers cfg) [] = Inr (reg_providers r)"
    and "compile_tool_rules 0 (rc_Heuristics cfg) SourceHeuristic ''heuristics'' = Inr (reg_heuristics r)"
    and v: "reg_version r = (if normalizeTaxonomyVersion (rc_Version cfg) = [] then DefaultTaxonomyVersion
      else normalizeTaxonomyVersion (rc_Version cfg))"
    by (auto simp: NewRegistry_def Let_def bind_result_Inr_iff)
  moreover have "has_prefix (reg_version r) ''v''"
    by (simp add: v normalizeTaxonomyVersion_def DefaultTaxonomyVersion_def has_prefix_def Let_def)
  ultimately show ?thesis
    using compile_providers_ok [of "rc_Providers cfg" "[]"] compile_tool_rules_ok by (simp add: registry_ok_def)
qed

lemma matchRules_set: "matchRules glob rs t ks = Some mapping \<Longrightarrow> \<exists>tr \<in> set rs. tru_mapping tr = mapping"
  by (induction rs) (auto split: if_splits)

lemma provider_tool_ok: "registry_ok r \<Longrightarrow> provider_tool r p name = Some mapping \<Longrightarrow> mapping_ok mapping"
  unfolding registry_ok_def provider_tool_def bind_eq_Some_conv
  by (fastforce simp: provider_ok_def dest!: map_of_SomeD)

lemma provider_pattern_ok: "registry_ok r \<Longrightarrow> provider_pattern glob r p t ks = Some mapping \<Longrightarrow> mapping_ok mapping"
  unfolding registry_ok_def provider_pattern_def bind_eq_Some_conv
  by (fastforce simp: provider_ok_def dest!: map_of_SomeD matchRules_set)

text \<open>What a classification of a well-formed registry is: a category, an effect and a version, and where from.\<close>

definition result_ok :: "ClassifyResult \<Rightarrow> bool" where
  "result_ok c = (trim_space (cl_Category c) \<noteq> [] \<and> trim_space (cl_Effect c) \<noteq> [] \<and> has_prefix (cl_TaxonomyVersion c) ''v'' \<and>
     cl_ClassificationSource c \<in> {SourceExact, SourcePattern, SourceHeuristic, SourceFallback})"

lemma resultFor_ok:
  "registry_ok r \<Longrightarrow> mapping_ok mapping \<Longrightarrow> src \<in> {SourceExact, SourcePattern, SourceHeuristic} \<Longrightarrow>
     result_ok (resultFor r mapping src)"
  by (auto simp: registry_ok_def mapping_ok_def result_ok_def resultFor_def)

lemma fallback_ok: "registry_ok r \<Longrightarrow> result_ok (fallbackResult (reg_version r))"
proof -
  have "trim_space CategoryOther \<noteq> []" "trim_space EffectUnknown \<noteq> []" by code_simp+
  then show "registry_ok r \<Longrightarrow> ?thesis"
    by (auto simp: registry_ok_def result_ok_def fallbackResult_def has_prefix_def)
qed

lemma source_distinct:
  "SourceExact \<noteq> SourceFallback" "SourcePattern \<noteq> SourceFallback" "SourceHeuristic \<noteq> SourceFallback"
  by (simp_all add: SourceExact_def SourcePattern_def SourceHeuristic_def SourceFallback_def)

lemma classification_source [simp]:
  "cl_ClassificationSource (resultFor r mapping src) = src"
  "cl_ClassificationSource (fallbackResult v) = SourceFallback"
  by (simp_all add: resultFor_def fallbackResult_def)

lemma heuristics_ok: "registry_ok r \<Longrightarrow> matchRules glob (reg_heuristics r) t ks = Some mapping \<Longrightarrow> mapping_ok mapping"
  by (auto simp: registry_ok_def dest!: matchRules_set)

lemma Classify_cases:
  assumes "registry_ok r" "Classify glob r provider tool keys = (c, r')"
  shows "result_ok c \<and> r' = r\<lparr>reg_unclassified := reg_unclassified r +
    (if cl_ClassificationSource c = SourceFallback then 1 else 0)\<rparr>"
  using assms(2) resultFor_ok [OF assms(1)] provider_tool_ok [OF assms(1)] provider_pattern_ok [OF assms(1)]
    heuristics_ok [OF assms(1)] fallback_ok [OF assms(1)] source_distinct
  by (auto simp: Classify_def matchPattern_def Let_def split: option.splits)

section \<open>The interface\<close>

text \<open>What the proxy and the log watchers rely on: a total classification and an exact count of the misses.\<close>

text \<open>A sequence of calls.\<close>

fun classify_all ::
  "('c \<Rightarrow> string \<Rightarrow> string \<Rightarrow> string list \<Rightarrow> ClassifyResult \<times> 'c) \<Rightarrow> 'c \<Rightarrow> (string \<times> string \<times> string list) list \<Rightarrow>
   ClassifyResult list \<times> 'c" where
  "classify_all classify c [] = ([], c)"
| "classify_all classify c ((provider, tool, keys) # calls) =
     (case classify c provider tool keys of (res, c') \<Rightarrow>
        (case classify_all classify c' calls of (rs, c'') \<Rightarrow> (res # rs, c'')))"

locale classifier =
  fixes classify :: "'c \<Rightarrow> string \<Rightarrow> string \<Rightarrow> string list \<Rightarrow> ClassifyResult \<times> 'c"
    and misses :: "'c \<Rightarrow> 64 word" and ok :: "'c \<Rightarrow> bool"
  assumes classify_ok: "ok c \<Longrightarrow> classify c provider tool keys = (res, c') \<Longrightarrow> result_ok res \<and> ok c'"
    and classify_misses: "ok c \<Longrightarrow> classify c provider tool keys = (res, c') \<Longrightarrow>
      misses c' = misses c + (if cl_ClassificationSource res = SourceFallback then 1 else 0)"
begin

lemma classify_all_ok:
  "ok c \<Longrightarrow> classify_all classify c calls = (rs, c') \<Longrightarrow>
     ok c' \<and> length rs = length calls \<and> list_all result_ok rs \<and>
     misses c' = misses c + of_nat (length (filter (\<lambda>r. cl_ClassificationSource r = SourceFallback) rs))"
proof (induction calls arbitrary: c rs)
  case (Cons call calls)
  obtain provider tool keys where call: "call = (provider, tool, keys)" by (cases call)
  obtain res c1 where 1: "classify c provider tool keys = (res, c1)" by fastforce
  obtain rs1 c2 where 2: "classify_all classify c1 calls = (rs1, c2)" by fastforce
  from classify_ok [OF Cons.prems(1) 1] classify_misses [OF Cons.prems(1) 1] Cons.IH [of c1 rs1] 1 2 call Cons.prems(2)
  show ?case by auto
qed simp

end

interpretation registry: classifier "Classify glob" UnclassifiedCount registry_ok
proof unfold_locales
  fix c c' :: Registry and provider tool keys res
  assume "registry_ok c" "Classify glob c provider tool keys = (res, c')"
  from Classify_cases [OF this] \<open>registry_ok c\<close>
  show "result_ok res \<and> registry_ok c'"
    "UnclassifiedCount c' = UnclassifiedCount c + (if cl_ClassificationSource res = SourceFallback then 1 else 0)"
    by (simp_all add: registry_ok_def UnclassifiedCount_def)
qed

section \<open>The guarantee\<close>

text \<open>Every tool call gets a class. A registry that loaded classifies any provider, tool name and argument
  keys with a category and an effect that are not blank, a taxonomy version and one of the
  four sources; over any number of calls the counter of unclassified tools has grown by
  exactly the number of fallback answers, and nothing else of the registry changes them.\<close>

theorem Classify_total:
  assumes "NewRegistry cfg = Inr r" "classify_all (Classify glob) r calls = (results, r')"
  shows "length results = length calls \<and> list_all result_ok results \<and>
    UnclassifiedCount r' = of_nat (length (filter (\<lambda>c. cl_ClassificationSource c = SourceFallback) results))"
proof -
  have "UnclassifiedCount r = 0"
    using assms(1) by (auto simp: NewRegistry_def Let_def bind_result_Inr_iff UnclassifiedCount_def)
  with registry.classify_all_ok [OF NewRegistry_ok [OF assms(1)] assms(2)] show ?thesis by simp
qed

definition sample_registry_config :: RegistryConfig where
  "sample_registry_config = \<lparr>rc_Version = ''1'',
     rc_Providers = [(''OpenAI'', \<lparr>pr_Tools = [(''bash'', \<lparr>tm_Category = ''shell'', tm_Effect = ''execute''\<rparr>)], pr_Patterns = []\<rparr>)],
     rc_Heuristics = []\<rparr>"

definition sample_registry :: Registry where
  "sample_registry = \<lparr>reg_version = ''v1'',
     reg_providers = [(''openai'', \<lparr>cp_Tools = [(''bash'', \<lparr>tm_Category = ''shell'', tm_Effect = ''execute''\<rparr>)], cp_Patterns = []\<rparr>)],
     reg_heuristics = [], reg_unclassified = 0\<rparr>"

lemma sample_registry: "NewRegistry sample_registry_config = Inr sample_registry"
  by code_simp

theorem Classify_total_witness:
  "\<exists>results r'. classify_all (Classify (\<lambda>_ _. Inr False)) sample_registry [(''openai'', ''Bash'', []), (''openai'', ''zap'', [])] = (results, r') \<and>
     map cl_ClassificationSource results = [''exact'', ''fallback''] \<and> length results = 2 \<and> list_all result_ok results \<and>
     UnclassifiedCount r' = 1"
proof -
  let ?calls = "[(''openai'', ''Bash'', []), (''openai'', ''zap'', [])]"
  have n: "normalizeProvider ''openai'' = ''openai''" "to_lower (trim_space ''Bash'') = ''bash''"
    "to_lower (trim_space ''zap'') = ''zap''" by code_simp+
  have 1: "Classify (\<lambda>_ _. Inr False) sample_registry ''openai'' ''Bash'' [] =
      (resultFor sample_registry \<lparr>tm_Category = ''shell'', tm_Effect = ''execute''\<rparr> SourceExact, sample_registry)"
    by (simp add: Classify_def n sample_registry_def provider_tool_def Let_def)
  have 2: "Classify (\<lambda>_ _. Inr False) sample_registry ''openai'' ''zap'' [] =
      (fallbackResult ''v1'', sample_registry\<lparr>reg_unclassified := 1\<rparr>)"
    by (simp add: Classify_def n sample_registry_def provider_tool_def provider_pattern_def matchPattern_def defaultProviderKey_def Let_def)
  have c: "classify_all (Classify (\<lambda>_ _. Inr False)) sample_registry ?calls =
      ([resultFor sample_registry \<lparr>tm_Category = ''shell'', tm_Effect = ''execute''\<rparr> SourceExact, fallbackResult ''v1''],
       sample_registry\<lparr>reg_unclassified := 1\<rparr>)"
    by (simp add: 1 2)
  from Classify_total [OF sample_registry c] c show ?thesis
    by (auto simp: SourceExact_def SourceFallback_def)
qed

end
