(* ===== verification/Go_Path.thy ===== *)
theory Go_Path
  imports Go_Prelude
begin

text \<open>
  Package path (and, on Unix, path/filepath) as crabwise uses it: \<open>Clean\<close> walks over the
  elements of a path, \<open>Join\<close> joins the elements that are not empty and cleans the result.
\<close>

section \<open>Clean\<close>

text \<open>One element: dot elements vanish, a double dot takes back the element before it, except
  another double dot, and vanishes at the root.\<close>

definition clean_step :: "bool \<Rightarrow> string \<Rightarrow> string list \<Rightarrow> string list" where
  "clean_step rooted elem out =
     (if elem = [] \<or> elem = ''.'' then out
      else if elem = ''..'' then
        (case out of
           [] \<Rightarrow> (if rooted then [] else [''..''])
         | e # es \<Rightarrow> (if e = ''..'' then ''..'' # out else es))
      else elem # out)"

definition path_clean :: "string \<Rightarrow> string" where
  "path_clean p =
     (if p = [] then ''.''
      else let rooted = has_prefix p ''/'';
               elems = rev (fold (clean_step rooted) (split_at (CHR ''/'') p) []);
               cleaned = (if rooted then ''/'' else []) @ join elems ''/''
           in if cleaned = [] then ''.'' else cleaned)"

definition path_join :: "string list \<Rightarrow> string" where
  "path_join elems =
     (let elems = filter (\<lambda>e. e \<noteq> []) elems in if elems = [] then [] else path_clean (join elems ''/''))"

text \<open>A rooted path has no double dot left: it cannot leave the root.\<close>

lemma clean_step_rooted:
  "''..'' \<notin> set out \<Longrightarrow> ''..'' \<notin> set (clean_step True elem out)"
  by (auto simp: clean_step_def split: list.splits)

lemma clean_rooted: "''..'' \<notin> set out \<Longrightarrow> ''..'' \<notin> set (fold (clean_step True) elems out)"
  by (induction elems arbitrary: out) (simp_all add: clean_step_rooted)

lemma path_join_samples:
  "path_join [''/etc'', ''openai.yaml''] = ''/etc/openai.yaml''"
  "path_join [''/v1'', ''/chat/./x/../completions''] = ''/v1/chat/completions''"
  "path_join [''a'', ''../../b''] = ''../b''" "path_join [[], ''/'']  = ''/''"
  by (simp_all add: path_join_def path_clean_def clean_step_def has_prefix_def)

section \<open>Cleaned paths\<close>

text \<open>What a walk leaves, innermost element first: no empty and no dot elements, and double dots only
  outside everything else, and not under the root.\<close>

fun reduced :: "bool \<Rightarrow> string list \<Rightarrow> bool" where
  "reduced r [] = True"
| "reduced r (e # out) \<longleftrightarrow> e \<noteq> [] \<and> e \<noteq> ''.'' \<and> CHR ''/'' \<notin> set e \<and> (e = ''..'' \<longrightarrow> \<not> r \<and> (out = [] \<or> hd out = ''..'')) \<and> reduced r out"

lemma clean_step_reduced: "reduced r out \<Longrightarrow> CHR ''/'' \<notin> set e \<Longrightarrow> reduced r (clean_step r e out)"
  by (cases out) (auto simp: clean_step_def)

lemma clean_reduced: "reduced r out \<Longrightarrow> \<forall>e \<in> set elems. CHR ''/'' \<notin> set e \<Longrightarrow> reduced r (fold (clean_step r) elems out)"
  by (induction elems arbitrary: out) (simp_all add: clean_step_reduced)

lemma clean_again: "reduced r out \<Longrightarrow> fold (clean_step r) (rev out) [] = out"
  by (induction out) (auto simp: clean_step_def split: list.split)

lemma reduced_pieces: "reduced r out \<Longrightarrow> e \<in> set out \<Longrightarrow> e \<noteq> [] \<and> CHR ''/'' \<notin> set e"
  by (induction out) auto

definition path_walk :: "string \<Rightarrow> string list" where
  "path_walk p = fold (clean_step (has_prefix p ''/'')) (split_at (CHR ''/'') p) []"

lemma walk_reduced: "reduced (has_prefix p ''/'') (path_walk p)"
  unfolding path_walk_def by (rule clean_reduced) (auto dest: split_at_free)

lemma path_clean_walk:
  "path_clean p = (let s = (if has_prefix p ''/'' then ''/'' else []) @ join (rev (path_walk p)) ''/'' in if s = [] then ''.'' else s)"
  by (simp add: path_clean_def path_walk_def Let_def has_prefix_def clean_step_def)

lemma join_first: "\<forall>e \<in> set es. e \<noteq> [] \<and> c \<notin> set e \<Longrightarrow> \<not> has_prefix (join es [c]) [c]"
  by (cases es; cases "hd es"; cases "tl es") (auto simp: has_prefix_def)

text \<open>Walking over a cleaned path gives the same.\<close>

lemma walk_clean: "has_prefix (path_clean p) ''/'' = has_prefix p ''/'' \<and> path_walk (path_clean p) = path_walk p"
proof -
  let ?r = "has_prefix p ''/''" and ?es = "rev (path_walk p)"
  have es: "\<forall>e \<in> set ?es. e \<noteq> [] \<and> CHR ''/'' \<notin> set e" using reduced_pieces [OF walk_reduced] by auto
  have again: "fold (clean_step ?r) ?es [] = path_walk p" using clean_again [OF walk_reduced] .
  have first: "\<not> has_prefix (join ?es ''/'') ''/''" using join_first [OF es] .
  have split: "split_at (CHR ''/'') (join ?es ''/'') = ?es" if "?es \<noteq> []" using split_at_pieces [OF _ that, of "CHR ''/''"] es by blast
  have r: "has_prefix (path_clean p) ''/'' = ?r"
    using first by (auto simp: path_clean_walk Let_def has_prefix_def)
  have "fold (clean_step ?r) (split_at (CHR ''/'') (path_clean p)) [] = path_walk p"
    using again split es by (cases "?es = []") (auto simp: path_clean_walk Let_def clean_step_def, metis list.set_intros(1))
  then show ?thesis using r by (simp add: path_walk_def)
qed

lemma walk_append: "p \<noteq> [] \<Longrightarrow> path_walk (p @ ''/'' @ q) = fold (clean_step (has_prefix p ''/'')) (split_at (CHR ''/'') q) (path_walk p)"
  using split_at_append [of "CHR ''/''" p q] by (cases p) (simp_all add: path_walk_def has_prefix_def del: split_at.simps)

lemma path_clean_not_Nil: "path_clean p \<noteq> []"
  by (simp add: path_clean_def Let_def)

lemma path_clean_append:
  assumes "p \<noteq> []"
  shows "path_clean (path_clean p @ ''/'' @ q) = path_clean (p @ ''/'' @ q)"
proof -
  have "has_prefix (s @ ''/'' @ q) ''/'' = has_prefix s ''/''" if "s \<noteq> []" for s using that by (cases s) (simp_all add: has_prefix_def)
  then show ?thesis
    using walk_clean [of p] walk_append [OF assms, of q] walk_append [OF path_clean_not_Nil, of p q] assms path_clean_not_Nil [of p]
    by (simp add: path_clean_walk [of "_ @ _"])
qed

lemma path_join_nested: "b \<noteq> [] \<Longrightarrow> c \<noteq> [] \<Longrightarrow> path_join [path_join [a, b], c] = path_join [a, b, c]"
  using path_clean_append [of "join (filter (\<lambda>e. e \<noteq> []) [a, b]) ''/''" c]
  by (simp add: path_join_def Let_def path_clean_not_Nil)

text \<open>A path that ends with a proper element still does when it is clean.\<close>

lemma path_clean_last:
  assumes "last (split_at (CHR ''/'') p) = e" "e \<noteq> []" "e \<noteq> ''.''" "e \<noteq> ''..''"
  shows "has_suffix (path_clean p) e"
proof -
  have "split_at (CHR ''/'') p = butlast (split_at (CHR ''/'') p) @ [e]" using assms(1) by (metis append_butlast_last_id split_at_not_Nil)
  then have "path_walk p = e # fold (clean_step (has_prefix p ''/'')) (butlast (split_at (CHR ''/'') p)) []"
    using assms(2-4) unfolding path_walk_def by (metis clean_step_def fold_append fold_simps(1,2) comp_apply)
  then have "\<exists>es. rev (path_walk p) = es @ [e]" by simp
  then obtain es where es: "rev (path_walk p) = es @ [e]" ..
  have "has_suffix (join (es @ [e]) ''/'') e"
    by (induction es rule: induct_list012) (auto simp: has_suffix_def suffix_def)
  then show ?thesis using assms(2) by (auto simp: path_clean_walk Let_def es has_suffix_def suffix_def)
qed

end
