(* ===== verification/Proxy_Mapping.thy ===== *)
theory Proxy_Mapping
  imports Classify Go_Path
begin

text \<open>
  \<open>internal/adapter/proxy/mapping.go\<close>: a provider's mapping file says, by selectors, where a
  request's or response's body holds the model, the tools and the token counts. The JSON query
  library (gjson) is the record \<open>Gjson\<close> and the YAML decoder is an argument; the selectors'
  translation to its paths, the defaults, mappings and truncations are modelled.
\<close>

section \<open>The query library\<close>

text \<open>A \<open>gjson.Result\<close>: whether it exists, its raw text, its conversions, and for an array the raw
  text of the elements, in order.\<close>

record GResult =
  g_exists :: bool
  g_raw :: string
  g_string :: string
  g_bool :: bool
  g_int :: "64 word"
  g_elements :: "string list option"

record Gjson =
  gj_valid :: "string \<Rightarrow> bool"
  gj_get :: "string \<Rightarrow> string \<Rightarrow> GResult"

definition no_result :: GResult where
  "no_result = \<lparr>g_exists = False, g_raw = [], g_string = [], g_bool = False, g_int = 0, g_elements = None\<rparr>"

section \<open>Mapping files\<close>

text \<open>A default as YAML decodes it; of the values that are neither strings nor booleans, what
  \<open>fmt.Sprint\<close> writes.\<close>

datatype DefaultValue = DefBool bool | DefString string | DefOther string

record PathRule =
  pa_Path :: string
  pa_Default :: "DefaultValue option"
  pa_Truncate :: int
  pa_Serialize :: string
  pa_Map :: "string \<rightharpoonup> string"

record ToolEach =
  te_Name :: PathRule
  te_RawArgs :: PathRule

record ToolsRule =
  tsr_Path :: string
  tsr_Each :: ToolEach

record UsageSpec =
  us_InputTokens :: PathRule
  us_OutputTokens :: PathRule

record ErrorSpec =
  er_ErrorType :: PathRule
  er_ErrorMessage :: PathRule

record RequestSpec =
  rqs_Model :: PathRule
  rqs_Stream :: PathRule
  rqs_Tools :: ToolsRule
  rqs_InputSummary :: PathRule

record ResponseSpec =
  rss_Model :: PathRule
  rss_FinishReason :: PathRule
  rss_Usage :: UsageSpec
  rss_Error :: ErrorSpec

record StreamSpec =
  sts_Usage :: UsageSpec
  sts_FinishReason :: PathRule

record Spec =
  spec_Version :: string
  spec_Provider :: string
  spec_Request :: RequestSpec
  spec_Response :: ResponseSpec
  spec_Stream :: StreamSpec

definition LoadProviderSpec ::
  "(string \<Rightarrow> error + Spec) \<Rightarrow> (string \<Rightarrow> ReadResult) \<Rightarrow> string \<Rightarrow> string \<Rightarrow> string \<Rightarrow> error + Spec" where
  "LoadProviderSpec yaml readFile mappingsDir provider fallback =
     (let filePath = path_join [mappingsDir, provider @ ''.yaml'']
      in bind_result
           (case readFile filePath of
              FileData data \<Rightarrow> Ok data
            | FileFailed err \<Rightarrow> Err (''read mapping '' @ filePath @ '': '' @ err)
            | FileMissing \<Rightarrow>
                (if fallback = [] then Err (''mapping file not found for provider '' @ quote_string provider)
                 else Ok fallback))
           (\<lambda>data. case yaml data of
              Inl err \<Rightarrow> Err (''parse mapping: '' @ err)
            | Inr spec \<Rightarrow> Ok (if trim_space (spec_Provider spec) = [] then spec\<lparr>spec_Provider := provider\<rparr> else spec)))"

section \<open>Selectors\<close>

text \<open>A match of the expression for an index, a bracketed decimal with an optional minus, at the
  start of a string: what is between the brackets, and the rest.\<close>

definition decimal_digit :: "char \<Rightarrow> bool" where
  "decimal_digit c = (CHR ''0'' \<le> c \<and> c \<le> CHR ''9'')"

definition index_match :: "string \<Rightarrow> (string \<times> string) option" where
  "index_match s =
     (case s of
        [] \<Rightarrow> None
      | b # s' \<Rightarrow>
         (if b \<noteq> CHR ''['' then None
          else let sign = (if has_prefix s' ''-'' then ''-'' else []);
                   digits = takeWhile decimal_digit (drop (length sign) s');
                   rest = drop (length sign + length digits) s'
               in if digits \<noteq> [] \<and> has_prefix rest '']'' then Some (sign @ digits, drop 1 rest) else None))"

lemma index_match_shorter: "index_match (c # s) = Some (inner, rest) \<Longrightarrow> length rest < Suc (length s)"
  by (auto simp: index_match_def Let_def split: if_splits)

function replace_indexes :: "string \<Rightarrow> string" where
  "replace_indexes s =
     (case s of
        [] \<Rightarrow> []
      | c # s' \<Rightarrow>
         (case index_match s of
            Some (inner, rest) \<Rightarrow> (if inner = ''-1'' then ''.@reverse.0'' else ''.'' @ inner) @ replace_indexes rest
          | None \<Rightarrow> c # replace_indexes s'))"
  by pat_completeness auto
termination
  by (relation "measure length") (auto dest: index_match_shorter)

declare replace_indexes.simps [simp del]

text \<open>\<open>strings.ReplaceAll(s, "..", ".")\<close>, and the loop that repeats it.\<close>

fun squeeze_dots :: "string \<Rightarrow> string" where
  "squeeze_dots (a # b # s) =
     (if a = CHR ''.'' \<and> b = CHR ''.'' then CHR ''.'' # squeeze_dots s else a # squeeze_dots (b # s))"
| "squeeze_dots s = s"

lemma length_squeeze_dots: "length (squeeze_dots s) \<le> length s"
  by (induction s rule: squeeze_dots.induct) auto

lemma squeeze_dots_shorter: "contains s ''..'' \<Longrightarrow> length (squeeze_dots s) < length s"
  by (induction s rule: squeeze_dots.induct) (auto simp: length_squeeze_dots less_Suc_eq_le split: if_splits)

function collapse_dots :: "string \<Rightarrow> string" where
  "collapse_dots s = (if contains s ''..'' then collapse_dots (squeeze_dots s) else s)"
  by pat_completeness auto
termination
  by (relation "measure length") (auto simp: squeeze_dots_shorter)

declare collapse_dots.simps [simp del]

definition toGjsonPath :: "string \<Rightarrow> string" where
  "toGjsonPath selector =
     (let s = trim_space selector
      in if s = [] then []
         else let s = trim_prefix (trim_prefix s ''$.'') ''$''
              in if s = [] then []
                 else let s = replace_indexes s;
                          s = replace_char (CHR '']'') [] (replace_char (CHR ''['') ''.'' s)
                      in trim_prefix (collapse_dots s) ''.'')"

section \<open>Extraction\<close>

definition gjsonGet :: "Gjson \<Rightarrow> string \<Rightarrow> PathRule \<Rightarrow> GResult" where
  "gjsonGet G data rule = (let p = toGjsonPath (pa_Path rule) in if p = [] then no_result else gj_get G data p)"

definition sprint_default :: "DefaultValue \<Rightarrow> string" where
  "sprint_default d = (case d of DefBool b \<Rightarrow> (if b then ''true'' else ''false'') | DefString s \<Rightarrow> s | DefOther s \<Rightarrow> s)"

definition extractString :: "Gjson \<Rightarrow> string \<Rightarrow> PathRule \<Rightarrow> string" where
  "extractString G data rule =
     (let r = gjsonGet G data rule
      in if \<not> g_exists r then (case pa_Default rule of Some d \<Rightarrow> sprint_default d | None \<Rightarrow> [])
         else let value = g_string r;
                  value = (case pa_Map rule value of Some mapped \<Rightarrow> mapped | None \<Rightarrow> value)
              in if pa_Truncate rule > 0 \<and> int (length value) > pa_Truncate rule then take (nat (pa_Truncate rule)) value
                 else value)"

definition extractBool :: "Gjson \<Rightarrow> string \<Rightarrow> PathRule \<Rightarrow> bool" where
  "extractBool G data rule =
     (let r = gjsonGet G data rule
      in if \<not> g_exists r
         then (case pa_Default rule of Some (DefBool b) \<Rightarrow> b | Some (DefString s) \<Rightarrow> equal_fold s ''true'' | _ \<Rightarrow> False)
         else g_bool r)"

definition extractInt64 :: "Gjson \<Rightarrow> string \<Rightarrow> PathRule \<Rightarrow> 64 word" where
  "extractInt64 G data rule = (let r = gjsonGet G data rule in if \<not> g_exists r then 0 else g_int r)"

record NormalizedTool =
  nt_Name :: string
  nt_RawArgs :: string
  nt_ArgKeys :: "string list"
  nt_Category :: string
  nt_Effect :: string
  nt_TaxonomyVersion :: string
  nt_ClassificationSource :: string

record NormalizedRequest =
  nrq_Provider :: string
  nrq_Endpoint :: string
  nrq_Model :: string
  nrq_Stream :: bool
  nrq_Tools :: "NormalizedTool list"
  nrq_InputSummary :: string
  nrq_MappingDegraded :: bool

record NormalizedResponse =
  nrs_Model :: string
  nrs_FinishReason :: string
  nrs_InputTokens :: "64 word"
  nrs_OutputTokens :: "64 word"
  nrs_UpstreamStatus :: int
  nrs_ErrorType :: string
  nrs_ErrorMessage :: string
  nrs_MappingDegraded :: bool

definition normalized_response :: "int \<Rightarrow> NormalizedResponse" where
  "normalized_response status = \<lparr>nrs_Model = [], nrs_FinishReason = [], nrs_InputTokens = 0, nrs_OutputTokens = 0,
     nrs_UpstreamStatus = status, nrs_ErrorType = [], nrs_ErrorMessage = [], nrs_MappingDegraded = False\<rparr>"

text \<open>The body of the loop over the tools.\<close>

definition normalize_tool :: "Gjson \<Rightarrow> ToolEach \<Rightarrow> string \<Rightarrow> NormalizedTool" where
  "normalize_tool G each raw =
     \<lparr>nt_Name = extractString G raw (te_Name each),
      nt_RawArgs = (if pa_Serialize (te_RawArgs each) = ''json''
        then (let r = gjsonGet G raw (te_RawArgs each) in if g_exists r then g_raw r else [])
        else extractString G raw (te_RawArgs each)),
      nt_ArgKeys = [], nt_Category = [], nt_Effect = [], nt_TaxonomyVersion = [], nt_ClassificationSource = []\<rparr>"

definition NormalizeRequest :: "Gjson \<Rightarrow> Spec \<Rightarrow> string \<Rightarrow> string \<Rightarrow> string \<Rightarrow> error + NormalizedRequest" where
  "NormalizeRequest G spec provider endpoint body =
     (if \<not> gj_valid G body then Err ''parse request body: invalid JSON''
      else
        let rq = spec_Request spec;
            toolsPath = toGjsonPath (tsr_Path (rqs_Tools rq));
            tools = (if toolsPath = [] then []
                     else case g_elements (gj_get G body toolsPath) of
                       None \<Rightarrow> []
                     | Some raws \<Rightarrow> filter (\<lambda>t. nt_Name t \<noteq> []) (map (normalize_tool G (tsr_Each (rqs_Tools rq))) raws))
        in Ok \<lparr>nrq_Provider = provider, nrq_Endpoint = endpoint, nrq_Model = extractString G body (rqs_Model rq),
               nrq_Stream = extractBool G body (rqs_Stream rq), nrq_Tools = tools,
               nrq_InputSummary = extractString G body (rqs_InputSummary rq), nrq_MappingDegraded = False\<rparr>)"

text \<open>The code returns the half-filled response beside the error; its caller ignores it.\<close>

definition NormalizeResponse :: "Gjson \<Rightarrow> Spec \<Rightarrow> string \<Rightarrow> int \<Rightarrow> error + NormalizedResponse" where
  "NormalizeResponse G spec body upstreamStatus =
     (let out = normalized_response upstreamStatus; rs = spec_Response spec
      in if body = [] then Ok out
         else if \<not> gj_valid G body then Err ''parse response body: invalid JSON''
         else Ok (out\<lparr>nrs_Model := extractString G body (rss_Model rs),
                nrs_FinishReason := extractString G body (rss_FinishReason rs),
                nrs_InputTokens := extractInt64 G body (us_InputTokens (rss_Usage rs)),
                nrs_OutputTokens := extractInt64 G body (us_OutputTokens (rss_Usage rs)),
                nrs_ErrorType := extractString G body (er_ErrorType (rss_Error rs)),
                nrs_ErrorMessage := extractString G body (er_ErrorMessage (rss_Error rs))\<rparr>))"

definition ApplyStreamSpec :: "Gjson \<Rightarrow> Spec option \<Rightarrow> string \<Rightarrow> NormalizedResponse \<Rightarrow> NormalizedResponse" where
  "ApplyStreamSpec G spec rawEvent out =
     (case spec of
        None \<Rightarrow> out
      | Some sp \<Rightarrow>
         (if rawEvent = [] \<or> \<not> gj_valid G rawEvent then out
          else
            let st = spec_Stream sp;
                i = extractInt64 G rawEvent (us_InputTokens (sts_Usage st));
                out = (if i \<noteq> 0 then out\<lparr>nrs_InputTokens := i\<rparr> else out);
                v = extractInt64 G rawEvent (us_OutputTokens (sts_Usage st));
                out = (if v \<noteq> 0 then out\<lparr>nrs_OutputTokens := v\<rparr> else out);
                f = extractString G rawEvent (sts_FinishReason st)
            in if f \<noteq> [] then out\<lparr>nrs_FinishReason := f\<rparr> else out))"

section \<open>What a selector becomes\<close>

text \<open>The selectors a mapping file is meant to have: member names and indexes, after a dollar.\<close>

datatype PathStep = PathKey string | PathIndex int

definition show_step :: "PathStep \<Rightarrow> string" where
  "show_step st = (case st of PathKey k \<Rightarrow> ''.'' @ k | PathIndex i \<Rightarrow> ''['' @ show_int i @ '']'')"

definition show_selector :: "PathStep list \<Rightarrow> string" where
  "show_selector steps = ''$'' @ concat (map show_step steps)"

text \<open>The component of the library's path; the last element is the first of the reversed array.\<close>

definition gjson_step :: "PathStep \<Rightarrow> string" where
  "gjson_step st = (case st of PathKey k \<Rightarrow> k | PathIndex i \<Rightarrow> if i = -1 then ''@reverse.0'' else show_int i)"

definition plain_step :: "PathStep \<Rightarrow> bool" where
  "plain_step st \<longleftrightarrow> (case st of PathKey k \<Rightarrow> k \<noteq> [] \<and> set k \<inter> {CHR ''.'', CHR ''['', CHR '']'', CHR ''$''} = {} | PathIndex _ \<Rightarrow> True)"

lemma decimal_digit_of: "(n :: nat) < 10 \<Longrightarrow> decimal_digit (char_of (48 + n))"
  by (simp add: decimal_digit_def less_eq_char_def)

lemma show_nat_decimal: "list_all decimal_digit (show_nat n) \<and> show_nat n \<noteq> []"
proof (induction n rule: show_nat.induct)
  case (1 n)
  show ?case
  proof (cases "n < 10")
    case True
    then show ?thesis using decimal_digit_of [of n] by (subst show_nat.simps) simp
  next
    case False
    then show ?thesis using 1 [OF False] decimal_digit_of [of "n mod 10"] by (subst (1 2) show_nat.simps) simp
  qed
qed

lemma digit_chars: "decimal_digit c \<Longrightarrow> c \<notin> {CHR ''.'', CHR ''['', CHR '']'', CHR ''-''}"
  by (auto simp: decimal_digit_def less_eq_char_def)

lemma index_match_show: "index_match (''['' @ show_int i @ '']'' @ rest) = Some (show_int i, rest)"
proof -
  have d: "takeWhile decimal_digit (show_nat n @ CHR '']'' # rest) = show_nat n" for n
    using show_nat_decimal [of n] digit_chars [of "CHR '']''"] by (subst takeWhile_append2) (auto simp: list_all_iff)
  have h: "\<not> has_prefix (show_nat n @ CHR '']'' # rest) ''-''" for n
    using show_nat_decimal [of n] digit_chars [of "CHR ''-''"] by (cases "show_nat n") (auto simp: has_prefix_def)
  show ?thesis
  proof (cases "i < 0")
    case True
    then show ?thesis using d [of "nat (- i)"] show_nat_decimal [of "nat (- i)"] by (simp add: index_match_def show_int_def has_prefix_def)
  next
    case False
    then show ?thesis using d [of "nat i"] h [of "nat i"] show_nat_decimal [of "nat i"]
      by (simp add: index_match_def show_int_def) (simp add: has_prefix_def)
  qed
qed

lemma index_match_other: "c \<noteq> CHR ''['' \<Longrightarrow> index_match (c # s) = None"
  by (simp add: index_match_def)

lemma replace_indexes_plain: "CHR ''['' \<notin> set k \<Longrightarrow> replace_indexes (k @ r) = k @ replace_indexes r"
proof (induction k)
  case (Cons c k)
  then have "index_match (c # k @ r) = None" by (intro index_match_other) auto
  then show ?case using Cons replace_indexes.simps [of "c # k @ r"] by simp
qed simp

lemma replace_indexes_index:
  "replace_indexes (''['' @ show_int i @ '']'' @ r) = ''.'' @ gjson_step (PathIndex i) @ replace_indexes r"
proof -
  have "show_int i = ''-1'' \<longleftrightarrow> i = -1"
  proof
    assume h: "show_int i = ''-1''"
    then have "show_nat (nat (- i)) = ''1''" using show_nat_decimal [of "nat i"] digit_chars [of "CHR ''-''"]
      by (auto simp: show_int_def split: if_splits)
    then have "read_nat_from 0 (show_nat (nat (- i))) = read_nat_from 0 ''1''" by simp
    then show "i = -1" using h by (simp only: read_show_nat) (simp add: show_int_def split: if_splits)
  next
    show "i = -1 \<Longrightarrow> show_int i = ''-1''" by (simp only:) code_simp
  qed
  then show ?thesis using index_match_show [of i r] by (subst replace_indexes.simps) (auto simp: gjson_step_def)
qed

lemma replace_indexes_steps:
  assumes "list_all plain_step steps"
  shows "replace_indexes (concat (map show_step steps)) = concat (map (\<lambda>st. ''.'' @ gjson_step st) steps)"
  using assms
proof (induction steps)
  case (Cons st steps)
  show ?case
  proof (cases st)
    case (PathKey k)
    have "CHR ''['' \<notin> set (''.'' @ k)" using Cons.prems by (auto simp: PathKey plain_step_def)
    then have "replace_indexes ((''.'' @ k) @ concat (map show_step steps)) = (''.'' @ k) @ replace_indexes (concat (map show_step steps))"
      by (rule replace_indexes_plain)
    moreover have "show_step st = ''.'' @ k" "gjson_step st = k" by (simp_all add: PathKey show_step_def gjson_step_def)
    ultimately show ?thesis using Cons by simp
  next
    case (PathIndex i)
    then have "show_step st = ''['' @ show_int i @ '']''" by (simp add: show_step_def)
    then show ?thesis using Cons PathIndex replace_indexes_index [of i "concat (map show_step steps)"] by simp
  qed
qed (simp add: replace_indexes.simps)

text \<open>A component has no bracket, no two dots in a row, and no dot at either end.\<close>

definition plain_component :: "string \<Rightarrow> bool" where
  "plain_component x \<longleftrightarrow> x \<noteq> [] \<and> hd x \<noteq> CHR ''.'' \<and> last x \<noteq> CHR ''.'' \<and> \<not> contains x ''..'' \<and> set x \<inter> {CHR ''['', CHR '']''} = {}"

lemma no_dot_contains: "CHR ''.'' \<notin> set x \<Longrightarrow> \<not> contains x ''..''"
  by (auto simp: contains_iff)

lemma component_of:
  assumes "plain_step st"
  shows "plain_component (gjson_step st)"
proof -
  have plain: "plain_component x" if "x \<noteq> []" "set x \<inter> {CHR ''.'', CHR ''['', CHR '']''} = {}" for x
    using that hd_in_set [of x] last_in_set [of x] no_dot_contains [of x] by (auto simp: plain_component_def disjoint_iff)
  have num: "set (show_int i) \<inter> {CHR ''.'', CHR ''['', CHR '']''} = {}" "show_int i \<noteq> []" for i
    using show_nat_decimal [of "nat i"] show_nat_decimal [of "nat (- i)"] digit_chars
    by (auto simp: show_int_def list_all_iff)
  have "plain_component ''@reverse.0''" by (simp add: plain_component_def)
  then show ?thesis using assms plain num by (cases st) (auto simp: gjson_step_def plain_step_def disjoint_iff)
qed

lemma contains_after:
  "x \<noteq> [] \<Longrightarrow> last x \<noteq> CHR ''.'' \<Longrightarrow> \<not> contains x ''..'' \<Longrightarrow> contains (x @ s) ''..'' = contains s ''..''"
proof (induction x)
  case (Cons c x)
  show ?case
  proof (cases "x = []")
    case True
    then show ?thesis using Cons.prems by simp
  next
    case False
    then have ih: "contains (x @ s) ''..'' = contains s ''..''" using Cons by simp
    have "c = CHR ''.'' \<longrightarrow> \<not> prefix ''.'' (x @ s)" using Cons.prems(3) False by (cases x) auto
    then show ?thesis using ih by auto
  qed
qed simp

lemma components_dots:
  "list_all plain_component xs \<Longrightarrow> \<not> contains (concat (map (\<lambda>x. ''.'' @ x) xs)) ''..''"
proof (induction xs)
  case (Cons x xs)
  have "contains (x @ concat (map (\<lambda>x. ''.'' @ x) xs)) ''..'' = contains (concat (map (\<lambda>x. ''.'' @ x) xs)) ''..''"
    by (rule contains_after) (use Cons.prems in \<open>simp_all add: plain_component_def\<close>)
  moreover have "\<not> prefix ''.'' (x @ concat (map (\<lambda>x. ''.'' @ x) xs))" using Cons.prems by (cases x) (auto simp: plain_component_def)
  ultimately show ?case using Cons by simp
qed simp

lemma concat_dots: "xs \<noteq> [] \<Longrightarrow> concat (map (\<lambda>x. ''.'' @ x) xs) = CHR ''.'' # join xs ''.''"
  by (induction xs "''.''" rule: join.induct) simp_all

lemma replace_char_id: "c \<notin> set s \<Longrightarrow> replace_char c r s = s"
  by (induction s) (auto simp: replace_char_def)

text \<open>C36: A selector of names and indexes becomes the path of the query library with the same steps. For a selector
  of at least one step, with space around it or not, whose names are not empty and have no dot, bracket or dollar
  in them, the translation is the names and indexes in their order, separated by dots, except that the index
  \<open>-1\<close> becomes the first element of the reversed array; no other negative index has an equivalent, so it is left as it is.\<close>

theorem toGjsonPath_selector:
  assumes "trim_space selector = show_selector steps" "steps \<noteq> []" "list_all plain_step steps"
  shows "toGjsonPath selector = join (map gjson_step steps) ''.''"
proof -
  let ?xs = "map gjson_step steps"
  let ?p = "join ?xs ''.''"
  obtain st rest where steps: "steps = st # rest" using assms(2) by (cases steps) auto
  have comps: "list_all plain_component ?xs" using assms(3) component_of by (auto simp: list_all_iff)
  have full: "concat (map (\<lambda>x. ''.'' @ x) ?xs) = CHR ''.'' # ?p" by (rule concat_dots) (use assms(2) in simp)
  have hd: "?p = gjson_step st @ concat (map (\<lambda>x. ''.'' @ x) (map gjson_step rest))" using full by (simp add: steps)
  have dots: "\<not> contains (CHR ''.'' # ?p) ''..''" "\<not> contains ?p ''..''" using components_dots [OF comps] full by simp_all
  have first: "gjson_step st \<noteq> []" "hd (gjson_step st) \<noteq> CHR ''.''" using comps by (simp_all add: steps plain_component_def)
  have np: "\<not> prefix ''.'' ?p" using first unfolding hd by (cases "gjson_step st") simp_all
  have br: "c \<notin> set ?p" if "c \<in> {CHR ''['', CHR '']''}" for c
  proof -
    have "c \<notin> set (concat (map (\<lambda>x. ''.'' @ x) ?xs))" using comps that by (auto simp: list_all_iff plain_component_def disjoint_iff)
    then show ?thesis unfolding full by simp
  qed
  have all: "replace_indexes (concat (map show_step steps)) = CHR ''.'' # ?p"
    using replace_indexes_steps [OF assms(3)] full by (simp add: map_map comp_def)
  show ?thesis
  proof (cases st)
    case (PathKey k)
    have k: "k \<noteq> []" "CHR ''$'' \<notin> set k" using assms(3) by (auto simp: steps PathKey plain_step_def disjoint_iff)
    let ?s = "k @ concat (map show_step rest)"
    have s: "concat (map show_step steps) = CHR ''.'' # ?s" by (simp add: steps PathKey show_step_def)
    have "replace_indexes ?s = ?p" using all replace_indexes_plain [of "''.''" ?s] unfolding s by simp
    then show ?thesis using k dots np br
      by (cases k) (simp_all add: toGjsonPath_def assms(1) show_selector_def s trim_prefix_def has_prefix_def replace_char_id collapse_dots.simps)
  next
    case (PathIndex i)
    have s: "concat (map show_step steps) = CHR ''['' # show_int i @ '']'' @ concat (map show_step rest)" by (simp add: steps PathIndex show_step_def)
    show ?thesis using all dots br
      by (simp add: toGjsonPath_def assms(1) show_selector_def trim_prefix_def has_prefix_def s replace_char_id collapse_dots.simps)
  qed
qed

theorem toGjsonPath_selector_witness:
  "toGjsonPath '' $.messages[-1].parts[0] '' = ''messages.@reverse.0.parts.0''"
proof -
  have "trim_space '' $.messages[-1].parts[0] '' = show_selector [PathKey ''messages'', PathIndex (-1), PathKey ''parts'', PathIndex 0]" by code_simp
  from toGjsonPath_selector [OF this]
  have "toGjsonPath '' $.messages[-1].parts[0] '' = join (map gjson_step [PathKey ''messages'', PathIndex (-1), PathKey ''parts'', PathIndex 0]) ''.''"
    by (simp add: plain_step_def)
  also have "\<dots> = ''messages.@reverse.0.parts.0''" by code_simp
  finally show ?thesis .
qed

lemma toGjsonPath_samples:
  "toGjsonPath ''$.choices[0].message'' = ''choices.0.message''"
  "toGjsonPath '' $.messages[-1].content '' = ''messages.@reverse.0.content''"
  "toGjsonPath ''$'' = []" "toGjsonPath ''$.a[-2]..b[x]'' = ''a.-2.b.x''"
  by (simp_all add: toGjsonPath_def trim_prefix_def has_prefix_def replace_indexes.simps index_match_def decimal_digit_def
      replace_char_def collapse_dots.simps trim_space_def trim_front.simps space_seqs_def less_eq_char_def)

text \<open>A request is mapped exactly when its body is JSON; the tools kept are those of the body's array
  that have a name, in its order, none of them classified yet, and the route's provider and
  endpoint are recorded as given.\<close>

theorem NormalizeRequest_spec:
  "(\<exists>err. NormalizeRequest G spec provider endpoint body = Inl err) = (\<not> gj_valid G body) \<and>
   (case NormalizeRequest G spec provider endpoint body of
      Inl err \<Rightarrow> True
    | Inr r \<Rightarrow> nrq_Provider r = provider \<and> nrq_Endpoint r = endpoint \<and> \<not> nrq_MappingDegraded r \<and>
        list_all (\<lambda>t. nt_Name t \<noteq> [] \<and> nt_Category t = []) (nrq_Tools r) \<and>
        subseq (map nt_Name (nrq_Tools r))
          (case g_elements (gj_get G body (toGjsonPath (tsr_Path (rqs_Tools (spec_Request spec))))) of
             None \<Rightarrow> [] | Some raws \<Rightarrow> map (\<lambda>raw. extractString G raw (te_Name (tsr_Each (rqs_Tools (spec_Request spec))))) raws))"
proof -
  have sub: "subseq (map f (filter P xs)) (map f xs)" for f :: "NormalizedTool \<Rightarrow> string" and P xs
    by (induction xs) auto
  have names: "map (\<lambda>raw. extractString G raw (te_Name each)) raws = map nt_Name (map (normalize_tool G each) raws)" for raws each
    by (simp add: normalize_tool_def)
  have cat: "nt_Category (normalize_tool G each raw) = []" for each raw by (simp add: normalize_tool_def)
  show ?thesis
    by (auto simp: NormalizeRequest_def Let_def list_all_iff cat names sub simp del: map_map split: option.splits)
qed

end
