(* ===== verification/Proxy_Routing.thy ===== *)
theory Proxy_Routing
  imports Proxy_Mapping Redaction
begin

text \<open>
  The parts of the proxy around its handler: \<open>internal/adapter/proxy/router.go\<close>, \<open>cost.go\<close>,
  \<open>redaction.go\<close>, the authentication of \<open>openai.go\<close> and the header, URL and error helpers of
  \<open>proxy.go\<close>. Maps that are ranged over are association lists, a header is one from canonical
  names to values. URL parsing, \<open>path.Match\<close>, regular expressions, the environment and the
  arithmetic of floats are arguments.
\<close>

section \<open>Headers\<close>

type_synonym Header = "(string \<times> string list) list"

definition hdr_get :: "Header \<Rightarrow> string \<Rightarrow> string" where
  "hdr_get h key = (case map_of h key of Some (v # _) \<Rightarrow> v | _ \<Rightarrow> [])"

definition hdr_set :: "string \<Rightarrow> string \<Rightarrow> Header \<Rightarrow> Header" where
  "hdr_set key v h = AList.update key [v] h"

definition hdr_add :: "string \<Rightarrow> string \<Rightarrow> Header \<Rightarrow> Header" where
  "hdr_add key v h = AList.update key ((case map_of h key of Some vs \<Rightarrow> vs | None \<Rightarrow> []) @ [v]) h"

definition copy_headers :: "string set \<Rightarrow> Header \<Rightarrow> Header \<Rightarrow> Header" where
  "copy_headers skipped dst src =
     fold (\<lambda>(key, values) dst. if to_lower key \<in> skipped then dst else fold (hdr_add key) values dst) src dst"

definition copyForwardHeaders :: "Header \<Rightarrow> Header \<Rightarrow> Header" where
  "copyForwardHeaders dst src = copy_headers {''host'', ''content-length'', ''connection'', ''transfer-encoding''} dst src"

definition copyResponseHeaders :: "Header \<Rightarrow> Header \<Rightarrow> Header" where
  "copyResponseHeaders dst src = copy_headers {''content-length'', ''connection'', ''transfer-encoding''} dst src"

section \<open>Providers\<close>

record ProviderConfig =
  pcf_Name :: string
  pcf_UpstreamBaseURL :: string
  pcf_AuthMode :: string
  pcf_AuthKey :: string
  pcf_RoutePatterns :: "string list"
  pcf_MaxIdleConns :: int
  pcf_IdleConnTimeout :: duration

text \<open>The transport's own state; its connection pool is the HTTP client's.\<close>

record OpenAITransport =
  ot_authMode :: string
  ot_authKey :: string

definition NewOpenAITransport :: "ProviderConfig \<Rightarrow> OpenAITransport" where
  "NewOpenAITransport cfg = \<lparr>ot_authMode = to_lower (trim_space (pcf_AuthMode cfg)), ot_authKey = trim_space (pcf_AuthKey cfg)\<rparr>"

definition PrepareAuth :: "(string \<Rightarrow> string) \<Rightarrow> OpenAITransport \<Rightarrow> Header \<Rightarrow> error + Header" where
  "PrepareAuth getenv t h =
     (if ot_authMode t \<noteq> ''configured'' then Ok h
      else if ot_authKey t = [] then Err ''configured auth_mode requires auth_key''
      else
        let key = ot_authKey t;
            key = (if has_prefix key ''env:'' then getenv (trim_prefix key ''env:'') else key)
        in if trim_space key = [] then Err ''configured auth_key resolved empty value''
           else Ok (hdr_set ''Authorization'' (''Bearer '' @ key) h))"

record ProviderRuntime =
  prt_Name :: string
  prt_Config :: ProviderConfig
  prt_Transport :: OpenAITransport
  prt_Mapping :: Spec

type_synonym Providers = "(string \<times> ProviderRuntime) list"

text \<open>
  \<open>buildProviders\<close>: the one transport that registers itself is \<open>openai\<close>, looked up by the
  lower-cased name. \<open>load\<close> is \<open>LoadProviderSpec\<close> for the configured directory.
\<close>

definition embeddedFallback :: "string \<Rightarrow> string \<Rightarrow> string" where
  "embeddedFallback embeddedOpenAIMapping name = (if to_lower name = ''openai'' then embeddedOpenAIMapping else [])"

fun buildProviders :: "(string \<Rightarrow> error + Spec) \<Rightarrow> (string \<times> ProviderConfig) list \<Rightarrow> error + Providers" where
  "buildProviders load [] = Ok []"
| "buildProviders load ((name, pc) # rest) =
     (let pc = pc\<lparr>pcf_Name := name\<rparr>
      in if to_lower name \<noteq> ''openai''
         then Err (''no transport registered for provider '' @ quote_string name @ '' (registered transports: openai)'')
         else case load name of
           Inl err \<Rightarrow> Err (''load provider mapping '' @ name @ '': '' @ err)
         | Inr spec \<Rightarrow>
             bind_result (buildProviders load rest) (\<lambda>ps.
               Ok ((name, \<lparr>prt_Name = name, prt_Config = pc, prt_Transport = NewOpenAITransport pc, prt_Mapping = spec\<rparr>) # ps)))"

section \<open>The router\<close>

record Router =
  rt_defaultProvider :: string
  rt_providers :: Providers

definition NewRouter :: "string \<Rightarrow> Providers \<Rightarrow> error + Router" where
  "NewRouter defaultProvider providers =
     (if providers = [] then Err ''router requires at least one provider''
      else if defaultProvider = [] then Err ''default provider required''
      else case map_of providers defaultProvider of
        None \<Rightarrow> Err (''default provider '' @ quote_string defaultProvider @ '' not registered'')
      | Some _ \<Rightarrow> Ok \<lparr>rt_defaultProvider = defaultProvider, rt_providers = providers\<rparr>)"

definition providerHeader :: string where "providerHeader = ''X-Crabwise-Provider''"

definition routeMatches :: "(string \<Rightarrow> string \<Rightarrow> error + bool) \<Rightarrow> string \<Rightarrow> string \<Rightarrow> bool" where
  "routeMatches path_match pattern requestPath =
     (let pattern = trim_space pattern
      in if pattern = [] then False
         else if has_suffix pattern ''*'' then has_prefix requestPath (trim_suffix pattern ''*'')
         else if contains pattern ''*'' \<or> contains pattern ''?'' then path_match pattern requestPath = Ok True
         else requestPath = pattern)"

text \<open>The first provider, in the order the map is ranged over, one of whose patterns matches.\<close>

fun route_scan :: "(string \<Rightarrow> string \<Rightarrow> error + bool) \<Rightarrow> string \<Rightarrow> Providers \<Rightarrow> (string \<times> ProviderRuntime) option" where
  "route_scan path_match requestPath [] = None"
| "route_scan path_match requestPath ((name, runtime) # ps) =
     (if list_ex (\<lambda>pattern. routeMatches path_match pattern requestPath) (pcf_RoutePatterns (prt_Config runtime))
      then Some (name, runtime) else route_scan path_match requestPath ps)"

definition Resolve ::
  "(string \<Rightarrow> string \<Rightarrow> error + bool) \<Rightarrow> Router \<Rightarrow> Header \<Rightarrow> string \<Rightarrow> error + (ProviderRuntime \<times> string)" where
  "Resolve path_match r header requestPath =
     (let explicit = trim_space (to_lower (hdr_get header providerHeader))
      in if explicit \<noteq> [] then
           (case map_of (rt_providers r) explicit of
              Some rt \<Rightarrow> Ok (rt, explicit)
            | None \<Rightarrow> Err (''unknown provider '' @ quote_string explicit))
         else case route_scan path_match requestPath (rt_providers r) of
           Some (name, runtime) \<Rightarrow> Ok (runtime, name)
         | None \<Rightarrow>
             (case map_of (rt_providers r) (rt_defaultProvider r) of
                Some rt \<Rightarrow> Ok (rt, rt_defaultProvider r)
              | None \<Rightarrow> Err ''no route and default provider unavailable''))"

text \<open>\<open>split_host_port\<close> is \<open>net.SplitHostPort\<close>'s host, \<open>hostname\<close> a parsed URL's.\<close>

fun domain_scan :: "(string \<Rightarrow> string option) \<Rightarrow> string \<Rightarrow> Providers \<Rightarrow> (ProviderRuntime \<times> string) option" where
  "domain_scan hostname host [] = None"
| "domain_scan hostname host ((name, runtime) # ps) =
     (case hostname (pcf_UpstreamBaseURL (prt_Config runtime)) of
        None \<Rightarrow> domain_scan hostname host ps
      | Some h \<Rightarrow> (if h = host then Some (runtime, name) else domain_scan hostname host ps))"

definition ResolveByDomain ::
  "(string \<Rightarrow> string option) \<Rightarrow> (string \<Rightarrow> string option) \<Rightarrow> Router \<Rightarrow> string \<Rightarrow> (ProviderRuntime \<times> string) option" where
  "ResolveByDomain split_host_port hostname r host =
     domain_scan hostname (case split_host_port host of Some h \<Rightarrow> h | None \<Rightarrow> host) (rt_providers r)"

section \<open>The upstream URL\<close>

record Url =
  url_Path :: string
  url_RawQuery :: string
  url_rest :: string

definition joinTargetURL ::
  "(string \<Rightarrow> error + Url) \<Rightarrow> (Url \<Rightarrow> string) \<Rightarrow> string \<Rightarrow> string \<Rightarrow> string \<Rightarrow> error + string" where
  "joinTargetURL url_parse url_string baseURL requestPath rawQuery =
     (case url_parse (trim_space baseURL) of
        Inl err \<Rightarrow> Err (''invalid upstream base url: '' @ err)
      | Inr u \<Rightarrow> Ok (url_string (u\<lparr>url_Path := path_join [url_Path u, requestPath], url_RawQuery := rawQuery\<rparr>)))"

section \<open>Names\<close>

definition endpointAction :: "string \<Rightarrow> string" where
  "endpointAction endpoint =
     (if endpoint = ''/v1/chat/completions'' then ''chat.completions.create''
      else if endpoint = ''/v1/responses'' then ''responses.create''
      else trim_prefix endpoint ''/'')"

definition normalizeErrorType :: "string \<Rightarrow> int \<Rightarrow> string" where
  "normalizeErrorType raw status =
     (let r = to_lower raw
      in if r \<in> {''rate_limit'', ''rate_limit_exceeded''} then ''rate_limit''
         else if r = ''server_error'' then ''server_error''
         else if r \<in> {''invalid_request'', ''invalid_request_error''} then ''invalid_request''
         else if r \<in> {''auth'', ''authentication_error''} then ''auth''
         else if status = 429 then ''rate_limit''
         else if status \<in> {401, 403} then ''auth''
         else if status = 400 then ''invalid_request''
         else if status \<in> {500, 502, 503, 504} then ''server_error''
         else ''unknown'')"

section \<open>Cost\<close>

text \<open>The float operations the code uses; a million is the literal of the source.\<close>

record FloatOps =
  fl_of_int :: "64 word \<Rightarrow> float64"
  fl_div :: "float64 \<Rightarrow> float64 \<Rightarrow> float64"
  fl_mul :: "float64 \<Rightarrow> float64 \<Rightarrow> float64"
  fl_add :: "float64 \<Rightarrow> float64 \<Rightarrow> float64"

record Pricing =
  prc_InputPerMillion :: float64
  prc_OutputPerMillion :: float64

record CostResult =
  cst_CostUSD :: float64
  cst_UnknownModel :: bool

definition ComputeCost :: "FloatOps \<Rightarrow> (string \<times> Pricing) list \<Rightarrow> string \<Rightarrow> 64 word \<Rightarrow> 64 word \<Rightarrow> CostResult" where
  "ComputeCost F pricing model inputTokens outputTokens =
     (if pricing = [] \<or> model = [] then \<lparr>cst_CostUSD = 0, cst_UnknownModel = (model \<noteq> [])\<rparr>
      else case map_of pricing model of
        None \<Rightarrow> \<lparr>cst_CostUSD = 0, cst_UnknownModel = True\<rparr>
      | Some p \<Rightarrow>
          (let million = fl_of_int F 1000000;
               inCost = fl_mul F (fl_div F (fl_of_int F inputTokens) million) (prc_InputPerMillion p);
               outCost = fl_mul F (fl_div F (fl_of_int F outputTokens) million) (prc_OutputPerMillion p)
           in \<lparr>cst_CostUSD = fl_add F inCost outCost, cst_UnknownModel = False\<rparr>))"

section \<open>Egress redaction\<close>

definition maxRedactionsPerField :: nat where "maxRedactionsPerField = 50"

definition defaultRedactionPatterns :: "string list" where
  "defaultRedactionPatterns =
     [''sk-[A-Za-z0-9_-]{20,}'', ''AKIA[0-9A-Z]{16}'', ''ghp_[A-Za-z0-9]{20,}'',
      ''(?i)(password|token|secret)'' @ [CHR 0x5C] @ ''s*[:=]'' @ [CHR 0x5C] @ ''s*['' @ [CHR 0x22, CHR 0x27] @ '']?[^''
        @ [CHR 0x5C] @ ''s'' @ [CHR 0x22, CHR 0x27] @ '']+'']"

text \<open>
  \<open>ReplaceAllStringFunc\<close> with the counting callback: the matches beyond the limit are given
  back as they are, so the first ones, up to what is left of the limit, are replaced.
\<close>

definition replace_counted :: "Lib \<Rightarrow> string \<Rightarrow> string \<Rightarrow> nat \<Rightarrow> string \<times> nat" where
  "replace_counted L s re replacements =
     (let ms = take (maxRedactionsPerField - replacements) (regex_find_all L re s)
      in (splice s 0 ms, replacements + length ms))"

fun redact_patterns :: "Lib \<Rightarrow> string list \<Rightarrow> string \<Rightarrow> bool \<Rightarrow> nat \<Rightarrow> string \<times> bool \<times> nat" where
  "redact_patterns L [] redacted changed replacements = (redacted, changed, replacements)"
| "redact_patterns L (re # res) redacted changed replacements =
     (if replacements \<ge> maxRedactionsPerField then (redacted, changed, replacements)
      else case replace_counted L redacted re replacements of
        (nxt, replacements) \<Rightarrow>
          (if nxt \<noteq> redacted then redact_patterns L res nxt True replacements
           else redact_patterns L res redacted changed replacements))"

definition RedactPayload :: "Lib \<Rightarrow> string \<Rightarrow> string list \<Rightarrow> string \<times> bool" where
  "RedactPayload L raw extraPatterns =
     (if raw = [] then (raw, False)
      else case redact_patterns L (defaultRedactionPatterns @ extraPatterns) raw False 0 of
        (redacted, changed, _) \<Rightarrow> (redacted, changed))"

fun CompilePatterns :: "Lib \<Rightarrow> string list \<Rightarrow> error + string list" where
  "CompilePatterns L [] = Ok []"
| "CompilePatterns L (p # ps) =
     (case regex_error L p of
        Some err \<Rightarrow> Err (''invalid redact pattern '' @ quote_string p @ '': '' @ err)
      | None \<Rightarrow> bind_result (CompilePatterns L ps) (\<lambda>compiled. Ok (p # compiled)))"

section \<open>What is forwarded\<close>

lemma hdr_add_all:
  "map_of (fold (hdr_add key) vals dst) k =
     (if k = key \<and> vals \<noteq> [] then Some ((case map_of dst key of Some vs \<Rightarrow> vs | None \<Rightarrow> []) @ vals) else map_of dst k)"
  by (induction vals arbitrary: dst) (auto simp: hdr_add_def update_conv')

lemma copy_headers_lookup:
  assumes "distinct (map fst src)"
  shows "map_of (copy_headers skipped dst src) k =
     (case map_of src k of
        Some vals \<Rightarrow> (if to_lower k \<in> skipped \<or> vals = [] then map_of dst k
          else Some ((case map_of dst k of Some vs \<Rightarrow> vs | None \<Rightarrow> []) @ vals))
      | None \<Rightarrow> map_of dst k)"
  using assms
proof (induction src arbitrary: dst)
  case Nil
  show ?case by (simp add: copy_headers_def)
next
  case (Cons kv src)
  obtain key vals where kv: "kv = (key, vals)" by (cases kv)
  let ?dst = "if to_lower key \<in> skipped then dst else fold (hdr_add key) vals dst"
  have step: "copy_headers skipped dst (kv # src) = copy_headers skipped ?dst src"
    by (simp add: copy_headers_def kv)
  from Cons.prems have fresh: "map_of src key = None" by (simp add: kv map_of_eq_None_iff)
  have look: "map_of ?dst k = (if k = key \<and> to_lower key \<notin> skipped \<and> vals \<noteq> []
      then Some ((case map_of dst key of Some vs \<Rightarrow> vs | None \<Rightarrow> []) @ vals) else map_of dst k)"
    by (simp add: hdr_add_all)
  have IH: "map_of (copy_headers skipped ?dst src) k =
     (case map_of src k of
        Some vals \<Rightarrow> (if to_lower k \<in> skipped \<or> vals = [] then map_of ?dst k
          else Some ((case map_of ?dst k of Some vs \<Rightarrow> vs | None \<Rightarrow> []) @ vals))
      | None \<Rightarrow> map_of ?dst k)"
    using Cons.prems by (intro Cons.IH) (simp add: kv)
  show ?case
  proof (cases "k = key")
    case True
    with fresh show ?thesis unfolding step IH look by (simp add: kv)
  next
    case False
    with look have "map_of ?dst k = map_of dst k" by (simp only: simp_thms if_False)
    moreover from False have "map_of (kv # src) k = map_of src k" by (simp add: kv)
    ultimately show ?thesis unfolding step IH by (simp only:)
  qed
qed

text \<open>The request the upstream sees has exactly the client's headers but the hop-by-hop ones: for
  every name the values are the client's, in order, and Host, Content-Length, Connection and
  Transfer-Encoding are never copied, in whatever case they are written.\<close>

theorem copyForwardHeaders_spec:
  assumes "distinct (map fst src)"
  shows "map_of (copyForwardHeaders [] src) key =
     (if to_lower key \<in> {''host'', ''content-length'', ''connection'', ''transfer-encoding''} \<or> map_of src key = Some []
      then None else map_of src key)"
  unfolding copyForwardHeaders_def copy_headers_lookup [OF assms] by (auto split: option.splits)

lemma header_names:
  "to_lower ''Host'' = ''host''" "to_lower ''X-A'' = ''x-a''" "trim_space (to_lower ''Claude'') = ''claude''"
  by code_simp+

theorem copyForwardHeaders_spec_witness:
  "map_of (copyForwardHeaders [] [(''Host'', [''evil'']), (''X-A'', [''1'', ''2''])]) ''Host'' = None \<and>
   map_of (copyForwardHeaders [] [(''Host'', [''evil'']), (''X-A'', [''1'', ''2''])]) ''X-A'' = Some [''1'', ''2'']"
  using copyForwardHeaders_spec [of "[(''Host'', [''evil'']), (''X-A'', [''1'', ''2''])]" "''Host''"]
    copyForwardHeaders_spec [of "[(''Host'', [''evil'']), (''X-A'', [''1'', ''2''])]" "''X-A''"]
  unfolding header_names by simp

text \<open>In the configured mode the upstream gets the configured key and never the client's: on success
  the one Authorization value is the key (read from the environment when it says so), an
  empty key is an error, and no other header changes; in any other mode nothing changes.\<close>

theorem PrepareAuth_spec:
  "let key = (if has_prefix (ot_authKey t) ''env:'' then getenv (trim_prefix (ot_authKey t) ''env:'') else ot_authKey t)
   in case PrepareAuth getenv t h of
        Inl err \<Rightarrow> ot_authMode t = ''configured'' \<and> (ot_authKey t = [] \<or> trim_space key = [])
      | Inr h' \<Rightarrow>
          (if ot_authMode t = ''configured''
           then trim_space key \<noteq> [] \<and> map_of h' = (map_of h)(''Authorization'' \<mapsto> [''Bearer '' @ key])
           else h' = h)"
  by (simp add: PrepareAuth_def Let_def hdr_set_def update_conv')

section \<open>Routes\<close>

lemma route_scan_Some:
  "route_scan pm p ps = Some (n, rt) \<Longrightarrow>
     (n, rt) \<in> set ps \<and> list_ex (\<lambda>pattern. routeMatches pm pattern p) (pcf_RoutePatterns (prt_Config rt))"
  by (induction ps) (auto split: if_splits)

lemma route_scan_None:
  "route_scan pm p ps = None \<longleftrightarrow>
     list_all (\<lambda>(n, rt). \<not> list_ex (\<lambda>pattern. routeMatches pm pattern p) (pcf_RoutePatterns (prt_Config rt))) ps"
  by (induction pm p ps rule: route_scan.induct) simp_all

text \<open>Routing serves what was asked for. With a router that was built and distinct provider names, an
  explicit provider header selects exactly that provider or is refused, never another one;
  without it the request never fails to route: it goes to a provider one of whose patterns
  matches the path, and to the default provider only when no pattern of any provider does.\<close>

theorem Resolve_spec:
  assumes "NewRouter def ps = Inr r" "distinct (map fst ps)"
  shows "let explicit = trim_space (to_lower (hdr_get h providerHeader));
             matching = (\<lambda>rt. list_ex (\<lambda>pattern. routeMatches pm pattern p) (pcf_RoutePatterns (prt_Config rt)))
    in case Resolve pm r h p of
         Inl err \<Rightarrow> explicit \<noteq> [] \<and> map_of ps explicit = None
       | Inr (rt, name) \<Rightarrow> map_of ps name = Some rt \<and>
           (if explicit \<noteq> [] then name = explicit
            else matching rt \<or> (name = def \<and> list_all (\<lambda>(n, rt'). \<not> matching rt') ps))"
proof -
  from assms(1) have r: "r = \<lparr>rt_defaultProvider = def, rt_providers = ps\<rparr>" "map_of ps def \<noteq> None"
    by (auto simp: NewRouter_def split: if_splits option.splits)
  have scan: "map_of ps n = Some rt" if "route_scan pm p ps = Some (n, rt)" for n rt
    using route_scan_Some [OF that] assms(2) by (simp add: map_of_eq_Some_iff)
  show ?thesis
    using r(2) scan by (auto simp: Resolve_def Let_def r(1) route_scan_None dest: route_scan_Some split: option.splits)
qed

definition sample_path_rule :: PathRule where
  "sample_path_rule = \<lparr>pa_Path = [], pa_Default = None, pa_Truncate = 0, pa_Serialize = [], pa_Map = Map.empty\<rparr>"

definition sample_spec :: Spec where
  "sample_spec = (let r = sample_path_rule; u = \<lparr>us_InputTokens = r, us_OutputTokens = r\<rparr> in
     \<lparr>spec_Version = [], spec_Provider = ''openai'',
      spec_Request = \<lparr>rqs_Model = r, rqs_Stream = r,
        rqs_Tools = \<lparr>tsr_Path = [], tsr_Each = \<lparr>te_Name = r, te_RawArgs = r\<rparr>\<rparr>, rqs_InputSummary = r\<rparr>,
      spec_Response = \<lparr>rss_Model = r, rss_FinishReason = r, rss_Usage = u,
        rss_Error = \<lparr>er_ErrorType = r, er_ErrorMessage = r\<rparr>\<rparr>,
      spec_Stream = \<lparr>sts_Usage = u, sts_FinishReason = r\<rparr>\<rparr>)"

definition sample_provider :: ProviderRuntime where
  "sample_provider = \<lparr>prt_Name = ''openai'',
     prt_Config = \<lparr>pcf_Name = ''openai'', pcf_UpstreamBaseURL = ''https://api.openai.com'', pcf_AuthMode = ''passthrough'',
       pcf_AuthKey = [], pcf_RoutePatterns = [''/v1/*''], pcf_MaxIdleConns = 0, pcf_IdleConnTimeout = 0\<rparr>,
     prt_Transport = \<lparr>ot_authMode = ''passthrough'', ot_authKey = []\<rparr>, prt_Mapping = sample_spec\<rparr>"

theorem Resolve_spec_witness:
  "\<exists>r. NewRouter ''openai'' [(''openai'', sample_provider)] = Inr r \<and>
     (case Resolve (\<lambda>_ _. Inr False) r [(''X-Crabwise-Provider'', [''Claude''])] ''/v1/chat'' of
        Inl err \<Rightarrow> True | Inr (rt, name) \<Rightarrow> name = ''claude'')"
proof -
  obtain r where r: "NewRouter ''openai'' [(''openai'', sample_provider)] = Inr r" by (simp add: NewRouter_def)
  have e: "trim_space (to_lower (hdr_get [(''X-Crabwise-Provider'', [''Claude''])] providerHeader)) = ''claude''"
    by (simp add: hdr_get_def providerHeader_def header_names)
  have d: "distinct (map fst [(''openai'', sample_provider)])" by simp
  from Resolve_spec [OF r d, of "[(''X-Crabwise-Provider'', [''Claude''])]" "\<lambda>_ _. Inr False" "''/v1/chat''"]
  have "case Resolve (\<lambda>_ _. Inr False) r [(''X-Crabwise-Provider'', [''Claude''])] ''/v1/chat'' of
      Inl err \<Rightarrow> True | Inr (rt, name) \<Rightarrow> name = ''claude''"
    unfolding e Let_def
    by (cases "Resolve (\<lambda>_ _. Inr False) r [(''X-Crabwise-Provider'', [''Claude''])] ''/v1/chat''") (simp_all split: prod.splits)
  with r show ?thesis by blast
qed

section \<open>Egress\<close>

lemma redact_patterns_bound:
  "redact_patterns L res s c n = (s', c', n') \<Longrightarrow> n \<le> maxRedactionsPerField \<Longrightarrow> n' \<le> maxRedactionsPerField \<and> n \<le> n'"
  by (induction L res s c n rule: redact_patterns.induct)
    (fastforce simp: replace_counted_def Let_def split: if_splits prod.splits)+

lemma redact_patterns_same:
  "redact_patterns L res s c n = (s', c', n') \<Longrightarrow> (c \<longrightarrow> c') \<and> (\<not> c' \<longrightarrow> s' = s)"
  by (induction L res s c n rule: redact_patterns.induct)
    (fastforce simp: replace_counted_def Let_def split: if_splits prod.splits)+

end
