(* ===== verification/Tool_Use.thy ===== *)
theory Tool_Use
  imports Go_Json "HOL-Library.Word" "HOL-Library.AList"
begin

text \<open>
  \<open>internal/adapter/proxy/tooluse.go\<close> and \<open>openai.go\<close>: the tool calls of a model's answer and
  what they aim at, from a whole response body or from the events of a stream. What
  encoding/json does is the record \<open>JsonLib\<close>, an argument of the definitions: \<open>js_decode\<close> is
  \<open>Unmarshal\<close> into an \<open>interface{}\<close> (an object's keys are distinct), \<open>js_valid\<close> is \<open>Valid\<close>,
  \<open>js_int64 n\<close> is what the conversion of the number literal \<open>n\<close> to float64 and then to int64
  gives; \<open>js_members\<close> is \<open>Unmarshal\<close> into a \<open>map[string]json.RawMessage\<close>, which leaves the members'
  texts as they are, and \<open>js_string v\<close> what \<open>Unmarshal\<close> of such a text \<open>v\<close> leaves in an empty string (nothing,
  where \<open>v\<close> is no string); \<open>js_tool_calls\<close> is \<open>Unmarshal\<close> into the struct of \<open>ExtractToolUseBlocks\<close>: for
  each choice the identifiers, names and arguments of its tool calls. \<open>js_compact\<close> is what
  \<open>Marshal\<close> writes for a valid \<open>RawMessage\<close>. A nil slice is \<open>None\<close>.
\<close>

record JsonLib =
  js_valid :: "string \<Rightarrow> bool"
  js_decode :: "string \<Rightarrow> json option"
  js_int64 :: "string \<Rightarrow> 64 word"
  js_members :: "string \<Rightarrow> (string \<times> string) list option"
  js_string :: "string \<Rightarrow> string"
  js_tool_calls :: "string \<Rightarrow> error + (string \<times> string \<times> string) list list"
  js_compact :: "string \<Rightarrow> string"

section \<open>Targets\<close>

record ToolTargets =
  tt_Argv :: "string list option"
  tt_Paths :: "string list option"
  tt_PathMode :: string

definition no_targets :: ToolTargets where
  "no_targets = \<lparr>tt_Argv = None, tt_Paths = None, tt_PathMode = []\<rparr>"

record ToolUseBlock =
  tb_ID :: string
  tb_ToolName :: string
  tb_ToolInput :: string
  tb_Targets :: ToolTargets

record ToolCallDelta =
  td_Index :: "64 word"
  td_ID :: string
  td_Name :: string
  td_ArgsDelta :: string

text \<open>\<open>var s string; if v, ok := m[key]; ok { _ = json.Unmarshal(v, &s) }\<close>\<close>

definition raw_string :: "JsonLib \<Rightarrow> (string \<times> string) list \<Rightarrow> string \<Rightarrow> string" where
  "raw_string J m key = (case map_of m key of Some v \<Rightarrow> js_string J v | None \<Rightarrow> [])"

definition extractPathsFromArgv :: "string list \<Rightarrow> string list option" where
  "extractPathsFromArgv argv =
     (let paths = filter (\<lambda>arg. arg \<noteq> [] \<and> hd arg \<noteq> CHR ''-'' \<and> CHR ''/'' \<in> set arg) argv
      in if paths = [] then None else Some paths)"

definition inferPathMode :: "string list \<Rightarrow> string" where
  "inferPathMode argv =
     (case argv of
        [] \<Rightarrow> []
      | cmd # _ \<Rightarrow>
          (if cmd \<in> {''rm'', ''rmdir'', ''unlink'', ''shred''} then ''delete''
           else if cmd \<in> {''cat'', ''head'', ''tail'', ''less'', ''more'', ''wc'', ''grep'', ''find'', ''ls''} then ''read''
           else ''write''))"

definition parseBashTargets :: "JsonLib \<Rightarrow> (string \<times> string) list \<Rightarrow> ToolTargets" where
  "parseBashTargets J m =
     (let cmd = raw_string J m ''command''
      in if cmd = [] then no_targets
         else let argv = str_fields cmd
              in \<lparr>tt_Argv = Some argv, tt_Paths = extractPathsFromArgv argv, tt_PathMode = inferPathMode argv\<rparr>)"

definition parseFileTargets :: "JsonLib \<Rightarrow> (string \<times> string) list \<Rightarrow> string \<Rightarrow> string \<Rightarrow> ToolTargets" where
  "parseFileTargets J m key mode =
     (let p = raw_string J m key
      in if p = [] then no_targets else \<lparr>tt_Argv = None, tt_Paths = Some [p], tt_PathMode = mode\<rparr>)"

text \<open>\<open>Unmarshal\<close> into a map takes an object, its members whatever they are, and \<open>null\<close> as the empty map.\<close>

definition ParseTargets :: "JsonLib \<Rightarrow> string \<Rightarrow> string \<Rightarrow> ToolTargets" where
  "ParseTargets J toolName input =
     (case js_members J input of
        Some m \<Rightarrow>
          (let t = to_lower toolName
           in if t \<in> {''bash'', ''computer''} then parseBashTargets J m
              else if t \<in> {''write'', ''multiedit''} then parseFileTargets J m ''path'' ''write''
              else if t \<in> {''edit'', ''notebookedit''} then parseFileTargets J m ''file_path'' ''write''
              else if t \<in> {''read'', ''glob'', ''grep''} then parseFileTargets J m ''file_path'' ''read''
              else no_targets)
      | None \<Rightarrow> no_targets)"

section \<open>The OpenAI transport\<close>

text \<open>Arguments that are not JSON are kept as text.\<close>

definition tool_input :: "JsonLib \<Rightarrow> string \<Rightarrow> string" where
  "tool_input J args =
     (if js_valid J args then args
      else CHR ''{'' # quote_string ''_raw_args'' @ '':'' @ quote_string args @ ''}'')"

definition block_of :: "JsonLib \<Rightarrow> string \<Rightarrow> string \<Rightarrow> string \<Rightarrow> ToolUseBlock" where
  "block_of J i name args =
     \<lparr>tb_ID = i, tb_ToolName = name, tb_ToolInput = tool_input J args,
      tb_Targets = ParseTargets J name (tool_input J args)\<rparr>"

definition ExtractToolUseBlocks :: "JsonLib \<Rightarrow> string \<Rightarrow> error + ToolUseBlock list" where
  "ExtractToolUseBlocks J body =
     bind_result (js_tool_calls J body) (\<lambda>choices. Ok (map (\<lambda>(i, name, args). block_of J i name args) (concat choices)))"

text \<open>\<open>v, _ := m[key].(string)\<close>: another value is read as the empty string.\<close>

definition string_member :: "(string \<times> json) list \<Rightarrow> string \<Rightarrow> string" where
  "string_member m key = (case map_of m key of Some (JStr s) \<Rightarrow> s | _ \<Rightarrow> [])"

record StreamEvent =
  se_Model :: string
  se_FinishReason :: string
  se_InputTokens :: "64 word"
  se_OutputTokens :: "64 word"
  se_HasUsage :: bool
  se_HasFinish :: bool
  se_EventType :: string
  se_ToolCallDeltas :: "ToolCallDelta list"

definition zero_stream_event :: StreamEvent where
  "zero_stream_event = \<lparr>se_Model = [], se_FinishReason = [], se_InputTokens = 0, se_OutputTokens = 0,
     se_HasUsage = False, se_HasFinish = False, se_EventType = [], se_ToolCallDeltas = []\<rparr>"

definition toInt64 :: "JsonLib \<Rightarrow> json \<Rightarrow> 64 word" where
  "toInt64 J v = (case v of JNum n \<Rightarrow> js_int64 J n | _ \<Rightarrow> 0)"

text \<open>\<open>v.(map[string]interface{})\<close>: the members, and nothing for another value.\<close>

definition members :: "json option \<Rightarrow> (string \<times> json) list option" where
  "members v = (case v of Some (JObj m) \<Rightarrow> Some m | _ \<Rightarrow> None)"

definition elements :: "json option \<Rightarrow> json list option" where
  "elements v = (case v of Some (JArr vs) \<Rightarrow> Some vs | _ \<Rightarrow> None)"

definition delta_of_call :: "JsonLib \<Rightarrow> json \<Rightarrow> ToolCallDelta option" where
  "delta_of_call J rawCall =
     (case members (Some rawCall) of
        None \<Rightarrow> None
      | Some call \<Rightarrow>
          (let fn = (case members (map_of call ''function'') of Some m \<Rightarrow> m | None \<Rightarrow> [])
           in Some \<lparr>td_Index = (case map_of call ''index'' of Some v \<Rightarrow> toInt64 J v | None \<Rightarrow> 0),
                    td_ID = string_member call ''id'', td_Name = string_member fn ''name'',
                    td_ArgsDelta = string_member fn ''arguments''\<rparr>))"

text \<open>The first choice of the event, where the finish reason and the tool calls are looked for.\<close>

definition first_choice :: "(string \<times> json) list \<Rightarrow> (string \<times> json) list option" where
  "first_choice payload = (case elements (map_of payload ''choices'') of Some (c0 # _) \<Rightarrow> members (Some c0) | _ \<Rightarrow> None)"

definition choice_deltas :: "JsonLib \<Rightarrow> (string \<times> json) list \<Rightarrow> ToolCallDelta list" where
  "choice_deltas J c0 =
     (case members (map_of c0 ''delta'') of
        None \<Rightarrow> []
      | Some delta \<Rightarrow>
         (case elements (map_of delta ''tool_calls'') of
            None \<Rightarrow> []
          | Some rawCalls \<Rightarrow> List.map_filter (delta_of_call J) rawCalls))"

definition with_usage :: "JsonLib \<Rightarrow> (string \<times> json) list \<Rightarrow> StreamEvent \<Rightarrow> StreamEvent" where
  "with_usage J payload out =
     (case members (map_of payload ''usage'') of
        None \<Rightarrow> out
      | Some usage \<Rightarrow>
          (let out = (case map_of usage ''prompt_tokens'' of
                        Some v \<Rightarrow> out\<lparr>se_InputTokens := toInt64 J v, se_HasUsage := True\<rparr> | None \<Rightarrow> out)
           in (case map_of usage ''completion_tokens'' of
                 Some v \<Rightarrow> out\<lparr>se_OutputTokens := toInt64 J v, se_HasUsage := True\<rparr> | None \<Rightarrow> out)))"

definition with_choice :: "JsonLib \<Rightarrow> (string \<times> json) list \<Rightarrow> StreamEvent \<Rightarrow> StreamEvent" where
  "with_choice J payload out =
     (case first_choice payload of
        None \<Rightarrow> out
      | Some c0 \<Rightarrow>
          (let fr = string_member c0 ''finish_reason'';
               out = (if fr \<noteq> [] then out\<lparr>se_FinishReason := fr, se_HasFinish := True\<rparr> else out)
           in out\<lparr>se_ToolCallDeltas := choice_deltas J c0\<rparr>))"

definition ParseStreamEvent :: "JsonLib \<Rightarrow> string \<Rightarrow> error + StreamEvent" where
  "ParseStreamEvent J data =
     (let parsed = (\<lambda>payload. Ok (with_choice J payload (with_usage J payload
                      (zero_stream_event\<lparr>se_Model := string_member payload ''model''\<rparr>))))
      in case js_decode J data of
           Some (JObj payload) \<Rightarrow> parsed payload
         | Some JNull \<Rightarrow> parsed []
         | _ \<Rightarrow> Err ''json: cannot unmarshal'')"

section \<open>What targets are\<close>

lemma fields_from_nonempty: "w \<in> set (fields_from cur s) \<Longrightarrow> w \<noteq> []"
proof (induction cur s rule: fields_from.induct)
  case (1 cur s)
  show ?case
  proof (cases s)
    case Nil
    with 1(3) show ?thesis by (simp add: fields_from.simps [of cur] split: if_splits)
  next
    case (Cons c s')
    with 1 show ?thesis by (subst (asm) (3) fields_from.simps) (auto split: if_splits)
  qed
qed

lemma str_fields_nonempty: "w \<in> set (str_fields s) \<Longrightarrow> w \<noteq> []"
  unfolding str_fields_def by (rule fields_from_nonempty)

text \<open>What the rules can rely on in the targets of a tool call.\<close>

definition listed :: "string list option \<Rightarrow> string list" where
  "listed xs = (case xs of None \<Rightarrow> [] | Some ys \<Rightarrow> ys)"

lemma listed_simps [simp]: "listed None = []" "listed (Some xs) = xs"
  by (simp_all add: listed_def)

definition targets_ok :: "ToolTargets \<Rightarrow> bool" where
  "targets_ok t =
     ([] \<notin> set (listed (tt_Argv t)) \<and> [] \<notin> set (listed (tt_Paths t)) \<and> tt_PathMode t \<in> {[], ''read'', ''write'', ''delete''} \<and>
      (tt_PathMode t = [] \<longrightarrow> listed (tt_Argv t) = [] \<and> tt_Paths t = None) \<and>
      (listed (tt_Argv t) \<noteq> [] \<longrightarrow>
         set (listed (tt_Paths t)) = {arg \<in> set (listed (tt_Argv t)). hd arg \<noteq> CHR ''-'' \<and> CHR ''/'' \<in> set arg}))"

lemma inferPathMode_cases:
  "inferPathMode argv \<in> {[], ''read'', ''write'', ''delete''}" "inferPathMode argv = [] \<longleftrightarrow> argv = []"
  by (cases argv; simp add: inferPathMode_def)+

lemma str_fields_no_Nil: "[] \<notin> set (str_fields s)"
  using str_fields_nonempty by blast

lemma extractPathsFromArgv_set:
  "set (listed (extractPathsFromArgv argv)) = {arg \<in> set argv. arg \<noteq> [] \<and> hd arg \<noteq> CHR ''-'' \<and> CHR ''/'' \<in> set arg}"
  by (auto simp: extractPathsFromArgv_def Let_def filter_empty_conv)

lemma no_targets_ok: "targets_ok no_targets"
  by (simp add: targets_ok_def no_targets_def)

lemma parseBashTargets_ok: "targets_ok (parseBashTargets J m)"
proof (cases "raw_string J m ''command'' = []")
  case False
  let ?a = "str_fields (raw_string J m ''command'')"
  have "?a = [] \<longrightarrow> extractPathsFromArgv ?a = None" by (simp add: extractPathsFromArgv_def)
  then show ?thesis
    using False inferPathMode_cases [of ?a] str_fields_no_Nil [of "raw_string J m ''command''"]
    by (auto simp: parseBashTargets_def Let_def targets_ok_def extractPathsFromArgv_set simp del: insert_iff)
qed (simp add: parseBashTargets_def no_targets_ok)

lemma parseFileTargets_ok: "mode \<in> {''read'', ''write''} \<Longrightarrow> targets_ok (parseFileTargets J m key mode)"
  by (auto simp: parseFileTargets_def Let_def targets_ok_def no_targets_def)

lemma ParseTargets_ok: "targets_ok (ParseTargets J toolName input)"
proof -
  have f: "targets_ok (parseFileTargets J m k ''read'')" "targets_ok (parseFileTargets J m k ''write'')" for m k
    by (rule parseFileTargets_ok, simp)+
  show ?thesis
    unfolding ParseTargets_def Let_def
    by (simp add: parseBashTargets_ok no_targets_ok f split: option.split)
qed

lemma block_of_ok [simp]: "targets_ok (tb_Targets (block_of J i name args))"
  by (simp add: block_of_def ParseTargets_ok)

text \<open>The targets a rule sees are well formed: no empty argument or path, a path mode whenever there is
  anything to aim at, and for a shell command exactly the arguments that are not flags and
  contain a slash as its paths.\<close>

theorem ParseTargets_wf: "targets_ok (ParseTargets J toolName input)"
  by (rule ParseTargets_ok)

text \<open>C35: Choices after the first are never looked at in a stream: whatever an event's other choices carry
  (tool calls included), what is read from it is what is read from the event with its first
  choice alone. The judgement of a whole body, \<open>ExtractToolUseBlocks\<close>, looks at every choice.\<close>

theorem later_choices_unseen:
  assumes "js_decode J data = Some (JObj ((''choices'', JArr (c0 # cs)) # m))"
    and "js_decode J data' = Some (JObj ((''choices'', JArr [c0]) # m))"
  shows "ParseStreamEvent J data = ParseStreamEvent J data'"
proof -
  let ?m = "(''choices'', JArr (c0 # cs)) # m" let ?m' = "(''choices'', JArr [c0]) # m"
  have "first_choice ?m = first_choice ?m'" by (simp add: first_choice_def elements_def)
  moreover have "map_of ?m k = map_of ?m' k" if "k \<noteq> ''choices''" for k using that by simp
  then have "string_member ?m ''model'' = string_member ?m' ''model''" "members (map_of ?m ''usage'') = members (map_of ?m' ''usage'')"
    by (simp_all add: string_member_def)
  ultimately show ?thesis
    by (simp only: ParseStreamEvent_def with_choice_def with_usage_def assms Let_def option.case json.case)
qed

definition sample_json_lib :: JsonLib where
  "sample_json_lib = \<lparr>js_valid = (\<lambda>s. s \<noteq> []),
     js_decode = (\<lambda>s. if s = ''one'' then Some (JObj [(''choices'', JArr [JObj []])])
        else if s = ''two'' then Some (JObj [(''choices'', JArr [JObj [],
          JObj [(''delta'', JObj [(''tool_calls'', JArr [JObj [(''function'', JObj [(''name'', JStr ''Bash'')])]])])]])])
        else None),
     js_int64 = (\<lambda>_. 0), js_members = (\<lambda>s. if s = ''{}'' then Some [] else None), js_string = (\<lambda>_. []),
     js_tool_calls = (\<lambda>s. if s = ''body'' then Inr [[], [(''call_1'', ''Bash'', ''{}'')]] else Inl ''bad''),
     js_compact = (\<lambda>s. s)\<rparr>"

theorem later_choices_unseen_witness:
  "ParseStreamEvent sample_json_lib ''two'' = ParseStreamEvent sample_json_lib ''one'' \<and>
   (\<exists>b. ExtractToolUseBlocks sample_json_lib ''body'' = Inr [b] \<and> tb_ToolName b = ''Bash'')"
  using later_choices_unseen [of sample_json_lib "''two''" "JObj []"
      "[JObj [(''delta'', JObj [(''tool_calls'', JArr [JObj [(''function'', JObj [(''name'', JStr ''Bash'')])]])])]]"
      "[]" "''one''"]
  by (simp add: sample_json_lib_def ExtractToolUseBlocks_def block_of_def)

end
