(* ===== verification/Proxy_Stream.thy ===== *)
theory Proxy_Stream
  imports Tool_Use Go_Time
begin

text \<open>
  \<open>internal/adapter/proxy/streaming.go\<close>: a server-sent event stream is held back until it has
  ended, its tool calls put together from their fragments, so that they can be judged before
  the client sees a byte. What the reading goroutine delivers is a list of messages; the
  list's end is the closed channel, \<open>IdleTimeout\<close> is the timer firing first, and \<open>now n\<close> is
  the clock at the \<open>n\<close>-th message. The theory proves which streams are accepted and that the
  tool calls are exactly the fragments of each index, joined in order.
\<close>

section \<open>Lines\<close>

definition parseSSEData :: "string \<Rightarrow> string" where
  "parseSSEData line =
     (let s = trim_space line
      in if s = [] \<or> has_prefix s '':'' then []
         else if \<not> has_prefix s ''data:'' then []
         else trim_space (trim_prefix s ''data:''))"

definition parseSSEEventType :: "string \<Rightarrow> string" where
  "parseSSEEventType line =
     (let s = trim_space line in if has_prefix s ''event:'' then trim_space (trim_prefix s ''event:'') else [])"

section \<open>The buffer\<close>

definition defaultStreamMaxBytes :: int where "defaultStreamMaxBytes = 10 * 1024 * 1024"

datatype StreamMsg = Line string | ReadError error | IdleTimeout

record StreamTelemetry =
  tel_Model :: string
  tel_FinishReason :: string
  tel_InputTokens :: "64 word"
  tel_OutputTokens :: "64 word"
  tel_HasUsage :: bool
  tel_FirstTokenAt :: time

record bufferedSSEResult =
  br_Body :: string
  br_Telemetry :: StreamTelemetry
  br_ToolBlocks :: "ToolUseBlock list"

record tcAcc =
  acc_id :: string
  acc_name :: string
  acc_args :: string

record BufState =
  bs_body :: string
  bs_pending :: string
  bs_telemetry :: StreamTelemetry
  bs_accumulators :: "(64 word \<times> tcAcc) list"

definition buf_init :: BufState where
  "buf_init = \<lparr>bs_body = [], bs_pending = [],
     bs_telemetry = \<lparr>tel_Model = [], tel_FinishReason = [], tel_InputTokens = 0, tel_OutputTokens = 0,
       tel_HasUsage = False, tel_FirstTokenAt = zero_time\<rparr>,
     bs_accumulators = []\<rparr>"

definition zero_acc :: tcAcc where
  "zero_acc = \<lparr>acc_id = [], acc_name = [], acc_args = []\<rparr>"

definition add_delta :: "ToolCallDelta \<Rightarrow> tcAcc \<Rightarrow> tcAcc" where
  "add_delta d acc = \<lparr>acc_id = (if td_ID d \<noteq> [] then td_ID d else acc_id acc),
     acc_name = (if td_Name d \<noteq> [] then td_Name d else acc_name acc), acc_args = acc_args acc @ td_ArgsDelta d\<rparr>"

definition accumulate :: "ToolCallDelta \<Rightarrow> (64 word \<times> tcAcc) list \<Rightarrow> (64 word \<times> tcAcc) list" where
  "accumulate d accs =
     (let acc = (case map_of accs (td_Index d) of Some a \<Rightarrow> a | None \<Rightarrow> zero_acc)
      in AList.update (td_Index d) (add_delta d acc) accs)"

definition observe :: "StreamEvent \<Rightarrow> StreamTelemetry \<Rightarrow> StreamTelemetry" where
  "observe event t =
     (let t = (if se_Model event \<noteq> [] then t\<lparr>tel_Model := se_Model event\<rparr> else t);
          t = (if se_HasFinish event then t\<lparr>tel_FinishReason := se_FinishReason event\<rparr> else t)
      in if se_HasUsage event
         then t\<lparr>tel_InputTokens := se_InputTokens event, tel_OutputTokens := se_OutputTokens event, tel_HasUsage := True\<rparr>
         else t)"

text \<open>The body of the loop for one line.\<close>

definition buffer_line ::
  "(string \<Rightarrow> error + StreamEvent) \<Rightarrow> int \<Rightarrow> time \<Rightarrow> string \<Rightarrow> BufState \<Rightarrow> error + BufState" where
  "buffer_line parse maxBytes now line st =
     (if int (length (bs_body st) + length line) > maxBytes
      then Err (''stream buffer exceeded '' @ show_int maxBytes @ '' bytes'')
      else
        let st = st\<lparr>bs_body := bs_body st @ line\<rparr>;
            eventType = parseSSEEventType line
        in if eventType \<noteq> [] then Ok (st\<lparr>bs_pending := eventType\<rparr>)
           else
             let payload = parseSSEData line
             in if payload = [] \<or> payload = ''[DONE]'' then Ok st
                else
                  let tel = bs_telemetry st;
                      tel = (if tel_FirstTokenAt tel = zero_time then tel\<lparr>tel_FirstTokenAt := now\<rparr> else tel)
                  in case parse payload of
                       Inl err \<Rightarrow> Err (''enforcement_error: failed to parse stream event: '' @ err)
                     | Inr event \<Rightarrow> Ok (st\<lparr>bs_pending := [], bs_telemetry := observe event tel,
                         bs_accumulators := fold accumulate (se_ToolCallDeltas event) (bs_accumulators st)\<rparr>))"

fun buffer_loop ::
  "(string \<Rightarrow> error + StreamEvent) \<Rightarrow> int \<Rightarrow> (nat \<Rightarrow> time) \<Rightarrow> nat \<Rightarrow> StreamMsg list \<Rightarrow> BufState \<Rightarrow> error + BufState" where
  "buffer_loop parse maxBytes now n [] st = Ok st"
| "buffer_loop parse maxBytes now n (IdleTimeout # msgs) st = Err ''stream idle timeout''"
| "buffer_loop parse maxBytes now n (ReadError err # msgs) st = Err err"
| "buffer_loop parse maxBytes now n (Line line # msgs) st =
     bind_result (buffer_line parse maxBytes (now n) line st) (buffer_loop parse maxBytes now (Suc n) msgs)"

text \<open>The tool blocks in the order of their indices.\<close>

definition finalize :: "JsonLib \<Rightarrow> BufState \<Rightarrow> bufferedSSEResult" where
  "finalize J st = \<lparr>br_Body = bs_body st, br_Telemetry = bs_telemetry st,
     br_ToolBlocks = map (\<lambda>(idx, acc). block_of J (acc_id acc) (acc_name acc) (acc_args acc))
       (sort_key (sint \<circ> fst) (bs_accumulators st))\<rparr>"

definition bufferSSEStream ::
  "JsonLib \<Rightarrow> (string \<Rightarrow> error + StreamEvent) \<Rightarrow> int \<Rightarrow> (nat \<Rightarrow> time) \<Rightarrow> StreamMsg list \<Rightarrow> error + bufferedSSEResult" where
  "bufferSSEStream J parse maxBytes now msgs =
     bind_result (buffer_loop parse maxBytes now 0 msgs buf_init) (\<lambda>st. Ok (finalize J st))"

section \<open>What a stream says\<close>

text \<open>The payloads of a stream's lines, and the tool calls its fragments make, by index.\<close>

definition is_payload :: "string \<Rightarrow> bool" where
  "is_payload line = (parseSSEEventType line = [] \<and> parseSSEData line \<notin> {[], ''[DONE]''})"

definition payloads :: "string list \<Rightarrow> string list" where
  "payloads ls = map parseSSEData (filter is_payload ls)"

definition parses :: "(string \<Rightarrow> error + 'e) \<Rightarrow> string \<Rightarrow> bool" where
  "parses parse p = (case parse p of Inl _ \<Rightarrow> False | Inr _ \<Rightarrow> True)"

definition stream_deltas :: "(string \<Rightarrow> error + StreamEvent) \<Rightarrow> string list \<Rightarrow> ToolCallDelta list" where
  "stream_deltas parse ls =
     concat (map (\<lambda>p. case parse p of Inl _ \<Rightarrow> [] | Inr event \<Rightarrow> se_ToolCallDeltas event) (payloads ls))"

definition last_set :: "string list \<Rightarrow> string" where
  "last_set xs = (case rev (filter (\<lambda>x. x \<noteq> []) xs) of [] \<Rightarrow> [] | x # _ \<Rightarrow> x)"

definition call_of :: "JsonLib \<Rightarrow> ToolCallDelta list \<Rightarrow> 64 word \<Rightarrow> ToolUseBlock" where
  "call_of J ds idx =
     (let mine = filter (\<lambda>d. td_Index d = idx) ds
      in block_of J (last_set (map td_ID mine)) (last_set (map td_Name mine)) (concat (map td_ArgsDelta mine)))"

definition reassemble :: "JsonLib \<Rightarrow> ToolCallDelta list \<Rightarrow> ToolUseBlock list" where
  "reassemble J ds = map (call_of J ds) (sort_key sint (remdups (map td_Index ds)))"

lemma last_set_snoc: "last_set (xs @ [x]) = (if x \<noteq> [] then x else last_set xs)"
  by (simp add: last_set_def)

lemma accumulate_lookup:
  "map_of (fold accumulate ds []) idx =
     (let mine = filter (\<lambda>d. td_Index d = idx) ds
      in if mine = [] then None
         else Some \<lparr>acc_id = last_set (map td_ID mine), acc_name = last_set (map td_Name mine),
                    acc_args = concat (map td_ArgsDelta mine)\<rparr>)"
proof (induction ds rule: rev_induct)
  case (snoc d ds)
  then show ?case
    by (auto simp: accumulate_def Let_def update_conv' add_delta_def last_set_snoc zero_acc_def)
      (simp_all add: last_set_def)
qed simp

lemma accumulate_distinct: "distinct (map fst accs) \<Longrightarrow> distinct (map fst (fold accumulate ds accs))"
  by (induction ds arbitrary: accs) (auto simp: accumulate_def Let_def distinct_update)

lemma accumulate_keys: "fst ` set (fold accumulate ds accs) = fst ` set accs \<union> td_Index ` set ds"
  by (induction ds arbitrary: accs) (auto simp: accumulate_def Let_def dom_update [unfolded dom_map_of_conv_image_fst])

lemma sort_keys_unique:
  fixes f :: "'a \<Rightarrow> int"
  assumes "inj f" "distinct xs" "distinct ys" "set xs = set ys"
  shows "sort_key f xs = sort_key f ys"
proof -
  have "map f (sort_key f xs) = map f (sort_key f ys)"
    using assms by (intro sorted_distinct_set_unique) (auto simp: distinct_map intro: inj_on_subset)
  with assms(1) show ?thesis by (simp add: inj_map_eq_map)
qed

lemma map_fst_sort_key: "map fst (sort_key (\<lambda>x. f (fst x)) xs) = sort_key f (map fst xs)"
proof -
  have "map fst (insort_key (\<lambda>x. f (fst x)) x ys) = insort_key f (fst x) (map fst ys)" for x :: "'a \<times> 'b" and ys
    by (induction ys) auto
  note ins = this
  show ?thesis by (induction xs) (simp_all add: ins del: split_paired_All)
qed

lemma finalize_blocks:
  assumes "bs_accumulators st = fold accumulate ds []"
  shows "br_ToolBlocks (finalize J st) = reassemble J ds"
proof -
  let ?accs = "fold accumulate ds []" let ?s = "sort_key (\<lambda>x. sint (fst x)) ?accs"
  have d: "distinct (map fst ?accs)" by (rule accumulate_distinct) simp
  have "inj (sint :: 64 word \<Rightarrow> int)" by (intro injI) (rule signed_word_eqI)
  from sort_keys_unique [OF this d distinct_remdups, of "map td_Index ds"]
  have keys: "map fst ?s = sort_key sint (remdups (map td_Index ds))"
    by (simp add: map_fst_sort_key accumulate_keys)
  have "block_of J (acc_id a) (acc_name a) (acc_args a) = call_of J ds i" if "(i, a) \<in> set ?s" for i a
  proof -
    from that d have "map_of ?accs i = Some a" by simp
    then show ?thesis unfolding accumulate_lookup by (auto simp: call_of_def Let_def split: if_splits)
  qed
  then have "map (\<lambda>(i, a). block_of J (acc_id a) (acc_name a) (acc_args a)) ?s = map (call_of J ds) (map fst ?s)"
    by auto
  then show ?thesis by (simp add: finalize_def reassemble_def assms keys o_def)
qed

definition line_ok :: "(string \<Rightarrow> error + StreamEvent) \<Rightarrow> string \<Rightarrow> bool" where
  "line_ok parse line = (is_payload line \<longrightarrow> parses parse (parseSSEData line))"

lemma buffer_line_Inr:
  "buffer_line parse maxBytes now line st = Inr st' \<Longrightarrow>
     int (length (bs_body st @ line)) \<le> maxBytes \<and> line_ok parse line \<and> bs_body st' = bs_body st @ line \<and>
     bs_accumulators st' = fold accumulate (stream_deltas parse [line]) (bs_accumulators st)"
  by (auto simp: buffer_line_def Let_def line_ok_def is_payload_def parses_def stream_deltas_def payloads_def
      split: if_splits sum.splits)

lemma buffer_line_ok:
  "int (length (bs_body st @ line)) \<le> maxBytes \<Longrightarrow> line_ok parse line \<Longrightarrow>
     \<exists>st'. buffer_line parse maxBytes now line st = Inr st'"
  by (auto simp: buffer_line_def Let_def line_ok_def is_payload_def parses_def split: sum.splits)

lemma stream_deltas_Cons: "stream_deltas parse (l # ls) = stream_deltas parse [l] @ stream_deltas parse ls"
  by (simp add: stream_deltas_def payloads_def)

lemma line_ok_payloads: "list_all (line_ok parse) ls \<longleftrightarrow> list_all (parses parse) (payloads ls)"
  by (induction ls) (auto simp: line_ok_def payloads_def)

lemma buffer_loop_Inr:
  "buffer_loop parse maxBytes now n msgs st = Inr st' \<Longrightarrow>
     \<exists>ls. msgs = map Line ls \<and> bs_body st' = bs_body st @ concat ls \<and> list_all (line_ok parse) ls \<and>
       (ls = [] \<or> int (length (bs_body st')) \<le> maxBytes) \<and>
       bs_accumulators st' = fold accumulate (stream_deltas parse ls) (bs_accumulators st)"
proof (induction parse maxBytes now n msgs st rule: buffer_loop.induct)
  case (1 parse maxBytes now n st)
  then show ?case by (simp add: stream_deltas_def payloads_def)
next
  case (4 parse maxBytes now n line msgs st)
  then obtain st1 where 1: "buffer_line parse maxBytes (now n) line st = Inr st1"
    and 2: "buffer_loop parse maxBytes now (Suc n) msgs st1 = Inr st'" by (auto simp: bind_result_Inr_iff)
  from 4(1) [OF 2] obtain ls where ls: "msgs = map Line ls" "bs_body st' = bs_body st1 @ concat ls"
    "list_all (line_ok parse) ls" "ls = [] \<or> int (length (bs_body st')) \<le> maxBytes"
    "bs_accumulators st' = fold accumulate (stream_deltas parse ls) (bs_accumulators st1)" by blast
  from buffer_line_Inr [OF 1] ls show ?case
    by (intro exI [of _ "line # ls"]) (auto simp: stream_deltas_Cons [of parse line ls])
qed simp_all

lemma buffer_loop_ok:
  "list_all (line_ok parse) ls \<Longrightarrow> int (length (bs_body st @ concat ls)) \<le> maxBytes \<Longrightarrow>
     \<exists>st'. buffer_loop parse maxBytes now n (map Line ls) st = Inr st'"
proof (induction ls arbitrary: st n)
  case (Cons l ls)
  then have "int (length (bs_body st @ l)) \<le> maxBytes" "line_ok parse l" by auto
  from buffer_line_ok [OF this] obtain st1 where 1: "buffer_line parse maxBytes (now n) l st = Inr st1" by blast
  with buffer_line_Inr [OF 1] Cons show ?case by auto
qed simp

lemma bufferSSEStream_Inr:
  "bufferSSEStream J parse maxBytes now msgs = Inr r \<Longrightarrow>
     \<exists>ls. msgs = map Line ls \<and> br_Body r = concat ls \<and> list_all (parses parse) (payloads ls) \<and>
       (ls = [] \<or> int (length (concat ls)) \<le> maxBytes) \<and> br_ToolBlocks r = reassemble J (stream_deltas parse ls)"
proof -
  assume "bufferSSEStream J parse maxBytes now msgs = Inr r"
  then obtain st where st: "buffer_loop parse maxBytes now 0 msgs buf_init = Inr st" "r = finalize J st"
    by (auto simp: bufferSSEStream_def bind_result_Inr_iff)
  from buffer_loop_Inr [OF st(1)] obtain ls where
    "msgs = map Line ls" "bs_body st = concat ls" "list_all (line_ok parse) ls"
    "ls = [] \<or> int (length (concat ls)) \<le> maxBytes" "bs_accumulators st = fold accumulate (stream_deltas parse ls) []"
    by (auto simp: buf_init_def)
  moreover from this have "br_ToolBlocks r = reassemble J (stream_deltas parse ls)" "br_Body r = bs_body st"
    using finalize_blocks [of st "stream_deltas parse ls" J] by (simp_all add: st(2)) (simp add: finalize_def)
  ultimately show ?thesis by (auto simp: line_ok_payloads)
qed

text \<open>C11: A stream is released whole, judged whole, or not at all. Buffering succeeds exactly when the
  stream ends without a read error or an idle timeout, stays within the byte limit and every
  data payload parses; the body is then the stream byte for byte, and the tool calls are,
  for every index in ascending order, the call with the last identifier and name its
  fragments set and all its argument fragments joined in order.\<close>

theorem stream_reassembled:
  "(case bufferSSEStream J parse maxBytes now msgs of
      Inl err \<Rightarrow> True
    | Inr r \<Rightarrow> \<exists>ls. msgs = map Line ls \<and> br_Body r = concat ls \<and> br_ToolBlocks r = reassemble J (stream_deltas parse ls)) \<and>
   ((\<exists>r. bufferSSEStream J parse maxBytes now msgs = Inr r) \<longleftrightarrow>
    (\<exists>ls. msgs = map Line ls \<and> (ls = [] \<or> int (length (concat ls)) \<le> maxBytes) \<and> list_all (parses parse) (payloads ls)))"
proof -
  have "\<exists>r. bufferSSEStream J parse maxBytes now (map Line ls) = Inr r"
    if ls: "ls = [] \<or> int (length (concat ls)) \<le> maxBytes" "list_all (parses parse) (payloads ls)" for ls
  proof (cases "ls = []")
    case False
    with ls have "\<exists>st'. buffer_loop parse maxBytes now 0 (map Line ls) buf_init = Inr st'"
      by (intro buffer_loop_ok) (auto simp: line_ok_payloads buf_init_def)
    then show ?thesis by (auto simp: bufferSSEStream_def)
  qed (simp add: bufferSSEStream_def)
  note complete = this
  show ?thesis
  proof (cases "bufferSSEStream J parse maxBytes now msgs")
    case (Inl err)
    with complete show ?thesis by (metis (no_types, lifting) Inl_Inr_False sum.case(1))
  next
    case (Inr r)
    with bufferSSEStream_Inr [OF Inr] show ?thesis by auto
  qed
qed

end
