(* ===== verification/Commandments_Service.thy ===== *)
theory Commandments_Service
  imports Logger
begin

text \<open>
  \<open>internal/daemon/commandments_runtime.go\<close> and \<open>internal/daemon/gate.go\<close>: the service that
  puts the rule engine and the redactor behind the interfaces of the audit logger and of the
  proxy, and the \<open>gate.evaluate\<close> request, with which an agent asks before it acts. The
  event identifier and the clock the handler reads are arguments.
\<close>

section \<open>The service\<close>

record CommandmentRuleSummary =
  crs_Name :: string
  crs_Enforcement :: string
  crs_Priority :: int
  crs_Enabled :: bool

record CommandmentsService =
  svc_engine :: Engine
  svc_redactor :: Redactor
  svc_path :: string

definition NewCommandmentsService ::
  "Lib \<Rightarrow> (string \<Rightarrow> error + RuleSet) \<Rightarrow> (string \<Rightarrow> ReadResult) \<Rightarrow> string \<Rightarrow> string \<Rightarrow> LoadError + CommandmentsService" where
  "NewCommandmentsService L yaml readFile filePath fallbackYAML =
     (case NewEngine L yaml readFile filePath fallbackYAML of
        Inl err \<Rightarrow> Err err
      | Inr engine \<Rightarrow> Ok \<lparr>svc_engine = engine, svc_redactor = NewRedactor, svc_path = filePath\<rparr>)"

definition svc_Evaluate :: "Lib \<Rightarrow> CommandmentsService \<Rightarrow> Evaluator" where
  "svc_Evaluate L c event =
     (let result = Evaluate L (svc_engine c) (Some event)
      in \<lparr>aer_Evaluated = er_Evaluated result,
          aer_Triggered = map (\<lambda>r. \<lparr>atr_Name = tr_Name r, atr_Enforcement = tr_Enforcement r, atr_Message = tr_Message r\<rparr>)
            (er_Triggered result)\<rparr>)"

definition svc_Redact :: "Lib \<Rightarrow> CommandmentsService \<Rightarrow> EventRedactor" where
  "svc_Redact L c event ruleTriggered = Redact L (svc_redactor c) event ruleTriggered"

definition svc_List :: "CommandmentsService \<Rightarrow> CommandmentRuleSummary list" where
  "svc_List c = map (\<lambda>rule. \<lparr>crs_Name = sum_Name rule, crs_Enforcement = sum_Enforcement rule,
     crs_Priority = sum_Priority rule, crs_Enabled = sum_Enabled rule\<rparr>) (Rules (svc_engine c))"

definition svc_Test :: "Lib \<Rightarrow> CommandmentsService \<Rightarrow> Evaluator" where
  "svc_Test L c event = svc_Evaluate L c event"

definition svc_Reload ::
  "Lib \<Rightarrow> (string \<Rightarrow> error + RuleSet) \<Rightarrow> (string \<Rightarrow> ReadResult) \<Rightarrow> CommandmentsService \<Rightarrow>
   (LoadError + nat) \<times> CommandmentsService" where
  "svc_Reload L yaml readFile c =
     (case Reload L yaml readFile (svc_engine c) (svc_path c) of
        (Some err, engine) \<Rightarrow> (Err err, c\<lparr>svc_engine := engine\<rparr>)
      | (None, engine) \<Rightarrow> (Ok (length (Rules engine)), c\<lparr>svc_engine := engine\<rparr>))"

text \<open>The service that stands in when the rules did not load.\<close>

definition noop_Evaluate :: Evaluator where
  "noop_Evaluate event = \<lparr>aer_Evaluated = [], aer_Triggered = []\<rparr>"

definition noop_Redact :: EventRedactor where
  "noop_Redact event ruleTriggered = event"

lemma subseq_map_filter: "subseq (map f (filter (\<lambda>x. P x \<and> Q x) xs)) (map f (filter P xs))"
  by (induction xs) auto

interpretation service: commandments "svc_Evaluate L c" "svc_Redact L c"
proof unfold_locales
  fix e t
  have "map (tr_Name \<circ> (triggered_of \<circ> cr_rule)) rs = map (c_Name \<circ> cr_rule) rs" for rs
    by (simp add: triggered_of_def)
  then show "subseq (map atr_Name (aer_Triggered (svc_Evaluate L c e))) (aer_Evaluated (svc_Evaluate L c e))"
    using subseq_map_filter [of "c_Name \<circ> cr_rule" "IsEnabled \<circ> cr_rule" "\<lambda>r. matches L r e" "en_rules (svc_engine c)"]
    by (simp add: svc_Evaluate_def Evaluate_eq o_def triggered_of_def)
  have "e = e\<lparr>ev_Arguments := ev_Arguments e, ev_Redacted := ev_Redacted e\<rparr>" by simp
  then show "\<exists>v b. svc_Redact L c e t = e\<lparr>ev_Arguments := v, ev_Redacted := b\<rparr>"
    using Redact_frame [of L "svc_redactor c" e t] unfolding svc_Redact_def by metis
qed

interpretation noop: commandments noop_Evaluate noop_Redact
proof unfold_locales
  fix e :: AuditEvent and t
  show "subseq (map atr_Name (aer_Triggered (noop_Evaluate e))) (aer_Evaluated (noop_Evaluate e))"
    by (simp add: noop_Evaluate_def)
  show "\<exists>v b. noop_Redact e t = e\<lparr>ev_Arguments := v, ev_Redacted := b\<rparr>"
    by (rule exI [of _ "ev_Arguments e"], rule exI [of _ "ev_Redacted e"]) (simp add: noop_Redact_def)
qed

section \<open>The gate\<close>

text \<open>A nil slice (an absent member of the request) is \<open>None\<close>; it is written as \<open>null\<close>.\<close>

record GateTargets =
  gt_Argv :: "string list option"
  gt_Paths :: "string list option"
  gt_PathMode :: string

record GateEvaluateParams =
  gp_AgentID :: string
  gp_ToolName :: string
  gp_ToolCategory :: string
  gp_ToolEffect :: string
  gp_Targets :: GateTargets

record GateEvaluateResult =
  gr_GateEventID :: string
  gr_Decision :: string
  gr_CommandmentID :: string
  gr_Reason :: string
  gr_Enforcement :: string

definition json_slice :: "string list option \<Rightarrow> json" where
  "json_slice xs = (case xs of None \<Rightarrow> JNull | Some ys \<Rightarrow> JArr (map JStr ys))"

definition targetsJSON :: "GateTargets \<Rightarrow> string" where
  "targetsJSON t =
     json_print (json_map
       [(''argv'', json_slice (gt_Argv t)),
        (''command'', JStr (join (case gt_Argv t of None \<Rightarrow> [] | Some a \<Rightarrow> a) '' '')),
        (''paths'', json_slice (gt_Paths t)),
        (''path_mode'', JStr (gt_PathMode t))])"

definition gate_event :: "string \<Rightarrow> time \<Rightarrow> GateEvaluateParams \<Rightarrow> AuditEvent" where
  "gate_event eventID now params =
     zero_event\<lparr>ev_ID := eventID, ev_Timestamp := now, ev_AgentID := gp_AgentID params,
       ev_ActionType := ActionToolCall, ev_Action := gp_ToolName params, ev_ToolName := gp_ToolName params,
       ev_ToolCategory := gp_ToolCategory params, ev_ToolEffect := gp_ToolEffect params,
       ev_Arguments := targetsJSON (gp_Targets params), ev_AdapterID := ''gate'', ev_AdapterType := ''gate''\<rparr>"

text \<open>The loop over the triggered rules, up to the first that blocks.\<close>

fun gate_decide :: "string \<Rightarrow> AuditEvent \<Rightarrow> AuditTriggeredRule list \<Rightarrow> GateEvaluateResult \<times> AuditEvent list" where
  "gate_decide eventID e [] =
     (\<lparr>gr_GateEventID = eventID, gr_Decision = ''pass'', gr_CommandmentID = [], gr_Reason = [], gr_Enforcement = []\<rparr>, [])"
| "gate_decide eventID e (triggered # rest) =
     (if equal_fold (atr_Enforcement triggered) ''block'' then
        (\<lparr>gr_GateEventID = eventID, gr_Decision = ''block'', gr_CommandmentID = atr_Name triggered,
          gr_Reason = atr_Message triggered, gr_Enforcement = ''block''\<rparr>,
         [e\<lparr>ev_Outcome := OutcomeBlocked\<rparr>])
      else gate_decide eventID e rest)"

text \<open>The handler: its answer, and the events it emits.\<close>

definition gate_evaluate ::
  "(string \<Rightarrow> error + GateEvaluateParams) \<Rightarrow> Evaluator \<Rightarrow> string \<Rightarrow> time \<Rightarrow> string \<Rightarrow>
   (error + GateEvaluateResult) \<times> AuditEvent list" where
  "gate_evaluate unmarshal evaluate eventID now raw =
     (case unmarshal raw of
        Inl err \<Rightarrow> (Err err, [])
      | Inr params \<Rightarrow>
          (let e = gate_event eventID now params in
           case gate_decide eventID e (aer_Triggered (evaluate e)) of (res, emitted) \<Rightarrow> (Ok res, emitted)))"

definition blocks :: "AuditTriggeredRule \<Rightarrow> bool" where
  "blocks r = equal_fold (atr_Enforcement r) ''block''"

lemma gate_decide_find:
  "gate_decide i e rs =
     (case List.find blocks rs of
        Some r \<Rightarrow> (\<lparr>gr_GateEventID = i, gr_Decision = ''block'', gr_CommandmentID = atr_Name r,
          gr_Reason = atr_Message r, gr_Enforcement = ''block''\<rparr>, [e\<lparr>ev_Outcome := OutcomeBlocked\<rparr>])
      | None \<Rightarrow> (\<lparr>gr_GateEventID = i, gr_Decision = ''pass'', gr_CommandmentID = [], gr_Reason = [], gr_Enforcement = []\<rparr>, []))"
  by (induction rs) (auto simp: blocks_def)

text \<open>C6: The gate blocks exactly what the rules block. For a compiled rule file, a well-formed request is
  refused if and only if an enabled rule with enforcement \<open>block\<close> holds of the event the
  request describes; the answer names the first such rule in evaluation order; exactly then
  one event is emitted, blocked, and the audit logger keeps it blocked whatever the rules.\<close>

theorem gate_blocks_iff:
  assumes "compileRules L rules = Inr compiled" "\<forall>r \<in> set rules. map_ok r" "unmarshal raw = Inr params"
    and "svc_engine svc = e\<lparr>en_rules := compiled\<rparr>"
  shows "let evt = gate_event i now params;
      blocking = filter (\<lambda>r. IsEnabled r \<and> rule_holds L r evt \<and> equal_fold (c_Enforcement r) ''block'') (sort_key rule_key rules)
    in case gate_evaluate unmarshal (svc_Evaluate L svc) i now raw of (res, emitted) \<Rightarrow>
      (case blocking of
         [] \<Rightarrow> emitted = [] \<and> map_sum id gr_Decision res = Inr ''pass''
       | r # _ \<Rightarrow> emitted = [evt\<lparr>ev_Outcome := OutcomeBlocked\<rparr>] \<and>
           res = Inr \<lparr>gr_GateEventID = i, gr_Decision = ''block'', gr_CommandmentID = c_Name r,
             gr_Reason = c_Message r, gr_Enforcement = ''block''\<rparr> \<and>
           map (\<lambda>x. ev_Outcome (judge (Some (svc_Evaluate L svc)) (Some (svc_Redact L svc)) x)) emitted = [OutcomeBlocked])"
proof -
  let ?evt = "gate_event i now params"
  let ?audit = "\<lambda>r. \<lparr>atr_Name = tr_Name r, atr_Enforcement = tr_Enforcement r, atr_Message = tr_Message r\<rparr>"
  let ?hold = "filter (\<lambda>r. IsEnabled r \<and> rule_holds L r ?evt) (sort_key rule_key rules)"
  let ?blocking = "filter (\<lambda>r. IsEnabled r \<and> rule_holds L r ?evt \<and> equal_fold (c_Enforcement r) ''block'') (sort_key rule_key rules)"
  have trig: "aer_Triggered (svc_Evaluate L svc ?evt) = map (?audit \<circ> triggered_of) ?hold"
    using Evaluate_policy [OF assms(1,2), of e ?evt] by (simp add: svc_Evaluate_def assms(4))
  have find: "List.find P (map f xs) = map_option f (List.find (P \<circ> f) xs)" for P and f :: "'x \<Rightarrow> 'y" and xs
    by (induction xs) auto
  have first: "List.find P xs = (case filter P xs of [] \<Rightarrow> None | x # _ \<Rightarrow> Some x)" for P and xs :: "'x list"
    by (induction xs) auto
  have "filter (blocks \<circ> (?audit \<circ> triggered_of)) ?hold = ?blocking"
    by (auto simp: blocks_def triggered_of_def o_def conj_ac intro!: filter_cong)
  then have "List.find blocks (aer_Triggered (svc_Evaluate L svc ?evt)) =
      map_option (?audit \<circ> triggered_of) (case ?blocking of [] \<Rightarrow> None | r # _ \<Rightarrow> Some r)"
    unfolding trig by (subst find) (simp add: first)
  then show ?thesis
    using service.judge_blocked [of "?evt\<lparr>ev_Outcome := OutcomeBlocked\<rparr>" L svc]
    by (simp add: gate_evaluate_def assms(3) Let_def gate_decide_find triggered_of_def split: list.splits)
qed

definition sample_gate_params :: GateEvaluateParams where
  "sample_gate_params = \<lparr>gp_AgentID = ''proxy'', gp_ToolName = ''Bash'', gp_ToolCategory = [], gp_ToolEffect = [],
     gp_Targets = \<lparr>gt_Argv = None, gt_Paths = None, gt_PathMode = []\<rparr>\<rparr>"

theorem gate_blocks_iff_witness:
  "\<exists>compiled. compileRules sample_lib [sample_rule ''no-bash'' 5] = Inr compiled \<and>
     gate_evaluate (\<lambda>_. Inr sample_gate_params)
       (svc_Evaluate sample_lib \<lparr>svc_engine = \<lparr>en_rules = compiled, en_path = [], en_fallbackYAML = []\<rparr>,
          svc_redactor = NewRedactor, svc_path = []\<rparr>) ''g1'' 0 ''{}'' =
     (Inr \<lparr>gr_GateEventID = ''g1'', gr_Decision = ''block'', gr_CommandmentID = ''no-bash'', gr_Reason = [],
        gr_Enforcement = ''block''\<rparr>, [(gate_event ''g1'' 0 sample_gate_params)\<lparr>ev_Outcome := OutcomeBlocked\<rparr>])"
proof -
  let ?rs = "[sample_rule ''no-bash'' 5]"
  obtain compiled where c: "compileRules sample_lib ?rs = Inr compiled" using compile_sample_rule by blast
  have m: "\<forall>r \<in> set ?rs. map_ok r" by (simp add: map_ok_def sample_rule_def)
  have "rule_holds sample_lib (sample_rule ''no-bash'' 5) (gate_event ''g1'' 0 sample_gate_params)"
    by (simp add: sample_rule_def rule_holds_def field_holds_def eventFieldValue_def nonempty_field_def
        sample_condition_def spec_holds_def gate_event_def sample_gate_params_def)
  moreover have "IsEnabled (sample_rule ''no-bash'' 5)" "equal_fold (c_Enforcement (sample_rule ''no-bash'' 5)) ''block''"
    "c_Name (sample_rule ''no-bash'' 5) = ''no-bash''" "c_Message (sample_rule ''no-bash'' 5) = []"
    by (simp_all add: sample_rule_def IsEnabled_def equal_fold_def)
  ultimately show ?thesis
    using gate_blocks_iff [OF c m, of "\<lambda>_. Inr sample_gate_params" "''{}''" sample_gate_params
        "\<lparr>svc_engine = \<lparr>en_rules = compiled, en_path = [], en_fallbackYAML = []\<rparr>, svc_redactor = NewRedactor, svc_path = []\<rparr>"
        "\<lparr>en_rules = [], en_path = [], en_fallbackYAML = []\<rparr>" "''g1''" 0] c
    by (auto simp: Let_def)
qed

end
