(* ===== verification/OpenClaw.thy ===== *)
theory OpenClaw
  imports Audit_Event Go_Json "HOL-Library.AList" "HOL-Library.Product_Lexorder"
begin

text \<open>
  The OpenClaw observer: \<open>internal/openclawstate\<close>, which remembers the recent chats and
  attributes a proxy request to the one that fits it best, and of
  \<open>internal/adapter/openclaw\<close> the session cache, the event mapper and the adapter's handlers.
  A duration is an \<open>int\<close> within 64 bits: \<open>Sub\<close> saturates and negation wraps. Maps that are
  ranged over are association lists. The gateway connection (\<open>client.go\<close>, a websocket) and
  the frame decoder are not modelled.
\<close>

section \<open>Durations\<close>

definition absDuration :: "duration \<Rightarrow> duration" where
  "absDuration d = (if d < 0 then (if d = - (2 ^ 63) then d else - d) else d)"

definition unix_milli :: "int64 \<Rightarrow> time" where
  "unix_milli ms = sint ms * 1000000"

section \<open>The state\<close>

definition maxRecentChats :: nat where "maxRecentChats = 256"

record SessionMeta =
  sm_SessionKey :: string
  sm_AgentID :: string
  sm_ParentSession :: string
  sm_Model :: string
  sm_ThinkingLevel :: string
  sm_LastActivity :: time

definition zero_meta :: SessionMeta where
  "zero_meta = \<lparr>sm_SessionKey = [], sm_AgentID = [], sm_ParentSession = [], sm_Model = [], sm_ThinkingLevel = [],
     sm_LastActivity = zero_time\<rparr>"

record RecentChat =
  rc_RunID :: string
  rc_SessionKey :: string
  rc_Provider :: string
  rc_Model :: string
  rc_Timestamp :: time

record MatchResult =
  mr_AgentID :: string
  mr_SessionKey :: string
  mr_ParentSession :: string
  mr_RunID :: string
  mr_Provider :: string
  mr_Model :: string
  mr_ThinkingLevel :: string

record ClawState =
  cs_correlationWindow :: duration
  cs_sessions :: "string \<rightharpoonup> SessionMeta"
  cs_runs :: "string \<rightharpoonup> string"
  cs_chats :: "RecentChat list"
  cs_matches :: "64 word"
  cs_ambiguous :: "64 word"

definition claw_New :: "duration \<Rightarrow> ClawState" where
  "claw_New w = \<lparr>cs_correlationWindow = w, cs_sessions = Map.empty, cs_runs = Map.empty, cs_chats = [],
     cs_matches = 0, cs_ambiguous = 0\<rparr>"

definition RecordSession :: "ClawState \<Rightarrow> SessionMeta \<Rightarrow> ClawState" where
  "RecordSession s meta = s\<lparr>cs_sessions := (cs_sessions s)(sm_SessionKey meta \<mapsto> meta)\<rparr>"

definition RecordRun :: "ClawState \<Rightarrow> string \<Rightarrow> string \<Rightarrow> ClawState" where
  "RecordRun s runID sessionKey = s\<lparr>cs_runs := (cs_runs s)(runID \<mapsto> sessionKey)\<rparr>"

definition RecordChat :: "ClawState \<Rightarrow> string \<Rightarrow> string \<Rightarrow> string \<Rightarrow> string \<Rightarrow> time \<Rightarrow> ClawState" where
  "RecordChat s runID sessionKey provider model ts =
     (let s = (if runID \<noteq> [] then s\<lparr>cs_runs := (cs_runs s)(runID \<mapsto> sessionKey)\<rparr> else s);
          chats = cs_chats s @ [\<lparr>rc_RunID = runID, rc_SessionKey = sessionKey, rc_Provider = provider,
                                 rc_Model = model, rc_Timestamp = ts\<rparr>]
      in s\<lparr>cs_chats := (if length chats > maxRecentChats then drop (length chats - maxRecentChats) chats else chats)\<rparr>)"

text \<open>The loop over the chats: the best one so far with its score and distance, and whether another ties with it.\<close>

definition chat_delta :: "time \<Rightarrow> RecentChat \<Rightarrow> duration" where
  "chat_delta ts chat = absDuration (time_sub ts (rc_Timestamp chat))"

definition chat_score :: "string \<Rightarrow> string \<Rightarrow> RecentChat \<Rightarrow> int" where
  "chat_score provider model chat =
     (if provider \<noteq> [] \<and> rc_Provider chat = provider then 2 else 0) +
     (if model \<noteq> [] \<and> rc_Model chat = model then 1 else 0)"

definition match_step ::
  "duration \<Rightarrow> time \<Rightarrow> string \<Rightarrow> string \<Rightarrow> RecentChat \<Rightarrow>
   (RecentChat \<times> int \<times> duration) option \<times> bool \<Rightarrow> (RecentChat \<times> int \<times> duration) option \<times> bool" where
  "match_step window ts provider model chat st =
     (let delta = chat_delta ts chat; score = chat_score provider model chat
      in if delta > window then st
         else case st of
           (None, ambiguous) \<Rightarrow> (Some (chat, score, delta), False)
         | (Some (best, bestScore, bestDelta), ambiguous) \<Rightarrow>
             (if score > bestScore \<or> (score = bestScore \<and> delta < bestDelta) then (Some (chat, score, delta), False)
              else if score = bestScore \<and> delta = bestDelta then (Some (best, bestScore, bestDelta), True)
              else st))"

definition firstNonEmpty :: "string list \<Rightarrow> string" where
  "firstNonEmpty values = (case filter (\<lambda>v. v \<noteq> []) values of [] \<Rightarrow> [] | v # _ \<Rightarrow> v)"

definition MatchProxyRequest ::
  "ClawState \<Rightarrow> time \<Rightarrow> string \<Rightarrow> string \<Rightarrow> MatchResult option \<times> ClawState" where
  "MatchProxyRequest s ts provider model =
     (case fold (match_step (cs_correlationWindow s) ts provider model) (cs_chats s) (None, False) of
        (None, ambiguous) \<Rightarrow> (None, if ambiguous then s\<lparr>cs_ambiguous := cs_ambiguous s + 1\<rparr> else s)
      | (Some (chat, _, _), True) \<Rightarrow> (None, s\<lparr>cs_ambiguous := cs_ambiguous s + 1\<rparr>)
      | (Some (chat, _, _), False) \<Rightarrow>
          (let meta = (case cs_sessions s (rc_SessionKey chat) of Some m \<Rightarrow> m | None \<Rightarrow> zero_meta)
           in (Some \<lparr>mr_AgentID = ''openclaw'', mr_SessionKey = rc_SessionKey chat,
                     mr_ParentSession = sm_ParentSession meta, mr_RunID = rc_RunID chat, mr_Provider = rc_Provider chat,
                     mr_Model = firstNonEmpty [rc_Model chat, sm_Model meta], mr_ThinkingLevel = sm_ThinkingLevel meta\<rparr>,
               s\<lparr>cs_matches := cs_matches s + 1\<rparr>)))"

section \<open>Correlation\<close>

text \<open>How well a chat fits: the score first, then the distance in time.\<close>

definition fit :: "time \<Rightarrow> string \<Rightarrow> string \<Rightarrow> RecentChat \<Rightarrow> int \<times> int" where
  "fit ts provider model chat = (chat_score provider model chat, - chat_delta ts chat)"

definition in_window :: "ClawState \<Rightarrow> time \<Rightarrow> RecentChat list" where
  "in_window s ts = filter (\<lambda>c. chat_delta ts c \<le> cs_correlationWindow s) (cs_chats s)"

text \<open>The candidates that no other beats.\<close>

definition fittest :: "('a \<Rightarrow> 'k::linorder) \<Rightarrow> 'a list \<Rightarrow> 'a list" where
  "fittest k xs = filter (\<lambda>x. list_all (\<lambda>y. k y \<le> k x) xs) xs"

lemma fittest_snoc:
  assumes "fittest k xs = b # bs"
  shows "fittest k (xs @ [x]) = (if k x < k b then b # bs else if k x = k b then b # bs @ [x] else [x])"
proof -
  have mem: "z \<in> set (b # bs) \<longleftrightarrow> z \<in> set xs \<and> list_all (\<lambda>y. k y \<le> k z) xs" for z
    using assms [symmetric] by (simp add: fittest_def)
  have b: "b \<in> set xs" "list_all (\<lambda>y. k y \<le> k b) xs" using mem [of b] by auto
  have all: "list_all (\<lambda>y. k y \<le> k z) xs \<longleftrightarrow> k b \<le> k z" if "z \<in> set xs" for z
    using b that by (auto simp: list_all_iff intro: order_trans)
  have filt: "filter (\<lambda>z. k b \<le> k z) xs = b # bs"
    unfolding assms [symmetric] fittest_def by (rule filter_cong) (simp_all add: all)
  have le: "k z \<le> k b" if "z \<in> set xs" for z using b that by (simp add: list_all_iff)
  have "fittest k (xs @ [x]) = filter (\<lambda>z. k b \<le> k z \<and> k x \<le> k z) xs @ (if k b \<le> k x then [x] else [])"
    using b all by (auto simp: fittest_def list_all_iff intro!: filter_cong intro: order_trans)
  also have "filter (\<lambda>z. k b \<le> k z \<and> k x \<le> k z) xs = (if k x \<le> k b then b # bs else [])"
  proof (cases "k x \<le> k b")
    case True
    then have "filter (\<lambda>z. k b \<le> k z \<and> k x \<le> k z) xs = filter (\<lambda>z. k b \<le> k z) xs" by (intro filter_cong) auto
    with True filt show ?thesis by simp
  next
    case False
    with le show ?thesis by (auto simp: filter_empty_conv dest: order_trans)
  qed
  finally show ?thesis by auto
qed

lemma fittest_Nil_iff: "fittest k xs = [] \<longleftrightarrow> xs = []"
proof
  assume e: "fittest k xs = []"
  show "xs = []"
  proof (rule ccontr)
    assume "xs \<noteq> []"
    then have "Max (k ` set xs) \<in> k ` set xs" by simp
    then obtain x where x: "x \<in> set xs" "k x = Max (k ` set xs)" by auto
    then have "list_all (\<lambda>y. k y \<le> k x) xs" by (simp add: list_all_iff)
    with x e show False by (auto simp: fittest_def filter_empty_conv)
  qed
qed (simp add: fittest_def)

lemma match_fold:
  "fold (match_step w ts provider model) chats (None, False) =
     (let cands = fittest (fit ts provider model) (filter (\<lambda>c. chat_delta ts c \<le> w) chats)
      in case cands of
           [] \<Rightarrow> (None, False)
         | b # bs \<Rightarrow> (Some (b, chat_score provider model b, chat_delta ts b), bs \<noteq> []))"
proof (induction chats rule: rev_induct)
  case Nil
  then show ?case by (simp add: fittest_def)
next
  case (snoc c chats)
  let ?k = "fit ts provider model" let ?cs = "filter (\<lambda>c. chat_delta ts c \<le> w) chats"
  show ?case
  proof (cases "chat_delta ts c \<le> w")
    case False
    with snoc show ?thesis by (simp add: match_step_def Let_def)
  next
    case True
    show ?thesis
    proof (cases "fittest ?k ?cs")
      case Nil
      then have "?cs = []" by (simp add: fittest_Nil_iff)
      with Nil True snoc show ?thesis by (simp add: match_step_def Let_def fittest_def)
    next
      case (Cons b bs)
      have "?k c < ?k b \<longleftrightarrow> chat_score provider model c < chat_score provider model b \<or>
          (chat_score provider model c = chat_score provider model b \<and> chat_delta ts b < chat_delta ts c)"
        "?k c = ?k b \<longleftrightarrow> chat_score provider model c = chat_score provider model b \<and> chat_delta ts b = chat_delta ts c"
        by (auto simp: fit_def less_prod_def')
      with Cons True snoc fittest_snoc [OF Cons, of c] show ?thesis
        by (auto simp: match_step_def Let_def)
    qed
  qed
qed

text \<open>Attribution is unique or refused. A proxy request is attributed to a chat exactly when one chat in
  the correlation window fits it better than every other one (provider before model before
  distance in time); a tie for the best fit is counted as ambiguous and attributed to none,
  and the result carries the chat's session with the session's parent and thinking level.\<close>

theorem MatchProxyRequest_unique_best:
  "case MatchProxyRequest s ts provider model of (res, s') \<Rightarrow>
     (case fittest (fit ts provider model) (in_window s ts) of
        [] \<Rightarrow> res = None \<and> s' = s
      | [chat] \<Rightarrow> s' = s\<lparr>cs_matches := cs_matches s + 1\<rparr> \<and>
          (\<exists>m. res = Some m \<and> mr_SessionKey m = rc_SessionKey chat \<and> mr_RunID m = rc_RunID chat \<and>
             mr_Provider m = rc_Provider chat \<and>
             (mr_ParentSession m, mr_ThinkingLevel m) =
               (case cs_sessions s (rc_SessionKey chat) of
                  None \<Rightarrow> ([], []) | Some meta \<Rightarrow> (sm_ParentSession meta, sm_ThinkingLevel meta)))
      | _ # _ # _ \<Rightarrow> res = None \<and> s' = s\<lparr>cs_ambiguous := cs_ambiguous s + 1\<rparr>)"
  unfolding MatchProxyRequest_def match_fold in_window_def
  by (auto simp: Let_def zero_meta_def split: list.splits option.splits)

text \<open>The memory is bounded and keeps the latest chats.\<close>

lemma RecordChat_chats:
  "length (cs_chats s) \<le> maxRecentChats \<Longrightarrow>
     length (cs_chats (RecordChat s r k p m t)) \<le> maxRecentChats \<and> rc_RunID (last (cs_chats (RecordChat s r k p m t))) = r"
  by (auto simp: RecordChat_def Let_def maxRecentChats_def)

end
