(* ===== verification/Proxy.thy ===== *)
theory Proxy
  imports Proxy_Routing Proxy_Stream Commandments_Service OpenClaw
begin

text \<open>
  \<open>internal/adapter/proxy/proxy.go\<close>: the proxy's state and its handler. \<open>handleProxy\<close> is a
  function from the proxy, the response writer and a request to the proxy and the writer
  afterwards; what it does to the world (requests sent upstream, events put on the channel,
  raw payloads written) is kept in the proxy's state as lists. The libraries are the record
  \<open>ProxyLib\<close>; what one run of the handler gets from outside (its identifiers, the clock, the
  upstream's answer, a failed write) is the record \<open>Io\<close>. The telemetry span is not modelled.
\<close>

section \<open>State\<close>

record ProxyConfig =
  pxc_Listen :: string
  pxc_DefaultProvider :: string
  pxc_UpstreamTimeout :: duration
  pxc_StreamIdleTimeout :: duration
  pxc_StreamMaxBuffer :: int
  pxc_MaxRequestBody :: int
  pxc_RedactEgressDefault :: bool
  pxc_CACert :: string
  pxc_CAKey :: string
  pxc_MappingsDir :: string
  pxc_MappingStrictMode :: bool
  pxc_Providers :: "(string \<times> ProviderConfig) list"
  pxc_Pricing :: "(string \<times> Pricing) list"
  pxc_RedactPatterns :: "string list"

record Metrics =
  mx_ActiveConnections :: "64 word"
  mx_TotalRequests :: "64 word"
  mx_TotalBlocked :: "64 word"
  mx_UpstreamErrors :: "64 word"
  mx_MappingDegraded :: "64 word"

record UpRequest =
  uq_Method :: string
  uq_URL :: string
  uq_Header :: Header
  uq_Body :: string

text \<open>An upstream's answer: \<open>ur_body\<close> and \<open>ur_readErr\<close> are what \<open>ReadAll\<close> gives, \<open>ur_msgs\<close> what the
  reader of a stream delivers.\<close>

record UpResponse =
  ur_StatusCode :: int
  ur_Header :: Header
  ur_body :: string
  ur_readErr :: "error option"
  ur_msgs :: "StreamMsg list"

record Proxy =
  px_cfg :: ProxyConfig
  px_evaluator :: "Evaluator option"
  px_classifier :: Registry
  px_attributor :: "ClawState option"
  px_router :: Router
  px_providers :: Providers
  px_metrics :: Metrics
  px_rawPayloads :: "(string \<Rightarrow> string \<Rightarrow> error + string) option"
  px_extraRedactREs :: "string list"
  px_events :: "AuditEvent list option"
  px_forwarded :: "UpRequest list"
  px_written :: "(string \<times> string) list"

record ProxyLib =
  pl_Lib :: Lib
  pl_Json :: JsonLib
  pl_Gjson :: Gjson
  pl_Float :: FloatOps
  pl_glob :: "string \<Rightarrow> string \<Rightarrow> error + bool"
  pl_path_match :: "string \<Rightarrow> string \<Rightarrow> error + bool"
  pl_url_parse :: "string \<Rightarrow> error + Url"
  pl_url_string :: "Url \<Rightarrow> string"
  pl_new_request :: "string \<Rightarrow> string \<Rightarrow> error option"
  pl_getenv :: "string \<Rightarrow> string"
  pl_load :: "string \<Rightarrow> error + Spec"

record Io =
  io_eventID :: string
  io_start :: time
  io_forward :: "UpRequest \<Rightarrow> error + UpResponse"
  io_now :: "nat \<Rightarrow> time"
  io_write_error :: "error option"
  io_block_id :: "nat \<Rightarrow> string"
  io_block_time :: "nat \<Rightarrow> time"

record Request =
  rq_Method :: string
  rq_Path :: string
  rq_RawQuery :: string
  rq_Header :: Header
  rq_Body :: "error + string"

section \<open>The response writer\<close>

text \<open>The headers are sent with the first status; later ones are ignored.\<close>

record Writer =
  rw_Header :: Header
  rw_sent :: Header
  rw_status :: "int option"
  rw_body :: string

definition new_writer :: Writer where
  "new_writer = \<lparr>rw_Header = [], rw_sent = [], rw_status = None, rw_body = []\<rparr>"

definition SetHeader :: "string \<Rightarrow> string \<Rightarrow> Writer \<Rightarrow> Writer" where
  "SetHeader key v w = w\<lparr>rw_Header := hdr_set key v (rw_Header w)\<rparr>"

definition WriteHeader :: "int \<Rightarrow> Writer \<Rightarrow> Writer" where
  "WriteHeader status w = (if rw_status w = None then w\<lparr>rw_status := Some status, rw_sent := rw_Header w\<rparr> else w)"

definition WriteBody :: "string \<Rightarrow> Writer \<Rightarrow> Writer" where
  "WriteBody b w = (WriteHeader 200 w)\<lparr>rw_body := rw_body (WriteHeader 200 w) @ b\<rparr>"

definition error_body :: "string \<Rightarrow> string \<Rightarrow> string \<Rightarrow> string" where
  "error_body errType message requestID =
     json_print (json_map [(''error'', json_map [(''type'', JStr errType), (''message'', JStr message)]),
       (''request_id'', JStr requestID)]) @ [CHR 0x0A]"

definition writeProxyError :: "Writer \<Rightarrow> int \<Rightarrow> string \<Rightarrow> string \<Rightarrow> string \<Rightarrow> Writer" where
  "writeProxyError w status errType message requestID =
     (let w = SetHeader ''Content-Type'' ''application/json'' w;
          w = (if requestID \<noteq> [] then SetHeader ''X-Request-ID'' requestID w else w)
      in WriteBody (error_body errType message requestID) (WriteHeader status w))"

section \<open>Counting and emitting\<close>

definition count_active :: "64 word \<Rightarrow> Proxy \<Rightarrow> Proxy" where
  "count_active n p = p\<lparr>px_metrics := (px_metrics p)\<lparr>mx_ActiveConnections := mx_ActiveConnections (px_metrics p) + n\<rparr>\<rparr>"

definition count_request :: "Proxy \<Rightarrow> Proxy" where
  "count_request p = p\<lparr>px_metrics := (px_metrics p)\<lparr>mx_TotalRequests := mx_TotalRequests (px_metrics p) + 1\<rparr>\<rparr>"

definition count_blocked :: "Proxy \<Rightarrow> Proxy" where
  "count_blocked p = p\<lparr>px_metrics := (px_metrics p)\<lparr>mx_TotalBlocked := mx_TotalBlocked (px_metrics p) + 1\<rparr>\<rparr>"

definition count_upstream_error :: "Proxy \<Rightarrow> Proxy" where
  "count_upstream_error p = p\<lparr>px_metrics := (px_metrics p)\<lparr>mx_UpstreamErrors := mx_UpstreamErrors (px_metrics p) + 1\<rparr>\<rparr>"

definition count_degraded :: "Proxy \<Rightarrow> Proxy" where
  "count_degraded p = p\<lparr>px_metrics := (px_metrics p)\<lparr>mx_MappingDegraded := mx_MappingDegraded (px_metrics p) + 1\<rparr>\<rparr>"

definition emit :: "AuditEvent \<Rightarrow> Proxy \<Rightarrow> Proxy" where
  "emit e p = p\<lparr>px_events := map_option (\<lambda>es. es @ [e]) (px_events p)\<rparr>"

definition maybeWriteRawPayload :: "AuditEvent \<Rightarrow> string \<Rightarrow> Proxy \<Rightarrow> AuditEvent \<times> Proxy" where
  "maybeWriteRawPayload e body p =
     (case px_rawPayloads p of
        None \<Rightarrow> (e, p)
      | Some write \<Rightarrow>
          (if body = [] then (e, p)
           else let p = p\<lparr>px_written := px_written p @ [(ev_ID e, body)]\<rparr>
                in case write (ev_ID e) body of
                     Inl err \<Rightarrow> (e, p)
                   | Inr ref \<Rightarrow> (if ref \<noteq> [] then e\<lparr>ev_RawPayloadRef := ref\<rparr> else e, p)))"

text \<open>
  The arguments of an event built here are empty or an object, so decoding them neither fails
  nor gives null; no number is among the members that are decoded and written again.
\<close>

definition appendArgumentMetadata :: "JsonLib \<Rightarrow> (string \<times> json) list \<Rightarrow> AuditEvent \<Rightarrow> AuditEvent" where
  "appendArgumentMetadata J kv e =
     (if kv = [] then e
      else
        let existing = (if trim_space (ev_Arguments e) \<noteq> []
              then (case js_decode J (ev_Arguments e) of Some (JObj m) \<Rightarrow> m | _ \<Rightarrow> []) else []);
            existing = fold (\<lambda>(k, v) m. AList.update k v m) kv existing
        in e\<lparr>ev_Arguments := json_print (json_map existing)\<rparr>)"

section \<open>Requests\<close>

definition readRequestBody :: "ProxyConfig \<Rightarrow> Request \<Rightarrow> error + string" where
  "readRequestBody cfg r =
     bind_result (rq_Body r) (\<lambda>body.
       if int (length body) > max 0 (pxc_MaxRequestBody cfg) then Err ''http: request body too large'' else Ok body)"

text \<open>The loop that classifies the tools; the registry counts what it cannot classify.\<close>

fun classify_tools ::
  "ProxyLib \<Rightarrow> string \<Rightarrow> NormalizedTool list \<Rightarrow> Registry \<Rightarrow> NormalizedTool list \<times> Registry" where
  "classify_tools L provider [] cls = ([], cls)"
| "classify_tools L provider (tool # tools) cls =
     (let argKeys = ExtractArgKeys (js_decode (pl_Json L)) (nt_RawArgs tool);
          (result, cls) = Classify (pl_glob L) cls provider (nt_Name tool) argKeys;
          (rest, cls) = classify_tools L provider tools cls
      in (tool\<lparr>nt_ArgKeys := argKeys, nt_Category := cl_Category result, nt_Effect := cl_Effect result,
              nt_TaxonomyVersion := cl_TaxonomyVersion result,
              nt_ClassificationSource := cl_ClassificationSource result\<rparr> # rest, cls))"

definition normalizeRequest ::
  "ProxyLib \<Rightarrow> ProviderRuntime \<Rightarrow> string \<Rightarrow> string \<Rightarrow> string \<Rightarrow> Proxy \<Rightarrow>
   NormalizedRequest \<times> bool \<times> error option \<times> Proxy" where
  "normalizeRequest L runtime provider endpoint body p =
     (case NormalizeRequest (pl_Gjson L) (prt_Mapping runtime) provider endpoint body of
        Inl err \<Rightarrow>
          (\<lparr>nrq_Provider = provider, nrq_Endpoint = endpoint, nrq_Model = [], nrq_Stream = False, nrq_Tools = [],
            nrq_InputSummary = [], nrq_MappingDegraded = True\<rparr>, True, Some err, p)
      | Inr normalized \<Rightarrow>
          (case classify_tools L provider (nrq_Tools normalized) (px_classifier p) of
             (tools, cls) \<Rightarrow> (normalized\<lparr>nrq_Tools := tools\<rparr>, False, None, p\<lparr>px_classifier := cls\<rparr>)))"

definition attribute_event :: "JsonLib \<Rightarrow> MatchResult \<Rightarrow> AuditEvent \<Rightarrow> AuditEvent" where
  "attribute_event J m e =
     (let confidence = (if mr_SessionKey m = [] then ''low'' else ''high'');
          e = (if mr_AgentID m \<noteq> [] then e\<lparr>ev_AgentID := mr_AgentID m\<rparr> else e);
          e = e\<lparr>ev_SessionID := mr_SessionKey m, ev_ParentSessionID := mr_ParentSession m\<rparr>;
          e = (if ev_Model e = [] \<and> mr_Model m \<noteq> [] then e\<lparr>ev_Model := mr_Model m\<rparr> else e)
      in appendArgumentMetadata J
           [(''openclaw.run_id'', JStr (mr_RunID m)), (''openclaw.session_key'', JStr (mr_SessionKey m)),
            (''openclaw.agent_id'', JStr (mr_AgentID m)), (''openclaw.thinking_level'', JStr (mr_ThinkingLevel m)),
            (''openclaw.correlation_confidence'', JStr confidence)] e)"

definition tools_summary :: "NormalizedTool list \<Rightarrow> json" where
  "tools_summary tools = JArr (map (\<lambda>t. json_map
     [(''name'', JStr (nt_Name t)), (''category'', JStr (nt_Category t)), (''effect'', JStr (nt_Effect t))]) tools)"

definition proxy_event :: "string \<Rightarrow> time \<Rightarrow> string \<Rightarrow> NormalizedRequest \<Rightarrow> string \<Rightarrow> AuditEvent" where
  "proxy_event eventID ts provider req endpoint =
     zero_event\<lparr>ev_ID := eventID, ev_Timestamp := ts, ev_AgentID := ''proxy'', ev_ActionType := ActionAIRequest,
       ev_Action := endpointAction endpoint, ev_Outcome := OutcomeSuccess, ev_Provider := provider,
       ev_Model := nrq_Model req, ev_AdapterID := ''proxy'', ev_AdapterType := ''proxy''\<rparr>"

definition describe_tools :: "JsonLib \<Rightarrow> NormalizedTool list \<Rightarrow> AuditEvent \<Rightarrow> AuditEvent" where
  "describe_tools J tools e =
     (let e = (case tools of
             [] \<Rightarrow> e
           | first # _ \<Rightarrow> e\<lparr>ev_ToolName := nt_Name first, ev_ToolCategory := nt_Category first,
               ev_ToolEffect := nt_Effect first, ev_TaxonomyVersion := nt_TaxonomyVersion first,
               ev_ClassificationSource := nt_ClassificationSource first\<rparr>)
      in if length tools > 1 then appendArgumentMetadata J [(''tools'', tools_summary tools)] e else e)"

definition buildAuditEvent ::
  "ProxyLib \<Rightarrow> string \<Rightarrow> time \<Rightarrow> string \<Rightarrow> NormalizedRequest \<Rightarrow> string \<Rightarrow> Proxy \<Rightarrow> AuditEvent \<times> Proxy" where
  "buildAuditEvent L eventID ts provider req endpoint p =
     (let e = proxy_event eventID ts provider req endpoint;
          (e, p) = (case px_attributor p of
             None \<Rightarrow> (e, p)
           | Some st \<Rightarrow>
              (case MatchProxyRequest st ts provider (nrq_Model req) of
                 (None, st) \<Rightarrow> (e, p\<lparr>px_attributor := Some st\<rparr>)
               | (Some m, st) \<Rightarrow> (attribute_event (pl_Json L) m e, p\<lparr>px_attributor := Some st\<rparr>)))
      in (describe_tools (pl_Json L) (nrq_Tools req) e, p))"

definition shouldBlock :: "Evaluator option \<Rightarrow> AuditEvent \<Rightarrow> bool" where
  "shouldBlock eval event =
     (case eval of None \<Rightarrow> False | Some f \<Rightarrow> list_ex (\<lambda>t. equal_fold (atr_Enforcement t) ''block'') (aer_Triggered (f event)))"

definition copy_original_id :: "string \<Rightarrow> Writer \<Rightarrow> Writer" where
  "copy_original_id originalReqID w =
     (if originalReqID \<noteq> [] then SetHeader ''X-Crabwise-Original-Request-ID'' originalReqID w else w)"

definition buildUpstreamRequest ::
  "ProxyLib \<Rightarrow> Request \<Rightarrow> ProviderRuntime \<Rightarrow> string \<Rightarrow> string \<Rightarrow> error + UpRequest" where
  "buildUpstreamRequest L incoming runtime body requestID =
     bind_result (joinTargetURL (pl_url_parse L) (pl_url_string L) (pcf_UpstreamBaseURL (prt_Config runtime))
         (rq_Path incoming) (rq_RawQuery incoming)) (\<lambda>target.
       case pl_new_request L (rq_Method incoming) target of
         Some err \<Rightarrow> Err err
       | None \<Rightarrow>
           (let h = copyForwardHeaders [] (rq_Header incoming);
                h = hdr_set ''X-Request-ID'' requestID h;
                original = hdr_get (rq_Header incoming) ''X-Request-ID'';
                h = (if original \<noteq> [] then hdr_set ''X-Crabwise-Original-Request-ID'' original h else h)
            in Ok \<lparr>uq_Method = rq_Method incoming, uq_URL = target, uq_Header = h, uq_Body = body\<rparr>))"

section \<open>Tool calls of the answer\<close>

definition json_targets :: "ToolTargets \<Rightarrow> json" where
  "json_targets t = JObj [(''Argv'', json_slice (tt_Argv t)), (''Paths'', json_slice (tt_Paths t)),
     (''PathMode'', JStr (tt_PathMode t))]"

text \<open>The event of the \<open>n\<close>-th tool call, and the registry after classifying it.\<close>

definition tool_event ::
  "ProxyLib \<Rightarrow> Io \<Rightarrow> nat \<Rightarrow> string \<Rightarrow> string \<Rightarrow> Registry \<Rightarrow> ToolUseBlock \<Rightarrow> AuditEvent \<times> Registry" where
  "tool_event L io n provider model cls block =
     (let argKeys = ExtractArgKeys (js_decode (pl_Json L)) (tb_ToolInput block);
          (result, cls) = Classify (pl_glob L) cls provider (tb_ToolName block) argKeys;
          e = zero_event\<lparr>ev_ID := io_block_id io n, ev_Timestamp := io_block_time io n, ev_AgentID := ''proxy'',
            ev_ActionType := ActionToolCall, ev_Action := tb_ToolName block, ev_Provider := provider, ev_Model := model,
            ev_ToolName := tb_ToolName block, ev_ToolCategory := cl_Category result, ev_ToolEffect := cl_Effect result,
            ev_TaxonomyVersion := cl_TaxonomyVersion result, ev_ClassificationSource := cl_ClassificationSource result,
            ev_AdapterID := ''proxy'', ev_AdapterType := ''proxy''\<rparr>
      in (appendArgumentMetadata (pl_Json L)
            [(''tool_call_id'', JStr (tb_ID block)), (''tool_input'', JRaw (js_compact (pl_Json L) (tb_ToolInput block))),
             (''targets'', json_targets (tb_Targets block))] e, cls))"

fun evaluate_from ::
  "ProxyLib \<Rightarrow> Io \<Rightarrow> Evaluator \<Rightarrow> string \<Rightarrow> string \<Rightarrow> nat \<Rightarrow> ToolUseBlock list \<Rightarrow> Proxy \<Rightarrow> string option \<times> Proxy" where
  "evaluate_from L io f provider model n [] p = (None, p)"
| "evaluate_from L io f provider model n (block # rest) p =
     (case tool_event L io n provider model (px_classifier p) block of (e, cls) \<Rightarrow>
        (let p = p\<lparr>px_classifier := cls\<rparr> in
         case List.find blocks (aer_Triggered (f e)) of
           Some triggered \<Rightarrow> (Some (atr_Name triggered), emit (e\<lparr>ev_Outcome := OutcomeBlocked\<rparr>) p)
         | None \<Rightarrow> evaluate_from L io f provider model (Suc n) rest p))"

definition evaluateToolUseBlocks ::
  "ProxyLib \<Rightarrow> Io \<Rightarrow> ToolUseBlock list \<Rightarrow> string \<Rightarrow> string \<Rightarrow> Proxy \<Rightarrow> string option \<times> Proxy" where
  "evaluateToolUseBlocks L io bs provider model p =
     (case px_evaluator p of None \<Rightarrow> (None, p) | Some f \<Rightarrow> evaluate_from L io f provider model 0 bs p)"

section \<open>The handler\<close>

text \<open>The local variables that the stages of \<open>handleProxy\<close> share.\<close>

record Call =
  ca_request :: Request
  ca_runtime :: ProviderRuntime
  ca_provider :: string
  ca_normalized :: NormalizedRequest
  ca_degraded :: bool
  ca_body :: string

definition original_id :: "Call \<Rightarrow> string" where
  "original_id c = hdr_get (rq_Header (ca_request c)) ''X-Request-ID''"

definition sendUpstreamHeaders :: "Io \<Rightarrow> Call \<Rightarrow> UpResponse \<Rightarrow> int \<Rightarrow> Writer \<Rightarrow> Writer" where
  "sendUpstreamHeaders io c resp status w =
     WriteHeader status (copy_original_id (original_id c)
       (SetHeader ''X-Request-ID'' (io_eventID io) (w\<lparr>rw_Header := copyResponseHeaders (rw_Header w) (ur_Header resp)\<rparr>)))"

definition milliseconds :: "duration \<Rightarrow> int" where
  "milliseconds d = (if d < 0 then - (- d div 1000000) else d div 1000000)"

text \<open>From the normalized response to the event: the end of \<open>handleProxy\<close>.\<close>

definition response_metadata :: "Io \<Rightarrow> Call \<Rightarrow> UpResponse \<Rightarrow> NormalizedResponse \<Rightarrow> time \<Rightarrow> bool \<Rightarrow> (string \<times> json) list" where
  "response_metadata io c resp normResp firstTokenAt unknownModel =
     [(''request_id'', JStr (io_eventID io)), (''endpoint'', JStr (rq_Path (ca_request c))),
      (''upstream_status'', JNum (show_int (ur_StatusCode resp))), (''mapping_degraded'', JBool (nrs_MappingDegraded normResp))] @
     (if nrs_FinishReason normResp \<noteq> [] then [(''finish_reason'', JStr (nrs_FinishReason normResp))] else []) @
     (if nrs_ErrorType normResp \<noteq> []
      then [(''error_type'', JStr (normalizeErrorType (nrs_ErrorType normResp) (ur_StatusCode resp)))] else []) @
     (if nrs_ErrorMessage normResp \<noteq> [] then [(''error_message'', JStr (nrs_ErrorMessage normResp))] else []) @
     (if unknownModel then [(''cost_unknown_model'', JBool True)] else []) @
     (if firstTokenAt \<noteq> zero_time
      then [(''first_token_ms'', JNum (show_int (milliseconds (time_sub firstTokenAt (io_start io)))))] else [])"

definition finish ::
  "ProxyLib \<Rightarrow> Io \<Rightarrow> Call \<Rightarrow> AuditEvent \<Rightarrow> UpResponse \<Rightarrow> NormalizedResponse \<Rightarrow> time \<Rightarrow> Proxy \<Rightarrow> Proxy" where
  "finish L io c preflight resp normResp firstTokenAt p =
     (let e = (if nrs_Model normResp \<noteq> [] then preflight\<lparr>ev_Model := nrs_Model normResp\<rparr> else preflight);
          e = e\<lparr>ev_InputTokens := nrs_InputTokens normResp, ev_OutputTokens := nrs_OutputTokens normResp\<rparr>;
          costResult = ComputeCost (pl_Float L) (pxc_Pricing (px_cfg p)) (ev_Model e) (ev_InputTokens e) (ev_OutputTokens e);
          e = e\<lparr>ev_CostUSD := cst_CostUSD costResult\<rparr>;
          meta = response_metadata io c resp normResp firstTokenAt (cst_UnknownModel costResult);
          e = (if ur_StatusCode resp \<ge> 400 \<or> nrs_ErrorType normResp \<noteq> [] then e\<lparr>ev_Outcome := OutcomeFailure\<rparr>
               else if ev_Outcome e = [] then e\<lparr>ev_Outcome := OutcomeSuccess\<rparr> else e);
          e = appendArgumentMetadata (pl_Json L) meta e;
          (e, p) = maybeWriteRawPayload e (ca_body c) p
      in emit e p)"

text \<open>The answer to the client when a tool call is blocked.\<close>

definition block_response ::
  "ProxyLib \<Rightarrow> Io \<Rightarrow> AuditEvent \<Rightarrow> string \<Rightarrow> string \<Rightarrow> Proxy \<times> Writer \<Rightarrow> Proxy \<times> Writer" where
  "block_response L io preflight commandmentID enforcement pw =
     (emit (appendArgumentMetadata (pl_Json L)
         [(''blocked_commandment'', JStr commandmentID), (''enforcement'', JStr enforcement)]
         (preflight\<lparr>ev_Outcome := OutcomeBlocked\<rparr>)) (count_blocked (fst pw)),
      writeProxyError (snd pw) 403 ''policy_violation'' (''tool_use blocked by commandment: '' @ commandmentID) (io_eventID io))"

definition write_failed :: "error \<Rightarrow> NormalizedResponse \<Rightarrow> NormalizedResponse" where
  "write_failed err n = n\<lparr>nrs_ErrorType := ''write_error'', nrs_ErrorMessage := err\<rparr>"

text \<open>\<open>w.Write(body)\<close>: a failed write has begun the answer and is taken to have written nothing.\<close>

definition write_upstream :: "Io \<Rightarrow> string \<Rightarrow> Writer \<Rightarrow> Writer" where
  "write_upstream io body w = (case io_write_error io of None \<Rightarrow> WriteBody body w | Some _ \<Rightarrow> WriteHeader 200 w)"

definition respond_stream ::
  "ProxyLib \<Rightarrow> Io \<Rightarrow> Call \<Rightarrow> AuditEvent \<Rightarrow> UpResponse \<Rightarrow> NormalizedResponse \<Rightarrow> Proxy \<Rightarrow> Writer \<Rightarrow> Proxy \<times> Writer" where
  "respond_stream L io c preflight resp normResp p w =
     (let maxBuf = pxc_StreamMaxBuffer (px_cfg p);
          maxBuf = (if maxBuf \<le> 0 then defaultStreamMaxBytes else maxBuf)
      in case bufferSSEStream (pl_Json L) (ParseStreamEvent (pl_Json L)) maxBuf (io_now io) (ur_msgs resp) of
        Inl streamErr \<Rightarrow>
          (let (p, w) = (if contains streamErr ''stream buffer exceeded'' \<or> contains streamErr ''enforcement_error''
                 then (p, writeProxyError w 502 ''enforcement_error'' streamErr (io_eventID io))
                 else (count_upstream_error p, writeProxyError w 502 ''upstream_error'' streamErr (io_eventID io)))
           in (emit (preflight\<lparr>ev_Outcome := OutcomeFailure\<rparr>) p, w))
      | Inr buffered \<Rightarrow>
         (case evaluateToolUseBlocks L io (br_ToolBlocks buffered) (ca_provider c) (nrq_Model (ca_normalized c)) p of
            (Some commandmentID, p) \<Rightarrow> block_response L io preflight commandmentID ''response_side_stream'' (p, w)
          | (None, p) \<Rightarrow>
             (let w = write_upstream io (br_Body buffered) (sendUpstreamHeaders io c resp (ur_StatusCode resp) w);
                  (p, normResp) = (case io_write_error io of
                    None \<Rightarrow> (p, normResp) | Some err \<Rightarrow> (count_upstream_error p, write_failed err normResp));
                  tel = br_Telemetry buffered;
                  normResp = normResp\<lparr>nrs_InputTokens := tel_InputTokens tel, nrs_OutputTokens := tel_OutputTokens tel,
                    nrs_FinishReason := tel_FinishReason tel\<rparr>;
                  normResp = (if tel_Model tel \<noteq> [] then normResp\<lparr>nrs_Model := tel_Model tel\<rparr> else normResp)
              in (finish L io c preflight resp normResp (tel_FirstTokenAt tel) p, w))))"

text \<open>A whole body that was not blocked: it is mapped and passed on.\<close>

definition respond_body ::
  "ProxyLib \<Rightarrow> Io \<Rightarrow> Call \<Rightarrow> AuditEvent \<Rightarrow> UpResponse \<Rightarrow> NormalizedResponse \<Rightarrow> Proxy \<Rightarrow> Writer \<Rightarrow> Proxy \<times> Writer" where
  "respond_body L io c preflight resp normResp p w =
     (let respBody = ur_body resp;
          done = (\<lambda>normResp p w. (finish L io c preflight resp normResp zero_time p, w));
          sent = sendUpstreamHeaders io c resp (ur_StatusCode resp) w;
          failed = (\<lambda>n. case io_write_error io of None \<Rightarrow> n | Some err \<Rightarrow> write_failed err n)
      in if respBody = [] then done normResp p sent
         else case NormalizeResponse (pl_Gjson L) (prt_Mapping (ca_runtime c)) respBody (ur_StatusCode resp) of
           Inl respMapErr \<Rightarrow>
             (let normResp = normResp\<lparr>nrs_MappingDegraded := True, nrs_ErrorType := ''mapping_error'',
                    nrs_ErrorMessage := ''response mapping failed: '' @ respMapErr\<rparr>;
                  p = count_degraded p
              in if pxc_MappingStrictMode (px_cfg p)
                 then done normResp p (writeProxyError w 502 ''mapping_error'' (nrs_ErrorMessage normResp) (io_eventID io))
                 else done (failed normResp) p (write_upstream io respBody sent))
         | Inr responseMapped \<Rightarrow>
             done (failed (responseMapped\<lparr>nrs_MappingDegraded := ca_degraded c\<rparr>)) p (write_upstream io respBody sent))"

definition judged_body :: "UpResponse \<Rightarrow> bool" where
  "judged_body resp =
     (ur_body resp \<noteq> [] \<and> ur_StatusCode resp < 400 \<and>
      contains (to_lower (hdr_get (ur_Header resp) ''Content-Type'')) ''application/json'')"

definition respond_whole ::
  "ProxyLib \<Rightarrow> Io \<Rightarrow> Call \<Rightarrow> AuditEvent \<Rightarrow> UpResponse \<Rightarrow> NormalizedResponse \<Rightarrow> Proxy \<Rightarrow> Writer \<Rightarrow> Proxy \<times> Writer" where
  "respond_whole L io c preflight resp normResp p w =
     (let (p, normResp) = (case ur_readErr resp of
            None \<Rightarrow> (p, normResp)
          | Some err \<Rightarrow> (count_upstream_error p, normResp\<lparr>nrs_ErrorType := ''read_error'', nrs_ErrorMessage := err\<rparr>))
      in if \<not> judged_body resp then respond_body L io c preflight resp normResp p w
         else case ExtractToolUseBlocks (pl_Json L) (ur_body resp) of
           Inl extractErr \<Rightarrow>
             (emit (preflight\<lparr>ev_Outcome := OutcomeFailure\<rparr>) p,
              writeProxyError w 502 ''enforcement_error'' (''failed to extract tool_use blocks: '' @ extractErr) (io_eventID io))
         | Inr toolUseBlocks \<Rightarrow>
            (case evaluateToolUseBlocks L io toolUseBlocks (ca_provider c) (nrq_Model (ca_normalized c)) p of
               (Some commandmentID, p) \<Rightarrow> block_response L io preflight commandmentID ''response_side'' (p, w)
             | (None, p) \<Rightarrow> respond_body L io c preflight resp normResp p w))"

definition streamed :: "Call \<Rightarrow> UpResponse \<Rightarrow> bool" where
  "streamed c resp = (nrq_Stream (ca_normalized c) \<or>
     contains (to_lower (hdr_get (ur_Header resp) ''Content-Type'')) ''text/event-stream'')"

definition respond ::
  "ProxyLib \<Rightarrow> Io \<Rightarrow> Call \<Rightarrow> AuditEvent \<Rightarrow> UpResponse \<Rightarrow> Proxy \<Rightarrow> Writer \<Rightarrow> Proxy \<times> Writer" where
  "respond L io c preflight resp p w =
     (let normResp = (normalized_response (ur_StatusCode resp))\<lparr>nrs_MappingDegraded := ca_degraded c\<rparr>
      in if streamed c resp then respond_stream L io c preflight resp normResp p w
         else respond_whole L io c preflight resp normResp p w)"

text \<open>The failures between the preflight and the upstream's answer.\<close>

definition fail_upstream ::
  "ProxyLib \<Rightarrow> Io \<Rightarrow> AuditEvent \<Rightarrow> string \<Rightarrow> error \<Rightarrow> (string \<times> json) list \<Rightarrow> Proxy \<Rightarrow> Writer \<Rightarrow> Proxy \<times> Writer" where
  "fail_upstream L io preflight errType err meta p w =
     (emit (appendArgumentMetadata (pl_Json L) ((''request_id'', JStr (io_eventID io)) # meta)
         (preflight\<lparr>ev_Outcome := OutcomeFailure\<rparr>)) p,
      writeProxyError w 502 errType err (io_eventID io))"

definition forward_request ::
  "ProxyLib \<Rightarrow> Io \<Rightarrow> Call \<Rightarrow> AuditEvent \<Rightarrow> Proxy \<Rightarrow> Writer \<Rightarrow> Proxy \<times> Writer" where
  "forward_request L io c preflight p w =
     (let (c, preflight) =
            (if pxc_RedactEgressDefault (px_cfg p) then
               (case RedactPayload (pl_Lib L) (ca_body c) (px_extraRedactREs p) of
                  (redacted, changed) \<Rightarrow>
                    (if changed then (c\<lparr>ca_body := redacted\<rparr>,
                       appendArgumentMetadata (pl_Json L) [(''egress_redacted'', JBool True)] preflight)
                     else (c, preflight)))
             else (c, preflight))
      in case buildUpstreamRequest L (ca_request c) (ca_runtime c) (ca_body c) (io_eventID io) of
        Inl err \<Rightarrow> fail_upstream L io preflight ''upstream_request_error'' err
          [(''error_type'', JStr ''upstream_request_error'')] p w
      | Inr upstreamReq \<Rightarrow>
         (case PrepareAuth (pl_getenv L) (prt_Transport (ca_runtime c)) (uq_Header upstreamReq) of
            Inl err \<Rightarrow> fail_upstream L io preflight ''auth_error'' err
              [(''error_type'', JStr ''auth''), (''error_message'', JStr err)] p w
          | Inr h \<Rightarrow>
             (let upstreamReq = upstreamReq\<lparr>uq_Header := h\<rparr>;
                  p = p\<lparr>px_forwarded := px_forwarded p @ [upstreamReq]\<rparr>
              in case io_forward io upstreamReq of
                   Inl err \<Rightarrow> fail_upstream L io preflight ''upstream_error'' err
                     [(''error_type'', JStr ''upstream_error''), (''error_message'', JStr err)] (count_upstream_error p) w
                 | Inr resp \<Rightarrow> respond L io c preflight resp p w)))"

definition block_request :: "ProxyLib \<Rightarrow> Io \<Rightarrow> Call \<Rightarrow> AuditEvent \<Rightarrow> Proxy \<Rightarrow> Writer \<Rightarrow> Proxy \<times> Writer" where
  "block_request L io c preflight p w =
     (let p = count_blocked p;
          e = appendArgumentMetadata (pl_Json L)
            [(''request_id'', JStr (io_eventID io)), (''endpoint'', JStr (rq_Path (ca_request c))),
             (''mapping_degraded'', JBool (ca_degraded c))] (preflight\<lparr>ev_Outcome := OutcomeBlocked\<rparr>);
          (e, p) = maybeWriteRawPayload e (ca_body c) p
      in (emit e p, writeProxyError w 403 ''policy_violation'' ''request blocked by commandments'' (io_eventID io)))"

text \<open>The first half: read, route, map and build the event; \<open>Inl\<close> is an early return.\<close>

definition open_writer :: "Io \<Rightarrow> Request \<Rightarrow> Writer \<Rightarrow> Writer" where
  "open_writer io r w =
     copy_original_id (hdr_get (rq_Header r) ''X-Request-ID'') (SetHeader ''X-Request-ID'' (io_eventID io) w)"

definition prepare ::
  "ProxyLib \<Rightarrow> Io \<Rightarrow> Request \<Rightarrow> Proxy \<Rightarrow> Writer \<Rightarrow> (Proxy \<times> Writer) + (Call \<times> AuditEvent \<times> Proxy)" where
  "prepare L io r p w =
     (case readRequestBody (px_cfg p) r of
        Inl err \<Rightarrow> Inl (p, writeProxyError w 413 ''request_too_large'' ''request body exceeds max_request_body'' [])
      | Inr body \<Rightarrow>
        (case Resolve (pl_path_match L) (px_router p) (rq_Header r) (rq_Path r) of
           Inl err \<Rightarrow> Inl (p, writeProxyError w 400 ''routing_error'' err (io_eventID io))
         | Inr (runtime, provider) \<Rightarrow>
           (case normalizeRequest L runtime provider (rq_Path r) body p of
              (normalizedReq, mappingDegraded, reqMapErr, p) \<Rightarrow>
                (if reqMapErr \<noteq> None \<and> pxc_MappingStrictMode (px_cfg p)
                 then Inl (p, writeProxyError w 502 ''mapping_error'' (the reqMapErr) (io_eventID io))
                 else
                   let p = (if mappingDegraded then count_degraded p else p);
                       (preflight, p) = buildAuditEvent L (io_eventID io) (io_start io) provider normalizedReq (rq_Path r) p
                   in Inr (\<lparr>ca_request = r, ca_runtime = runtime, ca_provider = provider, ca_normalized = normalizedReq,
                            ca_degraded = mappingDegraded, ca_body = body\<rparr>, preflight, p)))))"

definition handleProxy :: "ProxyLib \<Rightarrow> Io \<Rightarrow> Request \<Rightarrow> Proxy \<Rightarrow> Writer \<Rightarrow> Proxy \<times> Writer" where
  "handleProxy L io r p w =
     (let p = count_request (count_active 1 p);
          w = open_writer io r w;
          (p, w) = (case prepare L io r p w of
             Inl pw \<Rightarrow> pw
           | Inr (c, preflight, p) \<Rightarrow>
               (if shouldBlock (px_evaluator p) preflight then block_request L io c preflight p w
                else forward_request L io c preflight p w))
      in (count_active (-1) p, w))"

section \<open>What the stages leave alone\<close>

lemma appendArgumentMetadata_frame: "\<exists>a. appendArgumentMetadata J kv e = e\<lparr>ev_Arguments := a\<rparr>"
proof (cases "kv = []")
  case True
  have "e = e\<lparr>ev_Arguments := ev_Arguments e\<rparr>" by simp
  with True show ?thesis unfolding appendArgumentMetadata_def by metis
qed (auto simp: appendArgumentMetadata_def Let_def)

lemma append_fields [simp]:
  "ev_ID (appendArgumentMetadata J kv e) = ev_ID e"
  "ev_ActionType (appendArgumentMetadata J kv e) = ev_ActionType e"
  "ev_Outcome (appendArgumentMetadata J kv e) = ev_Outcome e"
  "ev_Timestamp (appendArgumentMetadata J kv e) = ev_Timestamp e"
  "ev_AdapterType (appendArgumentMetadata J kv e) = ev_AdapterType e"
  using appendArgumentMetadata_frame [of J kv e] by auto

lemma count_simps [simp]:
  "px_events (count_active n p) = px_events p" "px_events (count_request p) = px_events p"
  "px_events (count_blocked p) = px_events p" "px_events (count_upstream_error p) = px_events p"
  "px_events (count_degraded p) = px_events p"
  "px_forwarded (count_active n p) = px_forwarded p" "px_forwarded (count_request p) = px_forwarded p"
  "px_forwarded (count_blocked p) = px_forwarded p" "px_forwarded (count_upstream_error p) = px_forwarded p"
  "px_forwarded (count_degraded p) = px_forwarded p"
  "px_cfg (count_active n p) = px_cfg p" "px_cfg (count_request p) = px_cfg p"
  "px_cfg (count_blocked p) = px_cfg p" "px_cfg (count_upstream_error p) = px_cfg p" "px_cfg (count_degraded p) = px_cfg p"
  "px_evaluator (count_active n p) = px_evaluator p" "px_evaluator (count_request p) = px_evaluator p"
  "px_evaluator (count_upstream_error p) = px_evaluator p" "px_evaluator (count_degraded p) = px_evaluator p"
  "px_classifier (count_active n p) = px_classifier p" "px_classifier (count_request p) = px_classifier p"
  "px_classifier (count_upstream_error p) = px_classifier p"
  by (simp_all add: count_active_def count_request_def count_blocked_def count_upstream_error_def count_degraded_def)

lemma emit_simps [simp]:
  "px_forwarded (emit e p) = px_forwarded p" "px_metrics (emit e p) = px_metrics p"
  "px_events (emit e p) = map_option (\<lambda>es. es @ [e]) (px_events p)" "px_cfg (emit e p) = px_cfg p"
  by (simp_all add: emit_def)

text \<open>The counters that matter to the accounting: the open connections, the requests and the blocked ones.\<close>

definition tally :: "Proxy \<Rightarrow> 64 word \<times> 64 word \<times> 64 word" where
  "tally p = (mx_ActiveConnections (px_metrics p), mx_TotalRequests (px_metrics p), mx_TotalBlocked (px_metrics p))"

lemma tally_simps [simp]:
  "tally (count_upstream_error p) = tally p" "tally (count_degraded p) = tally p" "tally (emit e p) = tally p"
  "tally (p\<lparr>px_classifier := cls\<rparr>) = tally p" "tally (p\<lparr>px_forwarded := us\<rparr>) = tally p"
  "tally (p\<lparr>px_attributor := st\<rparr>) = tally p" "tally (p\<lparr>px_written := ws\<rparr>) = tally p"
  by (simp_all add: tally_def count_upstream_error_def count_degraded_def emit_def)

definition answered :: "Writer \<Rightarrow> bool" where
  "answered w = (rw_status w \<noteq> None)"

lemma answered_simps [simp]:
  "answered (WriteHeader n w)" "answered (WriteBody b w)" "answered (writeProxyError w n t m i)"
  "answered (write_upstream io b w)" "answered (sendUpstreamHeaders io c resp n w)"
  by (simp_all add: answered_def WriteHeader_def WriteBody_def writeProxyError_def write_upstream_def
      sendUpstreamHeaders_def Let_def split: option.split)

section \<open>Every request is accounted for\<close>

text \<open>A request that reached its preflight ends with one answer and one event of its own, after at
  most one event for a blocked tool call; it is counted as blocked when its event says so.\<close>

definition settled :: "AuditEvent \<Rightarrow> Proxy \<Rightarrow> Proxy \<times> Writer \<Rightarrow> bool" where
  "settled pre p pw =
     (answered (snd pw) \<and>
      (\<exists>tools final.
         px_events (fst pw) = map_option (\<lambda>es. es @ tools @ [final]) (px_events p) \<and>
         ev_ID final = ev_ID pre \<and> ev_ActionType final = ev_ActionType pre \<and>
         length tools \<le> 1 \<and> (\<forall>t \<in> set tools. ev_ActionType t = ActionToolCall \<and> ev_Outcome t = OutcomeBlocked) \<and>
         ev_Outcome final \<in> {OutcomeSuccess, OutcomeFailure, OutcomeBlocked} \<and>
         (tools \<noteq> [] \<longrightarrow> ev_Outcome final = OutcomeBlocked) \<and>
         tally (fst pw) = (if ev_Outcome final = OutcomeBlocked then tally (count_blocked p) else tally p)))"

lemma outcomes_distinct [simp]:
  "OutcomeSuccess \<noteq> OutcomeBlocked" "OutcomeFailure \<noteq> OutcomeBlocked" "OutcomeSuccess \<noteq> []"
  by (simp_all add: OutcomeSuccess_def OutcomeBlocked_def OutcomeFailure_def)

lemma settled_same:
  assumes "px_events p = px_events q" "tally p = tally q" "ev_ID e = ev_ID e'" "ev_ActionType e = ev_ActionType e'"
    "settled e p pw"
  shows "settled e' q pw"
proof -
  have "tally (count_blocked p) = tally (count_blocked q)"
    using assms(2) by (simp add: tally_def count_blocked_def)
  with assms(1-4) have "settled e' q pw = settled e p pw" unfolding settled_def by simp
  with assms(5) show ?thesis by simp
qed

lemma settled_simple:
  assumes "ev_ID final = ev_ID pre" "ev_ActionType final = ev_ActionType pre"
    "ev_Outcome final \<in> {OutcomeSuccess, OutcomeFailure}" "px_events q = px_events p" "tally q = tally p" "answered w"
  shows "settled pre p (emit final q, w)"
  using assms unfolding settled_def by (intro conjI exI [of _ "[]"] exI [of _ final]) auto

lemma maybeWriteRawPayload_simps [simp]:
  "ev_ID (fst (maybeWriteRawPayload e body p)) = ev_ID e"
  "ev_ActionType (fst (maybeWriteRawPayload e body p)) = ev_ActionType e"
  "ev_Outcome (fst (maybeWriteRawPayload e body p)) = ev_Outcome e"
  "px_events (snd (maybeWriteRawPayload e body p)) = px_events p"
  "px_forwarded (snd (maybeWriteRawPayload e body p)) = px_forwarded p"
  "tally (snd (maybeWriteRawPayload e body p)) = tally p"
  by (auto simp: maybeWriteRawPayload_def Let_def split: option.splits sum.splits)

lemma finish_settled:
  assumes "ev_Outcome pre = OutcomeSuccess" "answered w" "px_events q = px_events p" "tally q = tally p"
  shows "settled pre p (finish L io c pre resp n t q, w)"
  using assms unfolding finish_def Let_def split_beta by (intro settled_simple) auto

lemma finish_forwarded [simp]: "px_forwarded (finish L io c pre resp n t q) = px_forwarded q"
  by (simp add: finish_def Let_def split_beta)

lemma block_response_settled:
  assumes "px_events q = map_option (\<lambda>es. es @ [t]) (px_events p)" "tally q = tally p"
    "ev_ActionType t = ActionToolCall" "ev_Outcome t = OutcomeBlocked"
  shows "settled pre p (block_response L io pre i how (q, w))"
proof -
  have "tally (count_blocked q) = tally (count_blocked p)" using assms(2) by (simp add: tally_def count_blocked_def)
  moreover obtain e where e: "fst (block_response L io pre i how (q, w)) = emit e (count_blocked q)"
    "ev_ID e = ev_ID pre" "ev_ActionType e = ev_ActionType pre" "ev_Outcome e = OutcomeBlocked"
    by (simp add: block_response_def)
  ultimately show ?thesis
    using assms unfolding settled_def e(1)
    by (intro conjI exI [of _ "[t]"] exI [of _ e])
      (auto simp: e block_response_def option.map_comp o_def)
qed

lemma evaluate_from_frame:
  "evaluate_from L io f provider model n bs p = (r, q) \<Longrightarrow>
     tally q = tally p \<and> px_forwarded q = px_forwarded p \<and> px_cfg q = px_cfg p \<and>
     (case r of
        None \<Rightarrow> px_events q = px_events p
      | Some _ \<Rightarrow> \<exists>t. px_events q = map_option (\<lambda>es. es @ [t]) (px_events p) \<and>
          ev_ActionType t = ActionToolCall \<and> ev_Outcome t = OutcomeBlocked)"
proof (induction L io f provider model n bs p rule: evaluate_from.induct)
  case (2 L io f provider model n b rest p)
  obtain e cls where e: "tool_event L io n provider model (px_classifier p) b = (e, cls)" by fastforce
  then have "ev_ActionType e = ActionToolCall" by (auto simp: tool_event_def Let_def split: prod.splits)
  with 2 e show ?case by (auto simp: Let_def split: option.splits)
qed simp

lemma evaluateToolUseBlocks_frame:
  "evaluateToolUseBlocks L io bs provider model p = (r, q) \<Longrightarrow>
     tally q = tally p \<and> px_forwarded q = px_forwarded p \<and> px_cfg q = px_cfg p \<and>
     (case r of
        None \<Rightarrow> px_events q = px_events p
      | Some _ \<Rightarrow> \<exists>t. px_events q = map_option (\<lambda>es. es @ [t]) (px_events p) \<and>
          ev_ActionType t = ActionToolCall \<and> ev_Outcome t = OutcomeBlocked)"
  by (auto simp: evaluateToolUseBlocks_def dest: evaluate_from_frame split: option.splits)

lemma respond_body_settled:
  assumes "ev_Outcome pre = OutcomeSuccess" "px_events q = px_events p" "tally q = tally p"
  shows "settled pre p (respond_body L io c pre resp n q w)"
  unfolding respond_body_def Let_def
  by (auto simp: assms intro!: finish_settled split: sum.split)

lemma respond_whole_settled:
  assumes "ev_Outcome pre = OutcomeSuccess"
  shows "settled pre p (respond_whole L io c pre resp n p w)"
proof -
  define q m where "q = (case ur_readErr resp of None \<Rightarrow> p | Some err \<Rightarrow> count_upstream_error p)"
    and "m = (case ur_readErr resp of None \<Rightarrow> n | Some err \<Rightarrow> n\<lparr>nrs_ErrorType := ''read_error'', nrs_ErrorMessage := err\<rparr>)"
  have q: "px_events q = px_events p" "tally q = tally p" by (auto simp: q_def split: option.split)
  have *: "respond_whole L io c pre resp n p w =
      (if \<not> judged_body resp then respond_body L io c pre resp m q w
       else case ExtractToolUseBlocks (pl_Json L) (ur_body resp) of
         Inl extractErr \<Rightarrow> (emit (pre\<lparr>ev_Outcome := OutcomeFailure\<rparr>) q,
           writeProxyError w 502 ''enforcement_error'' (''failed to extract tool_use blocks: '' @ extractErr) (io_eventID io))
       | Inr bs \<Rightarrow> (case evaluateToolUseBlocks L io bs (ca_provider c) (nrq_Model (ca_normalized c)) q of
           (Some i, q') \<Rightarrow> block_response L io pre i ''response_side'' (q', w)
         | (None, q') \<Rightarrow> respond_body L io c pre resp m q' w))"
    by (cases "ur_readErr resp") (simp_all add: respond_whole_def q_def m_def Let_def split: sum.split prod.split option.split)
  show ?thesis unfolding *
    using q by (auto split: sum.split prod.split option.split dest!: evaluateToolUseBlocks_frame
        intro: respond_body_settled [OF assms] settled_simple block_response_settled)
qed

lemma respond_stream_settled:
  assumes "ev_Outcome pre = OutcomeSuccess"
  shows "settled pre p (respond_stream L io c pre resp n p w)"
proof (cases "bufferSSEStream (pl_Json L) (ParseStreamEvent (pl_Json L))
    (if pxc_StreamMaxBuffer (px_cfg p) \<le> 0 then defaultStreamMaxBytes else pxc_StreamMaxBuffer (px_cfg p)) (io_now io) (ur_msgs resp)")
  case (Inl err)
  then show ?thesis
    by (auto simp: respond_stream_def Let_def intro!: settled_simple)
next
  case (Inr b)
  obtain r q where e: "evaluateToolUseBlocks L io (br_ToolBlocks b) (ca_provider c) (nrq_Model (ca_normalized c)) p = (r, q)"
    by fastforce
  note fr = evaluateToolUseBlocks_frame [OF e]
  show ?thesis
  proof (cases r)
    case None
    with Inr e fr assms show ?thesis
      by (auto simp: respond_stream_def Let_def split: option.split intro!: finish_settled)
  next
    case (Some i)
    with Inr e fr show ?thesis
      by (auto simp: respond_stream_def Let_def intro!: block_response_settled)
  qed
qed

lemma respond_settled:
  "ev_Outcome pre = OutcomeSuccess \<Longrightarrow> settled pre p (respond L io c pre resp p w)"
  by (simp add: respond_def Let_def respond_stream_settled respond_whole_settled)

lemma fail_upstream_settled:
  "px_events q = px_events p \<Longrightarrow> tally q = tally p \<Longrightarrow> settled pre p (fail_upstream L io pre t err meta q w)"
  unfolding fail_upstream_def by (rule settled_simple) simp_all

text \<open>The call and the event after the egress redaction.\<close>

definition egress :: "ProxyLib \<Rightarrow> Proxy \<Rightarrow> Call \<Rightarrow> AuditEvent \<Rightarrow> Call \<times> AuditEvent" where
  "egress L p c preflight =
     (case RedactPayload (pl_Lib L) (ca_body c) (px_extraRedactREs p) of
        (redacted, changed) \<Rightarrow>
          (if pxc_RedactEgressDefault (px_cfg p) \<and> changed
           then (c\<lparr>ca_body := redacted\<rparr>, appendArgumentMetadata (pl_Json L) [(''egress_redacted'', JBool True)] preflight)
           else (c, preflight)))"

lemma forward_request_egress:
  "forward_request L io c preflight p w =
     (case egress L p c preflight of (c, preflight) \<Rightarrow>
       case buildUpstreamRequest L (ca_request c) (ca_runtime c) (ca_body c) (io_eventID io) of
        Inl err \<Rightarrow> fail_upstream L io preflight ''upstream_request_error'' err
          [(''error_type'', JStr ''upstream_request_error'')] p w
      | Inr uq \<Rightarrow>
         (case PrepareAuth (pl_getenv L) (prt_Transport (ca_runtime c)) (uq_Header uq) of
            Inl err \<Rightarrow> fail_upstream L io preflight ''auth_error'' err
              [(''error_type'', JStr ''auth''), (''error_message'', JStr err)] p w
          | Inr h \<Rightarrow>
             (case io_forward io (uq\<lparr>uq_Header := h\<rparr>) of
                Inl err \<Rightarrow> fail_upstream L io preflight ''upstream_error'' err
                  [(''error_type'', JStr ''upstream_error''), (''error_message'', JStr err)]
                  (count_upstream_error (p\<lparr>px_forwarded := px_forwarded p @ [uq\<lparr>uq_Header := h\<rparr>]\<rparr>)) w
              | Inr resp \<Rightarrow> respond L io c preflight resp (p\<lparr>px_forwarded := px_forwarded p @ [uq\<lparr>uq_Header := h\<rparr>]\<rparr>) w)))"
  by (simp add: forward_request_def egress_def Let_def split: prod.split sum.split)

lemma egress_event:
  "egress L p c pre = (c', pre') \<Longrightarrow> ev_ID pre' = ev_ID pre \<and> ev_ActionType pre' = ev_ActionType pre \<and> ev_Outcome pre' = ev_Outcome pre"
  by (auto simp: egress_def split: prod.splits if_splits)

lemma forward_request_settled:
  assumes "ev_Outcome pre = OutcomeSuccess"
  shows "settled pre p (forward_request L io c pre p w)"
proof -
  obtain c' pre' where e: "egress L p c pre = (c', pre')" by fastforce
  note ev = egress_event [OF e]
  let ?fw = "\<lambda>us. p\<lparr>px_forwarded := us\<rparr>"
  have r: "settled pre p (respond L io c' pre' resp (?fw us) w)" for resp us
    by (rule settled_same [OF _ _ _ _ respond_settled [of pre' "?fw us"]]) (simp_all add: ev assms)
  have f: "settled pre p (fail_upstream L io pre' t err meta q w)" if "px_events q = px_events p" "tally q = tally p" for t err meta q
    by (rule settled_same [OF _ _ _ _ fail_upstream_settled [of q q pre']]) (simp_all add: ev that)
  show ?thesis unfolding forward_request_egress e
    by (auto split: sum.split intro!: r f)
qed

lemma block_request_settled: "settled pre p (block_request L io c pre p w)"
proof -
  obtain e q where *: "fst (block_request L io c pre p w) = emit e q" "ev_ID e = ev_ID pre" "ev_ActionType e = ev_ActionType pre"
    "ev_Outcome e = OutcomeBlocked" "px_events q = px_events p" "tally q = tally (count_blocked p)"
    by (simp add: block_request_def Let_def split_beta)
  show ?thesis unfolding settled_def *(1)
    by (intro conjI exI [of _ "[]"] exI [of _ e]) (simp_all add: * block_request_def Let_def split_beta)
qed

lemma attribute_event_fields [simp]:
  "ev_ID (attribute_event J m e) = ev_ID e" "ev_ActionType (attribute_event J m e) = ev_ActionType e"
  "ev_Outcome (attribute_event J m e) = ev_Outcome e"
  by (simp_all add: attribute_event_def Let_def)

lemma describe_tools_fields [simp]:
  "ev_ID (describe_tools J tools e) = ev_ID e" "ev_ActionType (describe_tools J tools e) = ev_ActionType e"
  "ev_Outcome (describe_tools J tools e) = ev_Outcome e"
  by (simp_all add: describe_tools_def Let_def split: list.split)

lemma buildAuditEvent_event:
  "ev_ID (fst (buildAuditEvent L i t prov req ep p)) = i"
  "ev_ActionType (fst (buildAuditEvent L i t prov req ep p)) = ActionAIRequest"
  "ev_Outcome (fst (buildAuditEvent L i t prov req ep p)) = OutcomeSuccess"
  by (simp_all add: buildAuditEvent_def proxy_event_def Let_def split: prod.split option.split)

lemma buildAuditEvent_state: "\<exists>st. snd (buildAuditEvent L i t prov req ep p) = p\<lparr>px_attributor := st\<rparr>"
proof -
  have "p = p\<lparr>px_attributor := px_attributor p\<rparr>" by simp
  then have same: "\<exists>st. p = p\<lparr>px_attributor := st\<rparr>" by metis
  show ?thesis
    using same unfolding buildAuditEvent_def Let_def by (cases "px_attributor p") (auto split: prod.split option.split)
qed

lemma buildAuditEvent_frame:
  assumes "buildAuditEvent L i t prov req ep p = (e, q)"
  shows "ev_ID e = i \<and> ev_ActionType e = ActionAIRequest \<and> ev_Outcome e = OutcomeSuccess \<and>
     px_events q = px_events p \<and> tally q = tally p \<and> px_forwarded q = px_forwarded p \<and> px_evaluator q = px_evaluator p \<and>
     px_cfg q = px_cfg p"
  using buildAuditEvent_event [of L i t prov req ep p] buildAuditEvent_state [of L i t prov req ep p] assms by auto

lemma prepare_frame:
  "prepare L io r p w = Inl (q, w') \<Longrightarrow>
     px_events q = px_events p \<and> tally q = tally p \<and> px_forwarded q = px_forwarded p \<and> answered w'"
  "prepare L io r p w = Inr (c, e, q) \<Longrightarrow>
     ev_ID e = io_eventID io \<and> ev_ActionType e = ActionAIRequest \<and> ev_Outcome e = OutcomeSuccess \<and>
     px_events q = px_events p \<and> tally q = tally p \<and> px_forwarded q = px_forwarded p \<and> px_evaluator q = px_evaluator p \<and>
     px_cfg q = px_cfg p"
  by (auto simp: prepare_def normalizeRequest_def Let_def split: sum.splits prod.splits if_splits option.splits
      dest!: buildAuditEvent_frame)

end
