(* ===== verification/Proxy_Enforcement.thy ===== *)
theory Proxy_Enforcement
  imports Proxy
begin

text \<open>
  What the proxy enforces: every request is answered and accounted for once, a request the
  rules block never reaches the upstream, what is forwarded is the client's request as the
  configuration redacts it, and an answer with a tool call the rules block never reaches the
  client. The statements are about \<open>handleProxy\<close> and its stages in \<open>Proxy\<close>.
\<close>

section \<open>Requests\<close>

lemma handleProxy_cases:
  "handleProxy L io r p w =
     (case prepare L io r (count_request (count_active 1 p)) (open_writer io r w) of
        Inl (q, w') \<Rightarrow> (count_active (-1) q, w')
      | Inr (c, pre, q) \<Rightarrow>
          (case (if shouldBlock (px_evaluator q) pre then block_request L io c pre q (open_writer io r w)
                 else forward_request L io c pre q (open_writer io r w)) of
             (q, w') \<Rightarrow> (count_active (-1) q, w')))"
  by (simp add: handleProxy_def Let_def split: sum.split prod.split)




section \<open>What is forwarded\<close>

lemma respond_body_forwarded [simp]: "px_forwarded (fst (respond_body L io c pre resp n p w)) = px_forwarded p"
  by (simp add: respond_body_def Let_def split: sum.split)

lemma block_response_forwarded [simp]: "px_forwarded (fst (block_response L io pre i how pw)) = px_forwarded (fst pw)"
  by (simp add: block_response_def)

lemma respond_whole_forwarded: "px_forwarded (fst (respond_whole L io c pre resp n p w)) = px_forwarded p"
proof (cases "judged_body resp")
  case False
  then show ?thesis by (cases "ur_readErr resp") (simp_all add: respond_whole_def)
next
  case True
  have "px_forwarded (fst (case evaluateToolUseBlocks L io bs prov mo p' of
      (Some i, q) \<Rightarrow> block_response L io pre i h (q, w) | (None, q) \<Rightarrow> respond_body L io c pre resp n' q w)) = px_forwarded p'"
    for bs prov mo p' h n'
    by (auto dest: evaluateToolUseBlocks_frame split: prod.split option.split)
  with True show ?thesis
    by (cases "ur_readErr resp"; cases "ExtractToolUseBlocks (pl_Json L) (ur_body resp)") (simp_all add: respond_whole_def)
qed

lemma respond_stream_forwarded: "px_forwarded (fst (respond_stream L io c pre resp n p w)) = px_forwarded p"
proof (cases "bufferSSEStream (pl_Json L) (ParseStreamEvent (pl_Json L))
    (if pxc_StreamMaxBuffer (px_cfg p) \<le> 0 then defaultStreamMaxBytes else pxc_StreamMaxBuffer (px_cfg p)) (io_now io) (ur_msgs resp)")
  case (Inr b)
  obtain x q where e: "evaluateToolUseBlocks L io (br_ToolBlocks b) (ca_provider c) (nrq_Model (ca_normalized c)) p = (x, q)"
    by fastforce
  with evaluateToolUseBlocks_frame [OF e] Inr show ?thesis
    by (cases x; cases "io_write_error io") (simp_all add: respond_stream_def Let_def)
qed (simp add: respond_stream_def Let_def)

lemma respond_forwarded [simp]: "px_forwarded (fst (respond L io c pre resp p w)) = px_forwarded p"
  by (simp add: respond_def Let_def respond_whole_forwarded respond_stream_forwarded)

lemma fail_upstream_forwarded [simp]: "px_forwarded (fst (fail_upstream L io pre t err meta p w)) = px_forwarded p"
  by (simp add: fail_upstream_def)

lemma block_request_forwarded [simp]: "px_forwarded (fst (block_request L io c pre p w)) = px_forwarded p"
  by (simp add: block_request_def Let_def split_beta)

lemma forward_request_forwarded:
  "px_forwarded (fst (forward_request L io c pre p w)) = px_forwarded p \<or>
   (\<exists>uq h. buildUpstreamRequest L (ca_request (fst (egress L p c pre))) (ca_runtime (fst (egress L p c pre)))
        (ca_body (fst (egress L p c pre))) (io_eventID io) = Inr uq \<and>
      PrepareAuth (pl_getenv L) (prt_Transport (ca_runtime (fst (egress L p c pre)))) (uq_Header uq) = Inr h \<and>
      px_forwarded (fst (forward_request L io c pre p w)) = px_forwarded p @ [uq\<lparr>uq_Header := h\<rparr>])"
  unfolding forward_request_egress by (auto simp: split_beta split: sum.split)

lemma built_request:
  assumes "buildUpstreamRequest L r rt body i = Inr uq" "PrepareAuth g t (uq_Header uq) = Inr h"
  shows "uq_Method uq = rq_Method r \<and> uq_Body uq = body \<and> map_of h ''X-Request-ID'' = Some [i]"
  using assms by (auto simp: buildUpstreamRequest_def bind_result_Inr_iff PrepareAuth_def Let_def hdr_set_def update_conv'
      split: option.splits if_splits)

lemma egress_call:
  "ca_request (fst (egress L p c pre)) = ca_request c"
  "ca_body (fst (egress L p c pre)) =
     (if pxc_RedactEgressDefault (px_cfg p) then fst (RedactPayload (pl_Lib L) (ca_body c) (px_extraRedactREs p)) else ca_body c)"
  by (auto simp: egress_def RedactPayload_def split: prod.splits dest: redact_patterns_same)

lemma block_request_event:
  "\<exists>e. px_events (fst (block_request L io c pre p w)) = map_option (\<lambda>es. es @ [e]) (px_events p) \<and> ev_Outcome e = OutcomeBlocked"
proof -
  obtain e q where "fst (block_request L io c pre p w) = emit e q" "px_events q = px_events p" "ev_Outcome e = OutcomeBlocked"
    by (simp add: block_request_def Let_def split_beta)
  then show ?thesis by auto
qed

text \<open>C2: The gate in front of the upstream. A request whose preflight event the rules block is answered
  403, leaves a blocked event, and nothing of it is sent upstream; of any other at most one
  request is sent, with the client's method, the identifier the client was given, and as its
  body the client's body or, when egress redaction is on, exactly the redacted body.\<close>

theorem blocked_never_forwarded:
  "case handleProxy L io r p w of (q, w') \<Rightarrow>
     (case prepare L io r (count_request (count_active 1 p)) (open_writer io r w) of
        Inl _ \<Rightarrow> px_forwarded q = px_forwarded p
      | Inr (c, pre, p1) \<Rightarrow>
          (if shouldBlock (px_evaluator p) pre
           then px_forwarded q = px_forwarded p \<and>
                (\<exists>e. px_events q = map_option (\<lambda>es. es @ [e]) (px_events p) \<and> ev_Outcome e = OutcomeBlocked) \<and>
                w' = writeProxyError (open_writer io r w) 403 ''policy_violation'' ''request blocked by commandments'' (io_eventID io)
           else px_forwarded q = px_forwarded p \<or>
             (\<exists>uq. px_forwarded q = px_forwarded p @ [uq] \<and> uq_Method uq = rq_Method r \<and>
                uq_Body uq = (if pxc_RedactEgressDefault (px_cfg p)
                  then fst (RedactPayload (pl_Lib L) (ca_body c) (px_extraRedactREs p1)) else ca_body c) \<and>
                map_of (uq_Header uq) ''X-Request-ID'' = Some [io_eventID io])))"
proof (cases "prepare L io r (count_request (count_active 1 p)) (open_writer io r w)")
  case (Inl qw)
  obtain q w' where "qw = (q, w')" by fastforce
  with Inl prepare_frame(1) [of L io r "count_request (count_active 1 p)" "open_writer io r w" q w']
  show ?thesis by (simp add: handleProxy_cases)
next
  case (Inr x)
  obtain c pre p1 where x: "x = (c, pre, p1)" by (cases x) auto
  from prepare_frame(2) [OF Inr [unfolded x]]
  have fr: "px_forwarded p1 = px_forwarded p" "px_evaluator p1 = px_evaluator p" "px_cfg p1 = px_cfg p"
    "px_events p1 = px_events p" by simp_all
  have rq: "ca_request c = r"
    using Inr [unfolded x] by (auto simp: prepare_def Let_def split: sum.splits prod.splits if_splits)
  show ?thesis
  proof (cases "shouldBlock (px_evaluator p) pre")
    case True
    have "snd (block_request L io c pre p1 (open_writer io r w)) =
        writeProxyError (open_writer io r w) 403 ''policy_violation'' ''request blocked by commandments'' (io_eventID io)"
      by (simp add: block_request_def Let_def split_beta)
    then show ?thesis
      using True block_request_event [of L io c pre p1 "open_writer io r w"]
      by (simp add: handleProxy_cases Inr x split_beta fr)
  next
    case False
    let ?fw = "forward_request L io c pre p1 (open_writer io r w)"
    have "px_forwarded (fst ?fw) = px_forwarded p1 \<or>
        (\<exists>uq. px_forwarded (fst ?fw) = px_forwarded p1 @ [uq] \<and> uq_Method uq = rq_Method (ca_request (fst (egress L p1 c pre))) \<and>
           uq_Body uq = ca_body (fst (egress L p1 c pre)) \<and> map_of (uq_Header uq) ''X-Request-ID'' = Some [io_eventID io])"
      using forward_request_forwarded [of L io c pre p1 "open_writer io r w"] built_request
      by fastforce
    with False show ?thesis by (cases "pxc_RedactEgressDefault (px_cfg p)") (simp_all add: handleProxy_cases Inr x split_beta fr egress_call rq)
  qed
qed

section \<open>What is released\<close>

text \<open>Classifying a tool only counts: the registry classifies as before.\<close>

lemma Classify_counter:
  "\<exists>m. snd (Classify glob r provider tool keys) = r\<lparr>reg_unclassified := m\<rparr>"
proof -
  have "r = r\<lparr>reg_unclassified := reg_unclassified r\<rparr>" by simp
  then have same: "\<exists>m. r = r\<lparr>reg_unclassified := m\<rparr>" by metis
  show ?thesis unfolding Classify_def Let_def by (auto simp: same split: option.split)
qed

lemma lookup_counter [simp]:
  "provider_tool (r\<lparr>reg_unclassified := m\<rparr>) = provider_tool r"
  "provider_pattern glob (r\<lparr>reg_unclassified := m\<rparr>) = provider_pattern glob r"
  "resultFor (r\<lparr>reg_unclassified := m\<rparr>) = resultFor r"
  by (intro ext; simp add: provider_tool_def provider_pattern_def resultFor_def)+

lemma matchPattern_counter [simp]: "matchPattern glob (r\<lparr>reg_unclassified := m\<rparr>) = matchPattern glob r"
  by (intro ext) (simp add: matchPattern_def cong: option.case_cong)

lemma Classify_same:
  "fst (Classify glob (r\<lparr>reg_unclassified := m\<rparr>) provider tool keys) = fst (Classify glob r provider tool keys)"
  by (simp add: Classify_def Let_def cong: option.case_cong split: option.split)

lemma tool_event_same:
  "fst (tool_event L io n provider model (r\<lparr>reg_unclassified := m\<rparr>) b) = fst (tool_event L io n provider model r b)"
  "\<exists>m. snd (tool_event L io n provider model r b) = r\<lparr>reg_unclassified := m\<rparr>"
  using Classify_counter [of "pl_glob L" r provider "tb_ToolName b" "ExtractArgKeys (js_decode (pl_Json L)) (tb_ToolInput b)"]
  by (simp_all add: tool_event_def Let_def split_beta Classify_same)

definition tool_blocked :: "ProxyLib \<Rightarrow> Io \<Rightarrow> Call \<Rightarrow> Proxy \<Rightarrow> nat \<Rightarrow> ToolUseBlock \<Rightarrow> bool" where
  "tool_blocked L io c p n block =
     shouldBlock (px_evaluator p) (fst (tool_event L io n (ca_provider c) (nrq_Model (ca_normalized c)) (px_classifier p) block))"

lemma find_blocks: "List.find blocks rs = None \<longleftrightarrow> \<not> list_ex (\<lambda>t. equal_fold (atr_Enforcement t) ''block'') rs"
  by (induction rs) (simp_all add: blocks_def)

lemma evaluate_from_None_iff:
  "fst (evaluate_from L io f provider model n bs (p\<lparr>px_classifier := r\<lparr>reg_unclassified := m\<rparr>\<rparr>)) = None \<longleftrightarrow>
     (\<forall>k < length bs. \<not> shouldBlock (Some f) (fst (tool_event L io (n + k) provider model r (bs ! k))))"
proof (induction bs arbitrary: n m)
  case (Cons b bs)
  let ?r = "r\<lparr>reg_unclassified := m\<rparr>"
  obtain e cls where e: "tool_event L io n provider model ?r b = (e, cls)" by fastforce
  with tool_event_same(2) [of L io n provider model ?r b] obtain m' where cls: "cls = r\<lparr>reg_unclassified := m'\<rparr>" by auto
  have e': "e = fst (tool_event L io n provider model r b)" using tool_event_same(1) [where r = r and m = m and b = b] e by (metis fst_conv)
  have split: "(\<forall>k < length (b # bs). P k ((b # bs) ! k)) \<longleftrightarrow> P 0 b \<and> (\<forall>k < length bs. P (Suc k) (bs ! k))" for P :: "nat \<Rightarrow> ToolUseBlock \<Rightarrow> bool"
    by (simp add: All_less_Suc2)
  show ?case
    unfolding split [of "\<lambda>k x. \<not> shouldBlock (Some f) (fst (tool_event L io (n + k) provider model r x))"]
    using Cons.IH [of "Suc n" m'] find_blocks [of "aer_Triggered (f e)"]
    by (auto simp: e cls Let_def shouldBlock_def e' [symmetric] split: option.split)
qed simp

lemma evaluateToolUseBlocks_None_iff:
  "fst (evaluateToolUseBlocks L io bs (ca_provider c) (nrq_Model (ca_normalized c)) p) = None \<longleftrightarrow>
     (\<forall>k < length bs. \<not> tool_blocked L io c p k (bs ! k))"
proof (cases "px_evaluator p")
  case None
  then show ?thesis by (simp add: evaluateToolUseBlocks_def tool_blocked_def shouldBlock_def)
next
  case (Some f)
  have "p = p\<lparr>px_classifier := (px_classifier p)\<lparr>reg_unclassified := reg_unclassified (px_classifier p)\<rparr>\<rparr>" by simp
  then show ?thesis
    using Some evaluate_from_None_iff [of L io f "ca_provider c" "nrq_Model (ca_normalized c)" 0 bs,
        where p = p and r = "px_classifier p" and m = "reg_unclassified (px_classifier p)"]
    by (simp add: evaluateToolUseBlocks_def tool_blocked_def)
qed

text \<open>The tool calls of an answer that are judged: those of a buffered stream, or of a whole JSON body.\<close>

definition answer_blocks :: "ProxyLib \<Rightarrow> Io \<Rightarrow> Call \<Rightarrow> Proxy \<Rightarrow> UpResponse \<Rightarrow> error + ToolUseBlock list" where
  "answer_blocks L io c p resp =
     (if streamed c resp
      then map_sum id br_ToolBlocks (bufferSSEStream (pl_Json L) (ParseStreamEvent (pl_Json L))
        (if pxc_StreamMaxBuffer (px_cfg p) \<le> 0 then defaultStreamMaxBytes else pxc_StreamMaxBuffer (px_cfg p))
        (io_now io) (ur_msgs resp))
      else if judged_body resp then ExtractToolUseBlocks (pl_Json L) (ur_body resp) else Inr [])"

lemma evaluate_cases:
  obtains q where "evaluateToolUseBlocks L io bs (ca_provider c) (nrq_Model (ca_normalized c)) p = (None, q)"
      "\<forall>k < length bs. \<not> tool_blocked L io c p k (bs ! k)"
  | i q where "evaluateToolUseBlocks L io bs (ca_provider c) (nrq_Model (ca_normalized c)) p = (Some i, q)"
      "\<exists>k < length bs. tool_blocked L io c p k (bs ! k)"
  using evaluateToolUseBlocks_None_iff [of L io bs c p]
  by (cases "evaluateToolUseBlocks L io bs (ca_provider c) (nrq_Model (ca_normalized c)) p"; cases "fst (evaluateToolUseBlocks L io bs (ca_provider c) (nrq_Model (ca_normalized c)) p)") auto

lemma stream_judged:
  assumes "streamed c resp"
  shows "case answer_blocks L io c p resp of
     Inl err \<Rightarrow> \<exists>t m. snd (respond L io c pre resp p w) = writeProxyError w 502 t m (io_eventID io)
   | Inr bs \<Rightarrow>
       (if \<exists>k < length bs. tool_blocked L io c p k (bs ! k)
        then \<exists>name. snd (respond L io c pre resp p w) =
          writeProxyError w 403 ''policy_violation'' (''tool_use blocked by commandment: '' @ name) (io_eventID io)
        else \<exists>ls. ur_msgs resp = map Line ls \<and>
             snd (respond L io c pre resp p w) =
               write_upstream io (concat ls) (sendUpstreamHeaders io c resp (ur_StatusCode resp) w))"
proof -
  let ?max = "if pxc_StreamMaxBuffer (px_cfg p) \<le> 0 then defaultStreamMaxBytes else pxc_StreamMaxBuffer (px_cfg p)"
  show ?thesis
  proof (cases "bufferSSEStream (pl_Json L) (ParseStreamEvent (pl_Json L)) ?max (io_now io) (ur_msgs resp)")
    case (Inl err)
    then show ?thesis using assms by (auto simp: answer_blocks_def respond_def respond_stream_def Let_def)
  next
    case (Inr b)
    note body = bufferSSEStream_Inr [OF Inr]
    have ab: "answer_blocks L io c p resp = Inr (br_ToolBlocks b)" using assms Inr by (simp add: answer_blocks_def)
    have r: "respond L io c pre resp p w = respond_stream L io c pre resp
        ((normalized_response (ur_StatusCode resp))\<lparr>nrs_MappingDegraded := ca_degraded c\<rparr>) p w"
      using assms by (simp add: respond_def Let_def)
    show ?thesis
      by (cases rule: evaluate_cases [of L io "br_ToolBlocks b" c p])
        (use assms Inr body in \<open>auto simp: ab r respond_stream_def Let_def block_response_def split: option.split\<close>)
  qed
qed

lemma body_judged:
  assumes "judged_body resp"
  shows "case ExtractToolUseBlocks (pl_Json L) (ur_body resp) of
     Inl err \<Rightarrow> \<exists>t m. snd (respond_whole L io c pre resp n p w) = writeProxyError w 502 t m (io_eventID io)
   | Inr bs \<Rightarrow>
       (if \<exists>k < length bs. tool_blocked L io c p k (bs ! k)
        then \<exists>name. snd (respond_whole L io c pre resp n p w) =
          writeProxyError w 403 ''policy_violation'' (''tool_use blocked by commandment: '' @ name) (io_eventID io)
        else \<exists>n' q. respond_whole L io c pre resp n p w = respond_body L io c pre resp n' q w)"
proof -
  define q m where "q = (case ur_readErr resp of None \<Rightarrow> p | Some err \<Rightarrow> count_upstream_error p)"
    and "m = (case ur_readErr resp of None \<Rightarrow> n | Some err \<Rightarrow> n\<lparr>nrs_ErrorType := ''read_error'', nrs_ErrorMessage := err\<rparr>)"
  have "tool_blocked L io c q = tool_blocked L io c p"
    by (intro ext) (simp add: tool_blocked_def q_def split: option.split)
  note cls = this
  have r: "respond_whole L io c pre resp n p w =
      (case ExtractToolUseBlocks (pl_Json L) (ur_body resp) of
         Inl extractErr \<Rightarrow> (emit (pre\<lparr>ev_Outcome := OutcomeFailure\<rparr>) q,
           writeProxyError w 502 ''enforcement_error'' (''failed to extract tool_use blocks: '' @ extractErr) (io_eventID io))
       | Inr bs \<Rightarrow> (case evaluateToolUseBlocks L io bs (ca_provider c) (nrq_Model (ca_normalized c)) q of
           (Some i, q') \<Rightarrow> block_response L io pre i ''response_side'' (q', w)
         | (None, q') \<Rightarrow> respond_body L io c pre resp m q' w))"
    using assms by (cases "ur_readErr resp")
      (simp_all add: respond_whole_def q_def m_def Let_def split: sum.split prod.split option.split)
  show ?thesis
  proof (cases "ExtractToolUseBlocks (pl_Json L) (ur_body resp)")
    case (Inr bs)
    show ?thesis unfolding r
      by (cases rule: evaluate_cases [of L io bs c q]) (use Inr cls in \<open>auto simp: block_response_def\<close>)
  qed (auto simp: r)
qed

text \<open>C1: No tool call that the proxy extracts and the rules block is released. What it extracts (\<open>answer_blocks\<close>) are
  the tool calls of the first choice of each event of a buffered stream, and those of every choice of a whole
  JSON answer with a status below 400; the other answers are not looked at. If one of the extracted calls is
  blocked by the rules, the client gets the policy error and nothing of the answer; if they cannot be
  read, it gets an error too; a stream that is passed on is passed on byte for byte, after every one of
  its extracted tool calls was judged and none was blocked.\<close>

theorem tool_calls_judged:
  "case answer_blocks L io c p resp of
     Inl err \<Rightarrow> \<exists>t m. snd (respond L io c pre resp p w) = writeProxyError w 502 t m (io_eventID io)
   | Inr bs \<Rightarrow>
       (if \<exists>k < length bs. tool_blocked L io c p k (bs ! k)
        then \<exists>name. snd (respond L io c pre resp p w) =
          writeProxyError w 403 ''policy_violation'' (''tool_use blocked by commandment: '' @ name) (io_eventID io)
        else if streamed c resp
        then \<exists>ls. ur_msgs resp = map Line ls \<and>
             snd (respond L io c pre resp p w) =
               write_upstream io (concat ls) (sendUpstreamHeaders io c resp (ur_StatusCode resp) w)
        else \<exists>n q. respond L io c pre resp p w = respond_body L io c pre resp n q w)"
proof (cases "streamed c resp")
  case True
  show ?thesis using stream_judged [OF True] True by (simp only: if_True)
next
  case False
  have r: "respond L io c pre resp p w = respond_whole L io c pre resp
      ((normalized_response (ur_StatusCode resp))\<lparr>nrs_MappingDegraded := ca_degraded c\<rparr>) p w"
    using False by (simp add: respond_def Let_def)
  show ?thesis
  proof (cases "judged_body resp")
    case True
    with body_judged [OF this] False show ?thesis by (simp only: r answer_blocks_def if_False if_True)
  next
    case nj: False
    have "\<exists>n q. respond L io c pre resp p w = respond_body L io c pre resp n q w"
      unfolding r respond_whole_def Let_def split_beta using nj by auto
    with nj False show ?thesis by (simp add: answer_blocks_def)
  qed
qed

end
