(* ===== verification/Proxy_Connect.thy ===== *)
theory Proxy_Connect
  imports Proxy
begin

text \<open>
  The rest of \<open>internal/adapter/proxy/proxy.go\<close>, with \<open>connect.go\<close> and the certificate cache of
  \<open>ca.go\<close>: building the proxy, replacing what a reload replaces, and the CONNECT method, with
  which a client asks for a tunnel: to a provider's host it is intercepted with a certificate
  made for the host, to any other it is passed through. Making keys and certificates (\<open>issue\<close>),
  loading the CA, dialling, hijacking and the TLS handshake are arguments; the HTTP server is
  not modelled. The proxy with its certificate cache is the pair of the two.
\<close>

section \<open>Certificates\<close>

record Cert =
  ct_host :: string
  ct_notBefore :: time
  ct_notAfter :: time

record CertCache =
  cc_certs :: "(string \<times> Cert) list"
  cc_maxSize :: int

definition NewCertCache :: "int \<Rightarrow> CertCache" where
  "NewCertCache maxSize = \<lparr>cc_certs = [], cc_maxSize = maxSize\<rparr>"

text \<open>\<open>issue\<close> is \<open>None\<close> where a key and a signature could be made, else the error.\<close>

definition generateCert :: "(string \<Rightarrow> error option) \<Rightarrow> time \<Rightarrow> string \<Rightarrow> error + Cert" where
  "generateCert issue now hostname =
     (case issue hostname of
        Some err \<Rightarrow> Err err
      | None \<Rightarrow> Ok \<lparr>ct_host = hostname, ct_notBefore = now, ct_notAfter = now + 24 * 3600 * second\<rparr>)"

definition GetOrCreate :: "(string \<Rightarrow> error option) \<Rightarrow> time \<Rightarrow> string \<Rightarrow> CertCache \<Rightarrow> (error + Cert) \<times> CertCache" where
  "GetOrCreate issue now hostname c =
     (case map_of (cc_certs c) hostname of
        Some cert \<Rightarrow> (Ok cert, c)
      | None \<Rightarrow>
          (let c = (if int (length (cc_certs c)) \<ge> cc_maxSize c then c\<lparr>cc_certs := []\<rparr> else c)
           in case generateCert issue now hostname of
                Inl err \<Rightarrow> (Err err, c)
              | Inr cert \<Rightarrow> (Ok cert, c\<lparr>cc_certs := AList.update hostname cert (cc_certs c)\<rparr>)))"

text \<open>\<open>LoadCA\<close>: the key file must be private to its owner.\<close>

definition LoadCA :: "(string \<Rightarrow> error + nat) \<Rightarrow> (string \<Rightarrow> error + string) \<Rightarrow> (string \<Rightarrow> string \<Rightarrow> error option) \<Rightarrow> string \<Rightarrow> string \<Rightarrow> error option" where
  "LoadCA stat readFile parse certPath keyPath =
     (case stat keyPath of
        Inl err \<Rightarrow> Some (''stat CA key file: '' @ err)
      | Inr perm \<Rightarrow>
          (if perm \<noteq> 0x180 then Some (''CA key file '' @ keyPath @ '' has wrong permissions'')
           else case readFile certPath of
             Inl err \<Rightarrow> Some (''reading CA certificate: '' @ err)
           | Inr certPEM \<Rightarrow>
               (case readFile keyPath of
                  Inl err \<Rightarrow> Some (''reading CA key: '' @ err)
                | Inr keyPEM \<Rightarrow> parse certPEM keyPEM)))"

section \<open>Building and reloading\<close>

definition NewProxy ::
  "Lib \<Rightarrow> (string \<Rightarrow> error + Spec) \<Rightarrow> (string \<Rightarrow> string \<Rightarrow> error option) \<Rightarrow> ProxyConfig \<Rightarrow> Evaluator option \<Rightarrow> Registry option \<Rightarrow>
   AuditEvent list option \<Rightarrow> error + Proxy \<times> CertCache option" where
  "NewProxy L load loadCA cfg evaluator cls events =
     bind_result (buildProviders load (pxc_Providers cfg)) (\<lambda>providers.
     bind_result (NewRouter (pxc_DefaultProvider cfg) providers) (\<lambda>router.
       (case CompilePatterns L (pxc_RedactPatterns cfg) of
          Inl err \<Rightarrow> Err (''proxy config: '' @ err)
        | Inr extraREs \<Rightarrow>
            (let p = \<lparr>px_cfg = cfg, px_evaluator = evaluator,
                   px_classifier = (case cls of Some c \<Rightarrow> c | None \<Rightarrow> NewFallbackRegistry), px_attributor = None,
                   px_router = router, px_providers = providers,
                   px_metrics = \<lparr>mx_ActiveConnections = 0, mx_TotalRequests = 0, mx_TotalBlocked = 0, mx_UpstreamErrors = 0, mx_MappingDegraded = 0\<rparr>,
                   px_rawPayloads = None, px_extraRedactREs = extraREs, px_events = events, px_forwarded = [], px_written = []\<rparr>
             in if pxc_CACert cfg \<noteq> [] \<and> pxc_CAKey cfg \<noteq> [] then
                  (case loadCA (pxc_CACert cfg) (pxc_CAKey cfg) of
                     Some err \<Rightarrow> Err (''load CA for MITM proxy: '' @ err)
                   | None \<Rightarrow> Ok (p, Some (NewCertCache 256)))
                else Ok (p, None)))))"

definition SetEvaluator :: "Evaluator option \<Rightarrow> Proxy \<Rightarrow> Proxy" where
  "SetEvaluator e p = p\<lparr>px_evaluator := e\<rparr>"

definition px_SetClassifier :: "Registry option \<Rightarrow> Proxy \<Rightarrow> Proxy" where
  "px_SetClassifier c p = (case c of None \<Rightarrow> p | Some r \<Rightarrow> p\<lparr>px_classifier := r\<rparr>)"

definition SetRequestAttributor :: "ClawState option \<Rightarrow> Proxy \<Rightarrow> Proxy" where
  "SetRequestAttributor a p = p\<lparr>px_attributor := a\<rparr>"

definition SetRawPayloadWriter :: "(string \<Rightarrow> string \<Rightarrow> error + string) option \<Rightarrow> Proxy \<Rightarrow> Proxy" where
  "SetRawPayloadWriter w p = p\<lparr>px_rawPayloads := w\<rparr>"

definition ReloadMappings :: "(string \<Rightarrow> error + Spec) \<Rightarrow> Proxy \<Rightarrow> error option \<times> Proxy" where
  "ReloadMappings load p =
     (case buildProviders load (pxc_Providers (px_cfg p)) of
        Inl err \<Rightarrow> (Some (''reload mappings: '' @ err), p)
      | Inr newProviders \<Rightarrow>
          (case NewRouter (pxc_DefaultProvider (px_cfg p)) newProviders of
             Inl err \<Rightarrow> (Some (''reload router: '' @ err), p)
           | Inr newRouter \<Rightarrow> (None, p\<lparr>px_providers := newProviders, px_router := newRouter\<rparr>)))"

definition Snapshot :: "Proxy \<Rightarrow> (string \<times> 64 word) list" where
  "Snapshot p =
     [(''active_connections'', mx_ActiveConnections (px_metrics p)), (''proxy_requests_total'', mx_TotalRequests (px_metrics p)),
      (''proxy_blocked_total'', mx_TotalBlocked (px_metrics p)), (''proxy_upstream_errors'', mx_UpstreamErrors (px_metrics p)),
      (''mapping_degraded_count'', mx_MappingDegraded (px_metrics p))]"

definition handleHealth :: "Writer \<Rightarrow> Writer" where
  "handleHealth w = WriteBody (json_print (json_map [(''ok'', JBool True)]) @ [CHR 0x0A]) (SetHeader ''Content-Type'' ''application/json'' w)"

section \<open>CONNECT\<close>

text \<open>\<open>net.SplitHostPort\<close>'s host.\<close>

definition index_of :: "char \<Rightarrow> string \<Rightarrow> nat option" where
  "index_of c s = (if c \<in> set s then Some (length (takeWhile (\<lambda>x. x \<noteq> c) s)) else None)"

definition split_host_port :: "string \<Rightarrow> string option" where
  "split_host_port s =
     (case index_of (CHR '':'') (rev s) of
        None \<Rightarrow> None
      | Some r \<Rightarrow>
          (let i = length s - 1 - r in
           if hd s = CHR ''['' then
             (case index_of (CHR '']'') s of
                None \<Rightarrow> None
              | Some e \<Rightarrow>
                  (if e + 1 = i \<and> CHR ''['' \<notin> set (drop 1 s) \<and> CHR '']'' \<notin> set (drop (e + 1) s)
                   then Some (take (e - 1) (drop 1 s)) else None))
           else if CHR '':'' \<in> set (take i s) \<or> CHR ''['' \<in> set s \<or> CHR '']'' \<in> set s then None
           else Some (take i s)))"

record ConnectIo =
  ci_now :: time
  ci_hijack :: "error option"
  ci_issue :: "string \<Rightarrow> error option"
  ci_dial :: "string \<Rightarrow> error option"

text \<open>What becomes of the connection. An intercepted one is served by \<open>handleProxy\<close>, request by request.\<close>

datatype Connected =
  Intercepted string Cert
| Tunnelled string
| BadGateway error
| Dropped
| Panicked

definition mitmConnect :: "ConnectIo \<Rightarrow> string \<Rightarrow> CertCache option \<Rightarrow> Connected \<times> CertCache option" where
  "mitmConnect io hostname cache =
     (case cache of
        None \<Rightarrow> (Panicked, None)
      | Some c \<Rightarrow>
          (case GetOrCreate (ci_issue io) (ci_now io) hostname c of
             (Inl err, c) \<Rightarrow> (Dropped, Some c)
           | (Inr cert, c) \<Rightarrow> (Intercepted hostname cert, Some c)))"

definition tunnelConnect :: "ConnectIo \<Rightarrow> string \<Rightarrow> Connected" where
  "tunnelConnect io targetAddr =
     (let targetAddr = (if CHR '':'' \<notin> set targetAddr then targetAddr @ '':443'' else targetAddr)
      in case ci_dial io targetAddr of
           Some err \<Rightarrow> BadGateway (''502 Bad Gateway: '' @ err)
         | None \<Rightarrow> (if ci_hijack io \<noteq> None then Dropped else Tunnelled targetAddr))"

text \<open>\<open>urlHost\<close> is the request's \<open>URL.Host\<close>, \<open>hostname\<close> what a parsed URL's \<open>Hostname\<close> gives.\<close>

definition handleConnect ::
  "(string \<Rightarrow> string option) \<Rightarrow> ConnectIo \<Rightarrow> string \<Rightarrow> string \<Rightarrow> Proxy \<times> CertCache option \<Rightarrow> Connected \<times> Proxy \<times> CertCache option" where
  "handleConnect hostname io reqHost urlHost pc =
     (let p = count_active 1 (count_request (fst pc));
          host = (if reqHost = [] then urlHost else reqHost);
          name = (case split_host_port host of Some h \<Rightarrow> h | None \<Rightarrow> host)
      in if ResolveByDomain split_host_port hostname (px_router p) name \<noteq> None then
           (if ci_hijack io \<noteq> None then (Dropped, count_active (-1) p, snd pc)
            else let (r, cache) = mitmConnect io name (snd pc) in (r, count_active (-1) p, cache))
         else (tunnelConnect io host, count_active (-1) p, snd pc))"

section \<open>The certificate cache\<close>

definition cache_ok :: "CertCache \<Rightarrow> bool" where
  "cache_ok c = (distinct (map fst (cc_certs c)) \<and> list_all (\<lambda>(h, cert). ct_host cert = h) (cc_certs c) \<and>
     int (length (cc_certs c)) \<le> max (cc_maxSize c) 1)"

lemma NewCertCache_ok: "cache_ok (NewCertCache n)"
  by (simp add: cache_ok_def NewCertCache_def)

lemma length_update_absent: "k \<notin> fst ` set al \<Longrightarrow> AList.update k v al = al @ [(k, v)]"
  by (induction al) auto

lemma cached_host: "cache_ok c \<Longrightarrow> map_of (cc_certs c) h = Some cert \<Longrightarrow> ct_host cert = h"
  by (auto simp: cache_ok_def list_all_iff dest: map_of_SomeD)

lemma GetOrCreate_lemma:
  assumes "cache_ok c" "GetOrCreate issue now h c = (r, c')"
  shows "cache_ok c' \<and> cc_maxSize c' = cc_maxSize c \<and>
    (case r of Inl err \<Rightarrow> map_of (cc_certs c') h = None | Inr cert \<Rightarrow> ct_host cert = h \<and> map_of (cc_certs c') h = Some cert)"
proof (cases "map_of (cc_certs c) h")
  case (Some cert)
  with assms cached_host show ?thesis by (auto simp: GetOrCreate_def)
next
  case None
  then have "h \<notin> fst ` set (cc_certs c)" by (simp add: map_of_eq_None_iff)
  then have new: "AList.update h cert (cc_certs c) = cc_certs c @ [(h, cert)]" for cert by (rule length_update_absent)
  have fresh: "h \<notin> fst ` set (cc_certs c)" using None by (simp add: map_of_eq_None_iff)
  show ?thesis
    using assms fresh None
    by (cases "issue h") (auto simp: GetOrCreate_def generateCert_def Let_def cache_ok_def new map_add_def split: if_splits)
qed

text \<open>The certificate cache hands out certificates for the host that was asked for, stays within its size and
  keeps what it hands out: a host in the cache gets the same certificate at every later time, so
  the certificate, made for 24 hours, is served after it has expired.\<close>

theorem GetOrCreate_never_renews:
  assumes "cache_ok c" "GetOrCreate issue now h c = (Inr cert, c')" "now + 24 * 3600 * second < later"
    "map_of (cc_certs c) h = None"
  shows "cache_ok c' \<and> ct_host cert = h \<and> GetOrCreate issue' later h c' = (Inr cert, c') \<and> ct_notAfter cert < later"
proof -
  from GetOrCreate_lemma [OF assms(1,2)] have c': "cache_ok c'" "ct_host cert = h" "map_of (cc_certs c') h = Some cert" by auto
  from assms(2,4) have "ct_notAfter cert = now + 24 * 3600 * second"
    by (auto simp: GetOrCreate_def generateCert_def Let_def split: option.splits)
  with c' assms(3) show ?thesis by (simp add: GetOrCreate_def)
qed

theorem GetOrCreate_never_renews_witness:
  "\<exists>cert c. GetOrCreate (\<lambda>_. None) 0 ''h'' (NewCertCache 256) = (Inr cert, c) \<and>
     GetOrCreate (\<lambda>_. None) (86401 * second) ''h'' c = (Inr cert, c) \<and> ct_notAfter cert < 86401 * second"
proof -
  let ?cert = "\<lparr>ct_host = ''h'', ct_notBefore = 0, ct_notAfter = 0 + 24 * 3600 * second\<rparr>"
  let ?c = "(NewCertCache 256)\<lparr>cc_certs := [(''h'', ?cert)]\<rparr>"
  have made: "GetOrCreate (\<lambda>_. None) 0 ''h'' (NewCertCache 256) = (Inr ?cert, ?c)"
    by (simp add: GetOrCreate_def generateCert_def NewCertCache_def)
  have "(0 :: int) + 24 * 3600 * second < 86401 * second" "map_of (cc_certs (NewCertCache 256)) ''h'' = None"
    by (simp_all add: second_def NewCertCache_def)
  from GetOrCreate_never_renews [OF NewCertCache_ok made this] made show ?thesis by blast
qed

section \<open>Reloading the mappings\<close>

lemma buildProviders_names: "buildProviders load pcs = Inr ps \<Longrightarrow>
   map fst ps = map fst pcs \<and> list_all (\<lambda>(name, rt). load name = Inr (prt_Mapping rt) \<and> prt_Name rt = name) ps"
proof (induction pcs arbitrary: ps)
  case (Cons x pcs)
  then show ?case
    by (cases x) (auto simp: Let_def bind_result_def split: if_splits sum.splits)
qed simp

lemma NewRouter_providers: "NewRouter d ps = Inr r \<Longrightarrow> rt_providers r = ps \<and> rt_defaultProvider r = d \<and> map_of ps d \<noteq> None"
  by (auto simp: NewRouter_def split: if_splits option.splits)

text \<open>Reloading the mappings is all or nothing. If any mapping does not load, or the providers make no router,
  the proxy is as it was; otherwise it differs in its providers and its router only, which agree,
  hold every configured provider with the mapping now loaded, and the default one among them.\<close>

theorem ReloadMappings_atomic:
  "case ReloadMappings load p of
     (Some err, p') \<Rightarrow> p' = p
   | (None, p') \<Rightarrow>
       p' = p\<lparr>px_providers := px_providers p', px_router := px_router p'\<rparr> \<and> rt_providers (px_router p') = px_providers p' \<and>
       map fst (px_providers p') = map fst (pxc_Providers (px_cfg p)) \<and>
       list_all (\<lambda>(name, rt). load name = Inr (prt_Mapping rt) \<and> prt_Name rt = name) (px_providers p') \<and>
       map_of (px_providers p') (rt_defaultProvider (px_router p')) \<noteq> None"
proof (cases "buildProviders load (pxc_Providers (px_cfg p))")
  case (Inr ps)
  show ?thesis
  proof (cases "NewRouter (pxc_DefaultProvider (px_cfg p)) ps")
    case (Inr r)
    from buildProviders_names [OF \<open>buildProviders load (pxc_Providers (px_cfg p)) = Inr ps\<close>] NewRouter_providers [OF Inr]
    show ?thesis by (simp add: ReloadMappings_def Inr \<open>buildProviders load (pxc_Providers (px_cfg p)) = Inr ps\<close>)
  qed (simp add: ReloadMappings_def Inr)
qed (simp add: ReloadMappings_def)

section \<open>Interception\<close>

definition connect_name :: "string \<Rightarrow> string \<Rightarrow> string" where
  "connect_name reqHost urlHost =
     (let host = (if reqHost = [] then urlHost else reqHost) in case split_host_port host of Some h \<Rightarrow> h | None \<Rightarrow> host)"

definition tunnelled :: "Connected \<Rightarrow> bool" where
  "tunnelled r = (case r of Tunnelled _ \<Rightarrow> True | BadGateway _ \<Rightarrow> True | _ \<Rightarrow> False)"

definition provider_host :: "(string \<Rightarrow> string option) \<Rightarrow> Proxy \<Rightarrow> string \<Rightarrow> bool" where
  "provider_host hostname p h = list_ex (\<lambda>(_, rt). hostname (pcf_UpstreamBaseURL (prt_Config rt)) = Some h) (rt_providers (px_router p))"

lemma domain_scan_iff: "domain_scan hostname h ps = None \<longleftrightarrow> \<not> list_ex (\<lambda>(_, rt). hostname (pcf_UpstreamBaseURL (prt_Config rt)) = Some h) ps"
  by (induction ps) (auto split: option.splits if_splits)

lemma router_kept [simp]: "px_router (count_active n (count_request p)) = px_router p"
  by (simp add: count_active_def count_request_def)

lemma counted: "count_active (-1) (count_active 1 (count_request p)) = count_request p"
  by (simp add: count_active_def count_request_def)

text \<open>C32: A tunnel is intercepted exactly where its name is written as in a provider's configuration. For a name without a port
  or brackets in it, CONNECT reaches for the outside exactly when the name is not, letter for letter, the host of
  a provider's URL; for a name that is, it intercepts with a certificate of that name, or makes no
  connection; and the request is counted once, with the active connections as before. The comparison
  keeps the case of the letters: \<open>connect_case_bypass\<close> shows a provider's host in capitals tunnelled.\<close>

theorem handleConnect_spec:
  assumes "cache_ok c" "name = connect_name reqHost urlHost" "split_host_port name = None" "ci_hijack io = None"
  shows "case handleConnect hostname io reqHost urlHost (p, Some c) of (r, p', c') \<Rightarrow>
     p' = count_request p \<and> (case c' of None \<Rightarrow> False | Some c' \<Rightarrow> cache_ok c') \<and>
     tunnelled r = (\<not> provider_host hostname p name) \<and>
     (if provider_host hostname p name
      then (case r of Intercepted h cert \<Rightarrow> h = name \<and> ct_host cert = name | _ \<Rightarrow> r = Dropped) else c' = Some c)"
proof -
  have known: "(ResolveByDomain split_host_port hostname (px_router p) name = None) = (\<not> provider_host hostname p name)"
    using domain_scan_iff [of hostname name "rt_providers (px_router p)"]
    by (auto simp: ResolveByDomain_def assms(3) provider_host_def)
  obtain r c' where g: "GetOrCreate (ci_issue io) (ci_now io) name c = (r, c')"
    by (cases "GetOrCreate (ci_issue io) (ci_now io) name c")
  note lem = GetOrCreate_lemma [OF assms(1) g]
  have name: "(case split_host_port (if reqHost = [] then urlHost else reqHost) of Some h \<Rightarrow> h
      | None \<Rightarrow> if reqHost = [] then urlHost else reqHost) = name"
    by (simp add: assms(2) connect_name_def Let_def)
  show ?thesis
  proof (cases "provider_host hostname p name")
    case True
    with known obtain rt where "ResolveByDomain split_host_port hostname (px_router p) name = Some rt" by auto
    then show ?thesis
      using lem True by (cases r) (simp_all add: handleConnect_def Let_def name mitmConnect_def g assms(4) counted tunnelled_def)
  next
    case False
    with known have "ResolveByDomain split_host_port hostname (px_router p) name = None" by simp
    then show ?thesis
      using assms(1) False by (simp add: handleConnect_def Let_def name counted tunnelled_def tunnelConnect_def assms(4) split: option.splits)
  qed
qed

definition sample_connect_proxy :: Proxy where
  "sample_connect_proxy =
     \<lparr>px_cfg = \<lparr>pxc_Listen = [], pxc_DefaultProvider = ''openai'', pxc_UpstreamTimeout = 0, pxc_StreamIdleTimeout = 0,
        pxc_StreamMaxBuffer = 0, pxc_MaxRequestBody = 0, pxc_RedactEgressDefault = False, pxc_CACert = [], pxc_CAKey = [],
        pxc_MappingsDir = [], pxc_MappingStrictMode = False, pxc_Providers = [], pxc_Pricing = [], pxc_RedactPatterns = []\<rparr>,
      px_evaluator = None, px_classifier = NewFallbackRegistry, px_attributor = None,
      px_router = \<lparr>rt_defaultProvider = ''openai'', rt_providers = [(''openai'', sample_provider)]\<rparr>,
      px_providers = [(''openai'', sample_provider)],
      px_metrics = \<lparr>mx_ActiveConnections = 0, mx_TotalRequests = 0, mx_TotalBlocked = 0, mx_UpstreamErrors = 0, mx_MappingDegraded = 0\<rparr>,
      px_rawPayloads = None, px_extraRedactREs = [], px_events = None, px_forwarded = [], px_written = []\<rparr>"

definition sample_connect_io :: ConnectIo where
  "sample_connect_io = \<lparr>ci_now = 0, ci_hijack = None, ci_issue = (\<lambda>_. None), ci_dial = (\<lambda>_. None)\<rparr>"

text \<open>A URL's host, for URLs of the form \<open>https://host\<close>.\<close>

definition sample_hostname :: "string \<Rightarrow> string option" where
  "sample_hostname u = (if has_prefix u ''https://'' then Some (drop 8 u) else None)"

theorem handleConnect_spec_witness:
  "tunnelled (fst (handleConnect sample_hostname sample_connect_io ''h:443'' [] (sample_connect_proxy, Some (NewCertCache 1)))) =
     (\<not> provider_host sample_hostname sample_connect_proxy ''h'')"
proof -
  have "''h'' = connect_name ''h:443'' []" "split_host_port ''h'' = None" by code_simp+
  moreover have "ci_hijack sample_connect_io = None" by (simp add: sample_connect_io_def)
  ultimately show ?thesis
    using handleConnect_spec [OF NewCertCache_ok [of 1], of "''h''" "''h:443''" "[]" sample_connect_io sample_connect_proxy sample_hostname]
    by (cases "handleConnect sample_hostname sample_connect_io ''h:443'' [] (sample_connect_proxy, Some (NewCertCache 1))") simp
qed

text \<open>The comparison of hosts minds the case of letters, which names of hosts do not have: a CONNECT to a
  provider's host written in capitals is passed through, past the proxy's rules.\<close>

theorem connect_case_bypass:
  "provider_host sample_hostname sample_connect_proxy ''api.openai.com'' \<and> to_lower ''API.OPENAI.COM'' = ''api.openai.com'' \<and>
   fst (handleConnect sample_hostname sample_connect_io ''API.OPENAI.COM:443'' [] (sample_connect_proxy, Some (NewCertCache 1))) =
     Tunnelled ''API.OPENAI.COM:443''"
  by code_simp

end
