(* ===== verification/Discovery.thy ===== *)
theory Discovery
  imports Go_Time Go_Path
begin

text \<open>
  \<open>internal/discovery\<close>: the registry of the agents that were seen, one set of identifiers per
  source, and the two scanners that fill it. What the scanners read (the entries of
  \<open>/proc\<close>, the files below a log path) and the clock are arguments. The theory proves what the
  registry holds after any sequence of reports, and that an agent two sources report is lost
  when one of them stops reporting it.
\<close>

section \<open>The registry\<close>

record AgentInfo =
  ai_ID :: string
  ai_Type :: string
  ai_PID :: int
  ai_Status :: string
  ai_SessionFile :: string
  ai_LastActivityAt :: time
  ai_DiscoveredAt :: time

record AgentRegistry =
  ar_agents :: "string \<rightharpoonup> AgentInfo"
  ar_sources :: "string \<rightharpoonup> string set"

definition NewAgentRegistry :: AgentRegistry where
  "NewAgentRegistry = \<lparr>ar_agents = Map.empty, ar_sources = Map.empty\<rparr>"

definition activity_window :: duration where "activity_window = 5 * 60 * second"

definition normalizeAgent :: "time \<Rightarrow> AgentInfo \<Rightarrow> AgentInfo" where
  "normalizeAgent now a =
     (let a = (if ai_DiscoveredAt a = zero_time then a\<lparr>ai_DiscoveredAt := now\<rparr> else a)
      in if ai_PID a = 0 \<and> ai_LastActivityAt a \<noteq> zero_time
         then (if now - ai_LastActivityAt a < activity_window then a\<lparr>ai_Status := ''active''\<rparr>
               else a\<lparr>ai_Status := ''inactive''\<rparr>)
         else a)"

definition ReplaceSource :: "time \<Rightarrow> string \<Rightarrow> AgentInfo list \<Rightarrow> AgentRegistry \<Rightarrow> AgentRegistry" where
  "ReplaceSource now source agents r =
     (let prev = (case ar_sources r source of None \<Rightarrow> {} | Some ids \<Rightarrow> ids);
          nxt = set (map ai_ID agents);
          known = fold (\<lambda>a m. m(ai_ID a \<mapsto> normalizeAgent now a)) agents (ar_agents r)
      in \<lparr>ar_agents = (\<lambda>i. if i \<in> prev \<and> i \<notin> nxt then None else known i),
          ar_sources = (ar_sources r)(source \<mapsto> nxt)\<rparr>)"

definition UpdateAgents :: "time \<Rightarrow> AgentInfo list \<Rightarrow> AgentRegistry \<Rightarrow> AgentRegistry" where
  "UpdateAgents now agents r = ReplaceSource now ''scanner'' agents r"

definition GetAgent :: "AgentRegistry \<Rightarrow> string \<Rightarrow> AgentInfo option" where
  "GetAgent r i = ar_agents r i"

definition CountAgents :: "AgentRegistry \<Rightarrow> nat" where
  "CountAgents r = card (dom (ar_agents r))"

section \<open>The scanners\<close>

definition hex_char :: "char \<Rightarrow> bool" where
  "hex_char c = ((CHR ''0'' \<le> c \<and> c \<le> CHR ''9'') \<or> (CHR ''a'' \<le> c \<and> c \<le> CHR ''f'') \<or> (CHR ''A'' \<le> c \<and> c \<le> CHR ''F''))"

text \<open>The pattern of a session identifier has the fixed length 36 and is anchored at the end, so
  it can only match the last 36 bytes.\<close>

definition uuid_shape :: "string \<Rightarrow> bool" where
  "uuid_shape s = (length s = 36 \<and>
     list_all (\<lambda>(i, c). if i \<in> {8, 13, 18, 23} then c = CHR ''-'' else hex_char c) (enumerate 0 s))"

definition codexSessionIDPattern_find :: "string \<Rightarrow> string" where
  "codexSessionIDPattern_find s =
     (let tail = drop (length s - 36) s in if uuid_shape tail then tail else [])"

definition path_base :: "string \<Rightarrow> string" where
  "path_base p =
     (if p = [] then ''.''
      else let p = rev (dropWhile (\<lambda>c. c = CHR ''/'') (rev p))
           in if p = [] then ''/'' else last (split_at (CHR ''/'') p))"

definition extractSessionIDForAgent :: "string \<Rightarrow> string \<Rightarrow> string" where
  "extractSessionIDForAgent path agentType =
     (let sessionID = trim_suffix (path_base path) ''.jsonl''
      in if agentType = ''codex-cli''
         then (let match = codexSessionIDPattern_find sessionID in if match \<noteq> [] then to_lower match else sessionID)
         else sessionID)"

definition detectAgentType :: "string \<Rightarrow> string" where
  "detectAgentType path =
     (if contains path ''.claude'' then ''claude-code''
      else if contains path ''.codex'' then ''codex-cli'' else ''unknown'')"

definition sessionStatus :: "time \<Rightarrow> time \<Rightarrow> string" where
  "sessionStatus now modTime = (if now - modTime < activity_window then ''active'' else ''inactive'')"

definition agentIDFromPID :: "string \<Rightarrow> int \<Rightarrow> string" where
  "agentIDFromPID agentType pid = agentType @ ''/pid-'' @ show_int pid"

text \<open>A file that \<open>filepath.Walk\<close> visits.\<close>

record WalkEntry =
  we_path :: string
  we_isDir :: bool
  we_failed :: bool
  we_modTime :: time

fun scan_files :: "time \<Rightarrow> WalkEntry list \<Rightarrow> string set \<Rightarrow> AgentInfo list" where
  "scan_files now [] seen = []"
| "scan_files now (f # fs) seen =
     (if we_failed f \<or> we_isDir f \<or> \<not> has_suffix (we_path f) ''.jsonl'' then scan_files now fs seen
      else
        let agentType = detectAgentType (we_path f);
            sessionID = extractSessionIDForAgent (we_path f) agentType;
            agentSessionID = agentType @ ''/'' @ sessionID
        in if sessionID = [] \<or> agentSessionID \<in> seen then scan_files now fs seen
           else \<lparr>ai_ID = agentSessionID, ai_Type = agentType, ai_PID = 0, ai_Status = sessionStatus now (we_modTime f),
                 ai_SessionFile = we_path f, ai_LastActivityAt = zero_time, ai_DiscoveredAt = now\<rparr>
                # scan_files now fs (insert agentSessionID seen))"

definition ScanLogPaths :: "time \<Rightarrow> (string \<Rightarrow> WalkEntry list) \<Rightarrow> string list \<Rightarrow> AgentInfo list" where
  "ScanLogPaths now walk logPaths = scan_files now (concat (map walk logPaths)) {}"

text \<open>An entry of \<open>/proc\<close> whose name is a number, with its command line if it could be read.\<close>

definition scan_process :: "time \<Rightarrow> string list \<Rightarrow> int \<times> string option \<Rightarrow> AgentInfo option" where
  "scan_process now signatures entry =
     (case entry of
        (pid, None) \<Rightarrow> None
      | (pid, Some cmdline) \<Rightarrow>
          (let cmdStr = trim_space (replace_char (CHR 0x00) '' '' cmdline)
           in map_option (\<lambda>sig. \<lparr>ai_ID = agentIDFromPID sig pid, ai_Type = sig, ai_PID = pid, ai_Status = ''active'',
                  ai_SessionFile = [], ai_LastActivityAt = zero_time, ai_DiscoveredAt = now\<rparr>)
                (List.find (\<lambda>sig. contains (to_lower cmdStr) (to_lower sig)) signatures)))"

definition ScanProcesses :: "time \<Rightarrow> string list \<Rightarrow> (int \<times> string option) list \<Rightarrow> AgentInfo list" where
  "ScanProcesses now signatures entries = List.map_filter (scan_process now signatures) entries"

section \<open>What the registry holds\<close>

lemma register_agents:
  "fold (\<lambda>a m. m(ai_ID a \<mapsto> normalizeAgent now a)) agents m i =
     (case List.find (\<lambda>a. ai_ID a = i) (rev agents) of Some a \<Rightarrow> Some (normalizeAgent now a) | None \<Rightarrow> m i)"
  by (induction agents rule: rev_induct) auto

lemma find_None_ids: "List.find (\<lambda>a. ai_ID a = i) (rev agents) = None \<longleftrightarrow> i \<notin> set (map ai_ID agents)"
  by (auto simp: find_None_iff)

text \<open>A report: when, by whom and what. The last report of a source in a history.\<close>

type_synonym report = "time \<times> string \<times> AgentInfo list"

definition replay :: "report list \<Rightarrow> AgentRegistry" where
  "replay hist = fold (\<lambda>(now, source, agents). ReplaceSource now source agents) hist NewAgentRegistry"

definition last_report :: "string \<Rightarrow> report list \<Rightarrow> report option" where
  "last_report source hist = List.find (\<lambda>(_, s, _). s = source) (rev hist)"

definition reported :: "string \<Rightarrow> report \<Rightarrow> AgentInfo option" where
  "reported i rep = (case rep of (now, _, agents) \<Rightarrow>
     map_option (normalizeAgent now) (List.find (\<lambda>a. ai_ID a = i) (rev agents)))"

lemma replay_snoc: "replay (hist @ [(now, source, agents)]) = ReplaceSource now source agents (replay hist)"
  by (simp add: replay_def)

lemma replay_sources:
  "ar_sources (replay hist) source = map_option (\<lambda>(_, _, agents). set (map ai_ID agents)) (last_report source hist)"
proof (induction hist rule: rev_induct)
  case (snoc rep hist)
  obtain now s agents where "rep = (now, s, agents)" by (cases rep)
  with snoc show ?case by (simp add: replay_snoc ReplaceSource_def Let_def last_report_def)
qed (simp add: replay_def NewAgentRegistry_def last_report_def)

lemma last_report_mem: "last_report s hist = Some (now, s', agents) \<Longrightarrow> s' = s \<and> (now, s, agents) \<in> set hist"
  unfolding last_report_def find_Some_iff by (auto simp del: rev_nth) (metis length_rev nth_mem set_rev)

text \<open>The registry is the last word of every source. When every identifier has one source that
  reports it, then after any sequence of reports an agent is in the registry exactly if the
  last report of its source lists it, and it is there as that report last describes it, with
  its discovery time set and its status computed from its last activity.\<close>

theorem registry_last_word:
  assumes "\<forall>(now, source, agents) \<in> set hist. \<forall>a \<in> set agents. owner (ai_ID a) = source"
  shows "GetAgent (replay hist) i = Option.bind (last_report (owner i) hist) (reported i)"
  using assms
proof (induction hist rule: rev_induct)
  case (snoc rep hist)
  obtain now s agents where rep: "rep = (now, s, agents)" by (cases rep)
  from snoc have IH: "ar_agents (replay hist) i = Option.bind (last_report (owner i) hist) (reported i)"
    by (simp add: GetAgent_def)
  from snoc.prems rep have own: "owner (ai_ID a) = s" if "a \<in> set agents" for a using that by auto
  show ?case
  proof (cases "owner i = s")
    case True
    have "ar_agents (replay hist) i = None" if "i \<notin> (case ar_sources (replay hist) s of None \<Rightarrow> {} | Some ids \<Rightarrow> ids)"
      using that True find_None_ids [of i] unfolding IH replay_sources
      by (auto simp: reported_def split: option.splits prod.splits)
    with True show ?thesis
      by (auto simp: rep replay_snoc ReplaceSource_def Let_def GetAgent_def register_agents last_report_def reported_def
          find_None_ids split: option.split)
  next
    case False
    with own have "i \<notin> set (map ai_ID agents)" by auto
    moreover have "i \<notin> (case ar_sources (replay hist) s of None \<Rightarrow> {} | Some ids \<Rightarrow> ids)"
    proof
      assume "i \<in> (case ar_sources (replay hist) s of None \<Rightarrow> {} | Some ids \<Rightarrow> ids)"
      then obtain now' agents' where "(now', s, agents') \<in> set hist" "i \<in> ai_ID ` set agents'"
        unfolding replay_sources by (auto split: option.splits dest: last_report_mem)
      with \<open>i \<in> ai_ID ` set agents'\<close> snoc.prems False show False by auto
    qed
    ultimately show ?thesis
      using False IH find_None_ids [of i agents]
      by (simp add: rep replay_snoc ReplaceSource_def Let_def GetAgent_def register_agents last_report_def)
  qed
qed (simp add: replay_def NewAgentRegistry_def last_report_def GetAgent_def)

text \<open>A report of two agents by one source and of a third by another, and the first withdrawn.\<close>

definition sample_agent :: "string \<Rightarrow> AgentInfo" where
  "sample_agent i = \<lparr>ai_ID = i, ai_Type = ''codex'', ai_PID = 7, ai_Status = ''active'', ai_SessionFile = [],
     ai_LastActivityAt = zero_time, ai_DiscoveredAt = zero_time\<rparr>"

definition sample_reports :: "report list" where
  "sample_reports = [(5, ''scanner'', [sample_agent ''a'', sample_agent ''b'']), (6, ''gateway'', [sample_agent ''c'']),
     (9, ''scanner'', [sample_agent ''b''])]"

theorem registry_last_word_witness:
  "GetAgent (replay sample_reports) ''a'' = None \<and>
   map_option ai_DiscoveredAt (GetAgent (replay sample_reports) ''b'') = Some 9 \<and>
   map_option ai_DiscoveredAt (GetAgent (replay sample_reports) ''c'') = Some 6"
  using registry_last_word [of sample_reports "\<lambda>i. if i = ''c'' then ''gateway'' else ''scanner''" "''a''"]
    registry_last_word [of sample_reports "\<lambda>i. if i = ''c'' then ''gateway'' else ''scanner''" "''b''"]
    registry_last_word [of sample_reports "\<lambda>i. if i = ''c'' then ''gateway'' else ''scanner''" "''c''"]
  by (simp add: sample_reports_def sample_agent_def last_report_def reported_def normalizeAgent_def)

text \<open>An agent that two sources report is dropped when one of them stops reporting it, although the
  other still does.\<close>

lemma shared_agent_lost:
  "let r = ReplaceSource 2 ''scanner'' [] (replay [(0, ''scanner'', [sample_agent ''a'']), (1, ''gateway'', [sample_agent ''a''])])
   in GetAgent r ''a'' = None \<and> ar_sources r ''gateway'' = Some {''a''}"
  by (simp add: replay_def ReplaceSource_def GetAgent_def NewAgentRegistry_def sample_agent_def Let_def)

lemma uuid_sample:
  "extractSessionIDForAgent ''/h/.codex/s/rollout-2024-0F0e0d0c-1111-2222-3333-444455556666.jsonl'' ''codex-cli'' =
     ''0f0e0d0c-1111-2222-3333-444455556666''"
  by code_simp

end
