(* ===== verification/Raw_Payload.thy ===== *)
theory Raw_Payload
  imports Go_Time Go_Path "HOL-Library.AList"
begin

text \<open>
  \<open>internal/audit/rawpayload.go\<close>: the request bodies kept beside the audit trail, one
  compressed file per event, and the collection that enforces the retention and the quota. The
  directory is an association list from file names to contents, in the order \<open>ReadDir\<close> lists
  it. Compression (zstd) is a pair of arguments, and so is which removals succeed.
\<close>

section \<open>State\<close>

record RawPayloadManager =
  rp_dir :: string
  rp_maxSize :: int
  rp_quota :: int
  rp_retention :: duration

definition NewRawPayloadManager :: "string \<Rightarrow> int \<Rightarrow> int \<Rightarrow> int \<Rightarrow> RawPayloadManager" where
  "NewRawPayloadManager dir maxSize quota retentionDays =
     \<lparr>rp_dir = dir, rp_maxSize = maxSize, rp_quota = quota, rp_retention = retentionDays * 24 * 3600 * second\<rparr>"

record RawFile =
  rf_content :: string
  rf_modTime :: time
  rf_isDir :: bool

type_synonym RawDir = "(string \<times> RawFile) list"

definition sanitizeEventRef :: "string \<Rightarrow> string" where
  "sanitizeEventRef ref = replace_char (CHR ''/'') ''_'' (replace_char (CHR ''/'') ''_'' (trim_space ref))"

section \<open>Writing and reading\<close>

text \<open>A negative size limit makes the slice expression panic: no result.\<close>

definition WriteRaw ::
  "(string \<Rightarrow> string) \<Rightarrow> RawPayloadManager \<Rightarrow> time \<Rightarrow> RawDir \<Rightarrow> string \<Rightarrow> string \<Rightarrow> (string \<times> RawDir) option" where
  "WriteRaw compress m now d eventID payload =
     (if trim_space eventID = [] \<or> payload = [] then Some ([], d)
      else if int (length payload) > rp_maxSize m \<and> rp_maxSize m < 0 then None
      else
        let payload = (if int (length payload) > rp_maxSize m then take (nat (rp_maxSize m)) payload else payload);
            ref = sanitizeEventRef eventID
        in Some (ref, AList.update (ref @ ''.zst'') \<lparr>rf_content = compress payload, rf_modTime = now, rf_isDir = False\<rparr> d))"

definition ReadRaw :: "(string \<Rightarrow> error + string) \<Rightarrow> RawDir \<Rightarrow> string \<Rightarrow> error + string" where
  "ReadRaw decompress d ref =
     (if trim_space ref = [] then Err ''raw payload ref required''
      else case map_of d (sanitizeEventRef ref @ ''.zst'') of
        None \<Rightarrow> Err ''no such file or directory''
      | Some f \<Rightarrow> decompress (rf_content f))"

section \<open>Collecting\<close>

text \<open>The files that are looked at, and their sizes. \<open>removes p\<close> says whether \<open>os.Remove\<close> works.\<close>

definition raw_items :: "RawDir \<Rightarrow> RawDir" where
  "raw_items d = filter (\<lambda>(name, f). \<not> rf_isDir f \<and> has_suffix name ''.zst'') d"

definition raw_total :: "RawDir \<Rightarrow> int" where
  "raw_total items = sum_list (map (\<lambda>(_, f). int (length (rf_content f))) items)"

definition remove_file :: "(string \<Rightarrow> bool) \<Rightarrow> string \<Rightarrow> RawDir \<Rightarrow> bool \<times> RawDir" where
  "remove_file removes name d =
     (if removes name \<and> map_of d name \<noteq> None then (True, AList.delete name d) else (False, d))"

text \<open>The first loop: whatever \<open>Remove\<close> answers, the size of an expired file is taken off the total.\<close>

fun remove_expired :: "(string \<Rightarrow> bool) \<Rightarrow> time \<Rightarrow> RawDir \<Rightarrow> RawDir \<Rightarrow> int \<Rightarrow> RawDir \<times> int" where
  "remove_expired removes cutoff [] d tot = (d, tot)"
| "remove_expired removes cutoff ((name, f) # items) d tot =
     (if rf_modTime f < cutoff
      then remove_expired removes cutoff items (snd (remove_file removes name d)) (tot - int (length (rf_content f)))
      else remove_expired removes cutoff items d tot)"

text \<open>The second loop, over the items by modification time (files of the same time in the order they
  were listed; \<open>sort.Slice\<close> leaves that order open).\<close>

fun remove_oldest :: "(string \<Rightarrow> bool) \<Rightarrow> int \<Rightarrow> RawDir \<Rightarrow> RawDir \<Rightarrow> int \<Rightarrow> RawDir" where
  "remove_oldest removes quota [] d tot = d"
| "remove_oldest removes quota ((name, f) # items) d tot =
     (if tot \<le> quota then d
      else case remove_file removes name d of
        (True, d') \<Rightarrow> remove_oldest removes quota items d' (tot - int (length (rf_content f)))
      | (False, d') \<Rightarrow> remove_oldest removes quota items d' tot)"

definition GC :: "(string \<Rightarrow> bool) \<Rightarrow> RawPayloadManager \<Rightarrow> time \<Rightarrow> RawDir \<Rightarrow> RawDir" where
  "GC removes m now d =
     (let items = raw_items d;
          (d, tot) = remove_expired removes (now - rp_retention m) items d (raw_total items)
      in if tot \<le> rp_quota m then d
         else remove_oldest removes (rp_quota m) (sort_key (\<lambda>kv. rf_modTime (snd kv)) items) d tot)"

section \<open>Round trip\<close>

lemma sanitize_no_slash: "CHR ''/'' \<notin> set (sanitizeEventRef ref)"
  by (auto simp: sanitizeEventRef_def replace_char_def split: if_splits)

lemma trim_space_keeps: "trim_space s = [] \<or> sanitizeEventRef s \<noteq> []"
proof -
  have "replace_char c ''_'' s = [] \<longleftrightarrow> s = []" for c s by (cases s) (auto simp: replace_char_def)
  then show ?thesis by (simp add: sanitizeEventRef_def)
qed

text \<open>A payload comes back under its event's identifier, cut to the size limit. Whatever was stored
  before, writing a payload under an identifier that is not blank succeeds, touches one file,
  whose name has no separator in it, and reading that identifier then gives the payload's
  first bytes up to the limit; every other file is as it was.\<close>

theorem raw_payload_roundtrip:
  assumes "\<And>x. decompress (compress x) = Inr x" "0 \<le> rp_maxSize m" "trim_space i \<noteq> []" "payload \<noteq> []"
  shows "\<exists>d'. WriteRaw compress m now d i payload = Some (sanitizeEventRef i, d') \<and>
     CHR ''/'' \<notin> set (sanitizeEventRef i) \<and>
     ReadRaw decompress d' i = Inr (take (nat (rp_maxSize m)) payload) \<and>
     (\<forall>name. name \<noteq> sanitizeEventRef i @ ''.zst'' \<longrightarrow> map_of d' name = map_of d name)"
proof -
  have t: "(if int (length payload) > rp_maxSize m then take (nat (rp_maxSize m)) payload else payload) =
      take (nat (rp_maxSize m)) payload"
    using assms(2) by auto
  then show ?thesis
    using assms sanitize_no_slash
    by (simp add: WriteRaw_def ReadRaw_def Let_def t update_conv')
qed

definition sample_manager :: RawPayloadManager where
  "sample_manager = NewRawPayloadManager ''/p'' 3 10 1"

theorem raw_payload_roundtrip_witness:
  "\<exists>d'. WriteRaw (\<lambda>x. CHR ''z'' # x) sample_manager 0 [] ''a/b'' ''payload'' = Some (sanitizeEventRef ''a/b'', d') \<and>
     ReadRaw (\<lambda>x. Inr (tl x)) d' ''a/b'' = Inr ''pay''"
proof -
  have "trim_space ''a/b'' \<noteq> []" "(''payload'' :: string) \<noteq> []" "0 \<le> rp_maxSize sample_manager" "nat (rp_maxSize sample_manager) = 3"
    by (simp_all add: sample_manager_def NewRawPayloadManager_def trim_space_def trim_front.simps space_seqs_def)
  with raw_payload_roundtrip [of "\<lambda>x. Inr (tl x)" "\<lambda>x. CHR ''z'' # x" sample_manager "''a/b''" "''payload''" 0 "[]"]
  show ?thesis by auto
qed

section \<open>What a collection keeps\<close>

text \<open>When every removal works: the expired files go, then the oldest, until the rest fits.\<close>

fun keep_newest :: "int \<Rightarrow> RawDir \<Rightarrow> int \<Rightarrow> RawDir" where
  "keep_newest quota [] tot = []"
| "keep_newest quota ((name, f) # items) tot =
     (if tot \<le> quota then (name, f) # items else keep_newest quota items (tot - int (length (rf_content f))))"

lemma keep_newest_fits: "raw_total (keep_newest quota items (raw_total items)) \<le> max quota 0"
  by (induction items) (auto simp: raw_total_def)

lemma keep_newest_suffix: "suffix (keep_newest quota items tot) items"
  by (induction quota items tot rule: keep_newest.induct) (auto intro: suffix_ConsI)

lemma keep_newest_tight:
  "keep_newest quota items (raw_total items) \<noteq> items \<Longrightarrow>
     raw_total items > quota \<and> (\<exists>x dropped. items = dropped @ x # keep_newest quota items (raw_total items) \<and>
       raw_total (x # keep_newest quota items (raw_total items)) > quota)"
proof (induction items)
  case (Cons kv items)
  obtain name f where kv: "kv = (name, f)" by (cases kv)
  have tot: "raw_total (kv # items) - int (length (rf_content f)) = raw_total items" by (simp add: raw_total_def kv)
  from Cons.prems have big: "raw_total (kv # items) > quota" by (auto simp: kv split: if_splits)
  then have step: "keep_newest quota (kv # items) (raw_total (kv # items)) = keep_newest quota items (raw_total items)"
    using tot by (simp add: kv)
  show ?case
  proof (cases "keep_newest quota items (raw_total items) = items")
    case True
    with step big show ?thesis by (metis append_Nil)
  next
    case False
    from Cons.IH [OF this] obtain x dropped where
      "items = dropped @ x # keep_newest quota items (raw_total items)" "raw_total (x # keep_newest quota items (raw_total items)) > quota"
      by blast
    then have "kv # items = (kv # dropped) @ x # keep_newest quota items (raw_total items)" by simp
    with step big \<open>raw_total (x # _) > quota\<close> show ?thesis by metis
  qed
qed simp

definition without :: "string set \<Rightarrow> RawDir \<Rightarrow> RawDir" where
  "without names d = filter (\<lambda>kv. fst kv \<notin> names) d"

lemma without_simps [simp]:
  "without {} d = d" "without A (without B d) = without (A \<union> B) d"
  by (auto simp: without_def intro: filter_cong)

lemma without_eq: "(\<And>kv. kv \<in> set d \<Longrightarrow> fst kv \<in> A \<longleftrightarrow> fst kv \<in> B) \<Longrightarrow> without A d = without B d"
  by (auto simp: without_def intro: filter_cong)

lemma remove_file_works:
  "remove_file (\<lambda>_. True) name d = (name \<in> fst ` set d, without {name} d)"
proof -
  have "without {name} d = d" if "name \<notin> fst ` set d" using that by (auto simp: without_def filter_id_conv)
  then show ?thesis
    by (auto simp: remove_file_def map_of_eq_None_iff AList.delete_eq without_def case_prod_beta intro: filter_cong)
qed

lemma remove_expired_works:
  "remove_expired (\<lambda>_. True) cutoff items d tot =
     (without (fst ` set (filter (\<lambda>kv. rf_modTime (snd kv) < cutoff) items)) d,
      tot - raw_total (filter (\<lambda>kv. rf_modTime (snd kv) < cutoff) items))"
  by (induction items arbitrary: d tot) (auto simp: remove_file_works raw_total_def insert_commute intro: without_eq)

lemma remove_oldest_gone:
  "fst ` set gone \<inter> fst ` set d = {} \<Longrightarrow>
     remove_oldest (\<lambda>_. True) quota (gone @ items) d tot = remove_oldest (\<lambda>_. True) quota items d tot"
proof (induction gone)
  case (Cons kv gone)
  obtain name f where kv: "kv = (name, f)" by (cases kv)
  with Cons.prems have "name \<notin> fst ` set d" by auto
  moreover from this have "without {name} d = d" by (auto simp: without_def filter_id_conv)
  moreover have "remove_oldest (\<lambda>_. True) quota items d tot = d" if "tot \<le> quota"
    using that by (cases items) auto
  ultimately show ?case using Cons by (auto simp: kv remove_file_works)
qed simp

lemma remove_oldest_works:
  "distinct (map fst items) \<Longrightarrow> fst ` set items \<subseteq> fst ` set d \<Longrightarrow>
     remove_oldest (\<lambda>_. True) quota items d tot = without (fst ` set items - fst ` set (keep_newest quota items tot)) d"
proof (induction quota items tot arbitrary: d rule: keep_newest.induct)
  case (2 quota name f items tot)
  show ?case
  proof (cases "tot \<le> quota")
    case False
    let ?keep = "keep_newest quota items (tot - int (length (rf_content f)))"
    from 2(2) have name: "name \<notin> fst ` set items" by auto
    have "fst ` set items \<subseteq> fst ` set (without {name} d)"
    proof
      fix x assume "x \<in> fst ` set items"
      moreover from this have "x \<in> fst ` set d" using 2(3) by auto
      moreover have "x \<noteq> name" using \<open>x \<in> fst ` set items\<close> name by blast
      ultimately show "x \<in> fst ` set (without {name} d)" by (force simp: without_def)
    qed
    with 2(1) [OF False, of "without {name} d"] 2(2)
    have IH: "remove_oldest (\<lambda>_. True) quota items (without {name} d) (tot - int (length (rf_content f))) =
        without (fst ` set items - fst ` set ?keep) (without {name} d)" by simp
    have "fst ` set ?keep \<subseteq> fst ` set items"
      using keep_newest_suffix [of quota items "tot - int (length (rf_content f))"] by (auto dest: set_mono_suffix)
    with name have "name \<notin> fst ` set ?keep" by auto
    moreover have "name \<in> fst ` set d" using 2(3) by auto
    ultimately show ?thesis using False IH by (simp add: remove_file_works insert_Diff_if)
  qed simp
qed simp

lemma sorted_split:
  "sorted (map f xs) \<Longrightarrow> xs = filter (\<lambda>x. f x < p) xs @ filter (\<lambda>x. \<not> f x < p) xs"
proof (induction xs)
  case (Cons x xs)
  show ?case
  proof (cases "f x < p")
    case False
    with Cons.prems have "\<forall>y \<in> set xs. \<not> f y < p" by auto
    then have "filter (\<lambda>x. f x < p) xs = []" "filter (\<lambda>x. \<not> f x < p) xs = xs" by (auto simp: filter_empty_conv filter_id_conv)
    with False show ?thesis by simp
  qed (use Cons in simp)
qed simp

lemma sort_split:
  "sort_key f xs = sort_key f (filter (\<lambda>x. f x < (p :: 'k :: linorder)) xs) @ sort_key f (filter (\<lambda>x. \<not> f x < p) xs)"
  using sorted_split [of f "sort_key f xs" p] by (simp add: filter_sort)

text \<open>The files within the retention, oldest first.\<close>

definition within_retention :: "RawPayloadManager \<Rightarrow> time \<Rightarrow> RawDir \<Rightarrow> RawDir" where
  "within_retention m now d =
     sort_key (\<lambda>kv. rf_modTime (snd kv)) (filter (\<lambda>kv. \<not> rf_modTime (snd kv) < now - rp_retention m) (raw_items d))"

lemma raw_total_filter: "raw_total (filter P xs) + raw_total (filter (\<lambda>x. \<not> P x) xs) = raw_total xs"
  by (induction xs) (auto simp: raw_total_def)

lemma raw_total_sort [simp]: "raw_total (sort_key f xs) = raw_total xs"
proof -
  have "raw_total (insort_key f x ys) = raw_total (x # ys)" for x ys by (induction ys) (auto simp: raw_total_def)
  then show ?thesis by (induction xs) (simp_all add: raw_total_def case_prod_beta)
qed

lemma GC_works:
  assumes "distinct (map fst d)"
  shows "GC (\<lambda>_. True) m now d =
    without (fst ` set (raw_items d) -
      fst ` set (keep_newest (rp_quota m) (within_retention m now d) (raw_total (within_retention m now d)))) d"
proof -
  let ?cut = "now - rp_retention m" let ?mod = "\<lambda>kv. rf_modTime (snd kv)"
  let ?old = "filter (\<lambda>kv. ?mod kv < ?cut) (raw_items d)" let ?young = "within_retention m now d"
  let ?d1 = "without (fst ` set ?old) d"
  have sub: "set (raw_items d) \<subseteq> set d" by (auto simp: raw_items_def)
  have ys: "set ?young = set (raw_items d) - set ?old" by (auto simp: within_retention_def)
  have tot: "raw_total (raw_items d) - raw_total ?old = raw_total ?young"
    using raw_total_filter [of "\<lambda>kv. ?mod kv < ?cut" "raw_items d"] by (simp add: within_retention_def)
  have inj: "inj_on fst (set d)" using assms by (simp add: distinct_map)
  have old: "set ?old \<subseteq> set d" using sub by auto
  have names: "fst ` set ?young = fst ` set (raw_items d) - fst ` set ?old"
    unfolding ys by (rule inj_on_image_set_diff [OF inj]) (use sub old in blast)+
  have sorted: "sort_key ?mod (raw_items d) = sort_key ?mod ?old @ ?young"
    using sort_split [of ?mod "raw_items d" ?cut] by (simp add: within_retention_def)
  have olds: "fst ` set ?old \<subseteq> fst ` set (raw_items d)" by auto
  have yd: "fst ` set ?young \<subseteq> fst ` set d" using sub unfolding names by blast
  have d1: "fst ` set ?d1 = fst ` set d - fst ` set ?old" by (auto simp: without_def image_iff)
  have "fst ` set ?young \<subseteq> fst ` set ?d1" using yd unfolding d1 names by blast
  moreover have "distinct (map fst ?young)"
  proof -
    have "distinct (map fst (filter P (raw_items d)))" for P
      using assms by (simp add: raw_items_def distinct_map_filter)
    then show ?thesis
      by (simp add: within_retention_def distinct_map)
  qed
  moreover have "fst ` set (sort_key ?mod ?old) \<inter> fst ` set ?d1 = {}" unfolding d1 by auto
  ultimately have loop: "remove_oldest (\<lambda>_. True) (rp_quota m) (sort_key ?mod (raw_items d)) ?d1 (raw_total ?young) =
      without (fst ` set ?young - fst ` set (keep_newest (rp_quota m) ?young (raw_total ?young))) ?d1"
    unfolding sorted by (simp add: remove_oldest_gone remove_oldest_works)
  have gc: "GC (\<lambda>_. True) m now d =
      without (fst ` set ?young - fst ` set (keep_newest (rp_quota m) ?young (raw_total ?young))) ?d1"
  proof (cases "raw_total ?young \<le> rp_quota m")
    case True
    then have "keep_newest (rp_quota m) ?young (raw_total ?young) = ?young" by (cases ?young) auto
    with True show ?thesis by (simp add: GC_def Let_def remove_expired_works tot case_prod_beta)
  next
    case False
    with False loop show ?thesis by (simp only: GC_def Let_def remove_expired_works tot case_prod_conv if_False)
  qed
  have "fst ` set (keep_newest (rp_quota m) ?young (raw_total ?young)) \<subseteq> fst ` set ?young"
    using keep_newest_suffix by (meson image_mono set_mono_suffix)
  then have "fst ` set ?young - fst ` set (keep_newest (rp_quota m) ?young (raw_total ?young)) \<union> fst ` set ?old =
      fst ` set (raw_items d) - fst ` set (keep_newest (rp_quota m) ?young (raw_total ?young))"
    using olds unfolding names by blast
  then show ?thesis unfolding gc by simp
qed

definition other_files :: "RawDir \<Rightarrow> RawDir" where
  "other_files d = filter (\<lambda>(name, f). \<not> (\<not> rf_isDir f \<and> has_suffix name ''.zst'')) d"

lemma raw_items_without [simp]: "raw_items (without A d) = without A (raw_items d)"
  by (simp add: raw_items_def without_def conj_commute)

lemma set_without_rest:
  assumes "inj_on fst (set d)" "set keep \<subseteq> set d"
  shows "set (without (fst ` set d - fst ` set keep) d) = set keep"
proof (rule set_eqI)
  fix x
  have "x \<in> set (without (fst ` set d - fst ` set keep) d) \<longleftrightarrow> x \<in> set d \<and> fst x \<in> fst ` set keep"
    unfolding without_def set_filter by blast
  also have "\<dots> \<longleftrightarrow> x \<in> set keep"
    using inj_on_image_mem_iff [OF assms(1) _ assms(2), of x] assms(2) by (meson subsetD)
  finally show "x \<in> set (without (fst ` set d - fst ` set keep) d) \<longleftrightarrow> x \<in> set keep" .
qed

lemma others_without:
  assumes "distinct (map fst d)"
  shows "other_files (without (fst ` set (raw_items d) - K) d) = other_files d"
proof -
  have "kv \<in> set (raw_items d)" if "kv \<in> set d" "fst kv \<in> fst ` set (raw_items d)" for kv
  proof -
    have inj: "inj_on fst (set d)" using assms by (simp add: distinct_map)
    have sub: "set (raw_items d) \<subseteq> set d" by (auto simp: raw_items_def)
    show ?thesis using that inj_on_image_mem_iff [OF inj that(1) sub] by simp
  qed
  then have "fst kv \<notin> fst ` set (raw_items d) - K" if "kv \<in> set d" "kv \<notin> set (raw_items d)" for kv
    using that by blast
  moreover have "kv \<notin> set (raw_items d)" if "case kv of (name, f) \<Rightarrow> \<not> (\<not> rf_isDir f \<and> has_suffix name ''.zst'')" for kv
    using that by (auto simp: raw_items_def)
  ultimately show ?thesis unfolding other_files_def without_def filter_filter by (blast intro: filter_cong)
qed

text \<open>What a collection keeps, when every removal works: of the payload files within the retention, the
  newest ones, as many as the quota holds. What it keeps is an end of those files by age, it fits
  the quota, if it is not all of them then one more file would not have fitted, and the other
  files and directories of the place are left alone, in their order.\<close>

theorem GC_spec:
  assumes "distinct (map fst d)"
  shows "\<exists>keep. set (raw_items (GC (\<lambda>_. True) m now d)) = set keep \<and>
     suffix keep (within_retention m now d) \<and> raw_total keep \<le> max (rp_quota m) 0 \<and>
     (keep = within_retention m now d \<or>
       (\<exists>x. suffix (x # keep) (within_retention m now d) \<and> raw_total (x # keep) > rp_quota m)) \<and>
     other_files (GC (\<lambda>_. True) m now d) = other_files d"
proof -
  let ?keep = "keep_newest (rp_quota m) (within_retention m now d) (raw_total (within_retention m now d))"
  have "set (raw_items d) \<subseteq> set d" by (auto simp: raw_items_def)
  with assms have inj: "inj_on fst (set (raw_items d))" by (meson distinct_map inj_on_subset)
  have sub: "set ?keep \<subseteq> set (raw_items d)"
    using set_mono_suffix [OF keep_newest_suffix [of "rp_quota m" "within_retention m now d"]]
    by (force simp: within_retention_def)
  have "set (raw_items (GC (\<lambda>_. True) m now d)) = set ?keep"
    unfolding GC_works [OF assms] raw_items_without by (rule set_without_rest [OF inj sub])
  moreover have "other_files (GC (\<lambda>_. True) m now d) = other_files d"
    unfolding GC_works [OF assms] by (rule others_without [OF assms])
  moreover have "?keep = within_retention m now d \<or>
      (\<exists>x. suffix (x # ?keep) (within_retention m now d) \<and> raw_total (x # ?keep) > rp_quota m)"
    using keep_newest_tight [of "rp_quota m" "within_retention m now d"] by (auto simp: suffix_def)
  ultimately show ?thesis using keep_newest_fits keep_newest_suffix by blast
qed

definition sample_raw_dir :: RawDir where
  "sample_raw_dir =
     [(''old.zst'', \<lparr>rf_content = ''x'', rf_modTime = 0, rf_isDir = False\<rparr>),
      (''new.zst'', \<lparr>rf_content = ''123456'', rf_modTime = 86400 * second + 3, rf_isDir = False\<rparr>),
      (''notes.txt'', \<lparr>rf_content = ''n'', rf_modTime = 0, rf_isDir = False\<rparr>),
      (''mid.zst'', \<lparr>rf_content = ''12345'', rf_modTime = 86400 * second + 2, rf_isDir = False\<rparr>)]"

theorem GC_spec_witness:
  "(\<exists>keep. set (raw_items (GC (\<lambda>_. True) sample_manager (86400 * second + 5) sample_raw_dir)) = set keep \<and>
     raw_total keep \<le> 10) \<and>
   map fst (GC (\<lambda>_. True) sample_manager (86400 * second + 5) sample_raw_dir) = [''new.zst'', ''notes.txt'']"
proof -
  have "distinct (map fst sample_raw_dir)" by (simp add: sample_raw_dir_def)
  from GC_spec [OF this, of sample_manager "86400 * second + 5"]
  have "\<exists>keep. set (raw_items (GC (\<lambda>_. True) sample_manager (86400 * second + 5) sample_raw_dir)) = set keep \<and>
      raw_total keep \<le> max (rp_quota sample_manager) 0" by blast
  moreover have "max (rp_quota sample_manager) 0 = 10" by (simp add: sample_manager_def NewRawPayloadManager_def)
  moreover have "map fst (GC (\<lambda>_. True) sample_manager (86400 * second + 5) sample_raw_dir) = [''new.zst'', ''notes.txt'']"
    by code_simp
  ultimately show ?thesis by simp
qed

end
