(* ===== verification/Notify.thy ===== *)
theory Notify
  imports Logger
begin

text \<open>
  \<open>internal/notifier\<close>: alerts for blocked events, to the desktop and to a webhook, each at most once
  in its interval. What one \<open>Send\<close> meets outside (the clock, the environment, the HTTP answer, the
  command's result) is the record \<open>SendEnv\<close>; what it does is its \<open>Effect\<close>. The two backends are
  interpretations of one interface, the locale \<open>limited_backend\<close>, in which the spacing of the
  alerts is proved once. Unmarshalling the triggered rules, parsing the URL and \<open>strconv.Quote\<close>
  are the record \<open>NotifyLib\<close>. A logger's subscription delivers the events as a list.
\<close>

section \<open>Configuration and backends\<close>

record DesktopConfig =
  dc_Enabled :: bool
  dc_MinInterval :: duration

record WebhookConfig =
  wc_Enabled :: bool
  wc_URL :: string
  wc_AuthHeaderEnv :: string
  wc_Format :: string
  wc_MinInterval :: duration

record NotifierConfig =
  nc_Desktop :: DesktopConfig
  nc_Webhook :: WebhookConfig

record WebhookBackend =
  wb_url :: string
  wb_authHeaderEnv :: string
  wb_format :: string
  wb_minInterval :: duration
  wb_lastSent :: time

record DesktopBackend =
  db_minInterval :: duration
  db_lastSent :: time
  db_warnedOnce :: bool

definition NewWebhookBackend :: "WebhookConfig \<Rightarrow> WebhookBackend" where
  "NewWebhookBackend cfg =
     \<lparr>wb_url = wc_URL cfg, wb_authHeaderEnv = wc_AuthHeaderEnv cfg, wb_format = wc_Format cfg,
      wb_minInterval = wc_MinInterval cfg, wb_lastSent = zero_time\<rparr>"

definition NewDesktopBackend :: "DesktopConfig \<Rightarrow> DesktopBackend" where
  "NewDesktopBackend cfg = \<lparr>db_minInterval = dc_MinInterval cfg, db_lastSent = zero_time, db_warnedOnce = False\<rparr>"

datatype Backend = Desktop DesktopBackend | Webhook WebhookBackend

section \<open>One alert\<close>

record NotifyLib =
  nl_triggered :: "string \<Rightarrow> AuditTriggeredRule list option"
  nl_url_error :: "string \<Rightarrow> error option"
  nl_quote :: "string \<Rightarrow> string"

record HttpPost =
  hp_url :: string
  hp_headers :: "(string \<times> string) list"
  hp_body :: string

datatype Effect = Post HttpPost | Command "string list" | Bell

text \<open>\<open>se_now\<close> is the reading of \<open>time.Since\<close>, \<open>se_done\<close> the later one of \<open>time.Now\<close>.\<close>

record SendEnv =
  se_now :: time
  se_done :: time
  se_getenv :: "string \<Rightarrow> string"
  se_respond :: "HttpPost \<Rightarrow> error + int"
  se_goos :: string
  se_run :: "string list \<Rightarrow> error option"

definition since :: "time \<Rightarrow> time \<Rightarrow> duration" where
  "since now t = time_sub now t"

definition truncateDiscordContent :: "string \<Rightarrow> string" where
  "truncateDiscordContent content = (if length content \<le> 2000 then content else take 1997 content @ ''...'')"

definition first_rule :: "NotifyLib \<Rightarrow> AuditEvent \<Rightarrow> string \<times> string" where
  "first_rule lib evt =
     (if ev_CommandmentsTriggered evt = [] then ([], [])
      else case nl_triggered lib (ev_CommandmentsTriggered evt) of
        Some (r # _) \<Rightarrow> (atr_Name r, atr_Message r)
      | _ \<Rightarrow> ([], []))"

definition omitempty :: "string \<Rightarrow> string \<Rightarrow> (string \<times> json) list" where
  "omitempty key s = (if s = [] then [] else [(key, JStr s)])"

definition discord_body :: "AuditEvent \<Rightarrow> string \<Rightarrow> string \<Rightarrow> string" where
  "discord_body evt ruleName ruleMsg =
     (let content = ''Agent **'' @ ev_AgentID evt @ ''** blocked: '' @ ev_Action evt;
          content = (if ruleName = [] then content else content @ '' ('' @ ruleName @ '')'');
          content = (if ruleMsg = [] then content else content @ '' - '' @ ruleMsg)
      in json_print (JObj [(''content'', JStr (truncateDiscordContent content)),
                           (''allowed_mentions'', JObj [(''parse'', JArr [])])]))"

definition webhook_body :: "AuditEvent \<Rightarrow> string \<Rightarrow> string \<Rightarrow> string" where
  "webhook_body evt ruleName ruleMsg =
     json_print (JObj ([(''event'', JStr ''block''), (''agent'', JStr (ev_AgentID evt)), (''action'', JStr (ev_Action evt))] @
       omitempty ''rule'' ruleName @ omitempty ''message'' ruleMsg @ [(''timestamp'', JStr (rfc3339 (ev_Timestamp evt)))]))"

definition webhook_request :: "NotifyLib \<Rightarrow> SendEnv \<Rightarrow> WebhookBackend \<Rightarrow> AuditEvent \<Rightarrow> HttpPost" where
  "webhook_request lib env w evt =
     (let (ruleName, ruleMsg) = first_rule lib evt;
          authVal = (if wb_authHeaderEnv w = [] then [] else se_getenv env (wb_authHeaderEnv w))
      in \<lparr>hp_url = wb_url w,
          hp_headers = (''Content-Type'', ''application/json'') # (if authVal = [] then [] else [(''Authorization'', authVal)]),
          hp_body = (if wb_format w = ''discord'' then discord_body evt ruleName ruleMsg else webhook_body evt ruleName ruleMsg)\<rparr>)"

text \<open>\<open>Send\<close>: what it did, its error, and the backend after it.\<close>

definition webhook_Send ::
  "NotifyLib \<Rightarrow> SendEnv \<Rightarrow> AuditEvent \<Rightarrow> WebhookBackend \<Rightarrow> (Effect list \<times> error option) \<times> WebhookBackend" where
  "webhook_Send lib env evt w =
     (if wb_minInterval w > 0 \<and> since (se_now env) (wb_lastSent w) < wb_minInterval w then (([], None), w)
      else case nl_url_error lib (wb_url w) of
        Some err \<Rightarrow> (([], Some (''create request: '' @ err)), w)
      | None \<Rightarrow>
          let req = webhook_request lib env w evt
          in case se_respond env req of
               Inl err \<Rightarrow> (([Post req], Some (''webhook POST: '' @ err)), w)
             | Inr status \<Rightarrow>
                 (if status \<ge> 400 then (([Post req], Some (''webhook returned '' @ show_int status)), w)
                  else (([Post req], None), w\<lparr>wb_lastSent := se_done env\<rparr>)))"

definition desktop_Send ::
  "NotifyLib \<Rightarrow> SendEnv \<Rightarrow> AuditEvent \<Rightarrow> DesktopBackend \<Rightarrow> (Effect list \<times> error option) \<times> DesktopBackend" where
  "desktop_Send lib env evt d =
     (if db_minInterval d > 0 \<and> since (se_now env) (db_lastSent d) < db_minInterval d then (([], None), d)
      else
        let title = ''Crabwise: Agent Blocked'';
            body = ''Action '' @ nl_quote lib (ev_Action evt) @ '' blocked for agent '' @ ev_AgentID evt;
            command = (if se_goos env = ''linux'' then Some [''notify-send'', ''-u'', ''critical'', title, body]
              else if se_goos env = ''darwin'' then
                Some [''osascript'', ''-e'', ''display notification '' @ nl_quote lib body @ '' with title '' @ nl_quote lib title]
              else None);
            err = (case command of Some argv \<Rightarrow> se_run env argv
              | None \<Rightarrow> Some (''unsupported OS '' @ nl_quote lib (se_goos env)));
            d = (if err = None then d else d\<lparr>db_warnedOnce := True\<rparr>)
        in (((case command of Some argv \<Rightarrow> [Command argv] | None \<Rightarrow> []) @ (if err = None then [] else [Bell]), None), d\<lparr>db_lastSent := se_done env\<rparr>))"

fun Backend_Send ::
  "NotifyLib \<Rightarrow> SendEnv \<Rightarrow> AuditEvent \<Rightarrow> Backend \<Rightarrow> (Effect list \<times> error option) \<times> Backend" where
  "Backend_Send lib env evt (Desktop d) = (let (r, d) = desktop_Send lib env evt d in (r, Desktop d))"
| "Backend_Send lib env evt (Webhook w) = (let (r, w) = webhook_Send lib env evt w in (r, Webhook w))"

section \<open>The notifier\<close>

definition NewNotifier :: "NotifierConfig \<Rightarrow> Backend list" where
  "NewNotifier cfg =
     (if dc_Enabled (nc_Desktop cfg) then [Desktop (NewDesktopBackend (nc_Desktop cfg))] else []) @
     (if wc_Enabled (nc_Webhook cfg) then [Webhook (NewWebhookBackend (nc_Webhook cfg))] else [])"

text \<open>The loop over the backends for one event: each meets its own \<open>SendEnv\<close>. Errors are logged.\<close>

fun send_all :: "NotifyLib \<Rightarrow> AuditEvent \<Rightarrow> (SendEnv \<times> Backend) list \<Rightarrow> ((Effect list \<times> error option) \<times> Backend) list" where
  "send_all lib evt [] = []"
| "send_all lib evt ((env, b) # bs) = Backend_Send lib env evt b # send_all lib evt bs"

definition dispatch ::
  "NotifyLib \<Rightarrow> SendEnv list \<Rightarrow> AuditEvent \<Rightarrow> Backend list \<Rightarrow> (Effect list \<times> error option) list \<times> Backend list" where
  "dispatch lib envs evt bs =
     (if ev_Outcome evt \<noteq> OutcomeBlocked then (map (\<lambda>_. ([], None)) bs, bs)
      else let rs = send_all lib evt (zip envs bs) in (map fst rs, map snd rs))"

text \<open>The events of the subscription until it ends, with what every backend did for each.\<close>

fun notify_run ::
  "NotifyLib \<Rightarrow> (SendEnv list \<times> AuditEvent) list \<Rightarrow> Backend list \<Rightarrow> (Effect list \<times> error option) list list \<times> Backend list" where
  "notify_run lib [] bs = ([], bs)"
| "notify_run lib ((envs, evt) # evs) bs =
     (let (r, bs) = dispatch lib envs evt bs; (rs, bs) = notify_run lib evs bs in (r # rs, bs))"

text \<open>\<open>Reload\<close>: the loop is stopped, the backends are built anew (their last alerts are forgotten), and
  it is started again on a new subscription.\<close>

definition Reload_notifier ::
  "NotifyLib \<Rightarrow> NotifierConfig \<Rightarrow> (SendEnv list \<times> AuditEvent) list \<Rightarrow> (Effect list \<times> error option) list list \<times> Backend list" where
  "Reload_notifier lib cfg evs = notify_run lib evs (NewNotifier cfg)"

section \<open>The interface of a backend\<close>

text \<open>An alert is attempted, if it is not dropped for its interval; it counts for the interval if it
  was made without an error.\<close>

definition attempted :: "Effect list \<times> error option \<Rightarrow> bool" where
  "attempted r = (fst r \<noteq> [] \<or> snd r \<noteq> None)"

definition clocks_ok :: "SendEnv list \<Rightarrow> bool" where
  "clocks_ok envs = (list_all (\<lambda>env. 0 \<le> se_now env \<and> se_now env \<le> se_done env) envs \<and>
     sorted_wrt (\<lambda>a b. se_done a \<le> se_now b) envs)"

lemma clocks_ok_simps [simp]:
  "clocks_ok []"
  "clocks_ok (env # envs) \<longleftrightarrow> 0 \<le> se_now env \<and> se_now env \<le> se_done env \<and>
     list_all (\<lambda>e. se_done env \<le> se_now e) envs \<and> clocks_ok envs"
  by (auto simp: clocks_ok_def list_all_iff)

definition counts :: "Effect list \<times> error option \<Rightarrow> bool" where
  "counts r = (attempted r \<and> snd r = None)"

lemma not_attempted [simp]: "\<not> attempted ([], None)" "\<not> counts ([], None)"
  by (simp_all add: attempted_def counts_def)

text \<open>What one backend does for a sequence of events.\<close>

fun alerts :: "(SendEnv \<Rightarrow> AuditEvent \<Rightarrow> 'b \<Rightarrow> (Effect list \<times> error option) \<times> 'b) \<Rightarrow>
    (SendEnv \<times> AuditEvent) list \<Rightarrow> 'b \<Rightarrow> (Effect list \<times> error option) list" where
  "alerts send [] b = []"
| "alerts send ((env, evt) # evs) b =
     (if ev_Outcome evt \<noteq> OutcomeBlocked then ([], None) # alerts send evs b
      else fst (send env evt b) # alerts send evs (snd (send env evt b)))"

lemma length_alerts [simp]: "length (alerts send evs b) = length evs"
  by (induction send evs b rule: alerts.induct) auto

lemma since_mono: "t \<le> t' \<Longrightarrow> since now t' \<le> since now t"
  by (auto simp: since_def time_sub_def)

lemma since_iff: "0 < d \<Longrightarrow> d \<le> max_duration \<Longrightarrow> d \<le> since now t \<longleftrightarrow> d \<le> now - t"
  by (auto simp: since_def time_sub_def max_duration_def)

locale limited_backend =
  fixes send :: "SendEnv \<Rightarrow> AuditEvent \<Rightarrow> 'b \<Rightarrow> (Effect list \<times> error option) \<times> 'b"
    and interval :: "'b \<Rightarrow> duration"
    and last_sent :: "'b \<Rightarrow> time"
  assumes interval_kept: "interval (snd (send env evt b)) = interval b"
    and attempted_iff: "attempted (fst (send env evt b)) \<longleftrightarrow> \<not> (0 < interval b \<and> since (se_now env) (last_sent b) < interval b)"
    and last_after: "last_sent (snd (send env evt b)) = (if counts (fst (send env evt b)) then se_done env else last_sent b)"
begin

lemma alerts_from:
  assumes "clocks_ok (map fst evs)" "list_all (\<lambda>x. last_sent b \<le> se_now (fst x)) evs" "i < length evs"
  shows "attempted (alerts send evs b ! i) \<longleftrightarrow>
    ev_Outcome (snd (evs ! i)) = OutcomeBlocked \<and>
    (interval b \<le> 0 \<or> interval b \<le> since (se_now (fst (evs ! i))) (last_sent b) \<and>
      (\<forall>j < i. counts (alerts send evs b ! j) \<longrightarrow> interval b \<le> since (se_now (fst (evs ! i))) (se_done (fst (evs ! j)))))"
  using assms
proof (induction evs arbitrary: b i)
  case (Cons x evs)
  obtain env evt where x: "x = (env, evt)" by (cases x)
  let ?b = "if ev_Outcome evt \<noteq> OutcomeBlocked then b else snd (send env evt b)"
  let ?r = "if ev_Outcome evt \<noteq> OutcomeBlocked then ([], None) else fst (send env evt b)"
  have run: "alerts send (x # evs) b = ?r # alerts send evs ?b" by (simp add: x)
  have ivl: "interval ?b = interval b" by (simp add: interval_kept)
  have last: "last_sent ?b = (if counts ?r then se_done env else last_sent b)" by (simp add: last_after)
  show ?case
  proof (cases i)
    case 0
    then show ?thesis by (auto simp: x attempted_iff)
  next
    case (Suc k)
    with Cons.prems have k: "k < length evs" by simp
    have "list_all (\<lambda>x. last_sent ?b \<le> se_now (fst x)) evs"
      using Cons.prems(1,2) unfolding last by (auto simp: x list_all_iff)
    note IH = Cons.IH [OF _ this k, unfolded ivl]
    have "last_sent b \<le> se_done env" using Cons.prems(1,2) by (auto simp: x)
    then have "since t (se_done env) \<le> since t (last_sent b)" for t by (rule since_mono)
    then have "(interval b \<le> since t (last_sent ?b)) \<longleftrightarrow>
        interval b \<le> since t (last_sent b) \<and> (counts ?r \<longrightarrow> interval b \<le> since t (se_done env))" for t
      unfolding last by (auto intro: order_trans)
    then show ?thesis
      using IH Cons.prems(1) unfolding run Suc by (auto simp: x All_less_Suc2)
  qed
qed simp

lemma alerts_spaced:
  assumes "clocks_ok (map fst evs)" "last_sent b = zero_time" "interval b \<le> max_duration" "i < length evs"
  shows "attempted (alerts send evs b ! i) \<longleftrightarrow>
    ev_Outcome (snd (evs ! i)) = OutcomeBlocked \<and>
    (interval b \<le> 0 \<or>
      (\<forall>j < i. counts (alerts send evs b ! j) \<longrightarrow> interval b \<le> se_now (fst (evs ! i)) - se_done (fst (evs ! j))))"
proof -
  have pos: "0 \<le> se_now (fst x)" if "x \<in> set evs" for x
    using assms(1) that by (auto simp: clocks_ok_def list_all_iff)
  then have "list_all (\<lambda>x. last_sent b \<le> se_now (fst x)) evs"
    by (force simp: list_all_iff assms(2) zero_time_def second_def)
  note spec = alerts_from [OF assms(1) this assms(4)]
  have "max_duration \<le> since (se_now (fst (evs ! i))) (last_sent b)"
    using pos [OF nth_mem [OF assms(4)]] by (simp add: since_def time_sub_def max_duration_def assms(2) zero_time_def second_def)
  with assms(3) have "interval b \<le> since (se_now (fst (evs ! i))) (last_sent b)" by simp
  with spec show ?thesis using since_iff [OF _ assms(3)] by (auto simp: not_le)
qed

end

interpretation desktop: limited_backend "desktop_Send lib" db_minInterval db_lastSent for lib
  by unfold_locales (auto simp: desktop_Send_def Let_def attempted_def counts_def split: option.splits if_splits)

interpretation webhook: limited_backend "webhook_Send lib" wb_minInterval wb_lastSent for lib
  by unfold_locales (auto simp: webhook_Send_def Let_def attempted_def counts_def split: option.splits sum.splits if_splits)

fun b_interval :: "Backend \<Rightarrow> duration" where
  "b_interval (Desktop d) = db_minInterval d"
| "b_interval (Webhook w) = wb_minInterval w"

fun b_lastSent :: "Backend \<Rightarrow> time" where
  "b_lastSent (Desktop d) = db_lastSent d"
| "b_lastSent (Webhook w) = wb_lastSent w"

interpretation backend: limited_backend "Backend_Send lib" b_interval b_lastSent for lib
proof unfold_locales
  fix env evt b
  show "b_interval (snd (Backend_Send lib env evt b)) = b_interval b"
    by (cases b) (simp_all add: case_prod_beta desktop.interval_kept webhook.interval_kept)
  show "attempted (fst (Backend_Send lib env evt b)) \<longleftrightarrow> \<not> (0 < b_interval b \<and> since (se_now env) (b_lastSent b) < b_interval b)"
    by (cases b) (simp_all add: case_prod_beta desktop.attempted_iff webhook.attempted_iff)
  show "b_lastSent (snd (Backend_Send lib env evt b)) =
      (if counts (fst (Backend_Send lib env evt b)) then se_done env else b_lastSent b)"
    by (cases b) (simp_all add: case_prod_beta desktop.last_after webhook.last_after)
qed

section \<open>The notifier's alerts\<close>

text \<open>The backends do not interfere: each does what it would do alone.\<close>

definition env_of :: "nat \<Rightarrow> SendEnv list \<times> AuditEvent \<Rightarrow> SendEnv \<times> AuditEvent" where
  "env_of k x = (fst x ! k, snd x)"

lemma env_of_pair [simp]: "env_of k (envs, evt) = (envs ! k, evt)"
  by (simp add: env_of_def)

lemma send_all_nth:
  "length envs = length bs \<Longrightarrow> send_all lib evt (zip envs bs) = map (\<lambda>k. Backend_Send lib (envs ! k) evt (bs ! k)) [0..<length bs]"
  by (induction envs bs rule: list_induct2) (auto simp: upt_conv_Cons map_Suc_upt [symmetric] simp del: upt_Suc)

lemma dispatch_nth:
  assumes "length envs = length bs" "k < length bs"
  shows "fst (dispatch lib envs evt bs) ! k = (if ev_Outcome evt \<noteq> OutcomeBlocked then ([], None) else fst (Backend_Send lib (envs ! k) evt (bs ! k)))"
    "snd (dispatch lib envs evt bs) ! k = (if ev_Outcome evt \<noteq> OutcomeBlocked then bs ! k else snd (Backend_Send lib (envs ! k) evt (bs ! k)))"
    "length (snd (dispatch lib envs evt bs)) = length bs"
  using assms by (simp_all add: dispatch_def Let_def send_all_nth)

lemma notify_run_alone:
  assumes "list_all (\<lambda>x. length (fst x) = length bs) evs" "k < length bs"
  shows "map (\<lambda>r. r ! k) (fst (notify_run lib evs bs)) = alerts (Backend_Send lib) (map (env_of k) evs) (bs ! k)"
  using assms
proof (induction evs arbitrary: bs)
  case (Cons x evs)
  obtain envs evt where x: "x = (envs, evt)" by (cases x)
  let ?bs = "snd (dispatch lib envs evt bs)"
  have len: "length envs = length bs" using Cons.prems(1) by (simp add: x)
  note d = dispatch_nth [OF len Cons.prems(2), of lib evt]
  have "map (\<lambda>r. r ! k) (fst (notify_run lib evs ?bs)) = alerts (Backend_Send lib) (map (env_of k) evs) (?bs ! k)"
    using Cons.prems by (intro Cons.IH) (simp_all add: d)
  then show ?case by (auto simp: x case_prod_beta Let_def d)
qed simp

lemma length_notify_run [simp]: "length (fst (notify_run lib evs bs)) = length evs"
  by (induction evs arbitrary: bs) (auto simp: case_prod_beta Let_def)

lemma NewNotifier_fresh: "k < length (NewNotifier cfg) \<Longrightarrow> b_lastSent (NewNotifier cfg ! k) = zero_time"
  by (auto simp: NewNotifier_def NewDesktopBackend_def NewWebhookBackend_def nth_Cons split: nat.splits if_splits)

text \<open>C40: The alerts are for blocked events, and spaced. A backend of a notifier tries an alert for an
  event exactly when the event was blocked and its interval has passed since every alert it has
  made without an error (a desktop alert always counts, a webhook's only if it was answered below
  400); so a failed webhook is tried again with the next blocked event, and no backend waits for
  another. The clock readings are in the order of the sends.\<close>

theorem alerts_blocked_spaced:
  assumes "list_all (\<lambda>x. length (fst x) = length (NewNotifier cfg)) evs" "k < length (NewNotifier cfg)"
    "clocks_ok (map (\<lambda>x. fst x ! k) evs)" "b_interval (NewNotifier cfg ! k) \<le> max_duration" "i < length evs"
  shows "attempted (fst (notify_run lib evs (NewNotifier cfg)) ! i ! k) \<longleftrightarrow>
    ev_Outcome (snd (evs ! i)) = OutcomeBlocked \<and>
    (b_interval (NewNotifier cfg ! k) \<le> 0 \<or>
      (\<forall>j < i. counts (fst (notify_run lib evs (NewNotifier cfg)) ! j ! k) \<longrightarrow>
        b_interval (NewNotifier cfg ! k) \<le> se_now (fst (evs ! i) ! k) - se_done (fst (evs ! j) ! k)))"
proof -
  let ?rs = "fst (notify_run lib evs (NewNotifier cfg))"
  let ?one = "alerts (Backend_Send lib) (map (env_of k) evs) (NewNotifier cfg ! k)"
  have "map (\<lambda>r. r ! k) ?rs = ?one" by (rule notify_run_alone [OF assms(1,2)])
  then have nth: "?one ! j = ?rs ! j ! k" if "j < length evs" for j
    using that by (metis length_notify_run nth_map)
  have "clocks_ok (map fst (map (env_of k) evs))" using assms(3) by (simp add: env_of_def comp_def)
  from backend.alerts_spaced [OF this NewNotifier_fresh [OF assms(2)] assms(4), of i lib] assms(5)
  show ?thesis by (simp add: nth env_of_def)
qed

definition sample_notify_config :: NotifierConfig where
  "sample_notify_config =
     \<lparr>nc_Desktop = \<lparr>dc_Enabled = False, dc_MinInterval = 0\<rparr>,
      nc_Webhook = \<lparr>wc_Enabled = True, wc_URL = ''http://h'', wc_AuthHeaderEnv = [], wc_Format = ''discord'',
        wc_MinInterval = 15\<rparr>\<rparr>"

definition sample_notify_lib :: NotifyLib where
  "sample_notify_lib = \<lparr>nl_triggered = (\<lambda>_. None), nl_url_error = (\<lambda>_. None), nl_quote = (\<lambda>s. s)\<rparr>"

definition sample_send_env :: "int \<Rightarrow> int \<Rightarrow> SendEnv" where
  "sample_send_env t status =
     \<lparr>se_now = t, se_done = t + 1, se_getenv = (\<lambda>_. []), se_respond = (\<lambda>_. Inr status), se_goos = ''linux'', se_run = (\<lambda>_. None)\<rparr>"

definition sample_alert_events :: "(SendEnv list \<times> AuditEvent) list" where
  "sample_alert_events =
     (let b = zero_event\<lparr>ev_Outcome := OutcomeBlocked\<rparr>
      in [([sample_send_env 10 500], b), ([sample_send_env 12 200], b), ([sample_send_env 20 200], b),
          ([sample_send_env 30 200], b)])"

theorem alerts_blocked_spaced_witness:
  "attempted (fst (notify_run sample_notify_lib sample_alert_events (NewNotifier sample_notify_config)) ! 3 ! 0) \<and>
   \<not> attempted (fst (notify_run sample_notify_lib sample_alert_events (NewNotifier sample_notify_config)) ! 2 ! 0)"
proof -
  let ?ns = "NewNotifier sample_notify_config"
  have one: "length ?ns = 1" "b_interval (?ns ! 0) = 15"
    by (simp_all add: NewNotifier_def sample_notify_config_def NewWebhookBackend_def)
  have evs: "length sample_alert_events = 4" "list_all (\<lambda>x. length (fst x) = length ?ns) sample_alert_events"
    "clocks_ok (map (\<lambda>x. fst x ! 0) sample_alert_events)"
    by (simp_all add: one sample_alert_events_def Let_def sample_send_env_def del: One_nat_def)
  have ivl: "b_interval (?ns ! 0) \<le> max_duration" by (simp add: one max_duration_def)
  have c: "map (\<lambda>r. counts (r ! 0)) (fst (notify_run sample_notify_lib sample_alert_events ?ns)) = [False, True, False, True]"
    by code_simp
  let ?rs = "fst (notify_run sample_notify_lib sample_alert_events ?ns)"
  have "counts (?rs ! 0 ! 0) = [False, True, False, True] ! 0" "counts (?rs ! 1 ! 0) = [False, True, False, True] ! 1"
      "counts (?rs ! 2 ! 0) = [False, True, False, True] ! 2"
    unfolding c [symmetric] by (simp_all add: evs(1))
  then have "counts (?rs ! 1 ! 0)" "\<not> counts (?rs ! 0 ! 0)" "\<not> counts (?rs ! 2 ! 0)" by simp_all
  moreover have "attempted (?rs ! 3 ! 0) \<longleftrightarrow> ev_Outcome (snd (sample_alert_events ! 3)) = OutcomeBlocked \<and>
      (b_interval (?ns ! 0) \<le> 0 \<or> (\<forall>j < 3. counts (?rs ! j ! 0) \<longrightarrow>
        b_interval (?ns ! 0) \<le> se_now (fst (sample_alert_events ! 3) ! 0) - se_done (fst (sample_alert_events ! j) ! 0)))"
    by (rule alerts_blocked_spaced [OF evs(2) _ evs(3) ivl]) (simp_all add: evs(1) one)
  moreover have "attempted (?rs ! 2 ! 0) \<longleftrightarrow> ev_Outcome (snd (sample_alert_events ! 2)) = OutcomeBlocked \<and>
      (b_interval (?ns ! 0) \<le> 0 \<or> (\<forall>j < 2. counts (?rs ! j ! 0) \<longrightarrow>
        b_interval (?ns ! 0) \<le> se_now (fst (sample_alert_events ! 2) ! 0) - se_done (fst (sample_alert_events ! j) ! 0)))"
    by (rule alerts_blocked_spaced [OF evs(2) _ evs(3) ivl]) (simp_all add: evs(1) one)
  ultimately show ?thesis
    by (auto simp: one sample_alert_events_def Let_def sample_send_env_def numeral_3_eq_3 numeral_2_eq_2 less_Suc_eq)
qed

end
