(* ===== verification/Go_Scan.thy ===== *)
theory Go_Scan
  imports Go_Json
begin

text \<open>
  \<open>bufio.Scanner\<close> as crabwise uses it: lines, with a buffer of a fixed size that does not grow. A
  line is what is before a newline, or the unterminated rest of the input, without one final
  carriage return; the scan stops for good at a line that does not fit the buffer. The theory
  proves that lines written one after another are read back, and that what \<open>json.Marshal\<close> writes
  is such a line.
\<close>

section \<open>Lines\<close>

definition newline :: char where "newline = CHR 0x0A"
definition creturn :: char where "creturn = CHR 0x0D"

definition drop_cr :: "string \<Rightarrow> string" where
  "drop_cr s = (if s \<noteq> [] \<and> last s = creturn then butlast s else s)"

definition segments :: "string \<Rightarrow> string list" where
  "segments input = (let ps = split_at newline input in if last ps = [] then butlast ps else ps)"

definition scan_lines :: "nat \<Rightarrow> string \<Rightarrow> string list" where
  "scan_lines buf input = map drop_cr (takeWhile (\<lambda>s. length s < buf) (segments input))"

definition MiB :: nat where "MiB = 1048576"

section \<open>Writing and reading lines\<close>

text \<open>A text that is one line.\<close>

definition is_line :: "nat \<Rightarrow> string \<Rightarrow> bool" where
  "is_line buf s = (newline \<notin> set s \<and> creturn \<notin> set s \<and> length s < buf)"

definition as_line :: "string \<Rightarrow> string" where "as_line s = s @ [newline]"

lemma segments_line [simp]: "newline \<notin> set s \<Longrightarrow> segments (s @ newline # rest) = s # segments rest"
  by (simp add: segments_def split_at_line Let_def)

lemma segments_rest [simp]: "newline \<notin> set s \<Longrightarrow> segments s = (if s = [] then [] else [s])"
  by (simp add: segments_def split_at_whole)

lemma segments_Nil [simp]: "segments [] = []"
  by (simp add: segments_def)

lemma segments_append_lines:
  "list_all (\<lambda>l. newline \<notin> set l) ls \<Longrightarrow> segments (concat (map as_line ls) @ rest) = ls @ segments rest"
  by (induction ls) (simp_all add: as_line_def)

lemma drop_cr_id [simp]: "creturn \<notin> set s \<Longrightarrow> drop_cr s = s"
  by (metis drop_cr_def last_in_set)

lemma scan_lines_append:
  assumes "list_all (is_line buf) ls"
  shows "scan_lines buf (concat (map as_line ls) @ rest) = ls @ scan_lines buf rest"
proof -
  have "list_all (\<lambda>l. newline \<notin> set l) ls" "takeWhile (\<lambda>s. length s < buf) (ls @ xs) = ls @ takeWhile (\<lambda>s. length s < buf) xs"
    "map drop_cr ls = ls" for xs
    using assms by (induction ls) (auto simp: is_line_def)
  then show ?thesis by (simp add: scan_lines_def segments_append_lines)
qed

lemma scan_lines_lines: "list_all (is_line buf) ls \<Longrightarrow> scan_lines buf (concat (map as_line ls)) = ls"
  using scan_lines_append [of buf ls "[]"] by (simp add: scan_lines_def)

section \<open>Marshalled values are lines\<close>

text \<open>Every byte the encoder writes is printable or not ASCII, if number literals and raw values are.\<close>

definition clean :: "string \<Rightarrow> bool" where
  "clean s = list_all (\<lambda>c. \<not> of_char c < (32 :: nat)) s"

lemma clean_simps [simp]:
  "clean []" "clean (c # s) \<longleftrightarrow> \<not> of_char c < (32 :: nat) \<and> clean s" "clean (s @ t) \<longleftrightarrow> clean s \<and> clean t"
  by (auto simp: clean_def)

fun clean_json :: "json \<Rightarrow> bool" where
  "clean_json (JNum n) = clean n"
| "clean_json (JRaw s) = clean s"
| "clean_json (JArr vs) = list_all clean_json vs"
| "clean_json (JObj kvs) = list_all (\<lambda>kv. clean_json (snd kv)) kvs"
| "clean_json _ = True"

lemma clean_escape_byte: "clean (escape_byte c)"
  by (auto simp: escape_byte_def backslash_def hex_lower_def)



lemma low_not_in_range: "of_char c < (32 :: nat) \<Longrightarrow> 32 \<le> lo \<Longrightarrow> in_range lo hi c = False"
  by (simp add: in_range_def)

lemma utf8_bytes:
  assumes "in_range 0 127 c = False"
  shows "clean (take (utf8_len (c # s)) (c # s))"
proof -
  have c: "\<not> of_char c < (32 :: nat)" using assms by (simp add: in_range_def)
  consider "s = []" | b where "s = [b]" | b d where "s = [b, d]" | b d e s' where "s = b # d # e # s'"
    by (metis list.exhaust)
  then show ?thesis
  proof cases
    case (2 b)
    then show ?thesis
      by (cases "of_char b < (32 :: nat)") (simp_all add: c assms low_not_in_range)
  next
    case (3 b d)
    then show ?thesis
      by (cases "of_char b < (32 :: nat)"; cases "of_char d < (32 :: nat)") (simp_all add: c assms low_not_in_range)
  next
    case (4 b d e s')
    then show ?thesis
      by (cases "of_char b < (32 :: nat)"; cases "of_char d < (32 :: nat)"; cases "of_char e < (32 :: nat)")
        (simp_all add: c assms low_not_in_range)
  qed (simp add: c assms)
qed

lemma clean_escape: "clean (escape_string s)"
proof (induction s rule: escape_string.induct)
  case (1 s)
  show ?case
  proof (cases s)
    case (Cons c s')
    then show ?thesis
      using 1 utf8_bytes [of c s'] by (subst escape_string.simps) (auto simp: clean_escape_byte backslash_def)
  qed (simp add: escape_string.simps)
qed

lemma clean_join: "list_all clean ss \<Longrightarrow> clean sep \<Longrightarrow> clean (join ss sep)"
  by (induction ss sep rule: join.induct) auto

lemma clean_print: "clean_json v \<Longrightarrow> clean (json_print v)"
proof (induction v)
  case (JObj kvs)
  have "clean (json_print v)" if "(k, v) \<in> set kvs" for k v
    using that JObj.IH [OF that, of v] JObj.prems by (auto simp: list_all_iff)
  then show ?case by (auto simp: list_all_iff quote_string_def clean_escape intro!: clean_join)
qed (auto simp: list_all_iff quote_string_def clean_escape intro!: clean_join)

lemma clean_is_line: "clean s \<Longrightarrow> length s < buf \<Longrightarrow> is_line buf s"
  by (auto simp: clean_def is_line_def list_all_iff newline_def creturn_def)

lemma printed_is_line: "clean_json v \<Longrightarrow> length (json_print v) < buf \<Longrightarrow> is_line buf (json_print v)"
  by (simp add: clean_is_line clean_print)

end
