(* ===== verification/Ipc.thy ===== *)
theory Ipc
  imports Go_Scan "HOL-Library.AList" "HOL-Library.Word"
begin

text \<open>
  \<open>internal/ipc\<close>: JSON-RPC over a local socket, one message per line. The server reads lines of at
  most 1 MiB, answers each request in turn, and hands the connection over to a subscription. A
  handler is a function of the parameters and the daemon's state, \<open>'s\<close>. The bytes a peer sends
  until it hangs up are one string, \<open>accepts n\<close> says whether the write after \<open>n\<close> lines works, and
  decoding a request or a response is a parameter. Sockets and peer credentials are not modelled,
  beyond the comparison of the user identifiers.
\<close>

section \<open>Messages\<close>

text \<open>A missing \<open>id\<close> or \<open>params\<close> is \<open>JNull\<close> or empty: the encoder leaves it out.\<close>

record RpcRequest =
  iq_JSONRPC :: string
  iq_ID :: json
  iq_Method :: string
  iq_Params :: string

record RpcResponse =
  is_JSONRPC :: string
  is_ID :: json
  is_Result :: "json option"
  is_Error :: "(int \<times> string) option"

definition id_member :: "json \<Rightarrow> (string \<times> json) list" where
  "id_member v = (if v = JNull then [] else [(''id'', v)])"

definition request_json :: "RpcRequest \<Rightarrow> json" where
  "request_json r =
     JObj ([(''jsonrpc'', JStr (iq_JSONRPC r))] @ id_member (iq_ID r) @ [(''method'', JStr (iq_Method r))] @
           (if iq_Params r = [] then [] else [(''params'', JRaw (iq_Params r))]))"

definition response_json :: "RpcResponse \<Rightarrow> json" where
  "response_json r =
     JObj ([(''jsonrpc'', JStr (is_JSONRPC r))] @ id_member (is_ID r) @
           (case is_Result r of None \<Rightarrow> [] | Some v \<Rightarrow> [(''result'', v)]) @
           (case is_Error r of None \<Rightarrow> []
            | Some (code, msg) \<Rightarrow> [(''error'', JObj [(''code'', JNum (show_int code)), (''message'', JStr msg)])]))"

definition notification_json :: "string \<Rightarrow> json \<Rightarrow> json" where
  "notification_json method params =
     JObj ([(''jsonrpc'', JStr ''2.0''), (''method'', JStr method)] @ (if params = JNull then [] else [(''params'', params)]))"

definition error_response :: "json \<Rightarrow> int \<Rightarrow> string \<Rightarrow> RpcResponse" where
  "error_response i code msg = \<lparr>is_JSONRPC = ''2.0'', is_ID = i, is_Result = None, is_Error = Some (code, msg)\<rparr>"

definition result_response :: "json \<Rightarrow> json option \<Rightarrow> RpcResponse" where
  "result_response i v = \<lparr>is_JSONRPC = ''2.0'', is_ID = i, is_Result = v, is_Error = None\<rparr>"

section \<open>The server\<close>

type_synonym 's Handler = "string \<Rightarrow> 's \<Rightarrow> (error + json option) \<times> 's"

text \<open>What a subscription does while it lasts, as it happens: a notification of its handler, or a tick of
  the 30 second heartbeat.\<close>

datatype SubAct = Notify string json | Tick string

record 's RpcServer =
  sv_handlers :: "(string \<times> 's Handler) list"
  sv_subHandler :: "(string \<Rightarrow> SubAct list) option"

definition NewServer :: "'s RpcServer" where "NewServer = \<lparr>sv_handlers = [], sv_subHandler = None\<rparr>"

definition Handle :: "string \<Rightarrow> 's Handler \<Rightarrow> 's RpcServer \<Rightarrow> 's RpcServer" where
  "Handle method h sv = sv\<lparr>sv_handlers := AList.update method h (sv_handlers sv)\<rparr>"

definition HandleSubscribe :: "(string \<Rightarrow> SubAct list) \<Rightarrow> 's RpcServer \<Rightarrow> 's RpcServer" where
  "HandleSubscribe h sv = sv\<lparr>sv_subHandler := Some h\<rparr>"

definition verifyPeer :: "32 word \<Rightarrow> error + (32 word) \<Rightarrow> error option" where
  "verifyPeer myUID peer =
     (case peer of Inl err \<Rightarrow> Some err
      | Inr uid \<Rightarrow> if uid \<noteq> myUID then Some (''UID mismatch: peer='' @ show_int (uint uid) @ '' daemon='' @ show_int (uint myUID)) else None)"

text \<open>The answer that would be the \<open>n\<close>-th is written if \<open>accepts n\<close>. An answer is not written when \<open>json.Marshal\<close> refuses it
  or when the connection does; \<open>writeResponse\<close> returns the error in both cases, and \<open>accepts\<close> stands for both.\<close>

definition writeResponse :: "(nat \<Rightarrow> bool) \<Rightarrow> string list \<Rightarrow> json \<Rightarrow> string list option" where
  "writeResponse accepts out v = (if accepts (length out) then Some (out @ [json_print v]) else None)"

text \<open>A heartbeat that cannot be written ends the heartbeats, a notification that cannot be written ends
  the subscription.\<close>

fun run_subscription :: "(nat \<Rightarrow> bool) \<Rightarrow> bool \<Rightarrow> SubAct list \<Rightarrow> string list \<Rightarrow> string list" where
  "run_subscription accepts beating [] out = out"
| "run_subscription accepts beating (Tick ts # acts) out =
     (if \<not> beating then run_subscription accepts beating acts out
      else case writeResponse accepts out (notification_json ''audit.heartbeat'' (JObj [(''ts'', JStr ts)])) of
        None \<Rightarrow> run_subscription accepts False acts out
      | Some out \<Rightarrow> run_subscription accepts beating acts out)"
| "run_subscription accepts beating (Notify method params # acts) out =
     (case writeResponse accepts out (notification_json method params) of
        None \<Rightarrow> out
      | Some out \<Rightarrow> run_subscription accepts beating acts out)"

definition handleSubscribe :: "'s RpcServer \<Rightarrow> (nat \<Rightarrow> bool) \<Rightarrow> RpcRequest \<Rightarrow> string list \<Rightarrow> string list" where
  "handleSubscribe sv accepts req out =
     (case sv_subHandler sv of
        None \<Rightarrow> (case writeResponse accepts out (response_json (error_response (iq_ID req) (-32601) ''subscribe not configured'')) of
          None \<Rightarrow> out | Some out \<Rightarrow> out)
      | Some handler \<Rightarrow>
          (case writeResponse accepts out (response_json (result_response (iq_ID req) (Some (JObj [(''ok'', JBool True)])))) of
            None \<Rightarrow> out
          | Some out \<Rightarrow> run_subscription accepts True (handler (iq_Params req)) out))"

text \<open>The answer to a request that is not a subscription.\<close>

definition answer :: "'s RpcServer \<Rightarrow> RpcRequest \<Rightarrow> 's \<Rightarrow> RpcResponse \<times> 's" where
  "answer sv req s =
     (case map_of (sv_handlers sv) (iq_Method req) of
        None \<Rightarrow> (error_response (iq_ID req) (-32601) ''method not found'', s)
      | Some handler \<Rightarrow>
          (case handler (iq_Params req) s of
             (Inl err, s) \<Rightarrow> (error_response (iq_ID req) (-32000) err, s)
           | (Inr result, s) \<Rightarrow> (result_response (iq_ID req) result, s)))"

fun serve_lines :: "(string \<Rightarrow> RpcRequest option) \<Rightarrow> 's RpcServer \<Rightarrow> (nat \<Rightarrow> bool) \<Rightarrow> string list \<Rightarrow> string list \<Rightarrow> 's \<Rightarrow> string list \<times> 's" where
  "serve_lines decode sv accepts [] out s = (out, s)"
| "serve_lines decode sv accepts (line # lines) out s =
     (if line = [] then serve_lines decode sv accepts lines out s
      else case decode line of
        None \<Rightarrow>
          (case writeResponse accepts out (response_json (error_response JNull (-32700) ''parse error'')) of
             None \<Rightarrow> (out, s)
           | Some out \<Rightarrow> serve_lines decode sv accepts lines out s)
      | Some req \<Rightarrow>
          (if iq_Method req = ''audit.subscribe'' then (handleSubscribe sv accepts req out, s)
           else case answer sv req s of (resp, s) \<Rightarrow>
             (case writeResponse accepts out (response_json resp) of
                None \<Rightarrow> (out, s)
              | Some out \<Rightarrow> serve_lines decode sv accepts lines out s)))"

definition handleConn :: "(string \<Rightarrow> RpcRequest option) \<Rightarrow> 's RpcServer \<Rightarrow> (nat \<Rightarrow> bool) \<Rightarrow> string \<Rightarrow> 's \<Rightarrow> string \<times> 's" where
  "handleConn decode sv accepts input s =
     (let (out, s) = serve_lines decode sv accepts (scan_lines MiB input) [] s in (concat (map as_line out), s))"

section \<open>The client\<close>

record Client =
  cl_nextID :: "64 word"

definition client_request :: "Client \<Rightarrow> string \<Rightarrow> string \<Rightarrow> RpcRequest \<times> Client" where
  "client_request c method params =
     (let i = cl_nextID c + 1
      in (\<lparr>iq_JSONRPC = ''2.0'', iq_ID = JNum (show_int (sint i)), iq_Method = method, iq_Params = params\<rparr>, c\<lparr>cl_nextID := i\<rparr>))"

text \<open>What \<open>Call\<close> makes of the bytes that follow. The response's \<open>id\<close> is not compared with the request's.\<close>

definition read_response :: "(string \<Rightarrow> RpcResponse option) \<Rightarrow> string \<Rightarrow> error + string" where
  "read_response decode_response input =
     (case scan_lines MiB input of
        [] \<Rightarrow> Err (if input = [] then ''connection closed'' else ''read: bufio.Scanner: token too long'')
      | line # _ \<Rightarrow>
          (case decode_response line of
             None \<Rightarrow> Err ''unmarshal response''
           | Some resp \<Rightarrow>
               (case is_Error resp of
                  Some (code, msg) \<Rightarrow> Err (''rpc error '' @ show_int code @ '': '' @ msg)
                | None \<Rightarrow> Inr (case is_Result resp of None \<Rightarrow> ''null'' | Some v \<Rightarrow> json_print v))))"

text \<open>A call over a connection to the server.\<close>

definition Call ::
  "(string \<Rightarrow> RpcRequest option) \<Rightarrow> (string \<Rightarrow> RpcResponse option) \<Rightarrow> 's RpcServer \<Rightarrow> string \<Rightarrow> string \<Rightarrow> Client \<times> 's \<Rightarrow> (error + string) \<times> Client \<times> 's" where
  "Call decode decode_response sv method params cs =
     (let (req, c) = client_request (fst cs) method params;
          (reply, s) = handleConn decode sv (\<lambda>_. True) (as_line (json_print (request_json req))) (snd cs)
      in (read_response decode_response reply, c, s))"

section \<open>One answer per line\<close>

text \<open>What the server owes for the lines of a connection.\<close>

fun owed :: "(string \<Rightarrow> RpcRequest option) \<Rightarrow> 's RpcServer \<Rightarrow> string list \<Rightarrow> 's \<Rightarrow> RpcResponse list \<times> 's" where
  "owed decode sv [] s = ([], s)"
| "owed decode sv (line # lines) s =
     (case decode line of
        None \<Rightarrow> (let (rs, s) = owed decode sv lines s in (error_response JNull (-32700) ''parse error'' # rs, s))
      | Some req \<Rightarrow> (let (r, s) = answer sv req s; (rs, s) = owed decode sv lines s in (r # rs, s)))"

lemma answer_ID [simp]: "is_ID (fst (answer sv req s)) = iq_ID req"
  by (auto simp: answer_def error_response_def result_response_def split: option.splits prod.splits sum.splits)

definition not_subscribing :: "(string \<Rightarrow> RpcRequest option) \<Rightarrow> string list \<Rightarrow> bool" where
  "not_subscribing decode lines =
     list_all (\<lambda>line. case decode line of None \<Rightarrow> True | Some req \<Rightarrow> iq_Method req \<noteq> ''audit.subscribe'') lines"

lemma serve_lines_owed:
  assumes "not_subscribing decode (filter (\<lambda>l. l \<noteq> []) lines)"
  shows "serve_lines decode sv (\<lambda>_. True) lines out s =
    (out @ map (\<lambda>r. json_print (response_json r)) (fst (owed decode sv (filter (\<lambda>l. l \<noteq> []) lines) s)),
     snd (owed decode sv (filter (\<lambda>l. l \<noteq> []) lines) s))"
  using assms
  by (induction lines arbitrary: out s)
    (auto simp: not_subscribing_def writeResponse_def case_prod_beta Let_def split: option.splits)

lemma owed_nth:
  "length (fst (owed decode sv lines s)) = length lines"
  "i < length lines \<Longrightarrow> is_ID (fst (owed decode sv lines s) ! i) = (case decode (lines ! i) of None \<Rightarrow> JNull | Some req \<Rightarrow> iq_ID req)"
proof (induction lines arbitrary: s i)
  case (Cons line lines)
  case 1 then show ?case by (simp add: Cons case_prod_beta Let_def split: option.splits)
  case 2 then show ?case
    using Cons by (cases i) (auto simp: case_prod_beta Let_def error_response_def split: option.splits)
qed simp_all


text \<open>C31: Every request line of a connection is answered once, in order, under its own identifier. For
  lines that fit the buffer and do not subscribe, what the server writes is one line per non-empty
  line it was sent: the answer of the named handler, which sees the state the requests before it
  left, or an error for a line it cannot parse or a method it does not know, which change nothing.
  A last line that does not fit ends the connection without an answer.\<close>

theorem handleConn_answers:
  assumes "list_all (is_line MiB) lines" "not_subscribing decode (filter (\<lambda>l. l \<noteq> []) lines)"
    "rest = [] \<or> newline \<notin> set rest \<and> MiB \<le> length rest"
  shows "\<exists>answers. handleConn decode sv (\<lambda>_. True) (concat (map as_line lines) @ rest) s =
      (concat (map (\<lambda>r. as_line (json_print (response_json r))) answers),
       snd (owed decode sv (filter (\<lambda>l. l \<noteq> []) lines) s)) \<and>
    answers = fst (owed decode sv (filter (\<lambda>l. l \<noteq> []) lines) s) \<and>
    map is_ID answers = map (\<lambda>l. case decode l of None \<Rightarrow> JNull | Some req \<Rightarrow> iq_ID req) (filter (\<lambda>l. l \<noteq> []) lines)"
proof -
  have "scan_lines MiB rest = []" using assms(3) by (auto simp: scan_lines_def)
  then have "scan_lines MiB (concat (map as_line lines) @ rest) = lines"
    by (simp add: scan_lines_append [OF assms(1)])
  moreover have "map is_ID (fst (owed decode sv ls s)) = map (\<lambda>l. case decode l of None \<Rightarrow> JNull | Some req \<Rightarrow> iq_ID req) ls" for ls
    by (rule nth_equalityI) (simp_all add: owed_nth)
  ultimately show ?thesis
    by (simp add: handleConn_def serve_lines_owed [OF assms(2)] comp_def)
qed

definition sample_server :: "nat RpcServer" where
  "sample_server = Handle ''count'' (\<lambda>_ n. (Inr (Some (JNum (show_nat n))), Suc n)) NewServer"

definition sample_decode :: "string \<Rightarrow> RpcRequest option" where
  "sample_decode line =
     (if line = ''{'' then None
      else Some \<lparr>iq_JSONRPC = ''2.0'', iq_ID = JNum ''1'', iq_Method = ''count'', iq_Params = []\<rparr>)"

theorem handleConn_answers_witness:
  "\<exists>answers. handleConn sample_decode sample_server (\<lambda>_. True) (concat (map as_line [''{'', [], ''x'', ''y''])) 4 =
      (concat (map (\<lambda>r. as_line (json_print (response_json r))) answers), 6) \<and>
    map is_ID answers = [JNull, JNum ''1'', JNum ''1'']"
proof -
  let ?lines = "[''{'', [], ''x'', ''y'']"
  have "list_all (is_line MiB) ?lines" by (simp add: is_line_def MiB_def newline_def creturn_def)
  moreover have "not_subscribing sample_decode (filter (\<lambda>l. l \<noteq> []) ?lines)" by (simp add: not_subscribing_def sample_decode_def)
  moreover have "snd (owed sample_decode sample_server (filter (\<lambda>l. l \<noteq> []) ?lines) 4) = 6"
    by (simp add: sample_decode_def sample_server_def answer_def Handle_def NewServer_def Let_def case_prod_beta)
  ultimately show ?thesis
    using handleConn_answers [of ?lines sample_decode "[]" sample_server 4] by (auto simp: sample_decode_def)
qed

section \<open>A call and its answer\<close>

lemma clean_show_nat: "clean (show_nat n)"
proof (induction n rule: show_nat.induct)
  case (1 n)
  have digit: "clean [char_of (48 + k)]" if "k < 10" for k :: nat using that by simp
  show ?case
  proof (cases "n < 10")
    case True
    then show ?thesis by (subst show_nat.simps) (simp del: clean_simps add: digit)
  next
    case False
    with 1 show ?thesis by (subst show_nat.simps) (simp add: digit [simplified])
  qed
qed

lemma clean_show_int: "clean (show_int i)"
  by (simp add: show_int_def clean_show_nat)

lemma clean_request: "clean (iq_Params r) \<Longrightarrow> clean_json (iq_ID r) \<Longrightarrow> clean_json (request_json r)"
  by (simp add: request_json_def id_member_def)

lemma snd_answer: "snd (answer sv req s) =
   (case map_of (sv_handlers sv) (iq_Method req) of None \<Rightarrow> s | Some handler \<Rightarrow> snd (handler (iq_Params req) s))"
  by (auto simp: answer_def split: option.splits prod.splits sum.splits)

lemma rpc_code: "''rpc error '' @ show_int (-32601) @ '': '' @ ''method not found'' = ''rpc error -32601: method not found''"
    "''rpc error '' @ show_int (-32000) @ '': '' @ err = ''rpc error -32000: '' @ err"
proof -
  have digits: "char_of (48 :: nat) = CHR ''0''" "char_of (49 :: nat) = CHR ''1''" "char_of (50 :: nat) = CHR ''2''"
      "char_of (51 :: nat) = CHR ''3''" "char_of (54 :: nat) = CHR ''6''" by code_simp+
  have "show_int (-32601) = ''-32601''" "show_int (-32000) = ''-32000''"
    by (simp_all add: show_int_def show_nat.simps digits)
  then show "''rpc error '' @ show_int (-32601) @ '': '' @ ''method not found'' = ''rpc error -32601: method not found''"
    "''rpc error '' @ show_int (-32000) @ '': '' @ err = ''rpc error -32000: '' @ err" by (simp_all only: append.simps)
qed

lemma client_value: "(case is_Error (fst (answer sv req s)) of Some (code, msg) \<Rightarrow> Err (''rpc error '' @ show_int code @ '': '' @ msg)
     | None \<Rightarrow> Inr (case is_Result (fst (answer sv req s)) of None \<Rightarrow> ''null'' | Some v \<Rightarrow> json_print v)) =
   (case map_of (sv_handlers sv) (iq_Method req) of None \<Rightarrow> Err ''rpc error -32601: method not found''
    | Some handler \<Rightarrow> (case fst (handler (iq_Params req) s) of Inl err \<Rightarrow> Err (''rpc error -32000: '' @ err)
        | Inr v \<Rightarrow> Inr (case v of None \<Rightarrow> ''null'' | Some v \<Rightarrow> json_print v)))"
proof (cases "map_of (sv_handlers sv) (iq_Method req)")
  case None
  then show ?thesis by (simp only: answer_def error_response_def option.case fst_conv RpcResponse.simps prod.case rpc_code)
next
  case (Some handler)
  obtain r s' where h: "handler (iq_Params req) s = (r, s')" by (cases "handler (iq_Params req) s")
  show ?thesis
    by (cases r) (simp_all only: answer_def Some h error_response_def result_response_def option.case sum.case
        fst_conv RpcResponse.simps prod.case rpc_code)
qed

text \<open>A call returns what its handler computed. The client's request line reaches the handler of that
  method with the parameters the client gave, in the state the server is in, and the client gets
  the handler's value as it was written, its error under the code -32000, or the error -32601 for
  a method nobody handles, if both lines fit the buffer and each side decodes what the other
  encoded. No byte of the encoded values can break the framing.\<close>

theorem Call_roundtrip:
  assumes "method \<noteq> ''audit.subscribe''" "clean params"
    "req = fst (client_request c method params)" "resp = fst (answer sv req s)"
    "decode (json_print (request_json req)) = Some req" "decode_response (json_print (response_json resp)) = Some resp"
    "length (json_print (request_json req)) < MiB" "length (json_print (response_json resp)) < MiB"
    "clean_json (response_json resp)"
  shows "Call decode decode_response sv method params (c, s) =
    (case map_of (sv_handlers sv) method of
       None \<Rightarrow> (Err ''rpc error -32601: method not found'', c\<lparr>cl_nextID := cl_nextID c + 1\<rparr>, s)
     | Some handler \<Rightarrow>
         (case fst (handler params s) of
            Inl err \<Rightarrow> Err (''rpc error -32000: '' @ err)
          | Inr v \<Rightarrow> Inr (case v of None \<Rightarrow> ''null'' | Some v \<Rightarrow> json_print v),
          c\<lparr>cl_nextID := cl_nextID c + 1\<rparr>, snd (handler params s)))"
proof -
  have req: "iq_Method req = method" "iq_Params req = params" "clean_json (iq_ID req)"
    "snd (client_request c method params) = c\<lparr>cl_nextID := cl_nextID c + 1\<rparr>"
    by (simp_all add: assms(3) client_request_def Let_def clean_show_int)
  have line: "is_line MiB (json_print (request_json req))"
    using assms(2,7) req by (intro printed_is_line clean_request) simp_all
  have reply: "is_line MiB (json_print (response_json resp))" using assms(8,9) by (rule printed_is_line [rotated])
  have ne: "json_print (request_json req) \<noteq> []" by (simp add: request_json_def)
  have "handleConn decode sv (\<lambda>_. True) (as_line (json_print (request_json req))) s =
      (as_line (json_print (response_json resp)), snd (answer sv req s))"
    using scan_lines_lines [of MiB "[json_print (request_json req)]"] line ne assms(1,5) req(1)
    by (simp add: handleConn_def writeResponse_def case_prod_beta assms(4))
  moreover have "scan_lines MiB (as_line (json_print (response_json resp))) = [json_print (response_json resp)]"
    using scan_lines_lines [of MiB "[json_print (response_json resp)]"] reply by simp
  ultimately have call: "Call decode decode_response sv method params (c, s) =
      ((case is_Error resp of Some (code, msg) \<Rightarrow> Err (''rpc error '' @ show_int code @ '': '' @ msg)
        | None \<Rightarrow> Inr (case is_Result resp of None \<Rightarrow> ''null'' | Some v \<Rightarrow> json_print v)),
       c\<lparr>cl_nextID := cl_nextID c + 1\<rparr>, snd (answer sv req s))"
    using req(4) assms(6) by (simp add: Call_def case_prod_beta Let_def assms(3) [symmetric] read_response_def)
  show ?thesis
    unfolding call assms(4) client_value snd_answer req by (simp split: option.splits)
qed

theorem Call_roundtrip_witness:
  "Call (\<lambda>_. Some \<lparr>iq_JSONRPC = ''2.0'', iq_ID = JNum ''1'', iq_Method = ''count'', iq_Params = []\<rparr>)
     (\<lambda>_. Some (result_response (JNum ''1'') (Some (JNum ''4'')))) sample_server ''count'' [] (\<lparr>cl_nextID = 0\<rparr>, 4) =
   (Inr ''4'', \<lparr>cl_nextID = 1\<rparr>, 5)"
proof -
  let ?req = "\<lparr>iq_JSONRPC = ''2.0'', iq_ID = JNum ''1'', iq_Method = ''count'', iq_Params = []\<rparr>"
  have four: "show_nat 4 = ''4''" by code_simp
  let ?resp = "result_response (JNum ''1'') (Some (JNum ''4''))"
  have req: "?req = fst (client_request \<lparr>cl_nextID = 0\<rparr> ''count'' [])" by code_simp
  have resp: "?resp = fst (answer sample_server ?req 4)"
    by code_simp
  have "length (json_print (request_json ?req)) < 100" "length (json_print (response_json ?resp)) < 100" by code_simp+
  then have "length (json_print (request_json ?req)) < MiB" "length (json_print (response_json ?resp)) < MiB" by (simp_all add: MiB_def)
  with Call_roundtrip [of "''count''" "[]" ?req _ ?resp sample_server 4 "\<lambda>_. Some ?req" "\<lambda>_. Some ?resp", OF _ _ req resp]
  show ?thesis
    by (simp add: sample_server_def Handle_def NewServer_def response_json_def result_response_def id_member_def four)
qed

end
