(* ===== verification/Log_Parsers.thy ===== *)
theory Log_Parsers
  imports Discovery Classify Audit_Event Go_Time_Parse
begin

text \<open>
  \<open>internal/adapter/logwatcher\<close>, the parsers: \<open>claudecode.go\<close>, \<open>codexcli.go\<close>, \<open>parser_router.go\<close> and
  \<open>classifier.go\<close> turn one line of an agent's log into events. Unmarshalling into the sources'
  structs and the digest are the record \<open>LogLib\<close>. The package's state is the classifier and the
  models of the Codex sessions; the clock is a function of how often it was read for the line.
\<close>

section \<open>Records\<close>

record CCRecord =
  cc_Type :: string
  cc_Timestamp :: string
  cc_CWD :: string
  cc_Message :: string

record CCUsage =
  cu_InputTokens :: int64
  cu_OutputTokens :: int64

record CCMessage =
  cm_Model :: string
  cm_Content :: json
  cm_Usage :: "CCUsage option"

record ContentBlock =
  cb_Type :: string
  cb_Name :: string
  cb_Input :: string

record codexEnvelope =
  cxe_Timestamp :: string
  cxe_Type :: string
  cxe_Payload :: string

record codexSessionMeta =
  cxs_ID :: string
  cxs_CWD :: string
  cxs_CLI :: string
  cxs_Model :: string
  cxs_ModelFamily :: string

record codexResponseItem =
  cxr_Type :: string
  cxr_Role :: string
  cxr_Content :: string
  cxr_Text :: string
  cxr_Model :: string
  cxr_Name :: string
  cxr_ToolName :: string
  cxr_Arguments :: string
  cxr_Input :: string
  cxr_Usage :: "CCUsage option"

record codexContentBlock =
  cxb_Type :: string
  cxb_Text :: string
  cxb_Name :: string
  cxb_ToolName :: string
  cxb_Arguments :: string
  cxb_Input :: string

record codexEventMsg =
  cxm_Type :: string
  cxm_Message :: string
  cxm_Reason :: string

record codexTurnContext =
  cxt_CWD :: string
  cxt_Model :: string
  cxt_ApprovalPolicy :: string

record codexTokenCount =
  cxk_Model :: string
  cxk_InputTokens :: int64
  cxk_OutputTokens :: int64
  cxk_Usage :: "(int64 option \<times> int64 option) option"

record LogLib =
  ll_sum256 :: "string \<Rightarrow> string"
  ll_unmarshal :: "string \<Rightarrow> json option"
  ll_glob :: "string \<Rightarrow> string \<Rightarrow> error + bool"
  ll_probe :: "string \<Rightarrow> string option"
  ll_record :: "string \<Rightarrow> error + CCRecord"
  ll_message :: "string \<Rightarrow> error + CCMessage"
  ll_content_blocks :: "string \<Rightarrow> ContentBlock list option"
  ll_envelope :: "string \<Rightarrow> error + codexEnvelope"
  ll_session_meta :: "string \<Rightarrow> error + codexSessionMeta"
  ll_response_item :: "string \<Rightarrow> error + codexResponseItem"
  ll_token_count :: "string \<Rightarrow> error + codexTokenCount"
  ll_turn_context :: "string \<Rightarrow> error + codexTurnContext"
  ll_event_msg :: "string \<Rightarrow> error + codexEventMsg"
  ll_codex_blocks :: "string \<Rightarrow> codexContentBlock list option"
  ll_codex_block :: "string \<Rightarrow> codexContentBlock option"
  ll_text :: "string \<Rightarrow> string option"

record ParserState =
  ps_classifier :: Registry
  ps_models :: "(string \<times> string) list"

definition SetClassifier :: "Registry option \<Rightarrow> ParserState \<Rightarrow> ParserState" where
  "SetClassifier c s = s\<lparr>ps_classifier := (case c of Some r \<Rightarrow> r | None \<Rightarrow> NewFallbackRegistry)\<rparr>"

section \<open>Classification\<close>

definition actionTypeForToolCategory :: "string \<Rightarrow> ActionType" where
  "actionTypeForToolCategory category =
     (if category \<in> {CategoryShell, CategoryCodeExec} then ActionCommandExecution
      else if category \<in> {CategoryFileRead, CategoryFileWrite, CategoryFileEdit, CategoryFileSearch} then ActionFileAccess
      else ActionToolCall)"

definition applyToolClassification ::
  "LogLib \<Rightarrow> AuditEvent \<Rightarrow> string \<Rightarrow> string \<Rightarrow> string \<Rightarrow> ParserState \<Rightarrow> AuditEvent \<times> ParserState" where
  "applyToolClassification L e provider toolName rawArgs s =
     (let (result, c) = Classify (ll_glob L) (ps_classifier s) provider toolName (ExtractArgKeys (ll_unmarshal L) rawArgs)
      in (e\<lparr>ev_Provider := provider, ev_ToolName := toolName, ev_ToolCategory := cl_Category result,
            ev_ToolEffect := cl_Effect result, ev_TaxonomyVersion := cl_TaxonomyVersion result,
            ev_ClassificationSource := cl_ClassificationSource result,
            ev_ActionType := actionTypeForToolCategory (cl_Category result)\<rparr>,
          s\<lparr>ps_classifier := c\<rparr>))"

section \<open>Identifiers, times and names\<close>

definition id_text :: "string \<Rightarrow> int64 \<Rightarrow> nat \<Rightarrow> string \<Rightarrow> string" where
  "id_text sourceFile lineOffset sfx lineContent =
     sourceFile @ '':'' @ show_int (sint lineOffset) @ '':'' @ show_nat sfx @ '':'' @ lineContent"

definition deterministicID :: "(string \<Rightarrow> string) \<Rightarrow> string \<Rightarrow> int64 \<Rightarrow> nat \<Rightarrow> string \<Rightarrow> string" where
  "deterministicID sum256 sourceFile lineOffset sfx lineContent =
     hex (take 12 (sum256 (id_text sourceFile lineOffset sfx lineContent)))"

text \<open>The second layout accepts no text that the first does not.\<close>

definition parseTimestamp :: "time \<Rightarrow> string \<Rightarrow> time" where
  "parseTimestamp now ts = (case parse_rfc3339nano ts of Some t \<Rightarrow> t | None \<Rightarrow> now)"

definition path_ext :: "string \<Rightarrow> string" where
  "path_ext p =
     (let r = takeWhile (\<lambda>c. c \<noteq> CHR ''.'' \<and> c \<noteq> CHR ''/'') (rev p)
      in case drop (length r) (rev p) of c # _ \<Rightarrow> (if c = CHR ''.'' then ''.'' @ rev r else []) | [] \<Rightarrow> [])"

definition extractSessionIDFromFile :: "string \<Rightarrow> string" where
  "extractSessionIDFromFile path =
     (let base = path_base path in if path_ext base = ''.jsonl'' then trim_suffix base (path_ext base) else base)"

definition extractCodexSessionID :: "string \<Rightarrow> string" where
  "extractCodexSessionID path =
     (let base = trim_suffix (path_base path) ''.jsonl''; match = codexSessionIDPattern_find base
      in if match \<noteq> [] then to_lower match else base)"

section \<open>Claude Code\<close>

definition ParserVersion :: string where "ParserVersion = ''cc-parser-v0.1''"

definition cc_event :: "LogLib \<Rightarrow> string \<Rightarrow> int64 \<Rightarrow> nat \<Rightarrow> string \<Rightarrow> time \<Rightarrow> AuditEvent" where
  "cc_event L sessionFile lineOffset sfx line ts =
     zero_event\<lparr>ev_ID := deterministicID (ll_sum256 L) sessionFile lineOffset sfx line, ev_Timestamp := ts,
       ev_AgentID := ''claude-code'', ev_SessionID := extractSessionIDFromFile sessionFile,
       ev_ParserVersion := ParserVersion, ev_Outcome := OutcomeSuccess,
       ev_AdapterID := ''log-watcher'', ev_AdapterType := ''log_watcher''\<rparr>"

definition unknownEvent :: "LogLib \<Rightarrow> time \<Rightarrow> string \<Rightarrow> string \<Rightarrow> error \<Rightarrow> int64 \<Rightarrow> AuditEvent" where
  "unknownEvent L now sessionFile rawBytes parseErr lineOffset =
     (cc_event L sessionFile lineOffset 0 rawBytes now)\<lparr>ev_ActionType := ActionUnknown, ev_Action := ''unknown'',
       ev_Arguments := ''parse_error: '' @ parseErr\<rparr>"

definition systemEvent :: "LogLib \<Rightarrow> time \<Rightarrow> CCRecord \<Rightarrow> string \<Rightarrow> string \<Rightarrow> int64 \<Rightarrow> AuditEvent" where
  "systemEvent L now rec line sessionFile lineOffset =
     (cc_event L sessionFile lineOffset 0 line (parseTimestamp now (cc_Timestamp rec)))
       \<lparr>ev_ActionType := ActionSystem, ev_Action := ''system''\<rparr>"

definition aiRequestEvent :: "LogLib \<Rightarrow> time \<Rightarrow> CCRecord \<Rightarrow> string \<Rightarrow> CCMessage \<Rightarrow> CCUsage \<Rightarrow> string \<Rightarrow> int64 \<Rightarrow> AuditEvent" where
  "aiRequestEvent L now rec line msg usage sessionFile lineOffset =
     (cc_event L sessionFile lineOffset 0 line (parseTimestamp now (cc_Timestamp rec)))
       \<lparr>ev_ActionType := ActionAIRequest, ev_Action := ''chat'', ev_WorkingDir := cc_CWD rec, ev_Model := cm_Model msg,
        ev_InputTokens := cu_InputTokens usage, ev_OutputTokens := cu_OutputTokens usage\<rparr>"

definition toolCallEvent ::
  "LogLib \<Rightarrow> time \<Rightarrow> CCRecord \<Rightarrow> string \<Rightarrow> CCMessage \<Rightarrow> ContentBlock \<Rightarrow> string \<Rightarrow> int64 \<Rightarrow> nat \<Rightarrow> ParserState \<Rightarrow> AuditEvent \<times> ParserState" where
  "toolCallEvent L now rec line msg block sessionFile lineOffset toolIdx s =
     applyToolClassification L
       ((cc_event L sessionFile lineOffset toolIdx line (parseTimestamp now (cc_Timestamp rec)))
          \<lparr>ev_ActionType := ActionToolCall, ev_Action := cb_Name block, ev_Arguments := cb_Input block,
           ev_WorkingDir := cc_CWD rec, ev_Model := cm_Model msg\<rparr>)
       ''anthropic'' (cb_Name block) (cb_Input block) s"

text \<open>\<open>json.Marshal\<close> of a decoded value writes its objects with sorted keys (\<open>ll_message\<close> gives the
  numbers as they are written again).\<close>

fun sorted_json :: "json \<Rightarrow> json" where
  "sorted_json (JArr vs) = JArr (map sorted_json vs)"
| "sorted_json (JObj kvs) = json_map (map (\<lambda>kv. (fst kv, sorted_json (snd kv))) kvs)"
| "sorted_json v = v"

definition parseContentBlocks :: "LogLib \<Rightarrow> json \<Rightarrow> ContentBlock list" where
  "parseContentBlocks L content =
     (if content = JNull then []
      else case ll_content_blocks L (json_print (sorted_json content)) of None \<Rightarrow> [] | Some blocks \<Rightarrow> blocks)"

fun tool_events ::
  "LogLib \<Rightarrow> (nat \<Rightarrow> time) \<Rightarrow> CCRecord \<Rightarrow> string \<Rightarrow> CCMessage \<Rightarrow> string \<Rightarrow> int64 \<Rightarrow> nat \<Rightarrow> ContentBlock list \<Rightarrow> ParserState \<Rightarrow> AuditEvent list \<times> ParserState" where
  "tool_events L now rec line msg sessionFile lineOffset toolIdx [] s = ([], s)"
| "tool_events L now rec line msg sessionFile lineOffset toolIdx (block # blocks) s =
     (if cb_Type block = ''tool_use'' then
        let (evt, s) = toolCallEvent L (now toolIdx) rec line msg block sessionFile lineOffset toolIdx s;
            (evts, s) = tool_events L now rec line msg sessionFile lineOffset (Suc toolIdx) blocks s
        in (evt # evts, s)
      else tool_events L now rec line msg sessionFile lineOffset toolIdx blocks s)"

fun attach_usage :: "CCUsage \<Rightarrow> string \<Rightarrow> AuditEvent list \<Rightarrow> AuditEvent list" where
  "attach_usage usage model [] = []"
| "attach_usage usage model (e # es) =
     e\<lparr>ev_InputTokens := cu_InputTokens usage, ev_OutputTokens := cu_OutputTokens usage, ev_Model := model\<rparr> # es"

definition parseAssistant ::
  "LogLib \<Rightarrow> (nat \<Rightarrow> time) \<Rightarrow> CCRecord \<Rightarrow> string \<Rightarrow> string \<Rightarrow> int64 \<Rightarrow> ParserState \<Rightarrow> AuditEvent list \<times> ParserState" where
  "parseAssistant L now rec line sessionFile lineOffset s =
     (case ll_message L (cc_Message rec) of
        Inl err \<Rightarrow> ([unknownEvent L (now 0) sessionFile line err lineOffset], s)
      | Inr msg \<Rightarrow>
          let (events, s) = tool_events L now rec line msg sessionFile lineOffset 0 (parseContentBlocks L (cm_Content msg)) s
          in (case cm_Usage msg of
                None \<Rightarrow> (events, s)
              | Some usage \<Rightarrow>
                  let events = (if events = [] then [aiRequestEvent L (now 0) rec line msg usage sessionFile lineOffset] else events)
                  in (attach_usage usage (cm_Model msg) events, s)))"

definition ParseLine ::
  "LogLib \<Rightarrow> (nat \<Rightarrow> time) \<Rightarrow> string \<Rightarrow> string \<Rightarrow> int64 \<Rightarrow> ParserState \<Rightarrow> AuditEvent list \<times> ParserState" where
  "ParseLine L now line sessionFile lineOffset s =
     (if line = [] then ([], s)
      else case ll_record L line of
        Inl err \<Rightarrow> ([unknownEvent L (now 0) sessionFile line err lineOffset], s)
      | Inr rec \<Rightarrow>
          (if cc_Type rec = ''assistant'' then parseAssistant L now rec line sessionFile lineOffset s
           else if cc_Type rec = ''user'' then ([], s)
           else if cc_Type rec = ''system'' then ([systemEvent L (now 0) rec line sessionFile lineOffset], s)
           else if cc_Type rec \<in> {''queue-operation'', ''file-history-snapshot'', ''summary'', ''progress''} then ([], s)
           else if cc_Type rec = [] then ([unknownEvent L (now 0) sessionFile line ''empty type'' lineOffset], s)
           else ([unknownEvent L (now 0) sessionFile line (''unknown type: '' @ cc_Type rec) lineOffset], s)))"

section \<open>Codex\<close>

definition CodexParserVersion :: string where "CodexParserVersion = ''codex-parser-v0.1''"

fun firstNonEmpty :: "string list \<Rightarrow> string" where
  "firstNonEmpty [] = []"
| "firstNonEmpty (v # vs) = (if trim_space v \<noteq> [] then v else firstNonEmpty vs)"

fun firstNonEmptyRaw :: "string list \<Rightarrow> string" where
  "firstNonEmptyRaw [] = []"
| "firstNonEmptyRaw (v # vs) = (if v = [] \<or> v = ''null'' then firstNonEmptyRaw vs else v)"

definition mustMarshalMap :: "(string \<times> string) list \<Rightarrow> string" where
  "mustMarshalMap m =
     (let clean = filter (\<lambda>(k, v). trim_space v \<noteq> []) m
      in if clean = [] then [] else json_print (json_map (map (\<lambda>(k, v). (k, JStr v)) clean)))"

definition normalizeRawJSON :: "LogLib \<Rightarrow> string \<Rightarrow> string" where
  "normalizeRawJSON L raw =
     (if raw = [] \<or> raw = ''null'' then []
      else case ll_text L raw of Some asString \<Rightarrow> asString | None \<Rightarrow> raw)"

definition codexSessionKey :: "string \<Rightarrow> string \<Rightarrow> string" where
  "codexSessionKey sessionFile sessionID = (if sessionID \<noteq> [] then sessionID else sessionFile)"

definition setCodexSessionModel :: "string \<Rightarrow> string \<Rightarrow> string \<Rightarrow> ParserState \<Rightarrow> ParserState" where
  "setCodexSessionModel sessionFile sessionID model s =
     (let model = trim_space model
      in if model = [] then s
         else s\<lparr>ps_models := AList.update (codexSessionKey sessionFile sessionID) model (ps_models s)\<rparr>)"

definition getCodexSessionModel :: "string \<Rightarrow> string \<Rightarrow> ParserState \<Rightarrow> string" where
  "getCodexSessionModel sessionFile sessionID s =
     (case map_of (ps_models s) (codexSessionKey sessionFile sessionID) of None \<Rightarrow> [] | Some model \<Rightarrow> model)"

definition isCodexToolType :: "string \<Rightarrow> bool" where
  "isCodexToolType t = (to_lower t \<in> {''tool_call'', ''function_call'', ''tool_use''})"

definition isCodexIgnoredResponseType :: "string \<Rightarrow> bool" where
  "isCodexIgnoredResponseType t = (to_lower (trim_space t) \<in> {''reasoning'', ''function_call_output''})"

definition isCodexDynamicToolType :: "string \<Rightarrow> bool" where
  "isCodexDynamicToolType t =
     (let t = to_lower (trim_space t)
      in t \<noteq> [] \<and> (has_prefix t ''web_search'' \<or> contains t ''web_search''))"

definition isCodexDeniedToolLikeType :: "string \<Rightarrow> bool" where
  "isCodexDeniedToolLikeType t =
     (let t = to_lower (trim_space t)
      in t \<noteq> [] \<and>
         (t \<in> {''execution_result'', ''function_result'', ''tool_result'', ''status_update'', ''progress_update'',
                 ''search_result'', ''code_search_result'', ''web_search_result''} \<or> has_suffix t ''_result''))"

definition looksLikeCodexToolResponseItem :: "codexResponseItem \<Rightarrow> string \<Rightarrow> bool" where
  "looksLikeCodexToolResponseItem item rawArgs =
     (let t = to_lower (trim_space (cxr_Type item))
      in if t = [] \<or> t = ''message'' \<or> isCodexIgnoredResponseType t \<or> isCodexDeniedToolLikeType t then False
         else if isCodexDynamicToolType t then True
         else if trim_space (cxr_Name item) \<noteq> [] \<or> trim_space (cxr_ToolName item) \<noteq> [] then rawArgs \<noteq> [] \<and> rawArgs \<noteq> ''null''
         else False)"

definition looksLikeCodexToolContentBlock :: "codexContentBlock \<Rightarrow> string \<Rightarrow> bool" where
  "looksLikeCodexToolContentBlock block rawArgs =
     (let t = to_lower (trim_space (cxb_Type block))
      in if t \<in> {[], ''text'', ''output_text'', ''input_text''} \<or> isCodexDeniedToolLikeType t then False
         else if isCodexDynamicToolType t then True
         else if trim_space (cxb_Name block) \<noteq> [] \<or> trim_space (cxb_ToolName block) \<noteq> [] then rawArgs \<noteq> [] \<and> rawArgs \<noteq> ''null''
         else False)"

text \<open>What the functions of the source pass along for one line.\<close>

record CodexLine =
  cl_file :: string
  cl_session :: string
  cl_time :: time
  cl_offset :: int64
  cl_raw :: string
  cl_now :: time

definition codexBaseEvent :: "LogLib \<Rightarrow> CodexLine \<Rightarrow> nat \<Rightarrow> time \<Rightarrow> string \<Rightarrow> ActionType \<Rightarrow> string \<Rightarrow> string \<Rightarrow> string \<Rightarrow> string \<Rightarrow> AuditEvent" where
  "codexBaseEvent L l sfx ts sessionID actionType action args cwd model =
     zero_event\<lparr>ev_ID := deterministicID (ll_sum256 L) (cl_file l) (cl_offset l) sfx (cl_raw l), ev_Timestamp := ts,
       ev_AgentID := ''codex-cli'', ev_ActionType := actionType, ev_Action := action, ev_Arguments := args,
       ev_SessionID := sessionID, ev_WorkingDir := cwd, ev_ParserVersion := CodexParserVersion,
       ev_Outcome := OutcomeSuccess, ev_Model := model, ev_AdapterID := ''log-watcher'', ev_AdapterType := ''log_watcher''\<rparr>"

definition codexUnknownEvent :: "LogLib \<Rightarrow> CodexLine \<Rightarrow> error \<Rightarrow> AuditEvent" where
  "codexUnknownEvent L l parseErr =
     (codexBaseEvent L l 0 (cl_now l) (extractCodexSessionID (cl_file l)) ActionUnknown ''unknown'' (''parse_error: '' @ parseErr) [] [])
       \<lparr>ev_Outcome := OutcomeFailure\<rparr>"

definition parseCodexBlocks :: "LogLib \<Rightarrow> string \<Rightarrow> codexContentBlock list" where
  "parseCodexBlocks L content =
     (let text_block = (\<lambda>t. \<lparr>cxb_Type = ''text'', cxb_Text = t, cxb_Name = [], cxb_ToolName = [], cxb_Arguments = [], cxb_Input = []\<rparr>)
      in if content = [] \<or> content = ''null'' then []
         else case ll_codex_blocks L content of
           Some blocks \<Rightarrow> blocks
         | None \<Rightarrow>
            (let as_text = (case ll_text L content of Some t \<Rightarrow> [text_block t] | None \<Rightarrow> [])
             in case ll_codex_block L content of
                  Some single \<Rightarrow> (if cxb_Type single \<noteq> [] then [single] else as_text)
                | None \<Rightarrow> as_text))"

definition codexToolEventFromResponseItem ::
  "LogLib \<Rightarrow> CodexLine \<Rightarrow> codexResponseItem \<Rightarrow> ParserState \<Rightarrow> (AuditEvent \<times> ParserState) option" where
  "codexToolEventFromResponseItem L l item s =
     (let name = trim_space (firstNonEmpty [cxr_Name item, cxr_ToolName item]);
          rawArgs = firstNonEmptyRaw [cxr_Arguments item, cxr_Input item]
      in if \<not> isCodexToolType (cxr_Type item) \<and> \<not> looksLikeCodexToolResponseItem item rawArgs then None
         else
           let name = (if name = [] then trim_space (cxr_Type item) else name);
               evt = codexBaseEvent L l 0 (cl_time l) (cl_session l) ActionToolCall name
                 (firstNonEmpty [normalizeRawJSON L rawArgs]) [] (cxr_Model item);
               (evt, s) = applyToolClassification L evt ''openai'' name rawArgs s
           in Some (case cxr_Usage item of None \<Rightarrow> evt
                | Some u \<Rightarrow> evt\<lparr>ev_InputTokens := cu_InputTokens u, ev_OutputTokens := cu_OutputTokens u\<rparr>, s))"

text \<open>The loop over the blocks of a message: the user's prompts, the assistant's texts, the tool calls.\<close>

fun codex_blocks ::
  "LogLib \<Rightarrow> CodexLine \<Rightarrow> codexResponseItem \<Rightarrow> nat \<Rightarrow> codexContentBlock list \<Rightarrow> ParserState \<Rightarrow>
   string list \<times> string list \<times> AuditEvent list \<times> ParserState" where
  "codex_blocks L l item toolIdx [] s = ([], [], [], s)"
| "codex_blocks L l item toolIdx (block # blocks) s =
     (if cxb_Type block = ''input_text'' then
        let (prompts, texts, evts, s) = codex_blocks L l item toolIdx blocks s
        in (if cxr_Role item = ''user'' \<and> trim_space (cxb_Text block) \<noteq> [] then cxb_Text block # prompts else prompts, texts, evts, s)
      else if cxb_Type block \<in> {''text'', ''output_text''} then
        let (prompts, texts, evts, s) = codex_blocks L l item toolIdx blocks s
        in (prompts, if cxr_Role item = ''assistant'' \<and> trim_space (cxb_Text block) \<noteq> [] then cxb_Text block # texts else texts, evts, s)
      else
        let rawArgs = firstNonEmptyRaw [cxb_Arguments block, cxb_Input block]
        in if isCodexToolType (cxb_Type block) \<or> looksLikeCodexToolContentBlock block rawArgs then
             let name = trim_space (firstNonEmpty [cxb_Name block, cxb_ToolName block]);
                 name = (if name = [] then trim_space (cxb_Type block) else name);
                 evt = codexBaseEvent L l toolIdx (cl_time l) (cl_session l) ActionToolCall name
                   (firstNonEmpty [normalizeRawJSON L rawArgs]) [] (cxr_Model item);
                 (evt, s) = applyToolClassification L evt ''openai'' name rawArgs s;
                 (prompts, texts, evts, s) = codex_blocks L l item (Suc toolIdx) blocks s
             in (prompts, texts, evt # evts, s)
           else codex_blocks L l item toolIdx blocks s)"

definition newline_sep :: string where "newline_sep = [CHR 0x0A]"

fun item_usage :: "codexResponseItem \<Rightarrow> AuditEvent list \<Rightarrow> AuditEvent list" where
  "item_usage item [] = []"
| "item_usage item (e # es) =
     (case cxr_Usage item of
        None \<Rightarrow> e # es
      | Some u \<Rightarrow>
          e\<lparr>ev_InputTokens := cu_InputTokens u, ev_OutputTokens := cu_OutputTokens u,
            ev_Model := (if ev_Model e = [] then cxr_Model item else ev_Model e)\<rparr> # es)"

definition parseCodexMessageItem :: "LogLib \<Rightarrow> CodexLine \<Rightarrow> codexResponseItem \<Rightarrow> ParserState \<Rightarrow> AuditEvent list \<times> ParserState" where
  "parseCodexMessageItem L l item s =
     (if cxr_Role item = ''developer'' then ([], s)
      else
        let blocks = parseCodexBlocks L (cxr_Content item);
            blocks = (if blocks = [] \<and> cxr_Text item \<noteq> []
              then [\<lparr>cxb_Type = ''text'', cxb_Text = cxr_Text item, cxb_Name = [], cxb_ToolName = [], cxb_Arguments = [], cxb_Input = []\<rparr>]
              else blocks);
            (userPrompts, assistantText, events, s) = codex_blocks L l item 0 blocks s;
            chat = (\<lambda>text. codexBaseEvent L l (length events) (cl_time l) (cl_session l) ActionAIRequest ''chat'' text [] (cxr_Model item));
            prompt = trim_space (join userPrompts newline_sep);
            prompt = (if prompt = [] then trim_space (cxr_Text item) else prompt);
            events = (if cxr_Role item = ''user'' \<and> prompt \<noteq> [] then events @ [chat prompt] else events);
            events = (if cxr_Role item = ''assistant'' \<and> events = [] then [chat (trim_space (join assistantText newline_sep))] else events)
        in (item_usage item events, s))"

definition parseCodexResponseItem :: "LogLib \<Rightarrow> CodexLine \<Rightarrow> string \<Rightarrow> ParserState \<Rightarrow> AuditEvent list \<times> ParserState" where
  "parseCodexResponseItem L l payload s =
     (case ll_response_item L payload of
        Inl err \<Rightarrow> ([codexUnknownEvent L l err], s)
      | Inr item \<Rightarrow>
          let item = (if cxr_Model item = [] then item\<lparr>cxr_Model := getCodexSessionModel (cl_file l) (cl_session l) s\<rparr> else item)
          in if isCodexIgnoredResponseType (cxr_Type item) \<or> isCodexDeniedToolLikeType (cxr_Type item) then ([], s)
             else if cxr_Type item = ''message'' then parseCodexMessageItem L l item s
             else case codexToolEventFromResponseItem L l item s of
               Some (evt, s) \<Rightarrow> ([evt], s)
             | None \<Rightarrow> ([codexUnknownEvent L l (''unknown response_item payload.type: '' @ cxr_Type item)], s))"

definition parseCodexSessionMeta :: "LogLib \<Rightarrow> CodexLine \<Rightarrow> string \<Rightarrow> ParserState \<Rightarrow> AuditEvent list \<times> ParserState" where
  "parseCodexSessionMeta L l payload s =
     (case ll_session_meta L payload of
        Inl err \<Rightarrow> ([codexUnknownEvent L l err], s)
      | Inr meta \<Rightarrow>
          let sessionID = (if cxs_ID meta \<noteq> [] then cxs_ID meta else cl_session l);
              s = (if cxs_Model meta \<noteq> [] then setCodexSessionModel (cl_file l) sessionID (cxs_Model meta) s else s);
              args = (if cxs_CLI meta \<noteq> [] then [(''cli_version'', cxs_CLI meta)] else []) @
                     (if cxs_ModelFamily meta \<noteq> [] then [(''model_provider'', cxs_ModelFamily meta)] else [])
          in ([codexBaseEvent L l 0 (cl_time l) sessionID ActionSystem ''session_meta'' (mustMarshalMap args) (cxs_CWD meta) (cxs_Model meta)], s))"

definition parseCodexTokenCount :: "LogLib \<Rightarrow> CodexLine \<Rightarrow> string \<Rightarrow> ParserState \<Rightarrow> AuditEvent list \<times> ParserState" where
  "parseCodexTokenCount L l payload s =
     (case ll_token_count L payload of
        Inl err \<Rightarrow> ([codexUnknownEvent L l err], s)
      | Inr tc \<Rightarrow>
          let input = (case cxk_Usage tc of Some (Some n, _) \<Rightarrow> n | _ \<Rightarrow> cxk_InputTokens tc);
              output = (case cxk_Usage tc of Some (_, Some n) \<Rightarrow> n | _ \<Rightarrow> cxk_OutputTokens tc);
              model = (if cxk_Model tc = [] then getCodexSessionModel (cl_file l) (cl_session l) s else cxk_Model tc)
          in ([(codexBaseEvent L l 0 (cl_time l) (cl_session l) ActionAIRequest ''token_count'' [] [] model)
                 \<lparr>ev_InputTokens := input, ev_OutputTokens := output\<rparr>], s))"

definition parseCodexTurnContext :: "LogLib \<Rightarrow> CodexLine \<Rightarrow> string \<Rightarrow> ParserState \<Rightarrow> AuditEvent list \<times> ParserState" where
  "parseCodexTurnContext L l payload s =
     (case ll_turn_context L payload of
        Inl err \<Rightarrow> ([codexUnknownEvent L l err], s)
      | Inr tc \<Rightarrow>
          let args = mustMarshalMap [(''approval_policy'', cxt_ApprovalPolicy tc)];
              s = (if cxt_Model tc \<noteq> [] then setCodexSessionModel (cl_file l) (cl_session l) (cxt_Model tc) s else s)
          in ([codexBaseEvent L l 0 (cl_time l) (cl_session l) ActionSystem ''turn_context'' args (cxt_CWD tc) (cxt_Model tc)], s))"

definition parseCodexEventMsg :: "LogLib \<Rightarrow> CodexLine \<Rightarrow> string \<Rightarrow> ParserState \<Rightarrow> AuditEvent list \<times> ParserState" where
  "parseCodexEventMsg L l payload s =
     (case ll_event_msg L payload of
        Inl err \<Rightarrow> ([codexUnknownEvent L l err], s)
      | Inr msg \<Rightarrow>
          (if cxm_Type msg = ''turn_aborted'' then
             ([(codexBaseEvent L l 0 (cl_time l) (cl_session l) ActionSystem ''turn_aborted''
                  (firstNonEmpty [cxm_Reason msg, cxm_Message msg]) [] [])\<lparr>ev_Outcome := OutcomeFailure\<rparr>], s)
           else ([], s)))"

definition parseCodexLine ::
  "LogLib \<Rightarrow> (nat \<Rightarrow> time) \<Rightarrow> string \<Rightarrow> string \<Rightarrow> int64 \<Rightarrow> ParserState \<Rightarrow> AuditEvent list \<times> ParserState" where
  "parseCodexLine L now line sessionFile lineOffset s =
     (if line = [] then ([], s)
      else
        let l = (\<lambda>ts n. \<lparr>cl_file = sessionFile, cl_session = extractCodexSessionID sessionFile, cl_time = ts,
                        cl_offset = lineOffset, cl_raw = line, cl_now = n\<rparr>)
        in case ll_envelope L line of
          Inl err \<Rightarrow> ([codexUnknownEvent L (l zero_time (now 0)) err], s)
        | Inr env \<Rightarrow>
            let l = l (parseTimestamp (now 0) (cxe_Timestamp env)) (now 1)
            in if cxe_Type env = ''session_meta'' then parseCodexSessionMeta L l (cxe_Payload env) s
               else if cxe_Type env = ''response_item'' then parseCodexResponseItem L l (cxe_Payload env) s
               else if cxe_Type env = ''token_count'' then parseCodexTokenCount L l (cxe_Payload env) s
               else if cxe_Type env = ''turn_context'' then parseCodexTurnContext L l (cxe_Payload env) s
               else if cxe_Type env = ''event_msg'' then parseCodexEventMsg L l (cxe_Payload env) s
               else ([codexUnknownEvent L l (''unknown type: '' @ cxe_Type env)], s))"

section \<open>The router\<close>

definition codexRecordTypes :: "string set" where
  "codexRecordTypes = {''session_meta'', ''response_item'', ''event_msg'', ''turn_context'', ''token_count''}"

definition isCodexSource :: "string \<Rightarrow> bool" where
  "isCodexSource sourceFile =
     (sourceFile \<noteq> [] \<and>
      (let normalized = replace_char (CHR 0x5C) ''/'' sourceFile
       in contains normalized ''/.codex/'' \<or> contains normalized ''/codex/sessions/''))"

definition looksLikeCodexLine :: "LogLib \<Rightarrow> string \<Rightarrow> bool" where
  "looksLikeCodexLine L line =
     (line \<noteq> [] \<and> (case ll_probe L line of None \<Rightarrow> False | Some t \<Rightarrow> t \<in> codexRecordTypes))"

definition ParseLineForSource ::
  "LogLib \<Rightarrow> (nat \<Rightarrow> time) \<Rightarrow> string \<Rightarrow> string \<Rightarrow> int64 \<Rightarrow> ParserState \<Rightarrow> AuditEvent list \<times> ParserState" where
  "ParseLineForSource L now line sourceFile lineOffset s =
     (if isCodexSource sourceFile \<or> looksLikeCodexLine L line then parseCodexLine L now line sourceFile lineOffset s
      else ParseLine L now line sourceFile lineOffset s)"

section \<open>What a line can give\<close>

text \<open>Well-formed events of one line, with the identifiers of its places from \<open>k\<close> on.\<close>

definition log_event :: "AuditEvent \<Rightarrow> bool" where
  "log_event e = (ev_AdapterType e = ''log_watcher'' \<and> ev_AdapterID e = ''log-watcher'' \<and>
     ev_Outcome e \<in> {OutcomeSuccess, OutcomeFailure} \<and>
     ev_ActionType e \<in> {ActionToolCall, ActionFileAccess, ActionCommandExecution, ActionAIRequest, ActionSystem, ActionUnknown})"

fun numbered :: "(nat \<Rightarrow> string) \<Rightarrow> nat \<Rightarrow> AuditEvent list \<Rightarrow> bool" where
  "numbered f k [] = True"
| "numbered f k (e # es) = (ev_ID e = f k \<and> log_event e \<and> numbered f (Suc k) es)"

lemma numbered_nth: "numbered f k es \<longleftrightarrow> (\<forall>i < length es. ev_ID (es ! i) = f (k + i) \<and> log_event (es ! i))"
  by (induction f k es rule: numbered.induct) (auto simp: All_less_Suc2)

lemma numbered_append [simp]: "numbered f k (xs @ ys) \<longleftrightarrow> numbered f k xs \<and> numbered f (k + length xs) ys"
  by (induction f k xs rule: numbered.induct) auto

lemma classified [simp]:
  "ev_ID (fst (applyToolClassification L e p t a s)) = ev_ID e"
  "log_event e \<Longrightarrow> log_event (fst (applyToolClassification L e p t a s))"
  by (auto simp: applyToolClassification_def case_prod_beta log_event_def actionTypeForToolCategory_def)

abbreviation line_id :: "LogLib \<Rightarrow> string \<Rightarrow> int64 \<Rightarrow> string \<Rightarrow> nat \<Rightarrow> string" where
  "line_id L path off line k \<equiv> deterministicID (ll_sum256 L) path off k line"

lemma cc_event_ok: "ev_ID (cc_event L path off k line ts) = line_id L path off line k"
    "ev_Outcome (cc_event L path off k line ts) = OutcomeSuccess"
    "ev_AdapterType (cc_event L path off k line ts) = ''log_watcher''" "ev_AdapterID (cc_event L path off k line ts) = ''log-watcher''"
  by (simp_all add: cc_event_def)

lemma toolCallEvent_ok [simp]:
  "ev_ID (fst (toolCallEvent L now rec line msg block path off k s)) = line_id L path off line k"
  "log_event (fst (toolCallEvent L now rec line msg block path off k s))"
  unfolding toolCallEvent_def by (simp, rule cc_event_ok) (rule classified(2), simp add: log_event_def cc_event_ok)

lemma tool_events_numbered:
  "numbered (line_id L path off line) k (fst (tool_events L now rec line msg path off k blocks s))"
  by (induction blocks arbitrary: k s) (auto simp: case_prod_beta Let_def)

lemma attach_usage_numbered [simp]: "numbered f k (attach_usage u m es) \<longleftrightarrow> numbered f k es"
  by (cases es) (auto simp: log_event_def)

lemma ParseLine_numbered: "numbered (line_id L path off line) 0 (fst (ParseLine L now line path off s))"
proof -
  have "numbered (line_id L path off line) 0 (fst (parseAssistant L now rec line path off s))" for rec
    using tool_events_numbered [of L path off line 0 now rec]
    by (auto simp: parseAssistant_def unknownEvent_def aiRequestEvent_def cc_event_ok case_prod_beta Let_def log_event_def
        split: sum.splits option.splits)
  then show ?thesis
    by (auto simp: ParseLine_def unknownEvent_def systemEvent_def cc_event_ok log_event_def split: sum.splits)
qed

abbreviation codex_id :: "LogLib \<Rightarrow> CodexLine \<Rightarrow> nat \<Rightarrow> string" where
  "codex_id L l \<equiv> line_id L (cl_file l) (cl_offset l) (cl_raw l)"

lemma codexBaseEvent_ok [simp]:
  "ev_ID (codexBaseEvent L l k t i a act args cwd m) = codex_id L l k"
  "a \<in> {ActionToolCall, ActionFileAccess, ActionCommandExecution, ActionAIRequest, ActionSystem, ActionUnknown} \<Longrightarrow>
     log_event (codexBaseEvent L l k t i a act args cwd m)"
  by (auto simp: codexBaseEvent_def log_event_def)

lemma log_event_update [simp]:
  "log_event (e\<lparr>ev_InputTokens := a, ev_OutputTokens := b\<rparr>) = log_event e"
  "log_event (e\<lparr>ev_InputTokens := a, ev_OutputTokens := b, ev_Model := c\<rparr>) = log_event e"
  "log_event e \<Longrightarrow> log_event (e\<lparr>ev_Outcome := OutcomeFailure\<rparr>)"
  by (auto simp: log_event_def)

lemma codexUnknownEvent_ok [simp]: "numbered (codex_id L l) 0 [codexUnknownEvent L l err]"
  by (simp add: codexUnknownEvent_def)

lemma codex_blocks_numbered:
  "numbered (codex_id L l) k (fst (snd (snd (codex_blocks L l item k blocks s))))"
  by (induction blocks arbitrary: k s) (auto simp: case_prod_beta Let_def)

lemma item_usage_numbered [simp]: "numbered f k (item_usage item es) \<longleftrightarrow> numbered f k es"
  by (cases es) (auto split: option.splits)

lemma parseCodexMessageItem_numbered: "numbered (codex_id L l) 0 (fst (parseCodexMessageItem L l item s))"
  by (auto simp: parseCodexMessageItem_def Let_def case_prod_beta codex_blocks_numbered)

lemma parseCodexLine_numbered: "numbered (line_id L path off line) 0 (fst (parseCodexLine L now line path off s))"
proof -
  have tool: "numbered (codex_id L l) 0 [fst r]" if "codexToolEventFromResponseItem L l item s = Some r" for l item s r
    using that by (auto simp: codexToolEventFromResponseItem_def case_prod_beta Let_def split: if_splits option.splits)
  have item: "numbered (codex_id L l) 0 (fst (parseCodexResponseItem L l payload s))" for l payload s
    using tool parseCodexMessageItem_numbered [of L l]
    by (auto simp: parseCodexResponseItem_def Let_def split: sum.splits option.splits simp del: numbered.simps(2))
  have rest: "numbered (codex_id L l) 0 (fst (parseCodexSessionMeta L l payload s))"
    "numbered (codex_id L l) 0 (fst (parseCodexTokenCount L l payload s))"
    "numbered (codex_id L l) 0 (fst (parseCodexTurnContext L l payload s))"
    "numbered (codex_id L l) 0 (fst (parseCodexEventMsg L l payload s))" for l payload
    by (auto simp: parseCodexSessionMeta_def parseCodexTokenCount_def parseCodexTurnContext_def parseCodexEventMsg_def Let_def
        codexUnknownEvent_def split: sum.splits)
  let ?l = "\<lambda>ts n. \<lparr>cl_file = path, cl_session = extractCodexSessionID path, cl_time = ts, cl_offset = off, cl_raw = line, cl_now = n\<rparr>"
  note at = item [of "?l _ _"] rest [of "?l _ _"] codexUnknownEvent_ok [of L "?l _ _"]
  show ?thesis
    using at by (auto simp: parseCodexLine_def Let_def split: sum.splits)
qed

lemma ParseLineForSource_numbered: "numbered (line_id L path off line) 0 (fst (ParseLineForSource L now line path off s))"
  by (simp add: ParseLineForSource_def ParseLine_numbered parseCodexLine_numbered)

lemma parsed_ids: "map ev_ID (fst (ParseLineForSource L now line path off s)) =
     map (\<lambda>k. deterministicID (ll_sum256 L) path off k line) [0..<length (fst (ParseLineForSource L now line path off s))]"
  using ParseLineForSource_numbered [of L path off line now s] by (auto simp: numbered_nth intro: nth_equalityI)

text \<open>C36: The events of a log line are well-formed and numbered: the \<open>k\<close>-th has the identifier of its file, the
  line's offset and text, and \<open>k\<close>; each is marked as the log watcher's, with a known type, and is
  never claimed to be blocked or warned about by the parser.\<close>

theorem parsed_events_numbered:
  "list_all log_event (fst (ParseLineForSource L now line path off s)) \<and>
   map ev_ID (fst (ParseLineForSource L now line path off s)) =
     map (\<lambda>k. deterministicID (ll_sum256 L) path off k line) [0..<length (fst (ParseLineForSource L now line path off s))]"
  using ParseLineForSource_numbered [of L path off line now s] parsed_ids
  by (auto simp: numbered_nth list_all_length)

end
