(* ===== verification/Log_Watcher.thy ===== *)
theory Log_Watcher
  imports Log_Parsers Go_Scan
begin

text \<open>
  \<open>internal/adapter/logwatcher/logwatcher.go\<close>: reading on in an agent's log from the stored offset.
  \<open>tailFile\<close> is a function of what it finds (the stored offset, the file's bytes) to what it does:
  the events it puts on the channel and the offset it stores itself; the offset of delivered
  events is stored with them by the audit logger. When it runs is the matter of
  \<open>Log_Following\<close>. \<open>accepts n\<close> says whether the channel had room at the \<open>n\<close>-th send,
  and the clock is read per line, so it is indexed by the line's offset.
\<close>

section \<open>Reading on\<close>

record Tail =
  tl_sent :: "AuditEvent list"
  tl_attempts :: nat
  tl_lastEvt :: "AuditEvent option"
  tl_newOffset :: int64
  tl_parser :: ParserState

text \<open>\<open>select { case events <- e: default: }\<close>\<close>

definition send_event :: "(nat \<Rightarrow> bool) \<Rightarrow> AuditEvent \<Rightarrow> Tail \<Rightarrow> Tail" where
  "send_event accepts e t =
     t\<lparr>tl_sent := (if accepts (tl_attempts t) then tl_sent t @ [e] else tl_sent t), tl_attempts := Suc (tl_attempts t)\<rparr>"

fun tail_events :: "(nat \<Rightarrow> bool) \<Rightarrow> string \<Rightarrow> AuditEvent list \<Rightarrow> Tail \<Rightarrow> Tail" where
  "tail_events accepts path [] t = t"
| "tail_events accepts path (evt # evts) t =
     (let evt = evt\<lparr>ev_SourceFile := path, ev_SourceOffset := tl_newOffset t\<rparr>;
          t = (case tl_lastEvt t of Some e \<Rightarrow> send_event accepts e t | None \<Rightarrow> t)
      in tail_events accepts path evts (t\<lparr>tl_lastEvt := Some evt\<rparr>))"

fun tail_lines :: "LogLib \<Rightarrow> (int64 \<Rightarrow> nat \<Rightarrow> time) \<Rightarrow> (nat \<Rightarrow> bool) \<Rightarrow> string \<Rightarrow> string list \<Rightarrow> Tail \<Rightarrow> Tail" where
  "tail_lines L clock accepts path [] t = t"
| "tail_lines L clock accepts path (line # lines) t =
     (let curOffset = tl_newOffset t;
          newOffset = curOffset + word_of_nat (length line) + 1;
          (parsed, ps) = ParseLineForSource L (clock curOffset) line path curOffset (tl_parser t)
      in tail_lines L clock accepts path lines
           (tail_events accepts path parsed (t\<lparr>tl_newOffset := newOffset, tl_parser := ps\<rparr>)))"

definition start_offset :: "int64 \<Rightarrow> string \<Rightarrow> int64" where
  "start_offset offset content = (if sint offset > int (length content) then 0 else offset)"

text \<open>Errors of \<open>Open\<close> and \<open>Stat\<close> are a content \<open>None\<close>; seeking to a negative offset fails.\<close>

definition tailFile ::
  "LogLib \<Rightarrow> (int64 \<Rightarrow> nat \<Rightarrow> time) \<Rightarrow> (nat \<Rightarrow> bool) \<Rightarrow> string \<Rightarrow> error + int64 \<Rightarrow> string option \<Rightarrow> ParserState \<Rightarrow>
   AuditEvent list \<times> int64 option \<times> ParserState" where
  "tailFile L clock accepts path offset_read content ps =
     (case (offset_read, content) of
        (Inr offset, Some content) \<Rightarrow>
          (let offset = start_offset offset content
           in if sint offset < 0 then ([], None, ps)
              else
                let t = tail_lines L clock accepts path (scan_lines MiB (drop (nat (sint offset)) content))
                      \<lparr>tl_sent = [], tl_attempts = 0, tl_lastEvt = None, tl_newOffset = offset, tl_parser = ps\<rparr>
                in case tl_lastEvt t of
                     Some e \<Rightarrow> (tl_sent (send_event accepts (e\<lparr>ev_SourceOffset := tl_newOffset t\<rparr>) t), None, tl_parser t)
                   | None \<Rightarrow> ([], if word_sless offset (tl_newOffset t) then Some (tl_newOffset t) else None, tl_parser t))
      | _ \<Rightarrow> ([], None, ps))"

text \<open>The offset in the store afterwards: the one set, or the greatest of the delivered events.\<close>

definition stored_offset :: "int64 \<Rightarrow> AuditEvent list \<Rightarrow> int64 option \<Rightarrow> int64" where
  "stored_offset offset sent set_to =
     (case set_to of Some n \<Rightarrow> n | None \<Rightarrow> (if sent = [] then offset else ev_SourceOffset (last sent)))"

section \<open>The lines and their events\<close>

text \<open>What the lines from an offset on give.\<close>

fun log_events :: "LogLib \<Rightarrow> (int64 \<Rightarrow> nat \<Rightarrow> time) \<Rightarrow> string \<Rightarrow> int64 \<Rightarrow> string list \<Rightarrow> ParserState \<Rightarrow> AuditEvent list \<times> ParserState" where
  "log_events L clock path off [] ps = ([], ps)"
| "log_events L clock path off (line # lines) ps =
     (let (es, ps) = ParseLineForSource L (clock off) line path off ps;
          (rest, ps) = log_events L clock path (off + word_of_nat (length line) + 1) lines ps
      in (es @ rest, ps))"

definition line_bytes :: "string list \<Rightarrow> nat" where
  "line_bytes lines = sum_list (map (\<lambda>l. Suc (length l)) lines)"

lemma line_bytes_append [simp]: "line_bytes (xs @ ys) = line_bytes xs + line_bytes ys"
  by (simp add: line_bytes_def)

definition no_offset :: "AuditEvent \<Rightarrow> AuditEvent" where
  "no_offset e = e\<lparr>ev_SourceOffset := 0\<rparr>"

definition from_log :: "string \<Rightarrow> AuditEvent \<Rightarrow> AuditEvent" where
  "from_log path e = e\<lparr>ev_SourceFile := path, ev_SourceOffset := 0\<rparr>"

definition held :: "Tail \<Rightarrow> AuditEvent list" where
  "held t = tl_sent t @ (case tl_lastEvt t of Some e \<Rightarrow> [e] | None \<Rightarrow> [])"

lemma tail_events_held:
  "map no_offset (held (tail_events (\<lambda>_. True) path evts t)) = map no_offset (held t) @ map (from_log path) evts"
  "tl_newOffset (tail_events accepts path evts t) = tl_newOffset t"
  "tl_parser (tail_events accepts path evts t) = tl_parser t"
  "tl_lastEvt (tail_events accepts path evts t) = None \<longleftrightarrow> tl_lastEvt t = None \<and> evts = []"
  by (induction evts arbitrary: t)
    (auto simp: Let_def held_def send_event_def no_offset_def from_log_def split: option.splits)

lemma held_update [simp]: "held (t\<lparr>tl_newOffset := n, tl_parser := ps\<rparr>) = held t"
  by (simp add: held_def)

lemma tail_lines_held:
  "map no_offset (held (tail_lines L clock (\<lambda>_. True) path lines t)) =
     map no_offset (held t) @ map (from_log path) (fst (log_events L clock path (tl_newOffset t) lines (tl_parser t)))"
  "tl_newOffset (tail_lines L clock accepts path lines t) = tl_newOffset t + word_of_nat (line_bytes lines)"
  "tl_parser (tail_lines L clock accepts path lines t) = snd (log_events L clock path (tl_newOffset t) lines (tl_parser t))"
  "tl_lastEvt (tail_lines L clock accepts path lines t) = None \<longleftrightarrow>
     tl_lastEvt t = None \<and> fst (log_events L clock path (tl_newOffset t) lines (tl_parser t)) = []"
  by (induction lines arbitrary: t) (auto simp: case_prod_beta Let_def tail_events_held line_bytes_def algebra_simps)

lemma sint_of_nat63: "n < 2 ^ 63 \<Longrightarrow> sint (word_of_nat n :: int64) = int n"
  by (simp add: signed_of_nat signed_take_bit_int_eq_self)

lemma length_lines: "length (concat (map as_line lines)) = line_bytes lines"
  by (induction lines) (simp_all add: line_bytes_def as_line_def)

text \<open>One reading with room on the channel.\<close>

lemma tailFile_reads:
  assumes "scan_lines MiB rest = lines" "length pre + line_bytes lines < 2 ^ 63"
    "r = tailFile L clock (\<lambda>_. True) path (Inr (word_of_nat (length pre))) (Some (pre @ rest)) ps"
  shows "map no_offset (fst r) = map (from_log path) (fst (log_events L clock path (word_of_nat (length pre)) lines ps))"
    "stored_offset (word_of_nat (length pre)) (fst r) (fst (snd r)) = word_of_nat (length pre + line_bytes lines)"
    "snd (snd r) = snd (log_events L clock path (word_of_nat (length pre)) lines ps)"
proof -
  let ?off = "word_of_nat (length pre) :: int64"
  let ?start = "\<lparr>tl_sent = [], tl_attempts = 0, tl_lastEvt = None, tl_newOffset = ?off, tl_parser = ps\<rparr>"
  let ?t = "tail_lines L clock (\<lambda>_. True) path lines ?start"
  have off: "sint ?off = int (length pre)" using assms(2) by (intro sint_of_nat63) simp
  have new: "tl_newOffset ?t = word_of_nat (length pre + line_bytes lines)" by (simp add: tail_lines_held)
  have less: "word_sless ?off (tl_newOffset ?t) \<longleftrightarrow> lines \<noteq> []"
    unfolding new word_sless_alt off using sint_of_nat63 [OF assms(2)] by (cases lines) (auto simp: line_bytes_def)
  have held: "map no_offset (held ?t) = map (from_log path) (fst (log_events L clock path ?off lines ps))"
    using tail_lines_held(1) [of L clock path lines ?start] by (simp add: held_def)
  have r: "r = (case tl_lastEvt ?t of
      Some e \<Rightarrow> (tl_sent ?t @ [e\<lparr>ev_SourceOffset := tl_newOffset ?t\<rparr>], None, tl_parser ?t)
    | None \<Rightarrow> ([], if lines \<noteq> [] then Some (tl_newOffset ?t) else None, tl_parser ?t))"
    by (simp add: assms(1,3) tailFile_def start_offset_def off Let_def less send_event_def split: option.splits)
  have "map no_offset (fst r) = map no_offset (held ?t)"
  proof (cases "tl_lastEvt ?t")
    case None
    with tail_lines_held(4) [of L clock "\<lambda>_. True" path lines ?start] held show ?thesis by (simp add: r)
  qed (simp add: r held_def no_offset_def)
  with held show "map no_offset (fst r) = map (from_log path) (fst (log_events L clock path ?off lines ps))" by simp
  show "stored_offset ?off (fst r) (fst (snd r)) = word_of_nat (length pre + line_bytes lines)"
    by (cases "lines = []") (auto simp: r stored_offset_def new [simplified] line_bytes_def split: option.splits)
  show "snd (snd r) = snd (log_events L clock path ?off lines ps)"
    by (auto simp: r tail_lines_held split: option.splits)
qed

lemma log_events_append:
  "log_events L clock path off (xs @ ys) ps =
     (let (es, ps) = log_events L clock path off xs ps; (es', ps) = log_events L clock path (off + word_of_nat (line_bytes xs)) ys ps
      in (es @ es', ps))"
  by (induction xs arbitrary: off ps) (simp_all add: case_prod_beta Let_def line_bytes_def algebra_simps)

section \<open>Following a log\<close>

text \<open>A log that grows by lines, read after each growth, the offset stored each time.\<close>

fun follow ::
  "LogLib \<Rightarrow> (int64 \<Rightarrow> nat \<Rightarrow> time) \<Rightarrow> string \<Rightarrow> string list list \<Rightarrow> string \<Rightarrow> int64 \<Rightarrow> ParserState \<Rightarrow> AuditEvent list \<times> int64 \<times> ParserState" where
  "follow L clock path [] content off ps = ([], off, ps)"
| "follow L clock path (chunk # chunks) content off ps =
     (let content = content @ concat (map as_line chunk);
          (sent, set_to, ps) = tailFile L clock (\<lambda>_. True) path (Inr off) (Some content) ps;
          (rest, off, ps) = follow L clock path chunks content (stored_offset off sent set_to) ps
      in (sent @ rest, off, ps))"

lemma follow_lemma:
  assumes "list_all (is_line MiB) (concat chunks)" "length content + line_bytes (concat chunks) < 2 ^ 63"
  shows "map no_offset (fst (follow L clock path chunks content (word_of_nat (length content)) ps)) =
      map (from_log path) (fst (log_events L clock path (word_of_nat (length content)) (concat chunks) ps)) \<and>
    snd (follow L clock path chunks content (word_of_nat (length content)) ps) =
      (word_of_nat (length content + line_bytes (concat chunks)),
       snd (log_events L clock path (word_of_nat (length content)) (concat chunks) ps))"
  using assms
proof (induction chunks arbitrary: content ps)
  case (Cons c cs)
  let ?content = "content @ concat (map as_line c)"
  have bytes: "line_bytes (concat (c # cs)) = line_bytes c + line_bytes (concat cs)" by simp
  define r where "r = tailFile L clock (\<lambda>_. True) path (Inr (word_of_nat (length content))) (Some ?content) ps"
  have "scan_lines MiB (concat (map as_line c)) = c" "length content + line_bytes c < 2 ^ 63"
    using Cons.prems bytes by (auto intro: scan_lines_lines)
  note one = tailFile_reads [OF this r_def]
  have "list_all (is_line MiB) (concat cs)" "length ?content + line_bytes (concat cs) < 2 ^ 63"
    using Cons.prems bytes by (auto simp: length_lines)
  note IH = Cons.IH [OF this, of "snd (snd r)"]
  show ?case
    using IH one by (simp add: r_def [symmetric] case_prod_beta Let_def length_lines log_events_append bytes algebra_simps)
qed (simp add: line_bytes_def)

text \<open>C30: Following a log that grows by whole lines parses every line once. However the growth of the file divides the lines,
  each of less than 1 MiB, between the readings, with room on the channel and the offset stored after
  each reading, the events delivered are those of the lines in order, each with the offset of its line, the
  stored offset ends at the end of the file, and the parser's state is what one pass over the lines
  gives. A reading that meets a line before its newline is written is not covered: it would be torn.\<close>

theorem follow_once:
  assumes "list_all (is_line MiB) (concat chunks)" "line_bytes (concat chunks) < 2 ^ 63"
  shows "map no_offset (fst (follow L clock path chunks [] 0 ps)) =
      map (from_log path) (fst (log_events L clock path 0 (concat chunks) ps)) \<and>
    snd (follow L clock path chunks [] 0 ps) =
      (word_of_nat (line_bytes (concat chunks)), snd (log_events L clock path 0 (concat chunks) ps))"
  using follow_lemma [of chunks "[]"] assms by simp

definition sample_log_lib :: LogLib where
  "sample_log_lib = \<lparr>ll_sum256 = (\<lambda>s. s), ll_unmarshal = (\<lambda>_. None), ll_glob = (\<lambda>_ _. Inr False), ll_probe = (\<lambda>_. None),
     ll_record = (\<lambda>_. Inl ''bad''), ll_message = (\<lambda>_. Inl ''bad''), ll_content_blocks = (\<lambda>_. None), ll_envelope = (\<lambda>_. Inl ''bad''),
     ll_session_meta = (\<lambda>_. Inl ''bad''), ll_response_item = (\<lambda>_. Inl ''bad''), ll_token_count = (\<lambda>_. Inl ''bad''),
     ll_turn_context = (\<lambda>_. Inl ''bad''), ll_event_msg = (\<lambda>_. Inl ''bad''), ll_codex_blocks = (\<lambda>_. None),
     ll_codex_block = (\<lambda>_. None), ll_text = (\<lambda>_. None)\<rparr>"

definition sample_parser :: ParserState where
  "sample_parser = \<lparr>ps_classifier = NewFallbackRegistry, ps_models = []\<rparr>"

theorem follow_once_witness:
  "map ev_Action (fst (follow sample_log_lib (\<lambda>_ _. 0) ''/l'' [[''a''], [], [''bc'', ''d'']] [] 0 sample_parser)) =
     replicate 3 ''unknown'' \<and>
   fst (snd (follow sample_log_lib (\<lambda>_ _. 0) ''/l'' [[''a''], [], [''bc'', ''d'']] [] 0 sample_parser)) = 7"
proof -
  let ?chunks = "[[''a''], [], [''bc'', ''d'']]"
  let ?run = "follow sample_log_lib (\<lambda>_ _. 0) ''/l'' ?chunks [] 0 sample_parser"
  have lines: "list_all (is_line MiB) (concat ?chunks)" "line_bytes (concat ?chunks) < 2 ^ 63"
    by (simp_all add: is_line_def MiB_def newline_def creturn_def line_bytes_def)
  note spec = follow_once [OF lines, of sample_log_lib "\<lambda>_ _. 0" "''/l''" sample_parser]
  have act: "ev_Action = ev_Action \<circ> no_offset" "ev_Action \<circ> from_log ''/l'' = ev_Action"
    by (auto simp: no_offset_def from_log_def)
  have "map ev_Action (fst ?run) = map ev_Action (map no_offset (fst ?run))" using act(1) by simp
  also have "\<dots> = map ev_Action (fst (log_events sample_log_lib (\<lambda>_ _. 0) ''/l'' 0 (concat ?chunks) sample_parser))"
    using spec act(2) by simp
  also have "\<dots> = replicate 3 ''unknown''"
    by (simp add: ParseLineForSource_def isCodexSource_def replace_char_def looksLikeCodexLine_def sample_log_lib_def
        ParseLine_def unknownEvent_def numeral_3_eq_3)
  finally show ?thesis using spec by (simp add: line_bytes_def)
qed

section \<open>Identifiers\<close>

lemma colon_free: "CHR '':'' \<notin> set (show_nat n)" "CHR '':'' \<notin> set (show_int i)"
proof -
  have "\<not> CHR '':'' \<le> CHR ''9''" by (simp add: less_eq_char_def)
  then show n: "CHR '':'' \<notin> set (show_nat n)" for n using show_nat_digits [of n] by blast
  then show "CHR '':'' \<notin> set (show_int i)" by (auto simp: show_int_def)
qed

lemma split_first: "c \<notin> set a \<Longrightarrow> c \<notin> set b \<Longrightarrow> a @ c # s = b @ c # t \<longleftrightarrow> a = b \<and> s = t"
proof (induction a arbitrary: b)
  case Nil
  then show ?case by (cases b) auto
next
  case (Cons x a)
  then show ?case by (cases b) auto
qed

lemma id_text_inj: "id_text f a k l = id_text f b m l' \<Longrightarrow> a = b \<and> k = m \<and> l = l'"
  by (auto simp: id_text_def split_first colon_free intro: signed_word_eqI)

text \<open>Every event of a log has the identifier of a place at or after the offset where the lines begin.\<close>

lemma log_event_places:
  assumes "e \<in> set (fst (log_events L clock path (word_of_nat n) lines ps))" "n + line_bytes lines < 2 ^ 63"
  shows "\<exists>m k l. n \<le> m \<and> m < 2 ^ 63 \<and> ev_ID e = deterministicID (ll_sum256 L) path (word_of_nat m) k l"
  using assms
proof (induction lines arbitrary: n ps)
  case (Cons line lines)
  let ?r = "ParseLineForSource L (clock (word_of_nat n)) line path (word_of_nat n) ps"
  have next_off: "word_of_nat n + word_of_nat (length line) + 1 = (word_of_nat (n + Suc (length line)) :: int64)" by (simp add: algebra_simps)
  have bytes: "n + Suc (length line) + line_bytes lines < 2 ^ 63" using Cons.prems(2) by (simp add: line_bytes_def)
  from Cons.prems(1) consider "e \<in> set (fst ?r)" | "e \<in> set (fst (log_events L clock path (word_of_nat (n + Suc (length line))) lines (snd ?r)))"
    unfolding log_events.simps next_off by (auto simp: case_prod_beta Let_def)
  then show ?case
  proof cases
    case 1
    then have "ev_ID e \<in> set (map ev_ID (fst ?r))" by simp
    then obtain k where "ev_ID e = deterministicID (ll_sum256 L) path (word_of_nat n) k line" unfolding parsed_ids by auto
    moreover have "n < 2 ^ 63" using bytes by simp
    ultimately show ?thesis by blast
  next
    case 2
    from Cons.IH [OF this bytes] show ?thesis by (metis add_leD1)
  qed
qed simp

text \<open>No two events of a log share an identifier, unless the digest's first twelve bytes collide: so the
  store, which ignores an identifier it has, drops an event of a log only if it has read it before.\<close>

theorem log_ids_distinct:
  assumes "line_bytes lines < 2 ^ 63"
  shows "distinct (map ev_ID (fst (log_events L clock path 0 lines ps))) \<or>
    (\<exists>x y. x \<noteq> y \<and> take 12 (ll_sum256 L x) = take 12 (ll_sum256 L y))"
proof (rule disjCI)
  assume no: "\<nexists>x y. x \<noteq> y \<and> take 12 (ll_sum256 L x) = take 12 (ll_sum256 L y)"
  then have inj: "deterministicID (ll_sum256 L) path a k l = deterministicID (ll_sum256 L) path b m l' \<Longrightarrow> a = b \<and> k = m" for a k l b m l'
    using id_text_inj hex_inj unfolding deterministicID_def by metis
  have "distinct (map ev_ID (fst (log_events L clock path (word_of_nat n) lines ps)))" if "n + line_bytes lines < 2 ^ 63" for n
    using that
  proof (induction lines arbitrary: n ps)
    case (Cons line lines)
    let ?r = "ParseLineForSource L (clock (word_of_nat n)) line path (word_of_nat n) ps"
    let ?rest = "fst (log_events L clock path (word_of_nat (n + Suc (length line))) lines (snd ?r))"
    have next_off: "word_of_nat n + word_of_nat (length line) + 1 = (word_of_nat (n + Suc (length line)) :: int64)" by (simp add: algebra_simps)
    have bytes: "n + Suc (length line) + line_bytes lines < 2 ^ 63" using Cons.prems by (simp add: line_bytes_def)
    have all: "fst (log_events L clock path (word_of_nat n) (line # lines) ps) = fst ?r @ ?rest"
      unfolding log_events.simps next_off by (simp add: case_prod_beta Let_def)
    have "distinct (map ev_ID (fst ?r))"
      unfolding parsed_ids by (auto simp: distinct_map inj_on_def dest: inj)
    moreover have "ev_ID d \<noteq> ev_ID e" if "d \<in> set (fst ?r)" "e \<in> set ?rest" for d e
    proof
      assume eq: "ev_ID d = ev_ID e"
      from that(1) have "ev_ID d \<in> set (map ev_ID (fst ?r))" by simp
      then obtain k where d: "ev_ID d = deterministicID (ll_sum256 L) path (word_of_nat n) k line" unfolding parsed_ids by auto
      from log_event_places [OF that(2) bytes] obtain m j l where m: "n + Suc (length line) \<le> m" "m < 2 ^ 63"
        and e: "ev_ID e = deterministicID (ll_sum256 L) path (word_of_nat m) j l" by blast
      from inj [OF d [symmetric, unfolded eq e, symmetric]] have "word_of_nat n = (word_of_nat m :: int64)" by simp
      then have "sint (word_of_nat n :: int64) = sint (word_of_nat m :: int64)" by simp
      with m sint_of_nat63 [of n] sint_of_nat63 [of m] show False by simp
    qed
    ultimately show ?case using Cons.IH [OF bytes, of "snd ?r"] unfolding all by auto
  qed simp
  from this [of 0] assms show "distinct (map ev_ID (fst (log_events L clock path 0 lines ps)))" by simp
qed

theorem log_ids_distinct_witness:
  "distinct (map ev_ID (fst (log_events sample_log_lib (\<lambda>_ _. 0) ''/l'' 0 [''a'', ''b''] sample_parser))) \<or>
    (\<exists>x y. x \<noteq> y \<and> take 12 (ll_sum256 sample_log_lib x) = take 12 (ll_sum256 sample_log_lib y))"
  by (rule log_ids_distinct) (simp add: line_bytes_def)

section \<open>A line that is not finished yet\<close>

text \<open>A line read before its newline is written is torn. If a reading finds an unfinished line at the end
  of the file, it is parsed as it is, and the stored offset is one past the end of the file: a
  reading before the file grows begins at its start again, and when it grows, the next reading
  leaves out the first byte that was added.\<close>

theorem unfinished_line_torn:
  assumes "list_all (is_line MiB) lines" "is_line MiB rest" "rest \<noteq> []" "added \<noteq> []"
    "content = concat (map as_line lines) @ rest" "length content + length added < 2 ^ 63"
    "r = tailFile L clock (\<lambda>_. True) path (Inr 0) (Some content) ps"
  shows "stored_offset 0 (fst r) (fst (snd r)) = word_of_nat (Suc (length content)) \<and>
    start_offset (word_of_nat (Suc (length content))) content = 0 \<and>
    drop (nat (sint (start_offset (word_of_nat (Suc (length content))) (content @ added)))) (content @ added) = tl added"
proof -
  have "scan_lines MiB rest = [rest]"
    using assms(2,3) by (simp add: scan_lines_def is_line_def)
  then have scan: "scan_lines MiB content = lines @ [rest]" by (simp add: assms(5) scan_lines_append [OF assms(1)])
  have bytes: "line_bytes (lines @ [rest]) = Suc (length content)" by (simp add: assms(5) length_lines line_bytes_def)
  have small: "Suc (length content) < 2 ^ 63" using assms(4,6) by (cases added) auto
  have "stored_offset 0 (fst r) (fst (snd r)) = word_of_nat (Suc (length content))"
    using tailFile_reads(2) [OF scan, of "[]", unfolded bytes] small by (simp add: assms(7))
  moreover have "drop (Suc (length content)) (content @ added) = tl added" by (cases added) (simp_all add: assms(4))
  ultimately show ?thesis using assms(4) by (cases added) (simp_all add: start_offset_def sint_of_nat63 [OF small, simplified] nat_add_distrib)
qed

theorem unfinished_line_torn_witness:
  "stored_offset 0 (fst (tailFile sample_log_lib (\<lambda>_ _. 0) (\<lambda>_. True) ''/l'' (Inr 0) (Some ''ab'') sample_parser))
     (fst (snd (tailFile sample_log_lib (\<lambda>_ _. 0) (\<lambda>_. True) ''/l'' (Inr 0) (Some ''ab'') sample_parser))) = 3 \<and>
   drop (nat (sint (start_offset 3 ''abcde''))) ''abcde'' = ''de''"
  using unfinished_line_torn [of "[]" "''ab''" "''cde''" "''ab''" _ sample_log_lib "\<lambda>_ _. 0" "''/l''" sample_parser, OF _ _ _ _ _ _ refl]
  by (simp add: is_line_def MiB_def newline_def creturn_def)

end
