(* ===== verification/Config.thy ===== *)
theory Config
  imports Go_Json Go_Path Go_Time Matchers
begin

text \<open>
  \<open>internal/daemon/config.go\<close>: the configuration of the daemon, its defaults, the paths it names
  and its validation. Unmarshalling YAML over a configuration is the argument \<open>yaml\<close>, the
  environment and the files are functions; parsing URLs and compiling regular expressions are
  the library's. The agents of the service section and the telemetry section, which the daemon's
  other parts do not use, are left out of the record.
\<close>

section \<open>The configuration\<close>

record DesktopNotifyConfig =
  dn_Enabled :: bool
  dn_MinInterval :: duration

record WebhookNotifyConfig =
  wn_Enabled :: bool
  wn_URL :: string
  wn_AuthHeaderEnv :: string
  wn_Format :: string
  wn_MinInterval :: duration

record NotificationsConfig =
  nt_Desktop :: DesktopNotifyConfig
  nt_Webhook :: WebhookNotifyConfig

record DaemonConfig =
  dm_SocketPath :: string
  dm_DBPath :: string
  dm_RawPayloadDir :: string
  dm_LogLevel :: string
  dm_PIDFile :: string

record DiscoveryConfig =
  di_ScanInterval :: duration
  di_ProcessSignatures :: "string list"
  di_LogPaths :: "string list"

record LogWatcherConfig =
  lw_Enabled :: bool
  lw_PollFallbackInterval :: duration

record ProxyProviderConfig =
  pp_UpstreamBaseURL :: string
  pp_AuthMode :: string
  pp_AuthKey :: string
  pp_RoutePatterns :: "string list"
  pp_MaxIdleConns :: int
  pp_IdleConnTimeout :: duration

record DaemonProxyConfig =
  dp_Enabled :: bool
  dp_Listen :: string
  dp_DefaultProvider :: string
  dp_UpstreamTimeout :: duration
  dp_StreamIdleTimeout :: duration
  dp_StreamMaxBuffer :: int
  dp_MaxRequestBody :: int
  dp_RedactEgressDefault :: bool
  dp_RedactPatterns :: "string list"
  dp_CACert :: string
  dp_CAKey :: string
  dp_MappingsDir :: string
  dp_MappingStrictMode :: bool
  dp_Providers :: "(string \<times> ProxyProviderConfig) list"

record OpenClawConfig =
  oc_Enabled :: bool
  oc_GatewayURL :: string
  oc_APITokenEnv :: string
  oc_SessionRefreshInterval :: duration
  oc_CorrelationWindow :: duration

record QueueConfig =
  qc_Capacity :: int
  qc_BatchSize :: int
  qc_FlushInterval :: duration
  qc_Overflow :: string
  qc_BlockTimeout :: duration

record AuditConfig =
  ac_RetentionDays :: int
  ac_HashAlgorithm :: string
  ac_RawPayloadEnabled :: bool
  ac_RawPayloadMaxSize :: int
  ac_RawPayloadQuota :: int
  ac_RawPayloadGCInterval :: duration

record ModelPricing =
  mp_Input :: float64
  mp_Output :: float64

record Config =
  cf_Daemon :: DaemonConfig
  cf_Discovery :: DiscoveryConfig
  cf_LogWatcher :: LogWatcherConfig
  cf_Proxy :: DaemonProxyConfig
  cf_OpenClaw :: OpenClawConfig
  cf_Queue :: QueueConfig
  cf_Audit :: AuditConfig
  cf_CommandmentsFile :: string
  cf_ToolRegistryFile :: string
  cf_Pricing :: "(string \<times> ModelPricing) list"
  cf_Notifications :: NotificationsConfig

text \<open>\<open>&Config{}\<close>: every field at its zero value.\<close>

definition zero_config :: Config where
  "zero_config =
     \<lparr>cf_Daemon = \<lparr>dm_SocketPath = [], dm_DBPath = [], dm_RawPayloadDir = [], dm_LogLevel = [], dm_PIDFile = []\<rparr>,
      cf_Discovery = \<lparr>di_ScanInterval = 0, di_ProcessSignatures = [], di_LogPaths = []\<rparr>,
      cf_LogWatcher = \<lparr>lw_Enabled = False, lw_PollFallbackInterval = 0\<rparr>,
      cf_Proxy = \<lparr>dp_Enabled = False, dp_Listen = [], dp_DefaultProvider = [], dp_UpstreamTimeout = 0, dp_StreamIdleTimeout = 0,
        dp_StreamMaxBuffer = 0, dp_MaxRequestBody = 0, dp_RedactEgressDefault = False, dp_RedactPatterns = [], dp_CACert = [],
        dp_CAKey = [], dp_MappingsDir = [], dp_MappingStrictMode = False, dp_Providers = []\<rparr>,
      cf_OpenClaw = \<lparr>oc_Enabled = False, oc_GatewayURL = [], oc_APITokenEnv = [], oc_SessionRefreshInterval = 0, oc_CorrelationWindow = 0\<rparr>,
      cf_Queue = \<lparr>qc_Capacity = 0, qc_BatchSize = 0, qc_FlushInterval = 0, qc_Overflow = [], qc_BlockTimeout = 0\<rparr>,
      cf_Audit = \<lparr>ac_RetentionDays = 0, ac_HashAlgorithm = [], ac_RawPayloadEnabled = False, ac_RawPayloadMaxSize = 0,
        ac_RawPayloadQuota = 0, ac_RawPayloadGCInterval = 0\<rparr>,
      cf_CommandmentsFile = [], cf_ToolRegistryFile = [], cf_Pricing = [],
      cf_Notifications = \<lparr>nt_Desktop = \<lparr>dn_Enabled = False, dn_MinInterval = 0\<rparr>,
        nt_Webhook = \<lparr>wn_Enabled = False, wn_URL = [], wn_AuthHeaderEnv = [], wn_Format = [], wn_MinInterval = 0\<rparr>\<rparr>\<rparr>"

text \<open>The prices of the fallback are float literals of the source: \<open>price\<close> gives their bits.\<close>

definition fallback_config :: "string \<Rightarrow> (string \<Rightarrow> float64) \<Rightarrow> Config" where
  "fallback_config home price =
     \<lparr>cf_Daemon = \<lparr>dm_SocketPath = ''~/.local/share/crabwise/crabwise.sock'', dm_DBPath = ''~/.local/share/crabwise/crabwise.db'',
        dm_RawPayloadDir = ''~/.local/share/crabwise/raw/'', dm_LogLevel = ''info'', dm_PIDFile = ''~/.local/share/crabwise/crabwise.pid''\<rparr>,
      cf_Discovery = \<lparr>di_ScanInterval = 10 * second, di_ProcessSignatures = [''claude'', ''codex''],
        di_LogPaths = [path_join [home, ''.claude'', ''projects''], path_join [home, ''.codex'', ''sessions'']]\<rparr>,
      cf_LogWatcher = \<lparr>lw_Enabled = True, lw_PollFallbackInterval = 30 * second\<rparr>,
      cf_Proxy = \<lparr>dp_Enabled = True, dp_Listen = ''127.0.0.1:9119'', dp_DefaultProvider = ''openai'', dp_UpstreamTimeout = 30 * second,
        dp_StreamIdleTimeout = 120 * second, dp_StreamMaxBuffer = 0, dp_MaxRequestBody = 10 * 1024 * 1024, dp_RedactEgressDefault = False,
        dp_RedactPatterns = [], dp_CACert = ''~/.local/share/crabwise/ca.crt'', dp_CAKey = ''~/.local/share/crabwise/ca.key'',
        dp_MappingsDir = ''~/.config/crabwise/proxy_mappings'', dp_MappingStrictMode = False,
        dp_Providers = [(''openai'', \<lparr>pp_UpstreamBaseURL = ''https://api.openai.com'', pp_AuthMode = ''passthrough'', pp_AuthKey = [],
          pp_RoutePatterns = [''/v1/chat/completions'', ''/v1/responses'', ''/v1/embeddings''], pp_MaxIdleConns = 10,
          pp_IdleConnTimeout = 90 * second\<rparr>)]\<rparr>,
      cf_OpenClaw = \<lparr>oc_Enabled = False, oc_GatewayURL = ''ws://127.0.0.1:18789'', oc_APITokenEnv = ''OPENCLAW_API_TOKEN'',
        oc_SessionRefreshInterval = 30 * second, oc_CorrelationWindow = 3 * second\<rparr>,
      cf_Queue = \<lparr>qc_Capacity = 10000, qc_BatchSize = 100, qc_FlushInterval = second, qc_Overflow = ''block_with_timeout'',
        qc_BlockTimeout = 100000000\<rparr>,
      cf_Audit = (cf_Audit zero_config)\<lparr>ac_RetentionDays := 30, ac_HashAlgorithm := ''sha256''\<rparr>,
      cf_CommandmentsFile = ''~/.config/crabwise/commandments.yaml'', cf_ToolRegistryFile = ''~/.config/crabwise/tool_registry.yaml'',
      cf_Pricing = [(''gpt-4o'', \<lparr>mp_Input = price ''2.50'', mp_Output = price ''10.00''\<rparr>),
                    (''gpt-4o-mini'', \<lparr>mp_Input = price ''0.15'', mp_Output = price ''0.60''\<rparr>)],
      cf_Notifications = \<lparr>nt_Desktop = \<lparr>dn_Enabled = False, dn_MinInterval = 10 * second\<rparr>,
        nt_Webhook = \<lparr>wn_Enabled = False, wn_URL = [], wn_AuthHeaderEnv = [], wn_Format = [], wn_MinInterval = 5 * second\<rparr>\<rparr>\<rparr>"

section \<open>Paths\<close>

record Env =
  env_get :: "string \<Rightarrow> string"
  env_home :: string

definition config_path :: "Env \<Rightarrow> string \<Rightarrow> string" where
  "config_path env name =
     (let xdg = env_get env ''XDG_CONFIG_HOME''
      in if xdg \<noteq> [] then path_join [xdg, ''crabwise'', name] else path_join [env_home env, ''.config'', ''crabwise'', name])"

definition defaultConfigPath :: "Env \<Rightarrow> string" where "defaultConfigPath env = config_path env ''config.yaml''"
definition defaultCommandmentsPath :: "Env \<Rightarrow> string" where "defaultCommandmentsPath env = config_path env ''commandments.yaml''"
definition defaultToolRegistryPath :: "Env \<Rightarrow> string" where "defaultToolRegistryPath env = config_path env ''tool_registry.yaml''"
definition defaultMappingsDirPath :: "Env \<Rightarrow> string" where "defaultMappingsDirPath env = config_path env ''proxy_mappings''"

definition expand :: "string \<Rightarrow> string \<Rightarrow> string" where
  "expand home p = (if has_prefix p ''~/'' then path_join [home, drop 2 p] else p)"

definition expandPaths :: "string \<Rightarrow> Config \<Rightarrow> Config" where
  "expandPaths home c =
     c\<lparr>cf_Daemon := (cf_Daemon c)\<lparr>dm_SocketPath := expand home (dm_SocketPath (cf_Daemon c)), dm_DBPath := expand home (dm_DBPath (cf_Daemon c)),
         dm_RawPayloadDir := expand home (dm_RawPayloadDir (cf_Daemon c)), dm_PIDFile := expand home (dm_PIDFile (cf_Daemon c))\<rparr>,
       cf_CommandmentsFile := expand home (cf_CommandmentsFile c), cf_ToolRegistryFile := expand home (cf_ToolRegistryFile c),
       cf_Proxy := (cf_Proxy c)\<lparr>dp_CACert := expand home (dp_CACert (cf_Proxy c)), dp_CAKey := expand home (dp_CAKey (cf_Proxy c)),
         dp_MappingsDir := expand home (dp_MappingsDir (cf_Proxy c))\<rparr>,
       cf_Discovery := (cf_Discovery c)\<lparr>di_LogPaths := map (expand home) (di_LogPaths (cf_Discovery c))\<rparr>\<rparr>"

section \<open>Validation\<close>

text \<open>\<open>ul_hostname\<close> is the host of a URL that parses.\<close>

record ConfigLib =
  ul_hostname :: "string \<Rightarrow> string option"
  ul_regex_error :: "string \<Rightarrow> error option"

fun validate_providers :: "string \<Rightarrow> (string \<times> ProxyProviderConfig) list \<Rightarrow> error option" where
  "validate_providers dflt [] = None"
| "validate_providers dflt ((name, p) # ps) =
     (let at = ''adapters.proxy.providers.'' @ name in
      if trim_space (pp_UpstreamBaseURL p) = [] then Some (at @ ''.upstream_base_url required'')
      else if pp_AuthMode p \<notin> {[], ''passthrough'', ''configured''} then Some (at @ ''.auth_mode invalid '' @ quote_string (pp_AuthMode p))
      else if pp_AuthMode p = ''configured'' \<and> trim_space (pp_AuthKey p) = [] then
        Some (at @ ''.auth_key required when auth_mode=configured'')
      else if pp_RoutePatterns p = [] \<and> name \<noteq> dflt then Some (at @ ''.route_patterns required unless default provider'')
      else validate_providers dflt ps)"

fun validate_domains :: "ConfigLib \<Rightarrow> (string \<times> ProxyProviderConfig) list \<Rightarrow> (string \<times> string) list \<Rightarrow> error option" where
  "validate_domains L [] domainOwner = None"
| "validate_domains L ((name, p) # ps) domainOwner =
     (case ul_hostname L (pp_UpstreamBaseURL p) of
        None \<Rightarrow> validate_domains L ps domainOwner
      | Some host \<Rightarrow>
          (if host = [] then validate_domains L ps domainOwner
           else case map_of domainOwner host of
             Some prev \<Rightarrow> Some (''providers '' @ quote_string prev @ '' and '' @ quote_string name @ '' share upstream domain '' @
               quote_string host @ ''; each domain must map to one provider'')
           | None \<Rightarrow> validate_domains L ps ((host, name) # domainOwner)))"

fun validate_patterns :: "ConfigLib \<Rightarrow> nat \<Rightarrow> string list \<Rightarrow> error option" where
  "validate_patterns L i [] = None"
| "validate_patterns L i (pat # pats) =
     (case ul_regex_error L pat of
        Some err \<Rightarrow> Some (''adapters.proxy.redact_patterns['' @ show_nat i @ ''] invalid regex '' @ quote_string pat @ '': '' @ err)
      | None \<Rightarrow> validate_patterns L (Suc i) pats)"

fun first_failure :: "error option list \<Rightarrow> error option" where
  "first_failure [] = None"
| "first_failure (Some err # es) = Some err"
| "first_failure (None # es) = first_failure es"

definition check :: "bool \<Rightarrow> error \<Rightarrow> error option" where
  "check ok err = (if ok then None else Some err)"

definition validate_proxy :: "ConfigLib \<Rightarrow> DaemonProxyConfig \<Rightarrow> error option" where
  "validate_proxy L p =
     (if \<not> dp_Enabled p then None
      else first_failure
        [check (trim_space (dp_Listen p) \<noteq> []) ''adapters.proxy.listen required when proxy enabled'',
         check (dp_UpstreamTimeout p > 0) ''adapters.proxy.upstream_timeout must be > 0'',
         check (dp_StreamIdleTimeout p > 0) ''adapters.proxy.stream_idle_timeout must be > 0'',
         check (dp_MaxRequestBody p > 0) ''adapters.proxy.max_request_body must be > 0'',
         check (dp_DefaultProvider p \<noteq> []) ''adapters.proxy.default_provider required when proxy enabled'',
         check (dp_Providers p \<noteq> []) ''adapters.proxy.providers required when proxy enabled'',
         check (dp_DefaultProvider p \<in> fst ` set (dp_Providers p))
           (''adapters.proxy.default_provider '' @ quote_string (dp_DefaultProvider p) @ '' not found in providers''),
         validate_providers (dp_DefaultProvider p) (dp_Providers p),
         validate_domains L (dp_Providers p) [],
         validate_patterns L 0 (dp_RedactPatterns p)])"

definition validate_openclaw :: "OpenClawConfig \<Rightarrow> error option" where
  "validate_openclaw claw =
     (if \<not> oc_Enabled claw then None
      else first_failure
        [check (trim_space (oc_GatewayURL claw) \<noteq> []) ''adapters.openclaw.gateway_url required when openclaw enabled'',
         check (oc_SessionRefreshInterval claw > 0) ''adapters.openclaw.session_refresh_interval must be > 0 when openclaw enabled'',
         check (oc_CorrelationWindow claw > 0) ''adapters.openclaw.correlation_window must be > 0 when openclaw enabled''])"

fun validate_pricing :: "(string \<times> ModelPricing) list \<Rightarrow> error option" where
  "validate_pricing [] = None"
| "validate_pricing ((model, price) # ps) =
     (if f64_less (mp_Input price) 0 \<or> f64_less (mp_Output price) 0
      then Some (''cost.pricing.'' @ model @ '' values must be non-negative'') else validate_pricing ps)"

definition validate_notifications :: "NotificationsConfig \<Rightarrow> error option" where
  "validate_notifications n =
     (let w = nt_Webhook n in
      first_failure
        [check (\<not> (dn_Enabled (nt_Desktop n) \<and> dn_MinInterval (nt_Desktop n) \<le> 0)) ''notifications.desktop.min_interval must be > 0 when desktop enabled'',
         check (\<not> (wn_Enabled w \<and> trim_space (wn_URL w) = [])) ''notifications.webhook.url required when webhook enabled'',
         check (\<not> (wn_Enabled w \<and> wn_MinInterval w \<le> 0)) ''notifications.webhook.min_interval must be > 0 when webhook enabled'',
         check (\<not> (wn_Enabled w \<and> wn_Format w \<notin> {[], ''discord''}))
           (''notifications.webhook.format must be '' @ quote_string [] @ '' or '' @ quote_string ''discord'' @ '', got '' @ quote_string (wn_Format w)),
         check (\<not> (wn_AuthHeaderEnv w \<noteq> [] \<and> trim_space (wn_AuthHeaderEnv w) = [])) ''notifications.webhook.auth_header_env must be non-empty if set''])"

text \<open>\<open>validate\<close> fills in the paths that are missing, after the first two checks.\<close>

definition fill_paths :: "Env \<Rightarrow> Config \<Rightarrow> Config" where
  "fill_paths env c =
     c\<lparr>cf_CommandmentsFile := (if cf_CommandmentsFile c = [] then defaultCommandmentsPath env else cf_CommandmentsFile c),
       cf_ToolRegistryFile := (if cf_ToolRegistryFile c = [] then defaultToolRegistryPath env else cf_ToolRegistryFile c),
       cf_Proxy := (cf_Proxy c)\<lparr>dp_MappingsDir := (if dp_MappingsDir (cf_Proxy c) = [] then defaultMappingsDirPath env else dp_MappingsDir (cf_Proxy c))\<rparr>\<rparr>"

definition validate :: "ConfigLib \<Rightarrow> Env \<Rightarrow> Config \<Rightarrow> error option \<times> Config" where
  "validate L env c =
     (if dm_SocketPath (cf_Daemon c) = [] then (Some ''daemon.socket_path required'', c)
      else if dm_DBPath (cf_Daemon c) = [] then (Some ''daemon.db_path required'', c)
      else let c = fill_paths env c in
        (first_failure
           [check (dm_LogLevel (cf_Daemon c) \<in> {''debug'', ''info'', ''warn'', ''error'', []})
              (''invalid log_level '' @ quote_string (dm_LogLevel (cf_Daemon c))),
            check (qc_Capacity (cf_Queue c) > 0) ''queue.capacity must be > 0'',
            check (qc_Overflow (cf_Queue c) \<in> {''block_with_timeout'', ''drop_oldest'', []})
              (''invalid queue.overflow '' @ quote_string (qc_Overflow (cf_Queue c))),
            validate_proxy L (cf_Proxy c), validate_openclaw (cf_OpenClaw c), validate_pricing (cf_Pricing c),
            validate_notifications (cf_Notifications c)], c))"

text \<open>\<open>LoadConfig\<close>. A file that cannot be read is skipped.\<close>

definition LoadConfig ::
  "ConfigLib \<Rightarrow> (string \<Rightarrow> Config \<Rightarrow> error + Config) \<Rightarrow> (string \<Rightarrow> string option) \<Rightarrow> Env \<Rightarrow> (string \<Rightarrow> float64) \<Rightarrow> string \<Rightarrow> string \<Rightarrow> error + Config" where
  "LoadConfig L yaml readFile env price defaultYAML path =
     (case (if defaultYAML \<noteq> [] then yaml defaultYAML zero_config else Inr (fallback_config (env_home env) price)) of
        Inl err \<Rightarrow> Err (''parse default config: '' @ err)
      | Inr cfg \<Rightarrow>
          (let path = (if path = [] then defaultConfigPath env else path)
           in case (case readFile path of None \<Rightarrow> Inr cfg | Some data \<Rightarrow> yaml data cfg) of
                Inl err \<Rightarrow> Err (''parse config '' @ path @ '': '' @ err)
              | Inr cfg \<Rightarrow>
                  (case validate L env (expandPaths (env_home env) cfg) of
                     (Some err, _) \<Rightarrow> Err err
                   | (None, cfg) \<Rightarrow> Ok cfg)))"

section \<open>What a valid configuration is\<close>

definition provider_cfg_ok :: "string \<Rightarrow> string \<times> ProxyProviderConfig \<Rightarrow> bool" where
  "provider_cfg_ok dflt np = (case np of (name, p) \<Rightarrow>
     trim_space (pp_UpstreamBaseURL p) \<noteq> [] \<and> pp_AuthMode p \<in> {[], ''passthrough'', ''configured''} \<and>
     (pp_AuthMode p = ''configured'' \<longrightarrow> trim_space (pp_AuthKey p) \<noteq> []) \<and> (pp_RoutePatterns p \<noteq> [] \<or> name = dflt))"

text \<open>The hosts of the providers' URLs.\<close>

definition upstream_hosts :: "ConfigLib \<Rightarrow> (string \<times> ProxyProviderConfig) list \<Rightarrow> string list" where
  "upstream_hosts L ps = filter (\<lambda>h. h \<noteq> []) (List.map_filter (\<lambda>(name, p). ul_hostname L (pp_UpstreamBaseURL p)) ps)"

definition proxy_cfg_ok :: "ConfigLib \<Rightarrow> DaemonProxyConfig \<Rightarrow> bool" where
  "proxy_cfg_ok L p =
     (trim_space (dp_Listen p) \<noteq> [] \<and> dp_UpstreamTimeout p > 0 \<and> dp_StreamIdleTimeout p > 0 \<and> dp_MaxRequestBody p > 0 \<and>
      dp_DefaultProvider p \<noteq> [] \<and> dp_DefaultProvider p \<in> fst ` set (dp_Providers p) \<and>
      list_all (provider_cfg_ok (dp_DefaultProvider p)) (dp_Providers p) \<and> distinct (upstream_hosts L (dp_Providers p)) \<and>
      list_all (\<lambda>pat. ul_regex_error L pat = None) (dp_RedactPatterns p))"

definition webhook_cfg_ok :: "WebhookNotifyConfig \<Rightarrow> bool" where
  "webhook_cfg_ok w = (trim_space (wn_URL w) \<noteq> [] \<and> wn_MinInterval w > 0 \<and> wn_Format w \<in> {[], ''discord''})"

definition config_ok :: "ConfigLib \<Rightarrow> Config \<Rightarrow> bool" where
  "config_ok L c =
     (dm_SocketPath (cf_Daemon c) \<noteq> [] \<and> dm_DBPath (cf_Daemon c) \<noteq> [] \<and>
      dm_LogLevel (cf_Daemon c) \<in> {''debug'', ''info'', ''warn'', ''error'', []} \<and> qc_Capacity (cf_Queue c) > 0 \<and>
      qc_Overflow (cf_Queue c) \<in> {''block_with_timeout'', ''drop_oldest'', []} \<and>
      (dp_Enabled (cf_Proxy c) \<longrightarrow> proxy_cfg_ok L (cf_Proxy c)) \<and>
      (oc_Enabled (cf_OpenClaw c) \<longrightarrow> trim_space (oc_GatewayURL (cf_OpenClaw c)) \<noteq> [] \<and>
         oc_SessionRefreshInterval (cf_OpenClaw c) > 0 \<and> oc_CorrelationWindow (cf_OpenClaw c) > 0) \<and>
      list_all (\<lambda>(model, price). \<not> f64_less (mp_Input price) 0 \<and> \<not> f64_less (mp_Output price) 0) (cf_Pricing c) \<and>
      (dn_Enabled (nt_Desktop (cf_Notifications c)) \<longrightarrow> dn_MinInterval (nt_Desktop (cf_Notifications c)) > 0) \<and>
      (wn_Enabled (nt_Webhook (cf_Notifications c)) \<longrightarrow> webhook_cfg_ok (nt_Webhook (cf_Notifications c))) \<and>
      (wn_AuthHeaderEnv (nt_Webhook (cf_Notifications c)) \<noteq> [] \<longrightarrow> trim_space (wn_AuthHeaderEnv (nt_Webhook (cf_Notifications c))) \<noteq> []))"

lemma first_error_None [simp]: "first_failure es = None \<longleftrightarrow> list_all (\<lambda>e. e = None) es"
  by (induction es rule: first_failure.induct) auto

lemma check_None [simp]: "check ok err = None \<longleftrightarrow> ok"
  by (simp add: check_def)

lemma validate_providers_None: "validate_providers d ps = None \<longleftrightarrow> list_all (provider_cfg_ok d) ps"
  by (induction d ps rule: validate_providers.induct) (auto simp: provider_cfg_ok_def Let_def)

lemma upstream_hosts_simps [simp]:
  "upstream_hosts L [] = []"
  "upstream_hosts L ((name, p) # ps) =
     (case ul_hostname L (pp_UpstreamBaseURL p) of None \<Rightarrow> [] | Some h \<Rightarrow> if h = [] then [] else [h]) @ upstream_hosts L ps"
  by (auto simp: upstream_hosts_def map_filter_simps split: option.splits)

lemma validate_domains_None:
  "validate_domains L ps owners = None \<longleftrightarrow>
     distinct (upstream_hosts L ps) \<and> set (upstream_hosts L ps) \<inter> fst ` set owners = {}"
proof (induction L ps owners rule: validate_domains.induct)
  case (2 L name p ps owners)
  show ?case
  proof (cases "ul_hostname L (pp_UpstreamBaseURL p)")
    case (Some host)
    show ?thesis
    proof (cases "map_of owners host")
      case None
      then have "host \<notin> fst ` set owners" by (simp add: map_of_eq_None_iff)
      with 2 Some None show ?thesis by auto
    next
      case owner: (Some prev)
      then have "host \<in> fst ` set owners" by (force dest: map_of_SomeD)
      with 2 Some owner show ?thesis by auto
    qed
  qed (use 2 in simp)
qed simp

lemma validate_patterns_None: "validate_patterns L i pats = None \<longleftrightarrow> list_all (\<lambda>pat. ul_regex_error L pat = None) pats"
  by (induction L i pats rule: validate_patterns.induct) (auto split: option.splits)

lemma validate_pricing_None:
  "validate_pricing ps = None \<longleftrightarrow> list_all (\<lambda>(model, price). \<not> f64_less (mp_Input price) 0 \<and> \<not> f64_less (mp_Output price) 0) ps"
  by (induction ps rule: validate_pricing.induct) auto

lemma fill_paths_ok [simp]: "config_ok L (fill_paths env c) = config_ok L c"
  by (simp add: config_ok_def fill_paths_def proxy_cfg_ok_def)

lemma validate_proxy_None: "validate_proxy L p = None \<longleftrightarrow> (dp_Enabled p \<longrightarrow> proxy_cfg_ok L p)"
  by (auto simp: validate_proxy_def proxy_cfg_ok_def validate_providers_None validate_domains_None validate_patterns_None)

lemma validate_openclaw_None: "validate_openclaw claw = None \<longleftrightarrow>
   (oc_Enabled claw \<longrightarrow> trim_space (oc_GatewayURL claw) \<noteq> [] \<and> oc_SessionRefreshInterval claw > 0 \<and> oc_CorrelationWindow claw > 0)"
  by (simp add: validate_openclaw_def)

lemma validate_notifications_None: "validate_notifications n = None \<longleftrightarrow>
   (dn_Enabled (nt_Desktop n) \<longrightarrow> dn_MinInterval (nt_Desktop n) > 0) \<and>
   (wn_Enabled (nt_Webhook n) \<longrightarrow> webhook_cfg_ok (nt_Webhook n)) \<and>
   (wn_AuthHeaderEnv (nt_Webhook n) \<noteq> [] \<longrightarrow> trim_space (wn_AuthHeaderEnv (nt_Webhook n)) \<noteq> [])"
  by (auto simp: validate_notifications_def webhook_cfg_ok_def Let_def)

lemma validate_None: "fst (validate L env c) = None \<longleftrightarrow> config_ok L c"
proof (cases "dm_SocketPath (cf_Daemon c) = [] \<or> dm_DBPath (cf_Daemon c) = []")
  case True
  then show ?thesis by (auto simp: validate_def config_ok_def)
next
  case False
  have same: "config_ok L c \<longleftrightarrow> config_ok L (fill_paths env c)" by simp
  have names: "dm_SocketPath (cf_Daemon (fill_paths env c)) \<noteq> []" "dm_DBPath (cf_Daemon (fill_paths env c)) \<noteq> []"
    using False by (simp_all add: fill_paths_def)
  show ?thesis
    unfolding same unfolding config_ok_def validate_def Let_def
    using False names
    by (simp del: insert_iff add: validate_proxy_None validate_openclaw_None validate_pricing_None validate_notifications_None)
qed

lemma validate_ok: "validate L env d = (None, cfg) \<Longrightarrow> config_ok L d \<and> cfg = fill_paths env d"
  using validate_None [of L env d] by (auto simp: validate_def Let_def split: if_splits)

text \<open>C35: A configuration is accepted exactly when it is a valid one: the socket and the database are named, the
  level and the overflow policy are known, the queue has room, an enabled proxy has a listener,
  positive limits, a default among its providers, providers that are complete and do not share a
  host, and patterns that compile, an enabled observer or notification is complete, and no price is
  negative. What an accepted configuration turns into has the paths that were missing, is
  accepted again and then stays as it is.\<close>

theorem validate_iff:
  "(case validate L env c of
      (Some err, _) \<Rightarrow> \<not> config_ok L c
    | (None, c') \<Rightarrow> config_ok L c \<and> c' = fill_paths env c \<and> validate L env c' = (None, c'))"
proof -
  have fill: "fill_paths env (fill_paths env d) = fill_paths env d" for d
    by (simp add: fill_paths_def)
  have snd: "snd (validate L env d) = fill_paths env d" if "config_ok L d" for d
    using that by (auto simp: validate_def Let_def config_ok_def)
  show ?thesis
  proof (cases "config_ok L c")
    case True
    then have "validate L env c = (None, fill_paths env c)" using validate_None snd by (metis prod.collapse)
    moreover have "validate L env (fill_paths env c) = (None, fill_paths env c)"
      using True validate_None snd fill fill_paths_ok by (metis prod.collapse)
    ultimately show ?thesis using True by simp
  next
    case False
    then show ?thesis using validate_None [of L env c] by (cases "validate L env c") (auto split: option.splits)
  qed
qed

lemma LoadConfig_ok: "LoadConfig L yaml readFile env price dflt path = Inr cfg \<Longrightarrow> config_ok L cfg"
proof -
  assume a: "LoadConfig L yaml readFile env price dflt path = Inr cfg"
  then obtain d where "validate L env d = (None, cfg)"
    by (auto simp: LoadConfig_def Let_def split: sum.splits option.splits if_splits prod.splits)
  with validate_ok [of L env d] show ?thesis by auto
qed

text \<open>No check looks at the intervals at which the daemon scans for agents and the logger flushes: a
  configuration that is accepted is accepted with any others, zero and negative ones too, with
  which the tickers they are given to panic.\<close>

theorem intervals_unchecked:
  "fst (validate L env (c\<lparr>cf_Discovery := (cf_Discovery c)\<lparr>di_ScanInterval := d\<rparr>, cf_Queue := (cf_Queue c)\<lparr>qc_FlushInterval := d'\<rparr>\<rparr>)) =
   fst (validate L env c)"
  by (simp add: validate_def Let_def fill_paths_def)

end
