(* ===== verification/OpenClaw_Gateway.thy ===== *)
theory OpenClaw_Gateway
  imports OpenClaw
begin

text \<open>
  \<open>internal/adapter/openclaw\<close>: the observer of an OpenClaw gateway. The first part is what it
  makes of the gateway's frames (\<open>protocol.go\<close>, \<open>mapper.go\<close>), of the list of sessions
  (\<open>session_cache.go\<close>) and of the events (\<open>openclaw.go\<close>); the second is the client
  (\<open>client.go\<close>): requests that wait for their answers while one loop reads the connection, as a
  step relation. The websocket and the JSON decoder are parameters: \<open>GatewayLib\<close> has one decoder
  for each type the code unmarshals into.
\<close>

section \<open>Frames\<close>

record ResponseError =
  re_Code :: string
  re_Message :: string

record TokenUsage =
  tu_InputTokens :: int64
  tu_OutputTokens :: int64

record ChatEvent =
  ch_RunID :: string
  ch_SessionKey :: string
  ch_State :: string
  ch_Usage :: "TokenUsage option"

record AgentEvent =
  ae_RunID :: string
  ae_Stream :: string
  ae_TS :: int64
  ae_Data :: json
  ae_SessionKey :: string

record ExecStartedEvent =
  es_PID :: int
  es_Command :: string
  es_SessionID :: string
  es_RunID :: string
  es_StartedAt :: int

record ExecCompletedEvent =
  ec_PID :: int
  ec_RunID :: string
  ec_SessionID :: string
  ec_ExitCode :: int
  ec_DurationMS :: int
  ec_Status :: string

datatype Payload =
  Chat ChatEvent
| Agent AgentEvent
| ExecStarted ExecStartedEvent
| ExecCompleted ExecCompletedEvent
| AnyPayload json

record EventFrame =
  ef_Type :: string
  ef_Event :: string
  ef_Payload :: Payload
  ef_Seq :: int

record RequestFrame =
  rq_Type :: string
  rq_ID :: string
  rq_Method :: string
  rq_Params :: json

record ResponseFrame =
  rs_Type :: string
  rs_ID :: string
  rs_OK :: bool
  rs_Payload :: string
  rs_Error :: "ResponseError option"

record HelloOK =
  ho_Type :: string
  ho_Protocol :: int

datatype GatewayFrame = Req RequestFrame | Res ResponseFrame | Event EventFrame | Hello HelloOK

record SessionInfo =
  si_Key :: string
  si_AgentID :: string
  si_LastActivityAt :: int64
  si_SpawnedBy :: string
  si_Model :: string
  si_ThinkingLevel :: string

record SessionKey =
  sk_AgentID :: string
  sk_Platform :: string
  sk_Recipient :: string

text \<open>An event frame is decoded with its payload as the bytes it has (\<open>json.RawMessage\<close>).\<close>

record GatewayLib =
  gl_probe :: "string \<Rightarrow> error + string \<times> string"
  gl_hello :: "string \<Rightarrow> error + HelloOK"
  gl_request :: "string \<Rightarrow> error + RequestFrame"
  gl_response :: "string \<Rightarrow> error + ResponseFrame"
  gl_event :: "string \<Rightarrow> error + string \<times> string \<times> string \<times> int"
  gl_chat :: "string \<Rightarrow> error + ChatEvent"
  gl_agent :: "string \<Rightarrow> error + AgentEvent"
  gl_started :: "string \<Rightarrow> error + ExecStartedEvent"
  gl_completed :: "string \<Rightarrow> error + ExecCompletedEvent"
  gl_any :: "string \<Rightarrow> error + json"
  gl_sessions :: "string \<Rightarrow> error + SessionInfo list"

definition ParseSessionKey :: "string \<Rightarrow> SessionKey" where
  "ParseSessionKey key =
     (let parts = split_at (CHR '':'') key
      in \<lparr>sk_AgentID = (if length parts > 1 \<and> parts ! 1 \<noteq> [] then parts ! 1 else ''unknown''),
          sk_Platform = (if length parts > 2 \<and> parts ! 2 \<noteq> [] then parts ! 2 else ''unknown''),
          sk_Recipient = (if length parts > 3 then join (drop 3 parts) '':'' else [])\<rparr>)"

definition decodePayload :: "GatewayLib \<Rightarrow> string \<Rightarrow> string \<Rightarrow> error + Payload" where
  "decodePayload G event payload =
     (if event = ''chat'' then map_sum id Chat (gl_chat G payload)
      else if event = ''agent'' then map_sum id Agent (gl_agent G payload)
      else if event = ''exec.started'' then map_sum id ExecStarted (gl_started G payload)
      else if event = ''exec.completed'' then map_sum id ExecCompleted (gl_completed G payload)
      else if payload = [] then Ok (AnyPayload JNull)
      else map_sum id AnyPayload (gl_any G payload))"

definition decodeEventFrame :: "GatewayLib \<Rightarrow> string \<Rightarrow> string \<Rightarrow> error + GatewayFrame" where
  "decodeEventFrame G event data =
     bind_result (gl_event G data) (\<lambda>(ty, ev, payload, seq).
     bind_result (decodePayload G event payload) (\<lambda>p.
       Ok (Event \<lparr>ef_Type = ty, ef_Event = ev, ef_Payload = p, ef_Seq = seq\<rparr>)))"

definition DecodeGatewayFrame :: "GatewayLib \<Rightarrow> string \<Rightarrow> error + GatewayFrame" where
  "DecodeGatewayFrame G data =
     bind_result (gl_probe G data) (\<lambda>(ty, event).
       if ty = ''req'' then map_sum id Req (gl_request G data)
       else if ty = ''res'' then map_sum id Res (gl_response G data)
       else if ty = ''event'' then decodeEventFrame G event data
       else if ty = ''hello-ok'' then map_sum id Hello (gl_hello G data)
       else Err (''unknown gateway frame type '' @ quote_string ty))"

section \<open>The sessions\<close>

record SessionCache =
  sc_sessions :: "string \<rightharpoonup> SessionInfo"
  sc_refreshInterval :: duration

definition NewSessionCache :: "duration \<Rightarrow> SessionCache" where
  "NewSessionCache refreshInterval = \<lparr>sc_sessions = Map.empty, sc_refreshInterval = refreshInterval\<rparr>"

text \<open>\<open>listed\<close> is what \<open>ListSessions\<close> answered.\<close>

definition Refresh :: "error + SessionInfo list \<Rightarrow> SessionCache \<Rightarrow> error option \<times> SessionCache" where
  "Refresh listed c =
     (case listed of
        Inl err \<Rightarrow> (Some err, c)
      | Inr sessions \<Rightarrow> (None, c\<lparr>sc_sessions := fold (\<lambda>s m. m(si_Key s \<mapsto> s)) sessions Map.empty\<rparr>))"

definition cache_Get :: "SessionCache \<Rightarrow> string \<Rightarrow> SessionInfo option" where
  "cache_Get c key = sc_sessions c key"

definition zero_session :: SessionInfo where
  "zero_session = \<lparr>si_Key = [], si_AgentID = [], si_LastActivityAt = 0, si_SpawnedBy = [], si_Model = [], si_ThinkingLevel = []\<rparr>"

definition session_meta :: "SessionInfo \<Rightarrow> SessionMeta" where
  "session_meta s =
     \<lparr>sm_SessionKey = si_Key s, sm_AgentID = si_AgentID s, sm_ParentSession = si_SpawnedBy s, sm_Model = si_Model s,
      sm_ThinkingLevel = si_ThinkingLevel s, sm_LastActivity = unix_milli (si_LastActivityAt s)\<rparr>"

text \<open>The cache is a map: \<open>keys\<close> is the order in which the loop meets its keys. The sessions are
  recorded and given to the observer.\<close>

definition refreshSessions ::
  "error + SessionInfo list \<Rightarrow> string list \<Rightarrow> SessionCache \<Rightarrow> ClawState \<Rightarrow> (error + SessionInfo list) \<times> SessionCache \<times> ClawState" where
  "refreshSessions listed keys c s =
     (case Refresh listed c of
        (Some err, c) \<Rightarrow> (Err err, c, s)
      | (None, c) \<Rightarrow>
          (let snapshot = List.map_filter (sc_sessions c) keys
           in (Ok snapshot, c, foldl RecordSession s (map session_meta snapshot))))"

text \<open>The loop over the ticks until the adapter stops: an error is dropped and the next tick tries again.\<close>

fun refresh_ticks :: "((error + SessionInfo list) \<times> string list) list \<Rightarrow> SessionCache \<times> ClawState \<Rightarrow> SessionCache \<times> ClawState" where
  "refresh_ticks [] st = st"
| "refresh_ticks ((listed, keys) # ticks) st = refresh_ticks ticks (snd (refreshSessions listed keys (fst st) (snd st)))"

definition refreshLoop :: "((error + SessionInfo list) \<times> string list) list \<Rightarrow> SessionCache \<times> ClawState \<Rightarrow> SessionCache \<times> ClawState" where
  "refreshLoop ticks st = (if sc_refreshInterval (fst st) \<le> 0 then st else refresh_ticks ticks st)"

section \<open>The events\<close>

definition inferProviderFromModel :: "string \<Rightarrow> string" where
  "inferProviderFromModel model =
     (let lower = to_lower model
      in if contains lower ''claude'' then ''anthropic''
         else if contains lower ''gpt'' \<or> contains lower ''o1'' \<or> contains lower ''o3'' \<or> contains lower ''o4'' then ''openai''
         else if contains lower ''gemini'' then ''google'' else [])"

definition tokenCount :: "TokenUsage option \<Rightarrow> bool \<Rightarrow> int64" where
  "tokenCount usage inp = (case usage of None \<Rightarrow> 0 | Some u \<Rightarrow> if inp then tu_InputTokens u else tu_OutputTokens u)"

definition mapChatEvent :: "string \<Rightarrow> time \<Rightarrow> ChatEvent \<Rightarrow> SessionInfo \<Rightarrow> string \<Rightarrow> string \<Rightarrow> AuditEvent" where
  "mapChatEvent i ts payload session provider model =
     zero_event\<lparr>ev_ID := i, ev_Timestamp := ts, ev_AgentID := ''openclaw'', ev_ActionType := ActionAIRequest, ev_Action := ''chat'',
       ev_Arguments := json_print (json_map
         [(''openclaw.run_id'', JStr (ch_RunID payload)), (''openclaw.session_key'', JStr (ch_SessionKey payload)),
          (''openclaw.state'', JStr (ch_State payload)), (''openclaw.correlation_confidence'', JStr ''observer'')]),
       ev_SessionID := ch_SessionKey payload, ev_ParentSessionID := si_SpawnedBy session, ev_Outcome := OutcomeSuccess,
       ev_Provider := provider, ev_Model := model, ev_InputTokens := tokenCount (ch_Usage payload) True,
       ev_OutputTokens := tokenCount (ch_Usage payload) False, ev_AdapterID := ''openclaw-gateway'', ev_AdapterType := ''gateway_observer''\<rparr>"

definition mapAgentEvent :: "string \<Rightarrow> AgentEvent \<Rightarrow> AuditEvent" where
  "mapAgentEvent i payload =
     zero_event\<lparr>ev_ID := i, ev_Timestamp := unix_milli (ae_TS payload), ev_AgentID := ''openclaw'', ev_ActionType := ActionSystem,
       ev_Action := ''agent'',
       ev_Arguments := json_print (json_map
         [(''openclaw.run_id'', JStr (ae_RunID payload)), (''openclaw.session_key'', JStr (ae_SessionKey payload)),
          (''openclaw.correlation_confidence'', JStr ''observer''), (''stream'', JStr (ae_Stream payload)), (''data'', ae_Data payload)]),
       ev_SessionID := ae_SessionKey payload, ev_Outcome := OutcomeSuccess, ev_AdapterID := ''openclaw-gateway'',
       ev_AdapterType := ''gateway_observer''\<rparr>"

text \<open>The channel of the events and its room: a full channel loses the event.\<close>

definition emitNonBlocking :: "bool \<Rightarrow> AuditEvent \<Rightarrow> AuditEvent list \<Rightarrow> AuditEvent list" where
  "emitNonBlocking accepts evt events = (if accepts then events @ [evt] else events)"

definition handleChatEvent ::
  "string \<Rightarrow> time \<Rightarrow> bool \<Rightarrow> ChatEvent \<Rightarrow> SessionCache \<Rightarrow> ClawState \<times> AuditEvent list \<Rightarrow> ClawState \<times> AuditEvent list" where
  "handleChatEvent i now accepts payload c st =
     (case st of (s, events) \<Rightarrow>
        let session = (case cache_Get c (ch_SessionKey payload) of Some x \<Rightarrow> x | None \<Rightarrow> zero_session);
            model = si_Model session;
            provider = inferProviderFromModel model;
            s = RecordRun s (ch_RunID payload) (ch_SessionKey payload);
            s = RecordChat s (ch_RunID payload) (ch_SessionKey payload) provider model now
        in (s, emitNonBlocking accepts (mapChatEvent i now payload session provider model) events))"

definition handleAgentEvent ::
  "string \<Rightarrow> bool \<Rightarrow> AgentEvent \<Rightarrow> ClawState \<times> AuditEvent list \<Rightarrow> ClawState \<times> AuditEvent list" where
  "handleAgentEvent i accepts payload st =
     (case st of (s, events) \<Rightarrow>
        ((if ae_SessionKey payload \<noteq> [] then RecordRun s (ae_RunID payload) (ae_SessionKey payload) else s),
         emitNonBlocking accepts (mapAgentEvent i payload) events))"

fun handleEvent ::
  "string \<Rightarrow> time \<Rightarrow> bool \<Rightarrow> Payload \<Rightarrow> SessionCache \<Rightarrow> ClawState \<times> AuditEvent list \<Rightarrow> ClawState \<times> AuditEvent list" where
  "handleEvent i now accepts (Chat payload) c st = handleChatEvent i now accepts payload c st"
| "handleEvent i now accepts (Agent payload) c st = handleAgentEvent i accepts payload st"
| "handleEvent i now accepts _ c st = st"

section \<open>What the observer makes of a session\<close>

text \<open>The key of a session is read back from its parts; the recipient may itself contain colons.\<close>

lemma ParseSessionKey_parts:
  assumes "CHR '':'' \<notin> set ns" "CHR '':'' \<notin> set agent" "CHR '':'' \<notin> set platform" "agent \<noteq> []" "platform \<noteq> []"
  shows "ParseSessionKey (ns @ '':'' @ agent @ '':'' @ platform @ '':'' @ recipient) =
    \<lparr>sk_AgentID = agent, sk_Platform = platform, sk_Recipient = recipient\<rparr>"
proof -
  have split: "split_at (CHR '':'') (w @ CHR '':'' # t) = w # split_at (CHR '':'') t" if "CHR '':'' \<notin> set w" for w t
    using that by (induction w) (auto split: list.splits)
  have "split_at (CHR '':'') (ns @ '':'' @ agent @ '':'' @ platform @ '':'' @ recipient) =
      ns # agent # platform # split_at (CHR '':'') recipient"
    using assms(1-3) by (simp add: split)
  then show ?thesis
    using assms(4,5) join_split_at [of "CHR '':''" recipient] by (cases "split_at (CHR '':'') recipient") (simp_all add: ParseSessionKey_def)
qed

lemma foldl_RecordSession:
  "foldl RecordSession s ms = s\<lparr>cs_sessions := fold (\<lambda>m f. f(sm_SessionKey m \<mapsto> m)) ms (cs_sessions s)\<rparr>"
  by (induction ms arbitrary: s) (simp_all add: RecordSession_def)

lemma fold_session_keys:
  assumes "\<And>k x. f k = Some x \<Longrightarrow> si_Key x = k"
  shows "fold (\<lambda>x m. m(si_Key x \<mapsto> x)) xs f k = Some x \<Longrightarrow> si_Key x = k"
  using assms
proof (induction xs arbitrary: f)
  case (Cons a xs)
  show ?case by (rule Cons.IH [of "f(si_Key a \<mapsto> a)"]) (use Cons.prems in \<open>auto split: if_splits\<close>)
qed simp

lemma sm_key [simp]: "sm_SessionKey (session_meta x) = si_Key x"
  by (simp add: session_meta_def)

lemma recorded_session:
  assumes "\<And>k x. f k = Some x \<Longrightarrow> si_Key x = k" "f key = Some session" "key \<in> set keys"
  shows "fold (\<lambda>m f. f(sm_SessionKey m \<mapsto> m)) (map session_meta (List.map_filter f keys)) g key = Some (session_meta session)"
proof -
  have key: "si_Key session = key" using assms(1,2) .
  have keep: "fold (\<lambda>m f. f(sm_SessionKey m \<mapsto> m)) (map session_meta (List.map_filter f ks)) h key = Some (session_meta session)"
    if "h key = Some (session_meta session)" for ks h
    using that
  proof (induction ks arbitrary: h)
    case (Cons k ks)
    show ?case
    proof (cases "f k")
      case (Some x)
      then have x: "si_Key x = k" by (rule assms(1))
      then have "(h(si_Key x \<mapsto> session_meta x)) key = Some (session_meta session)"
        using Some Cons.prems assms(2) by (cases "k = key") auto
      then show ?thesis using Cons.IH [of "h(si_Key x \<mapsto> session_meta x)"] Some by (simp add: List.map_filter_simps del: fun_upd_apply)
    qed (use Cons in \<open>simp add: List.map_filter_simps\<close>)
  qed (simp add: List.map_filter_simps)
  show ?thesis
    using assms(3)
  proof (induction keys arbitrary: g)
    case (Cons k ks)
    show ?case
    proof (cases "k = key")
      case True
      have "fold (\<lambda>m f. f(sm_SessionKey m \<mapsto> m)) (map session_meta (List.map_filter f ks)) (g(key \<mapsto> session_meta session)) key =
          Some (session_meta session)" by (rule keep) simp
      then show ?thesis using True assms(2) by (simp add: List.map_filter_simps key del: fun_upd_apply)
    next
      case False
      then show ?thesis using Cons by (cases "f k") (simp_all add: List.map_filter_simps)
    qed
  qed simp
qed

text \<open>A proxied request is attributed to the session that was just seen chatting, when no other was. After the gateway
  listed its sessions and a chat event of one of them came in, a request within the correlation window of
  that event, with no other chat in the window, is attributed to that session: its key, its parent and its
  thinking level as listed, the run of the event, and the model of the session. With another chat in the window
  the attribution goes by provider and model, and may be refused.\<close>

theorem observed_chat_attributed:
  assumes "refreshSessions (Ok sessions) keys c s = (Ok snapshot, c', s')" "sc_sessions c' key = Some session" "key \<in> set keys"
    and "ch_SessionKey chat = key" "handleChatEvent i now accepts chat c' (s', events) = (s'', events')"
    and "in_window s ts = []" "absDuration (time_sub ts now) \<le> cs_correlationWindow s"
  shows "fst (MatchProxyRequest s'' ts provider model) =
    Some \<lparr>mr_AgentID = ''openclaw'', mr_SessionKey = key, mr_ParentSession = si_SpawnedBy session, mr_RunID = ch_RunID chat,
          mr_Provider = inferProviderFromModel (si_Model session), mr_Model = si_Model session,
          mr_ThinkingLevel = si_ThinkingLevel session\<rparr>"
proof -
  let ?new = "\<lparr>rc_RunID = ch_RunID chat, rc_SessionKey = key, rc_Provider = inferProviderFromModel (si_Model session),
    rc_Model = si_Model session, rc_Timestamp = now\<rparr>"
  have c': "c' = c\<lparr>sc_sessions := fold (\<lambda>x m. m(si_Key x \<mapsto> x)) sessions Map.empty\<rparr>"
    and s': "s' = foldl RecordSession s (map session_meta (List.map_filter (sc_sessions c') keys))"
    using assms(1) by (auto simp: refreshSessions_def Refresh_def Let_def)
  have keyed: "si_Key x = k" if "sc_sessions c' k = Some x" for k x
    using that fold_session_keys [of Map.empty sessions k x] by (simp add: c')
  have meta: "cs_sessions s' key = Some (session_meta session)"
    using recorded_session [of "sc_sessions c'" key session keys, OF _ assms(2,3)] keyed by (simp add: s' foldl_RecordSession)
  have frame: "cs_chats s' = cs_chats s" "cs_correlationWindow s' = cs_correlationWindow s"
    by (simp_all add: s' foldl_RecordSession)
  have get: "cache_Get c' key = Some session" using assms(2) by (simp add: cache_Get_def)
  have s'': "s'' = RecordChat (RecordRun s' (ch_RunID chat) key) (ch_RunID chat) key (inferProviderFromModel (si_Model session)) (si_Model session) now"
    using assms(4,5) get by (simp add: handleChatEvent_def Let_def)
  obtain k where chats: "cs_chats s'' = drop k (cs_chats s) @ [?new]"
  proof -
    have "\<exists>k. cs_chats s'' = drop k (cs_chats s) @ [?new]"
      unfolding s'' RecordChat_def RecordRun_def Let_def
      by (auto simp: frame maxRecentChats_def intro: exI [of _ 0] exI [of _ "Suc (length (cs_chats s)) - 256"])
    then show ?thesis using that by blast
  qed
  have window: "cs_correlationWindow s'' = cs_correlationWindow s" and sessions: "cs_sessions s'' = cs_sessions s'"
    by (simp_all add: s'' RecordChat_def RecordRun_def Let_def frame)
  have "filter (\<lambda>x. chat_delta ts x \<le> cs_correlationWindow s) (drop k (cs_chats s)) = []"
    using assms(6) set_drop_subset [of k "cs_chats s"] by (auto simp: in_window_def filter_empty_conv)
  then have "filter (\<lambda>x. chat_delta ts x \<le> cs_correlationWindow s'') (cs_chats s'') = [?new]"
    using assms(7) by (simp add: chats window chat_delta_def)
  then show ?thesis
    by (simp add: MatchProxyRequest_def match_fold fittest_def sessions meta session_meta_def firstNonEmpty_def Let_def)
qed

definition sample_session :: SessionInfo where
  "sample_session = \<lparr>si_Key = ''agent:main:slack:u1'', si_AgentID = ''main'', si_LastActivityAt = 0, si_SpawnedBy = ''agent:root'',
     si_Model = ''claude-x'', si_ThinkingLevel = ''high''\<rparr>"

definition sample_chat :: ChatEvent where
  "sample_chat = \<lparr>ch_RunID = ''r1'', ch_SessionKey = ''agent:main:slack:u1'', ch_State = ''final'', ch_Usage = None\<rparr>"

theorem observed_chat_attributed_witness:
  "let s = claw_New (3 * second); key = ''agent:main:slack:u1'';
       (_, c', s') = refreshSessions (Ok [sample_session]) [key] (NewSessionCache second) s;
       (s'', _) = handleChatEvent ''e'' 0 True sample_chat c' (s', [])
   in fst (MatchProxyRequest s'' second ''anthropic'' ''claude-x'') =
     Some \<lparr>mr_AgentID = ''openclaw'', mr_SessionKey = key, mr_ParentSession = ''agent:root'', mr_RunID = ''r1'',
       mr_Provider = ''anthropic'', mr_Model = ''claude-x'', mr_ThinkingLevel = ''high''\<rparr>"
proof -
  let ?key = "''agent:main:slack:u1''" and ?s = "claw_New (3 * second)" and ?c = "NewSessionCache second"
  let ?c' = "?c\<lparr>sc_sessions := [?key \<mapsto> sample_session]\<rparr>"
  let ?s' = "RecordSession ?s (session_meta sample_session)"
  have r: "refreshSessions (Ok [sample_session]) [?key] ?c ?s = (Ok [sample_session], ?c', ?s')"
    by (simp add: refreshSessions_def Refresh_def sample_session_def List.map_filter_simps)
  obtain s'' es where h: "handleChatEvent ''e'' 0 True sample_chat ?c' (?s', []) = (s'', es)" by force
  have p: "inferProviderFromModel (si_Model sample_session) = ''anthropic''" by code_simp
  have "fst (MatchProxyRequest s'' second ''anthropic'' ''claude-x'') =
    Some \<lparr>mr_AgentID = ''openclaw'', mr_SessionKey = ?key, mr_ParentSession = si_SpawnedBy sample_session, mr_RunID = ch_RunID sample_chat,
          mr_Provider = inferProviderFromModel (si_Model sample_session), mr_Model = si_Model sample_session,
          mr_ThinkingLevel = si_ThinkingLevel sample_session\<rparr>"
    by (rule observed_chat_attributed [OF r _ _ _ h])
      (simp_all add: sample_chat_def in_window_def claw_New_def absDuration_def time_sub_def max_duration_def second_def)
  then have "fst (MatchProxyRequest s'' second ''anthropic'' ''claude-x'') =
    Some \<lparr>mr_AgentID = ''openclaw'', mr_SessionKey = ?key, mr_ParentSession = ''agent:root'', mr_RunID = ''r1'',
      mr_Provider = ''anthropic'', mr_Model = ''claude-x'', mr_ThinkingLevel = ''high''\<rparr>"
    unfolding p by (simp add: sample_session_def sample_chat_def)
  then show ?thesis by (simp only: Let_def r h prod.case)
qed

end
