(* ===== verification/OpenClaw_Client.thy ===== *)
theory OpenClaw_Client
  imports OpenClaw_Gateway "HOL-Library.Word"
begin

text \<open>
  \<open>internal/adapter/openclaw/client.go\<close>: the gateway's client. Requests run concurrently with each
  other, with the one loop that reads the connection and with \<open>Close\<close>; each has a channel of its own for
  its answer. The relation \<open>gstep\<close> has a step for every section of the code that is atomic by a
  lock or a channel operation. Websocket reads and writes may fail at any time.
\<close>

section \<open>Answers and channels\<close>

type_synonym reply = "error + string"

text \<open>A channel of capacity one.\<close>

record Chan =
  cn_buf :: "reply list"
  cn_closed :: bool

definition fresh_chan :: Chan where "fresh_chan = \<lparr>cn_buf = [], cn_closed = False\<rparr>"

text \<open>\<open>ch <- x; close(ch)\<close>: done, waiting for room, or a panic.\<close>

datatype Sending = Sent Chan | Blocks | Panics

definition send_close :: "reply \<Rightarrow> Chan \<Rightarrow> Sending" where
  "send_close x c = (if cn_closed c then Panics else if cn_buf c \<noteq> [] then Blocks else Sent \<lparr>cn_buf = [x], cn_closed = True\<rparr>)"

definition responseError :: "bool \<Rightarrow> ResponseError option \<Rightarrow> error option" where
  "responseError ok err =
     (if ok then None else case err of None \<Rightarrow> Some ''gateway request failed'' | Some e \<Rightarrow> Some (re_Message e))"

definition answer_of :: "ResponseFrame \<Rightarrow> reply" where
  "answer_of res = (case responseError (rs_OK res) (rs_Error res) of Some err \<Rightarrow> Err err | None \<Rightarrow> Ok (rs_Payload res))"

section \<open>The client and its reading loop\<close>

text \<open>Connections are numbered; \<open>gc_pending\<close> maps an identifier to its channel.\<close>

record GatewayClient =
  gc_token :: string
  gc_conn :: "nat option"
  gc_connected :: bool
  gc_closed :: bool
  gc_requestID :: "64 word"
  gc_pending :: "string \<rightharpoonup> nat"

definition NewGatewayClient :: "string \<Rightarrow> GatewayClient" where
  "NewGatewayClient token =
     \<lparr>gc_token = token, gc_conn = None, gc_connected = False, gc_closed = False, gc_requestID = 0, gc_pending = Map.empty\<rparr>"

definition Connected_gateway :: "GatewayClient \<Rightarrow> bool" where
  "Connected_gateway c = gc_connected c"

text \<open>The loop's own variable, what stands in the two channels of \<open>Connect\<close>, each of capacity one, what the loop has
  written and dispatched; \<open>rl_done\<close> when it has returned, \<open>rl_shut\<close> when it closed the connection.\<close>

record ReadLoop =
  rl_helloPending :: bool
  rl_hello :: "HelloOK list"
  rl_errs :: "error list"
  rl_written :: "string list"
  rl_events :: "EventFrame list"
  rl_done :: bool
  rl_shut :: bool

definition new_loop :: ReadLoop where
  "new_loop = \<lparr>rl_helloPending = True, rl_hello = [], rl_errs = [], rl_written = [], rl_events = [], rl_done = False, rl_shut = False\<rparr>"

definition request_frame :: "string \<Rightarrow> string \<Rightarrow> json \<Rightarrow> string" where
  "request_frame i method params =
     json_print (JObj [(''type'', JStr ''req''), (''id'', JStr i), (''method'', JStr method), (''params'', params)])"

definition connectParams :: "string \<Rightarrow> string \<Rightarrow> json" where
  "connectParams goos token = json_map
     [(''minProtocol'', JNum ''3''), (''maxProtocol'', JNum ''3''),
      (''client'', json_map [(''id'', JStr ''crabwise''), (''version'', JStr ''0.1.0''), (''platform'', JStr goos), (''mode'', JStr ''cli'')]),
      (''role'', JStr ''operator''), (''scopes'', JArr [JStr ''operator.read'']), (''caps'', JArr []), (''commands'', JArr []),
      (''permissions'', JObj []), (''locale'', JStr ''en-US''), (''userAgent'', JStr ''crabwise/0.1.0''),
      (''auth'', json_map [(''token'', JStr token)])]"

definition next_id :: "string \<Rightarrow> GatewayClient \<Rightarrow> string \<times> GatewayClient" where
  "next_id tag c =
     (let n = gc_requestID c + 1 in (tag @ show_nat (unat n), c\<lparr>gc_requestID := n\<rparr>))"

text \<open>\<open>if helloPending { errCh <- err }\<close>, and with \<open>helloPending = false\<close> after it.\<close>

definition hello_error :: "error \<Rightarrow> ReadLoop \<Rightarrow> ReadLoop" where
  "hello_error err l = (if rl_helloPending l then l\<lparr>rl_errs := rl_errs l @ [err]\<rparr> else l)"

definition hello_failed :: "error \<Rightarrow> ReadLoop \<Rightarrow> ReadLoop" where
  "hello_failed err l = (hello_error err l)\<lparr>rl_helloPending := False\<rparr>"

definition hello_ok :: "HelloOK \<Rightarrow> ReadLoop \<Rightarrow> ReadLoop" where
  "hello_ok hello l = l\<lparr>rl_hello := rl_hello l @ [hello], rl_helloPending := False\<rparr>"

text \<open>A send to the channel of errors waits until there is room; the one to the channel of hellos never has to, as it
  is made once.\<close>

definition errs_fit :: "ReadLoop \<Rightarrow> bool" where
  "errs_fit l \<longleftrightarrow> length (rl_errs l) \<le> 1"

text \<open>One message. The third component is the answer to resolve; \<open>werr\<close> is the error of a write. What it sends to
  \<open>Connect\<close> has to fit there before the loop goes on.\<close>

definition read_message ::
  "GatewayLib \<Rightarrow> string \<Rightarrow> error option \<Rightarrow> string \<Rightarrow> GatewayClient \<Rightarrow> ReadLoop \<Rightarrow> GatewayClient \<times> ReadLoop \<times> (string \<times> reply) option" where
  "read_message G goos werr data c l =
     (case gl_probe G data of
        Inl err \<Rightarrow> (c, hello_error err l, None)
      | Inr (ty, event) \<Rightarrow>
          (if ty = ''hello-ok'' then
             (case gl_hello G data of
                Inl err \<Rightarrow> (c, hello_error err l, None)
              | Inr hello \<Rightarrow> (c\<lparr>gc_connected := True\<rparr>, if rl_helloPending l then hello_ok hello l else l, None))
           else if ty = ''event'' then
             (if event = ''connect.challenge'' then
                (if gc_token c = [] then
                   (c, (hello_error ''gateway auth challenge received but api token is not configured'' l)\<lparr>rl_done := True, rl_shut := True\<rparr>, None)
                 else
                   let (i, c) = next_id ''connect-'' c
                   in case werr of
                        Some err \<Rightarrow> (c, if rl_helloPending l then hello_failed err l else l, None)
                      | None \<Rightarrow> (c, l\<lparr>rl_written := rl_written l @ [request_frame i ''connect'' (connectParams goos (gc_token c))]\<rparr>, None))
              else case DecodeGatewayFrame G data of
                Inl err \<Rightarrow> (c, hello_failed err l, None)
              | Inr frame \<Rightarrow> (c, case frame of Event e \<Rightarrow> l\<lparr>rl_events := rl_events l @ [e]\<rparr> | _ \<Rightarrow> l, None))
           else if ty = ''res'' then
             (case gl_response G data of
                Inl err \<Rightarrow> (c, hello_failed err l, None)
              | Inr res \<Rightarrow>
                  (case (if rl_helloPending l \<and> rs_OK res then gl_hello G (rs_Payload res) else Err []) of
                     Inr hello \<Rightarrow>
                       (if ho_Type hello = ''hello-ok'' then (c\<lparr>gc_connected := True\<rparr>, hello_ok hello l, None)
                        else (c, l, Some (rs_ID res, answer_of res)))
                   | Inl _ \<Rightarrow> (c, l, Some (rs_ID res, answer_of res))))
           else (c, l, None)))"

definition forget_conn :: "nat \<Rightarrow> GatewayClient \<Rightarrow> GatewayClient" where
  "forget_conn conn c = (if gc_conn c = Some conn then c\<lparr>gc_conn := None, gc_connected := False\<rparr> else c)"

text \<open>
  \<open>Connect\<close>, for a caller that dials alone: \<open>dial\<close> is the connection or the error of dialling, \<open>outcome\<close>
  what comes first, the hello (the loop has marked the client connected by then), an error of the
  loop, or the end of the context, which leaves the connection in place for the loop to forget.
\<close>

datatype Handshake = GotHello HelloOK | LoopError error | ContextDone error

definition Connect :: "error + nat \<Rightarrow> Handshake \<Rightarrow> GatewayClient \<Rightarrow> (error + HelloOK) \<times> GatewayClient" where
  "Connect dial outcome c =
     (if gc_closed c then (Err ''gateway client closed'', c)
      else if gc_connected c \<and> gc_conn c \<noteq> None then (Ok \<lparr>ho_Type = ''hello-ok'', ho_Protocol = 3\<rparr>, c)
      else case dial of
        Inl err \<Rightarrow> (Err err, c)
      | Inr conn \<Rightarrow>
          (let c = c\<lparr>gc_conn := Some conn, gc_connected := False\<rparr>
           in case outcome of
                GotHello hello \<Rightarrow> (Ok hello, c\<lparr>gc_connected := True\<rparr>)
              | LoopError err \<Rightarrow> (Err err, forget_conn conn c)
              | ContextDone err \<Rightarrow> (Err err, c)))"

section \<open>The steps\<close>

text \<open>
  \<open>gw_asking\<close> counts the requests that have seen a connection and not yet registered, \<open>gw_waiting\<close>
  are those blocked on their channel under their identifier, \<open>gw_dialling\<close> says that \<open>Connect\<close> waits, \<open>gw_resolving\<close> the answers taken from
  the map and not yet sent, \<open>gw_returned\<close> what requests returned. \<open>gw_ids\<close> counts identifiers.
\<close>

record Gateway =
  gw_client :: GatewayClient
  gw_loop :: "(nat \<times> ReadLoop) option"
  gw_dialling :: bool
  gw_chans :: "nat \<Rightarrow> Chan"
  gw_next :: nat
  gw_ids :: nat
  gw_asking :: nat
  gw_waiting :: "(nat \<times> string) set"
  gw_resolving :: "(nat \<times> reply) set"
  gw_returned :: "(nat \<times> reply) list"
  gw_panicked :: bool

definition new_gateway :: "string \<Rightarrow> Gateway" where
  "new_gateway token =
     \<lparr>gw_client = NewGatewayClient token, gw_loop = None, gw_dialling = False, gw_chans = (\<lambda>_. fresh_chan), gw_next = 0, gw_ids = 0, gw_asking = 0,
      gw_waiting = {}, gw_resolving = {}, gw_returned = [], gw_panicked = False\<rparr>"

definition unregister :: "string \<Rightarrow> GatewayClient \<Rightarrow> GatewayClient" where
  "unregister i c = c\<lparr>gc_pending := (gc_pending c)(i := None)\<rparr>"

text \<open>\<open>failPending\<close>, under the lock: every pending channel gets the error. It cannot proceed where one of
  them is full.\<close>

definition fail_all :: "error \<Rightarrow> Gateway \<Rightarrow> Gateway" where
  "fail_all err g =
     g\<lparr>gw_chans := (\<lambda>n. if n \<in> ran (gc_pending (gw_client g))
          then (case send_close (Err err) (gw_chans g n) of Sent c \<Rightarrow> c | _ \<Rightarrow> gw_chans g n) else gw_chans g n),
       gw_panicked := (gw_panicked g \<or> (\<exists>n \<in> ran (gc_pending (gw_client g)). send_close (Err err) (gw_chans g n) = Panics)),
       gw_client := (gw_client g)\<lparr>gc_pending := Map.empty\<rparr>\<rparr>"

text \<open>Whose step it is.\<close>

datatype Act = Dial | Hear | Read | Deliver | HangUp | CloseClient | Ask | Register | GiveUp | Answer

inductive gstep :: "GatewayLib \<Rightarrow> string \<Rightarrow> Gateway \<Rightarrow> Act \<Rightarrow> Gateway \<Rightarrow> bool" for G goos where
  dial:
    "\<not> gc_closed (gw_client g) \<Longrightarrow> gw_loop g = None \<Longrightarrow>
     gstep G goos g Dial (g\<lparr>gw_client := (gw_client g)\<lparr>gc_conn := Some n, gc_connected := False\<rparr>, gw_loop := Some (n, new_loop), gw_dialling := True\<rparr>)"
| hear_hello:
    "gw_dialling g \<Longrightarrow> gw_loop g = Some (n, l) \<Longrightarrow> rl_hello l = hello # hellos \<Longrightarrow>
     gstep G goos g Hear (g\<lparr>gw_dialling := False, gw_loop := Some (n, l\<lparr>rl_hello := hellos\<rparr>)\<rparr>)"
| hear_error:
    "gw_dialling g \<Longrightarrow> gw_loop g = Some (n, l) \<Longrightarrow> rl_errs l = err # errs \<Longrightarrow>
     gstep G goos g Hear (g\<lparr>gw_dialling := False, gw_client := forget_conn n (gw_client g), gw_loop := Some (n, l\<lparr>rl_errs := errs\<rparr>)\<rparr>)"
| hear_nothing:
    "gw_dialling g \<Longrightarrow> gstep G goos g Hear (g\<lparr>gw_dialling := False\<rparr>)"
| message:
    "gw_loop g = Some (n, l) \<Longrightarrow> \<not> rl_done l \<Longrightarrow> read_message G goos werr data (gw_client g) l = (c, l', None) \<Longrightarrow> errs_fit l' \<Longrightarrow>
     gstep G goos g Read (g\<lparr>gw_client := c, gw_loop := Some (n, l'), gw_ids := gw_ids g + (if gc_requestID c = gc_requestID (gw_client g) then 0 else 1)\<rparr>)"
| take:
    "gw_loop g = Some (n, l) \<Longrightarrow> \<not> rl_done l \<Longrightarrow> read_message G goos werr data (gw_client g) l = (c, l', Some (i, x)) \<Longrightarrow>
     errs_fit l' \<Longrightarrow> gc_pending c i = Some ch \<Longrightarrow>
     gstep G goos g Read (g\<lparr>gw_client := unregister i c, gw_loop := Some (n, l'), gw_resolving := insert (ch, x) (gw_resolving g)\<rparr>)"
| unknown:
    "gw_loop g = Some (n, l) \<Longrightarrow> \<not> rl_done l \<Longrightarrow> read_message G goos werr data (gw_client g) l = (c, l', Some (i, x)) \<Longrightarrow>
     errs_fit l' \<Longrightarrow> gc_pending c i = None \<Longrightarrow>
     gstep G goos g Read (g\<lparr>gw_client := c, gw_loop := Some (n, l')\<rparr>)"
| deliver:
    "(ch, x) \<in> gw_resolving g \<Longrightarrow> send_close x (gw_chans g ch) = Sent c \<Longrightarrow>
     gstep G goos g Deliver (g\<lparr>gw_chans := (gw_chans g)(ch := c), gw_resolving := gw_resolving g - {(ch, x)}\<rparr>)"
| deliver_panic:
    "(ch, x) \<in> gw_resolving g \<Longrightarrow> send_close x (gw_chans g ch) = Panics \<Longrightarrow> gstep G goos g Deliver (g\<lparr>gw_panicked := True\<rparr>)"
| hang_up:
    "gw_loop g = Some (n, l) \<Longrightarrow> \<not> rl_done l \<Longrightarrow> errs_fit (hello_error err l) \<Longrightarrow>
     \<forall>ch \<in> ran (gc_pending (gw_client g)). send_close (Err err) (gw_chans g ch) \<noteq> Blocks \<Longrightarrow>
     gstep G goos g HangUp (let g' = fail_all err g
       in g'\<lparr>gw_client := forget_conn n (gw_client g'), gw_loop := Some (n, (hello_error err l)\<lparr>rl_done := True\<rparr>)\<rparr>)"
| close_client:
    "gstep G goos g CloseClient (g\<lparr>gw_client := (gw_client g)\<lparr>gc_closed := True, gc_conn := None, gc_connected := False\<rparr>\<rparr>)"
| close_pending:
    "gc_closed (gw_client g) \<Longrightarrow>
     \<forall>ch \<in> ran (gc_pending (gw_client g)). send_close (Err ''gateway client closed'') (gw_chans g ch) \<noteq> Blocks \<Longrightarrow>
     gstep G goos g CloseClient (fail_all ''gateway client closed'' g)"
| ask:
    "gc_conn (gw_client g) \<noteq> None \<Longrightarrow> gc_connected (gw_client g) \<Longrightarrow> gstep G goos g Ask (g\<lparr>gw_asking := Suc (gw_asking g)\<rparr>)"
| register:
    "gw_asking g = Suc k \<Longrightarrow> next_id ''req-'' (gw_client g) = (i, c) \<Longrightarrow>
     gstep G goos g Register (g\<lparr>gw_client := c\<lparr>gc_pending := (gc_pending c)(i \<mapsto> gw_next g)\<rparr>, gw_asking := k, gw_next := Suc (gw_next g),
       gw_ids := Suc (gw_ids g), gw_waiting := insert (gw_next g, i) (gw_waiting g)\<rparr>)"
| give_up:
    "(ch, i) \<in> gw_waiting g \<Longrightarrow>
     gstep G goos g GiveUp (g\<lparr>gw_client := unregister i (gw_client g), gw_waiting := gw_waiting g - {(ch, i)},
       gw_returned := gw_returned g @ [(ch, Err err)]\<rparr>)"
| answered:
    "(ch, i) \<in> gw_waiting g \<Longrightarrow> cn_buf (gw_chans g ch) = x # xs \<Longrightarrow>
     gstep G goos g Answer (g\<lparr>gw_chans := (gw_chans g)(ch := (gw_chans g ch)\<lparr>cn_buf := xs\<rparr>), gw_waiting := gw_waiting g - {(ch, i)},
       gw_returned := gw_returned g @ [(ch, x)]\<rparr>)"

text \<open>\<open>give_up\<close> is both a failed write and a context that is done, \<open>hear_nothing\<close> the end of the context of \<open>Connect\<close>.\<close>

inductive_cases gstep_cases: "gstep G goos g a g'"

inductive reachable_gateway :: "GatewayLib \<Rightarrow> string \<Rightarrow> string \<Rightarrow> Gateway \<Rightarrow> bool" for G goos token where
  initial: "reachable_gateway G goos token (new_gateway token)"
| further: "reachable_gateway G goos token g \<Longrightarrow> gstep G goos g a g' \<Longrightarrow> reachable_gateway G goos token g'"

section \<open>Every request gets at most one answer\<close>

text \<open>A channel that is to be sent to is known to the map or held by the loop, not both, and is empty.\<close>

definition held :: "Gateway \<Rightarrow> nat set" where
  "held g = ran (gc_pending (gw_client g)) \<union> fst ` gw_resolving g"

definition channels_ok :: "Gateway \<Rightarrow> bool" where
  "channels_ok g =
     (inj_on (gc_pending (gw_client g)) (dom (gc_pending (gw_client g))) \<and>
      ran (gc_pending (gw_client g)) \<inter> fst ` gw_resolving g = {} \<and> inj_on fst (gw_resolving g) \<and>
      (\<forall>ch \<in> held g. ch < gw_next g \<and> gw_chans g ch = fresh_chan) \<and>
      (\<forall>ch \<ge> gw_next g. gw_chans g ch = fresh_chan) \<and> \<not> gw_panicked g)"

definition requests_ok :: "Gateway \<Rightarrow> bool" where
  "requests_ok g =
     (fst ` gw_waiting g \<union> fst ` set (gw_returned g) \<subseteq> {..< gw_next g} \<and>
      fst ` gw_waiting g \<inter> fst ` set (gw_returned g) = {} \<and>
      inj_on fst (gw_waiting g) \<and> distinct (map fst (gw_returned g)) \<and> finite (gw_waiting g))"

text \<open>Reading a message changes neither the map nor the connection.\<close>

lemma read_message_pending [simp]:
  "read_message G goos werr data c l = (c', l', r) \<Longrightarrow> gc_pending c' = gc_pending c"
  by (auto simp: read_message_def next_id_def Let_def split: sum.splits prod.splits if_splits option.splits GatewayFrame.splits)

lemma next_id_pending [simp]: "next_id tag c = (i, c') \<Longrightarrow> gc_pending c' = gc_pending c"
  by (auto simp: next_id_def Let_def)

lemma send_close_fresh [simp]: "send_close x fresh_chan = Sent \<lparr>cn_buf = [x], cn_closed = True\<rparr>"
  by (simp add: send_close_def fresh_chan_def)

lemma ran_delete: "ran (m(i := None)) \<subseteq> ran m"
  by (auto simp: ran_def split: if_splits)

lemma ran_update: "ran (m(i \<mapsto> x)) \<subseteq> insert x (ran m)"
  by (auto simp: ran_def split: if_splits)

lemma inj_delete: "inj_on m (dom m) \<Longrightarrow> inj_on (m(i := None)) (dom (m(i := None)))"
  by (auto simp: inj_on_def)

lemma inj_update: "inj_on m (dom m) \<Longrightarrow> x \<notin> ran m \<Longrightarrow> inj_on (m(i \<mapsto> x)) (dom (m(i \<mapsto> x)))"
  by (auto simp: inj_on_def ran_def)

lemma deleted_gone: "inj_on m (dom m) \<Longrightarrow> m i = Some x \<Longrightarrow> x \<notin> ran (m(i := None))"
  by (auto simp: inj_on_def ran_def domI split: if_splits)

lemma fail_all_chans:
  assumes "\<forall>ch \<in> ran (gc_pending (gw_client g)). gw_chans g ch = fresh_chan"
  shows "gw_chans (fail_all err g) ch =
      (if ch \<in> ran (gc_pending (gw_client g)) then \<lparr>cn_buf = [Err err], cn_closed = True\<rparr> else gw_chans g ch)"
    and "gw_panicked (fail_all err g) = gw_panicked g"
  using assms by (auto simp: fail_all_def)

lemma fail_all_frame [simp]:
  "gc_pending (gw_client (fail_all err g)) = Map.empty" "gw_next (fail_all err g) = gw_next g"
  "gw_waiting (fail_all err g) = gw_waiting g" "gw_resolving (fail_all err g) = gw_resolving g"
  "gw_returned (fail_all err g) = gw_returned g" "gw_ids (fail_all err g) = gw_ids g"
  "gc_requestID (gw_client (fail_all err g)) = gc_requestID (gw_client g)"
  by (simp_all add: fail_all_def)

lemma forget_conn_frame [simp]:
  "gc_pending (forget_conn n c) = gc_pending c" "gc_requestID (forget_conn n c) = gc_requestID c"
  by (simp_all add: forget_conn_def)

lemma channels_okD:
  assumes "channels_ok g"
  shows "inj_on (gc_pending (gw_client g)) (dom (gc_pending (gw_client g)))"
    and "ran (gc_pending (gw_client g)) \<inter> fst ` gw_resolving g = {}" and "inj_on fst (gw_resolving g)"
    and "ch \<in> held g \<Longrightarrow> ch < gw_next g" and "ch \<in> held g \<Longrightarrow> gw_chans g ch = fresh_chan"
    and "gw_next g \<le> ch \<Longrightarrow> gw_chans g ch = fresh_chan" and "\<not> gw_panicked g"
  using assms unfolding channels_ok_def by blast+

lemma channels_okI:
  assumes "inj_on (gc_pending (gw_client g)) (dom (gc_pending (gw_client g)))"
    and "ran (gc_pending (gw_client g)) \<inter> fst ` gw_resolving g = {}" and "inj_on fst (gw_resolving g)"
    and "\<And>ch. ch \<in> held g \<Longrightarrow> ch < gw_next g" and "\<And>ch. ch \<in> held g \<Longrightarrow> gw_chans g ch = fresh_chan"
    and "\<And>ch. gw_next g \<le> ch \<Longrightarrow> gw_chans g ch = fresh_chan" and "\<not> gw_panicked g"
  shows "channels_ok g"
  using assms unfolding channels_ok_def by blast

lemma channels_ok_fail_all:
  assumes "channels_ok g"
  shows "channels_ok (fail_all err g)"
proof -
  note ok = channels_okD [OF assms]
  have fresh: "\<forall>ch \<in> ran (gc_pending (gw_client g)). gw_chans g ch = fresh_chan"
    using ok(5) by (simp add: held_def)
  have pend: "ran (gc_pending (gw_client g)) \<subseteq> held g" and res: "fst ` gw_resolving g \<subseteq> held g"
    by (simp_all add: held_def)
  have held: "held (fail_all err g) = fst ` gw_resolving g" by (simp add: held_def)
  show ?thesis
  proof (rule channels_okI)
    fix ch assume "ch \<in> held (fail_all err g)"
    then have ch: "ch \<in> fst ` gw_resolving g" by (simp only: held)
    then show "ch < gw_next (fail_all err g)" using ok(4) res by auto
    have "ch \<notin> ran (gc_pending (gw_client g))" using ok(2) ch by blast
    then show "gw_chans (fail_all err g) ch = fresh_chan"
      using ok(5) [of ch] ch res by (simp add: fail_all_chans(1) [OF fresh] subset_iff)
  next
    fix ch assume ch: "gw_next (fail_all err g) \<le> ch"
    then have "ch \<notin> ran (gc_pending (gw_client g))" using ok(4) [of ch] pend by auto
    then show "gw_chans (fail_all err g) ch = fresh_chan"
      using ok(6) [of ch] ch by (simp add: fail_all_chans(1) [OF fresh])
  qed (use ok in \<open>simp_all add: fail_all_chans(2) [OF fresh]\<close>)
qed

lemma disjoint_mono: "A \<subseteq> B \<Longrightarrow> B \<inter> C = {} \<Longrightarrow> A \<inter> C = {}"
  by blast

lemma snd_once: "inj_on snd S \<Longrightarrow> (a, c) \<in> S \<Longrightarrow> (b, c) \<in> S \<Longrightarrow> a = b"
  using inj_onD [of snd S "(a, c)" "(b, c)"] by simp

lemma fst_once: "inj_on fst S \<Longrightarrow> (a, b) \<in> S \<Longrightarrow> a \<notin> fst ` (S - {(a, b)})"
  using inj_onD [of fst S "(a, b)"] by force

text \<open>What most steps do: the map loses keys, the channels that are held stay as they are.\<close>

lemma channels_ok_less:
  assumes "channels_ok g"
    and "inj_on (gc_pending (gw_client g')) (dom (gc_pending (gw_client g')))"
    and "ran (gc_pending (gw_client g')) \<inter> fst ` gw_resolving g' = {}" and "inj_on fst (gw_resolving g')"
    and "held g' \<subseteq> held g" and "\<And>ch. ch \<in> held g' \<or> gw_next g \<le> ch \<Longrightarrow> gw_chans g' ch = gw_chans g ch"
    and "gw_next g' = gw_next g" and "gw_panicked g' = gw_panicked g"
  shows "channels_ok g'"
proof (rule channels_okI)
  fix ch
  show "ch < gw_next g'" if "ch \<in> held g'" using that assms(5,7) channels_okD(4) [OF assms(1), of ch] by auto
  show "gw_chans g' ch = fresh_chan" if "ch \<in> held g'"
    using that assms(5) assms(6) [of ch] channels_okD(5) [OF assms(1), of ch] by auto
  show "gw_chans g' ch = fresh_chan" if "gw_next g' \<le> ch"
    using that assms(7) assms(6) [of ch] channels_okD(6) [OF assms(1), of ch] by simp
qed (use assms(2-4,8) channels_okD(7) [OF assms(1)] in simp_all)

lemma channels_ok_same:
  assumes "channels_ok g" "gc_pending (gw_client g') = gc_pending (gw_client g)" "gw_resolving g' = gw_resolving g"
    "gw_chans g' = gw_chans g" "gw_next g' = gw_next g" "gw_panicked g' = gw_panicked g"
  shows "channels_ok g'"
  by (rule channels_ok_less [OF assms(1)]) (use assms(2-) channels_okD(1-3) [OF assms(1)] in \<open>simp_all add: held_def\<close>)

lemma channels_ok_step [inv_rule]:
  assumes "gstep G goos g a g'" and ok: "channels_ok g"
  shows "channels_ok g'"
  using assms(1)
proof (cases rule: gstep.cases)
  case (take n l werr data c l' i x ch)
  let ?m = "gc_pending (gw_client g)"
  have p: "gc_pending c = ?m" using take(5) by simp
  have m: "gc_pending (gw_client g') = ?m(i := None)" by (simp add: take(2) unregister_def p)
  have r: "gw_resolving g' = insert (ch, x) (gw_resolving g)" by (simp add: take(2))
  have i: "?m i = Some ch" using take(7) by (simp add: p)
  have ch: "ch \<in> ran ?m" using i by (rule ranI)
  have gone: "ch \<notin> ran (?m(i := None))" using channels_okD(1) [OF ok] i by (rule deleted_gone)
  have not: "ch \<notin> fst ` gw_resolving g" "(ch, x) \<notin> gw_resolving g" using channels_okD(2) [OF ok] ch by force+
  have sub: "ran (?m(i := None)) \<subseteq> ran ?m" by (rule ran_delete)
  show ?thesis
  proof (rule channels_ok_less [OF ok])
    show "inj_on (gc_pending (gw_client g')) (dom (gc_pending (gw_client g')))"
      unfolding m by (rule inj_delete [OF channels_okD(1) [OF ok]])
    show "ran (gc_pending (gw_client g')) \<inter> fst ` gw_resolving g' = {}"
      unfolding m r using gone sub channels_okD(2) [OF ok] by auto
    show "inj_on fst (gw_resolving g')" unfolding r using channels_okD(3) [OF ok] not by simp
    show "held g' \<subseteq> held g" unfolding held_def m r using sub ch by auto
  qed (simp_all add: take(2))
next
  case (deliver ch x c)
  have held: "held g' \<subseteq> held g" by (auto simp: held_def deliver(2))
  have gone: "ch \<notin> held g'"
    using channels_okD(2) [OF ok] fst_once [OF channels_okD(3) [OF ok] deliver(3)] deliver(3) by (force simp: held_def deliver(2))
  show ?thesis
  proof (rule channels_ok_less [OF ok])
    show "ran (gc_pending (gw_client g')) \<inter> fst ` gw_resolving g' = {}"
      using channels_okD(2) [OF ok] by (auto simp: deliver(2))
    have "ch \<in> held g" using deliver(3) by (force simp: held_def)
    then show "gw_chans g' k = gw_chans g k" if "k \<in> held g' \<or> gw_next g \<le> k" for k
      using that gone channels_okD(4) [OF ok, of ch] by (auto simp: deliver(2))
  qed (use held channels_okD(1,3) [OF ok] in \<open>simp_all add: deliver(2) inj_on_diff\<close>)
next
  case (deliver_panic ch x)
  have "gw_chans g ch = fresh_chan" by (rule channels_okD(5) [OF ok]) (use deliver_panic(3) in \<open>force simp: held_def\<close>)
  then show ?thesis using deliver_panic(4) by simp
next
  case (hang_up n l err)
  show ?thesis by (rule channels_ok_same [OF channels_ok_fail_all [OF ok, of err]]) (simp_all add: hang_up(2) Let_def)
next
  case close_pending
  show ?thesis unfolding close_pending(2) by (rule channels_ok_fail_all [OF ok])
next
  case (register k i c)
  let ?m = "gc_pending (gw_client g)"
  have m: "gc_pending (gw_client g') = ?m(i \<mapsto> gw_next g)" using register(4) by (simp add: register(2))
  have r: "gw_resolving g' = gw_resolving g" "gw_next g' = Suc (gw_next g)" "gw_chans g' = gw_chans g" "gw_panicked g' = gw_panicked g"
    by (simp_all add: register(2))
  have new: "gw_next g \<notin> held g" using channels_okD(4) [OF ok, of "gw_next g"] by auto
  have held: "held g' \<subseteq> insert (gw_next g) (held g)" unfolding held_def m r using ran_update [of ?m i "gw_next g"] by auto
  show ?thesis
  proof (rule channels_okI)
    show "inj_on (gc_pending (gw_client g')) (dom (gc_pending (gw_client g')))"
      unfolding m using channels_okD(1) [OF ok] new by (intro inj_update) (simp_all add: held_def)
    show "ran (gc_pending (gw_client g')) \<inter> fst ` gw_resolving g' = {}"
      unfolding m r
      by (rule disjoint_mono [OF ran_update]) (use channels_okD(2) [OF ok] new in \<open>simp add: held_def\<close>)
    fix ch
    show "ch < gw_next g'" if "ch \<in> held g'" using that held channels_okD(4) [OF ok, of ch] by (auto simp: r)
    show "gw_chans g' ch = fresh_chan" if "ch \<in> held g'"
      using that held channels_okD(5,6) [OF ok, of ch] by (auto simp: r)
    show "gw_chans g' ch = fresh_chan" if "gw_next g' \<le> ch" using that channels_okD(6) [OF ok, of ch] by (simp add: r)
  qed (use channels_okD(3,7) [OF ok] in \<open>simp_all add: r\<close>)
next
  case (give_up ch i err)
  let ?m = "gc_pending (gw_client g)"
  have m: "gc_pending (gw_client g') = ?m(i := None)" by (simp add: give_up(2) unregister_def)
  have r: "gw_resolving g' = gw_resolving g" by (simp add: give_up(2))
  show ?thesis
  proof (rule channels_ok_less [OF ok])
    show "inj_on (gc_pending (gw_client g')) (dom (gc_pending (gw_client g')))"
      unfolding m by (rule inj_delete [OF channels_okD(1) [OF ok]])
    show "ran (gc_pending (gw_client g')) \<inter> fst ` gw_resolving g' = {}"
      unfolding m r using ran_delete [of ?m i] channels_okD(2) [OF ok] by blast
    show "held g' \<subseteq> held g" unfolding held_def m r using ran_delete [of ?m i] by blast
  qed (use channels_okD(3) [OF ok] in \<open>simp_all add: give_up(2)\<close>)
next
  case (answered ch i x xs)
  have "gw_chans g ch \<noteq> fresh_chan" using answered(4) by (auto simp: fresh_chan_def)
  then have "ch \<notin> held g" "ch < gw_next g"
    using channels_okD(5,6) [OF ok, of ch] by (auto simp flip: not_le)
  then show ?thesis
    by (intro channels_ok_less [OF ok]) (use channels_okD(1-3) [OF ok] in \<open>auto simp: answered(2) held_def\<close>)
qed (use ok in \<open>auto intro: channels_ok_same [OF ok]\<close>)

lemma requests_okD:
  assumes "requests_ok g"
  shows "ch \<in> fst ` gw_waiting g \<Longrightarrow> ch < gw_next g" and "ch \<in> fst ` set (gw_returned g) \<Longrightarrow> ch < gw_next g"
    and "fst ` gw_waiting g \<inter> fst ` set (gw_returned g) = {}"
    and "inj_on fst (gw_waiting g)" and "distinct (map fst (gw_returned g))" and "finite (gw_waiting g)"
  using assms unfolding requests_ok_def by blast+

lemma requests_okI:
  assumes "\<And>ch. ch \<in> fst ` gw_waiting g \<Longrightarrow> ch < gw_next g" and "\<And>ch. ch \<in> fst ` set (gw_returned g) \<Longrightarrow> ch < gw_next g"
    and "fst ` gw_waiting g \<inter> fst ` set (gw_returned g) = {}"
    and "inj_on fst (gw_waiting g)" and "distinct (map fst (gw_returned g))" and "finite (gw_waiting g)"
  shows "requests_ok g"
  using assms unfolding requests_ok_def by blast

lemma returned_not_waiting:
  assumes ok: "requests_ok g" and w: "(ch, i) \<in> gw_waiting g"
    and g': "gw_waiting g' = gw_waiting g - {(ch, i)}" "gw_returned g' = gw_returned g @ [(ch, x)]" "gw_next g' = gw_next g"
  shows "requests_ok g'"
proof (rule requests_okI)
  have gone: "ch \<notin> fst ` (gw_waiting g - {(ch, i)})" by (rule fst_once [OF requests_okD(4) [OF ok] w])
  have ch: "ch \<in> fst ` gw_waiting g" using w by force
  have sub: "fst ` (gw_waiting g - {(ch, i)}) \<subseteq> fst ` gw_waiting g" by blast
  show "k < gw_next g'" if "k \<in> fst ` gw_waiting g'" for k using that sub requests_okD(1) [OF ok, of k] by (auto simp: g')
  show "k < gw_next g'" if "k \<in> fst ` set (gw_returned g')" for k
    using that requests_okD(1) [OF ok ch] requests_okD(2) [OF ok, of k] by (auto simp: g')
  show "fst ` gw_waiting g' \<inter> fst ` set (gw_returned g') = {}" using gone sub requests_okD(3) [OF ok] by (auto simp: g')
  show "distinct (map fst (gw_returned g'))" using requests_okD(3,5) [OF ok] ch by (auto simp: g')
qed (use requests_okD(4,6) [OF ok] in \<open>simp_all add: g' inj_on_diff\<close>)

lemma requests_ok_same:
  assumes "requests_ok g" "gw_waiting g' = gw_waiting g" "gw_returned g' = gw_returned g" "gw_next g' = gw_next g"
  shows "requests_ok g'"
  using assms by (simp add: requests_ok_def)

lemma requests_ok_step [inv_rule]:
  assumes "gstep G goos g a g'" and ok: "requests_ok g"
  shows "requests_ok g'"
  using assms(1)
proof (cases rule: gstep.cases)
  case (hang_up n l err)
  show ?thesis by (rule requests_ok_same [OF ok]) (simp_all add: hang_up(2) Let_def)
next
  case (register k i c)
  have new: "gw_next g \<notin> fst ` gw_waiting g" "gw_next g \<notin> fst ` set (gw_returned g)"
    using requests_okD(1,2) [OF ok, of "gw_next g"] by auto
  show ?thesis
  proof (rule requests_okI)
    show "ch < gw_next g'" if "ch \<in> fst ` gw_waiting g'" for ch
      using that requests_okD(1) [OF ok, of ch] by (cases "ch \<in> fst ` gw_waiting g") (auto simp: register(2))
    show "ch < gw_next g'" if "ch \<in> fst ` set (gw_returned g')" for ch
      using that requests_okD(2) [OF ok, of ch] by (simp add: register(2))
    show "fst ` gw_waiting g' \<inter> fst ` set (gw_returned g') = {}"
      using requests_okD(3) [OF ok] new(2) by (auto simp: register(2))
    have "gw_waiting g - {(gw_next g, i)} = gw_waiting g" using new(1) by force
    then show "inj_on fst (gw_waiting g')" using requests_okD(4) [OF ok] new(1) by (simp add: register(2))
  qed (use requests_okD(5,6) [OF ok] in \<open>simp_all add: register(2)\<close>)
next
  case (give_up ch i err)
  show ?thesis by (rule returned_not_waiting [OF ok give_up(3), of _ "Err err"]) (simp_all add: give_up(2))
next
  case (answered ch i x xs)
  show ?thesis by (rule returned_not_waiting [OF ok answered(3), of _ x]) (simp_all add: answered(2))
qed (auto intro: requests_ok_same [OF ok])

section \<open>No request is forgotten\<close>

lemma read_message_requestID:
  "read_message G goos werr data c l = (c', l', r) \<Longrightarrow> gc_requestID c' = gc_requestID c \<or> gc_requestID c' = gc_requestID c + 1"
  by (auto simp: read_message_def next_id_def Let_def split: sum.splits prod.splits if_splits option.splits GatewayFrame.splits)

lemma read_message_answer:
  "read_message G goos werr data c l = (c', l', Some r) \<Longrightarrow> gc_requestID c' = gc_requestID c"
  by (auto simp: read_message_def next_id_def Let_def split: sum.splits prod.splits if_splits option.splits GatewayFrame.splits)

text \<open>Identifiers are distinct until the counter wraps.\<close>

definition ids_ok :: "Gateway \<Rightarrow> bool" where
  "ids_ok g =
     (gw_ids g < 2 ^ 64 \<longrightarrow>
        unat (gc_requestID (gw_client g)) = gw_ids g \<and>
        (\<forall>i \<in> snd ` gw_waiting g. \<exists>k \<le> gw_ids g. i = ''req-'' @ show_nat k) \<and> inj_on snd (gw_waiting g))"

definition waiting_ok :: "Gateway \<Rightarrow> bool" where
  "waiting_ok g =
     (gw_ids g < 2 ^ 64 \<longrightarrow>
        (\<forall>(ch, i) \<in> gw_waiting g. gc_pending (gw_client g) i = Some ch \<or> ch \<in> fst ` gw_resolving g \<or> cn_buf (gw_chans g ch) \<noteq> []))"

lemma unat_next: "unat (w :: 64 word) = n \<Longrightarrow> Suc n < 2 ^ 64 \<Longrightarrow> unat (w + 1) = Suc n"
  by (simp add: unat_word_ariths)

lemma gw_ids_step: "gstep G goos g a g' \<Longrightarrow> gw_ids g \<le> gw_ids g'"
  by (erule gstep.cases) (simp_all add: Let_def)

lemma ids_ok_same:
  assumes "ids_ok g" "gw_ids g' = gw_ids g" "gc_requestID (gw_client g') = gc_requestID (gw_client g)" "gw_waiting g' \<subseteq> gw_waiting g"
  shows "ids_ok g'"
  using assms(1) inj_on_subset [OF _ assms(4), of snd] assms(4) unfolding ids_ok_def assms(2,3) by blast

lemma ids_ok_step [inv_rule]:
  assumes "gstep G goos g a g'" and ok: "ids_ok g"
  shows "ids_ok g'"
  using assms(1)
proof (cases rule: gstep.cases)
  case (message n l werr data c l')
  have w: "gw_waiting g' = gw_waiting g" and c: "gw_client g' = c"
    and i: "gw_ids g' = gw_ids g + (if gc_requestID c = gc_requestID (gw_client g) then 0 else 1)" by (simp_all add: message(2))
  show ?thesis
  proof (cases "gc_requestID c = gc_requestID (gw_client g)")
    case True
    then show ?thesis by (intro ids_ok_same [OF ok]) (simp_all add: w c i)
  next
    case False
    then have c': "gc_requestID c = gc_requestID (gw_client g) + 1" using read_message_requestID [OF message(5)] by simp
    have i': "gw_ids g' = Suc (gw_ids g)" using False by (simp add: i)
    show ?thesis
      unfolding ids_ok_def
    proof (intro impI conjI)
      assume b: "gw_ids g' < 2 ^ 64"
      then have b0: "gw_ids g < 2 ^ 64" by (simp add: i')
      then show "unat (gc_requestID (gw_client g')) = gw_ids g'"
        using ok b unat_next by (simp add: ids_ok_def c c' i')
      show "\<forall>i \<in> snd ` gw_waiting g'. \<exists>k \<le> gw_ids g'. i = ''req-'' @ show_nat k"
        using ok b0 le_SucI unfolding ids_ok_def w i' by blast
      show "inj_on snd (gw_waiting g')" using ok b0 by (simp add: ids_ok_def w)
    qed
  qed
next
  case (take n l werr data c l' i x ch)
  show ?thesis using read_message_answer [OF take(5)] by (intro ids_ok_same [OF ok]) (simp_all add: take(2) unregister_def)
next
  case (unknown n l werr data c l' i x)
  show ?thesis using read_message_answer [OF unknown(5)] by (intro ids_ok_same [OF ok]) (simp_all add: unknown(2))
next
  case (hang_up n l err)
  show ?thesis by (rule ids_ok_same [OF ok]) (simp_all add: hang_up(2) Let_def)
next
  case (register k i c)
  have i: "i = ''req-'' @ show_nat (unat (gc_requestID (gw_client g) + 1))" and c: "gc_requestID c = gc_requestID (gw_client g) + 1"
    using register(4) by (auto simp: next_id_def Let_def)
  show ?thesis
    unfolding ids_ok_def
  proof (intro impI conjI)
    assume "gw_ids g' < 2 ^ 64"
    then have b: "Suc (gw_ids g) < 2 ^ 64" by (simp add: register(2))
    then have b0: "gw_ids g < 2 ^ 64" by simp
    have u: "unat (gc_requestID (gw_client g) + 1) = Suc (gw_ids g)" using ok b0 b unat_next by (simp add: ids_ok_def)
    then show "unat (gc_requestID (gw_client g')) = gw_ids g'" by (simp add: register(2) c)
    have old: "\<forall>j \<in> snd ` gw_waiting g. \<exists>k \<le> gw_ids g. j = ''req-'' @ show_nat k" using ok b0 by (simp add: ids_ok_def)
    show "\<forall>j \<in> snd ` gw_waiting g'. \<exists>k \<le> gw_ids g'. j = ''req-'' @ show_nat k"
      using old u le_SucI by (fastforce simp: register(2) i)
    have new: "i \<notin> snd ` gw_waiting g" using old by (auto simp: i u dest!: bspec)
    moreover have "gw_waiting g - {(gw_next g, i)} = gw_waiting g" using new by force
    ultimately show "inj_on snd (gw_waiting g')" using ok b0 by (simp add: ids_ok_def register(2))
  qed
next
  case (give_up ch i err)
  show ?thesis by (rule ids_ok_same [OF ok]) (auto simp: give_up(2) unregister_def)
next
  case (answered ch i x xs)
  show ?thesis by (rule ids_ok_same [OF ok]) (auto simp: answered(2))
qed (auto intro: ids_ok_same [OF ok])

lemma waiting_okI:
  assumes "waiting_ok g" "gw_ids g \<le> gw_ids g'"
    and "\<And>ch i. gw_ids g' < 2 ^ 64 \<Longrightarrow> (ch, i) \<in> gw_waiting g' \<Longrightarrow>
      (gc_pending (gw_client g) i = Some ch \<or> ch \<in> fst ` gw_resolving g \<or> cn_buf (gw_chans g ch) \<noteq> [] \<or> (ch, i) \<notin> gw_waiting g) \<Longrightarrow>
      gc_pending (gw_client g') i = Some ch \<or> ch \<in> fst ` gw_resolving g' \<or> cn_buf (gw_chans g' ch) \<noteq> []"
  shows "waiting_ok g'"
  unfolding waiting_ok_def using assms unfolding waiting_ok_def by fastforce

lemma fail_all_waiting:
  assumes ok: "channels_ok g"
    and w: "gc_pending (gw_client g) i = Some ch \<or> ch \<in> fst ` gw_resolving g \<or> cn_buf (gw_chans g ch) \<noteq> []"
  shows "ch \<in> fst ` gw_resolving g \<or> cn_buf (gw_chans (fail_all err g) ch) \<noteq> []"
proof -
  have fresh: "\<forall>ch \<in> ran (gc_pending (gw_client g)). gw_chans g ch = fresh_chan"
    using channels_okD(5) [OF ok] by (simp add: held_def)
  show ?thesis using w by (auto simp: fail_all_chans(1) [OF fresh] ranI)
qed

lemma waiting_ok_step [inv_rule]:
  assumes step: "gstep G goos g a g'" and ok: "channels_ok g" "requests_ok g" "ids_ok g" "waiting_ok g"
  shows "waiting_ok g'"
  using step
proof (cases rule: gstep.cases)
  case (take n l werr data c l' i x ch)
  have "gc_pending c = gc_pending (gw_client g)" using take(5) by simp
  then show ?thesis using take(7) by (intro waiting_okI [OF ok(4)]) (auto simp: take(2) unregister_def)
next
  case (deliver ch x c)
  have "gw_chans g ch = fresh_chan" by (rule channels_okD(5) [OF ok(1)]) (use deliver(3) in \<open>force simp: held_def\<close>)
  then have c: "cn_buf c \<noteq> []" using deliver(4) by auto
  show ?thesis
  proof (rule waiting_okI [OF ok(4)])
    fix k i
    assume w: "(k, i) \<in> gw_waiting g'"
      and "gc_pending (gw_client g) i = Some k \<or> k \<in> fst ` gw_resolving g \<or> cn_buf (gw_chans g k) \<noteq> [] \<or> (k, i) \<notin> gw_waiting g"
    then show "gc_pending (gw_client g') i = Some k \<or> k \<in> fst ` gw_resolving g' \<or> cn_buf (gw_chans g' k) \<noteq> []"
      using c by (cases "k = ch") (force simp: deliver(2))+
  qed (simp add: deliver(2))
next
  case (hang_up n l err)
  show ?thesis using fail_all_waiting [OF ok(1), of _ _ err] by (intro waiting_okI [OF ok(4)]) (auto simp: hang_up(2) Let_def)
next
  case close_pending
  show ?thesis using fail_all_waiting [OF ok(1)] by (intro waiting_okI [OF ok(4)]) (auto simp: close_pending(2))
next
  case (register k i c)
  show ?thesis
  proof (rule waiting_okI [OF ok(4)])
    fix ch j
    assume b: "gw_ids g' < 2 ^ 64" and w: "(ch, j) \<in> gw_waiting g'"
      and old: "gc_pending (gw_client g) j = Some ch \<or> ch \<in> fst ` gw_resolving g \<or> cn_buf (gw_chans g ch) \<noteq> [] \<or> (ch, j) \<notin> gw_waiting g"
    have ids: "ids_ok g'" by (rule ids_ok_step [OF step ok(3)])
    have new: "(gw_next g, i) \<in> gw_waiting g'" by (simp add: register(2))
    have "j \<noteq> i" if "(ch, j) \<noteq> (gw_next g, i)"
      using ids b new w that snd_once [of "gw_waiting g'" "gw_next g" i ch] unfolding ids_ok_def by auto
    then show "gc_pending (gw_client g') j = Some ch \<or> ch \<in> fst ` gw_resolving g' \<or> cn_buf (gw_chans g' ch) \<noteq> []"
      using old w register(4) by (auto simp: register(2))
  qed (simp add: register(2))
next
  case (give_up ch i err)
  show ?thesis
  proof (rule waiting_okI [OF ok(4)])
    fix k j
    assume b: "gw_ids g' < 2 ^ 64" and w: "(k, j) \<in> gw_waiting g'"
      and old: "gc_pending (gw_client g) j = Some k \<or> k \<in> fst ` gw_resolving g \<or> cn_buf (gw_chans g k) \<noteq> [] \<or> (k, j) \<notin> gw_waiting g"
    have kj: "(k, j) \<in> gw_waiting g" "(k, j) \<noteq> (ch, i)" using w by (auto simp: give_up(2))
    have "inj_on snd (gw_waiting g)" using ok(3) b by (simp add: ids_ok_def give_up(2))
    then have "j \<noteq> i" using kj give_up(3) snd_once [of "gw_waiting g" k j ch] by auto
    then show "gc_pending (gw_client g') j = Some k \<or> k \<in> fst ` gw_resolving g' \<or> cn_buf (gw_chans g' k) \<noteq> []"
      using old kj(1) by (auto simp: give_up(2) unregister_def)
  qed (simp add: give_up(2))
next
  case (answered ch i x xs)
  show ?thesis
  proof (rule waiting_okI [OF ok(4)])
    fix k j
    assume w: "(k, j) \<in> gw_waiting g'"
      and old: "gc_pending (gw_client g) j = Some k \<or> k \<in> fst ` gw_resolving g \<or> cn_buf (gw_chans g k) \<noteq> [] \<or> (k, j) \<notin> gw_waiting g"
    have kj: "(k, j) \<in> gw_waiting g" "(k, j) \<noteq> (ch, i)" using w by (auto simp: answered(2))
    then have "k \<noteq> ch" using fst_once [OF requests_okD(4) [OF ok(2)] answered(3)] by force
    then show "gc_pending (gw_client g') j = Some k \<or> k \<in> fst ` gw_resolving g' \<or> cn_buf (gw_chans g' k) \<noteq> []"
      using old kj(1) by (auto simp: answered(2))
  qed (simp add: answered(2))
qed (use ok(4) in \<open>auto intro!: waiting_okI [OF ok(4)]\<close>)

lemma gateway_invariants:
  assumes "reachable_gateway G goos token g"
  shows "channels_ok g \<and> requests_ok g \<and> ids_ok g \<and> waiting_ok g"
  using assms
proof induction
  case initial
  show ?case
    by (simp add: new_gateway_def NewGatewayClient_def channels_ok_def held_def requests_ok_def ids_ok_def waiting_ok_def)
next
  case (further g a g')
  then show ?case by (blast intro: inv_rule)
qed

section \<open>A run\<close>

definition sample_gateway_lib :: GatewayLib where
  "sample_gateway_lib =
     \<lparr>gl_probe = (\<lambda>_. Ok (''hello-ok'', [])), gl_hello = (\<lambda>_. Ok \<lparr>ho_Type = ''hello-ok'', ho_Protocol = 3\<rparr>), gl_request = (\<lambda>_. Err []),
      gl_response = (\<lambda>_. Err []), gl_event = (\<lambda>_. Err []), gl_chat = (\<lambda>_. Err []), gl_agent = (\<lambda>_. Err []), gl_started = (\<lambda>_. Err []),
      gl_completed = (\<lambda>_. Err []), gl_any = (\<lambda>_. Err []), gl_sessions = (\<lambda>_. Err [])\<rparr>"

text \<open>A connection with its handshake done and one request that waits.\<close>

definition sample_gateway :: Gateway where
  "sample_gateway = (new_gateway ''t'')
     \<lparr>gw_client := \<lparr>gc_token = ''t'', gc_conn = Some 0, gc_connected = True, gc_closed = False, gc_requestID = 1, gc_pending = [''req-1'' \<mapsto> 0]\<rparr>,
      gw_loop := Some (0, (hello_ok \<lparr>ho_Type = ''hello-ok'', ho_Protocol = 3\<rparr> new_loop)\<lparr>rl_hello := []\<rparr>), gw_next := 1, gw_ids := 1, gw_waiting := {(0, ''req-1'')}\<rparr>"

lemma sample_gateway_reachable: "reachable_gateway sample_gateway_lib ''linux'' ''t'' sample_gateway"
proof -
  let ?r = "reachable_gateway sample_gateway_lib ''linux'' ''t''"
  let ?c = "\<lparr>gc_token = ''t'', gc_conn = Some 0, gc_connected = True, gc_closed = False, gc_requestID = 0, gc_pending = Map.empty\<rparr>"
  let ?l = "hello_ok \<lparr>ho_Type = ''hello-ok'', ho_Protocol = 3\<rparr> new_loop"
  note defs = new_gateway_def NewGatewayClient_def
  have one: "show_nat 1 = ''1''" "show_nat (Suc 0) = ''1''" by code_simp+
  let ?g1 = "(new_gateway ''t'')\<lparr>gw_client := ?c\<lparr>gc_connected := False\<rparr>, gw_loop := Some (0, new_loop), gw_dialling := True\<rparr>"
  have "gstep sample_gateway_lib ''linux'' (new_gateway ''t'') Dial ?g1"
    using gstep.dial [of "new_gateway ''t''" sample_gateway_lib "''linux''" 0] by (simp add: defs)
  then have r1: "?r ?g1" by (rule reachable_gateway.further [OF reachable_gateway.initial])
  let ?g1' = "(new_gateway ''t'')\<lparr>gw_client := ?c, gw_loop := Some (0, ?l), gw_dialling := True\<rparr>"
  let ?g2 = "(new_gateway ''t'')\<lparr>gw_client := ?c, gw_loop := Some (0, ?l\<lparr>rl_hello := []\<rparr>)\<rparr>"
  have "gstep sample_gateway_lib ''linux'' ?g1 Read ?g1'"
    using gstep.message [of ?g1 0 new_loop sample_gateway_lib "''linux''" None "[]" ?c ?l]
    by (simp add: defs read_message_def sample_gateway_lib_def hello_ok_def new_loop_def errs_fit_def)
  then have r1': "?r ?g1'" by (rule reachable_gateway.further [OF r1])
  have "gstep sample_gateway_lib ''linux'' ?g1' Hear ?g2"
    using gstep.hear_hello [of ?g1' 0 ?l "\<lparr>ho_Type = ''hello-ok'', ho_Protocol = 3\<rparr>" "[]" sample_gateway_lib "''linux''"]
    by (simp add: defs hello_ok_def new_loop_def)
  then have r2: "?r ?g2" by (rule reachable_gateway.further [OF r1'])
  let ?g3 = "?g2\<lparr>gw_asking := 1\<rparr>"
  have "gstep sample_gateway_lib ''linux'' ?g2 Ask ?g3"
    using gstep.ask [of ?g2 sample_gateway_lib "''linux''"] by (simp add: defs)
  then have r3: "?r ?g3" by (rule reachable_gateway.further [OF r2])
  have "gstep sample_gateway_lib ''linux'' ?g3 Register sample_gateway"
    using gstep.register [of ?g3 0 "''req-1''" "?c\<lparr>gc_requestID := 1\<rparr>" sample_gateway_lib "''linux''"]
    by (simp add: defs sample_gateway_def next_id_def one)
  then show ?thesis by (rule reachable_gateway.further [OF r3])
qed

section \<open>What the client promises\<close>

text \<open>C26: No request of the gateway client is answered twice, and no answer is sent to a full or closed
  channel. In every interleaving of requests, timeouts, failed writes, answers, the loss of the
  connection and \<open>Close\<close>, every answer in flight and every error for a pending request finds its
  channel open and empty, so that neither the reading loop nor \<open>Close\<close> can block or panic there,
  and a request returns at most once.\<close>

theorem gateway_one_answer:
  assumes "reachable_gateway G goos token g"
  shows "\<not> gw_panicked g \<and> distinct (map fst (gw_returned g)) \<and> fst ` gw_waiting g \<inter> fst ` set (gw_returned g) = {} \<and>
    (\<forall>(ch, x) \<in> gw_resolving g. send_close x (gw_chans g ch) = Sent \<lparr>cn_buf = [x], cn_closed = True\<rparr>) \<and>
    (\<forall>ch \<in> ran (gc_pending (gw_client g)). \<forall>err. send_close (Err err) (gw_chans g ch) = Sent \<lparr>cn_buf = [Err err], cn_closed = True\<rparr>)"
proof -
  note ok = gateway_invariants [OF assms, THEN conjunct1]
  have "gw_chans g ch = fresh_chan" if "ch \<in> ran (gc_pending (gw_client g)) \<union> fst ` gw_resolving g" for ch
    using channels_okD(5) [OF ok] that by (simp add: held_def)
  then show ?thesis
    using channels_okD(7) [OF ok] requests_okD(3,5) [of g] gateway_invariants [OF assms] by force
qed

theorem gateway_one_answer_witness: "\<not> gw_panicked sample_gateway \<and> distinct (map fst (gw_returned sample_gateway))"
  using gateway_one_answer [OF sample_gateway_reachable] by simp

abbreviation settles :: "GatewayLib \<Rightarrow> string \<Rightarrow> Gateway \<Rightarrow> Gateway \<Rightarrow> bool" where
  "settles G goos \<equiv> (\<lambda>g g'. gstep G goos g Deliver g' \<or> gstep G goos g Answer g')\<^sup>*\<^sup>*"

lemma settles_reachable:
  assumes "settles G goos g g'" "reachable_gateway G goos token g"
  shows "reachable_gateway G goos token g'"
  using assms by (induction) (blast intro: reachable_gateway.further)+

text \<open>A request whose answer is in its channel or in flight returns with it.\<close>

lemma settle_one:
  assumes r: "reachable_gateway G goos token g" and w: "(ch, i) \<in> gw_waiting g"
    and h: "ch \<in> fst ` gw_resolving g \<or> cn_buf (gw_chans g ch) \<noteq> []"
  shows "\<exists>g' x. settles G goos g g' \<and> gw_waiting g' = gw_waiting g - {(ch, i)} \<and> gw_returned g' = gw_returned g @ [(ch, x)] \<and>
    gc_pending (gw_client g') = gc_pending (gw_client g) \<and> gw_ids g' = gw_ids g"
proof -
  have take: "\<exists>g' x. settles G goos g g' \<and> gw_waiting g' = gw_waiting g - {(ch, i)} \<and> gw_returned g' = gw_returned g @ [(ch, x)] \<and>
      gc_pending (gw_client g') = gc_pending (gw_client g) \<and> gw_ids g' = gw_ids g"
    if "(ch, i) \<in> gw_waiting g" "cn_buf (gw_chans g ch) = x # xs" for g x xs
  proof -
    let ?g = "g\<lparr>gw_chans := (gw_chans g)(ch := (gw_chans g ch)\<lparr>cn_buf := xs\<rparr>), gw_waiting := gw_waiting g - {(ch, i)},
      gw_returned := gw_returned g @ [(ch, x)]\<rparr>"
    have "settles G goos g ?g" using gstep.answered [OF that, of G goos] by blast
    then show ?thesis by (auto intro!: exI [of _ ?g])
  qed
  show ?thesis
  proof (cases "cn_buf (gw_chans g ch)")
    case (Cons x xs)
    from take [OF w Cons] show ?thesis .
  next
    case Nil
    with h obtain x where x: "(ch, x) \<in> gw_resolving g" by auto
    let ?c = "\<lparr>cn_buf = [x], cn_closed = True\<rparr>"
    let ?g = "g\<lparr>gw_chans := (gw_chans g)(ch := ?c), gw_resolving := gw_resolving g - {(ch, x)}\<rparr>"
    have "gw_chans g ch = fresh_chan"
      by (rule channels_okD(5)) (use gateway_invariants [OF r] x in \<open>force simp: held_def\<close>)+
    then have "gstep G goos g Deliver ?g" using gstep.deliver [OF x, of ?c G goos] by simp
    moreover have "\<exists>g' x. settles G goos ?g g' \<and> gw_waiting g' = gw_waiting ?g - {(ch, i)} \<and> gw_returned g' = gw_returned ?g @ [(ch, x)] \<and>
        gc_pending (gw_client g') = gc_pending (gw_client ?g) \<and> gw_ids g' = gw_ids ?g"
      by (rule take [of ?g x "[]"]) (use w in simp_all)
    ultimately show ?thesis by (auto intro: converse_rtranclp_into_rtranclp)
  qed
qed

lemma settle_all:
  assumes "reachable_gateway G goos token g" "gc_pending (gw_client g) = Map.empty" "gw_ids g < 2 ^ 64"
  shows "\<exists>g'. settles G goos g g' \<and> gw_waiting g' = {} \<and>
    fst ` set (gw_returned g') = fst ` set (gw_returned g) \<union> fst ` gw_waiting g"
proof -
  have "finite (gw_waiting g)" using requests_okD(6) gateway_invariants [OF assms(1)] by blast
  from this assms show ?thesis
  proof (induction "card (gw_waiting g)" arbitrary: g)
    case 0
    then show ?case by auto
  next
    case (Suc n)
    then have "gw_waiting g \<noteq> {}" by auto
    then obtain ch i where w: "(ch, i) \<in> gw_waiting g" by auto
    have "ch \<in> fst ` gw_resolving g \<or> cn_buf (gw_chans g ch) \<noteq> []"
      using gateway_invariants [OF Suc.prems(2)] w Suc.prems(3,4) by (fastforce simp: waiting_ok_def)
    from settle_one [OF Suc.prems(2) w this] obtain g' x where g': "settles G goos g g'"
        "gw_waiting g' = gw_waiting g - {(ch, i)}" "gw_returned g' = gw_returned g @ [(ch, x)]"
        "gc_pending (gw_client g') = gc_pending (gw_client g)" "gw_ids g' = gw_ids g" by blast
    have "n = card (gw_waiting g')" using Suc.hyps(2) Suc.prems(1) w by (simp add: g'(2))
    from Suc.hyps(1) [OF this _ settles_reachable [OF g'(1) Suc.prems(2)]] Suc.prems g'
    obtain g'' where g'': "settles G goos g' g''" "gw_waiting g'' = {}"
        "fst ` set (gw_returned g'') = fst ` set (gw_returned g') \<union> fst ` gw_waiting g'" by auto
    have "fst ` set (gw_returned g') \<union> fst ` gw_waiting g' = fst ` set (gw_returned g) \<union> fst ` gw_waiting g"
      using w by (force simp: g'(2,3))
    then show ?case using g'' rtranclp_trans [OF g'(1) g''(1)] by auto
  qed
qed

text \<open>A client that counts as connected, or has requests, is past its handshake: its loop has nothing to send
  to \<open>Connect\<close>.\<close>

definition past_hello :: "Gateway \<Rightarrow> bool" where
  "past_hello g \<longleftrightarrow> gc_connected (gw_client g) \<or> gw_asking g \<noteq> 0 \<or> gw_waiting g \<noteq> {} \<longrightarrow>
     (\<exists>n l. gw_loop g = Some (n, l) \<and> \<not> rl_helloPending l)"

lemma read_message_hello:
  "read_message G goos werr data c l = (c', l', r) \<Longrightarrow>
     (\<not> rl_helloPending l \<longrightarrow> \<not> rl_helloPending l') \<and> (gc_connected c' \<longrightarrow> gc_connected c \<or> \<not> rl_helloPending l')"
  by (auto simp: read_message_def next_id_def Let_def hello_error_def hello_failed_def hello_ok_def
      split: sum.splits prod.splits if_splits option.splits GatewayFrame.splits)

lemma past_hello_step:
  assumes "gstep G goos g a g'" "past_hello g"
  shows "past_hello g'"
  using assms(1)
proof (cases rule: gstep.cases)
  case (message n l werr data c l')
  then show ?thesis using read_message_hello [OF message(5)] assms(2) by (auto simp: past_hello_def)
next
  case (take n l werr data c l' i x ch)
  then show ?thesis using read_message_hello [OF take(5)] assms(2) by (auto simp: past_hello_def unregister_def)
next
  case (unknown n l werr data c l' i x)
  then show ?thesis using read_message_hello [OF unknown(5)] assms(2) by (auto simp: past_hello_def)
next
  case (hang_up n l err)
  then show ?thesis using assms(2)
    by (auto simp: past_hello_def Let_def fail_all_def forget_conn_def hello_error_def)
next
  case (register k i c)
  then show ?thesis using assms(2) by (auto simp: past_hello_def next_id_def Let_def)
qed (use assms(2) in \<open>auto simp: past_hello_def forget_conn_def unregister_def fail_all_def split: if_splits\<close>)

lemma gateway_past_hello: "reachable_gateway G goos token g \<Longrightarrow> past_hello g"
proof (induction rule: reachable_gateway.induct)
  case (further g a g')
  then show ?case by (blast intro: past_hello_step)
qed (simp add: past_hello_def new_gateway_def NewGatewayClient_def)

text \<open>The channel of errors never holds more than one.\<close>

lemma errs_fit_tl: "errs_fit l \<Longrightarrow> rl_errs l = err # errs \<Longrightarrow> errs_fit (l\<lparr>rl_errs := errs\<rparr>)"
  by (simp add: errs_fit_def)

lemma gateway_errs_fit: "reachable_gateway G goos token g \<Longrightarrow> gw_loop g = Some (n, l) \<Longrightarrow> errs_fit l"
proof (induction arbitrary: n l rule: reachable_gateway.induct)
  case initial
  then show ?case by (simp add: new_gateway_def)
next
  case (further g a g')
  from further.hyps(2) further.prems further.IH show ?case
    by (cases rule: gstep.cases) (auto simp: Let_def fail_all_def errs_fit_def new_loop_def)
qed

text \<open>C27: A loop that loses its connection releases every waiting request. While a request waits and the loop reads, that
  is, it has not ended on a challenge for which there is no token, the connection can hang up at any
  moment: no channel holds the loop up, neither those of the requests nor that of \<open>Connect\<close>, and
  afterwards every request that waited returns, without its timeout, by delivering the answers that
  are in flight and taking the ones that have arrived. Until the identifiers wrap, that is for the
  first \<open>2\<^sup>64\<close> of them.\<close>

theorem hang_up_releases:
  assumes "reachable_gateway G goos token g" "gw_loop g = Some (n, l)" "\<not> rl_done l" "gw_waiting g \<noteq> {}" "gw_ids g < 2 ^ 64"
  shows "\<exists>g' g''. gstep G goos g HangUp g' \<and> settles G goos g' g'' \<and> gw_waiting g'' = {} \<and>
    fst ` set (gw_returned g'') = fst ` set (gw_returned g) \<union> fst ` gw_waiting g"
proof -
  note ok = gateway_invariants [OF assms(1), THEN conjunct1]
  let ?h = "fail_all [] g"
  let ?g = "?h\<lparr>gw_client := forget_conn n (gw_client ?h), gw_loop := Some (n, (hello_error [] l)\<lparr>rl_done := True\<rparr>)\<rparr>"
  have "\<not> rl_helloPending l" using gateway_past_hello [OF assms(1)] assms(2,4) by (simp add: past_hello_def)
  moreover have "errs_fit l" by (rule gateway_errs_fit [OF assms(1,2)])
  ultimately have "errs_fit (hello_error [] l)" by (simp add: hello_error_def)
  moreover have "\<forall>ch \<in> ran (gc_pending (gw_client g)). send_close (Err []) (gw_chans g ch) \<noteq> Blocks"
    using channels_okD(5) [OF ok] by (simp add: held_def)
  ultimately have h: "gstep G goos g HangUp ?g"
    using gstep.hang_up [OF assms(2,3), of "[]" G goos] by (simp add: Let_def)
  have "\<exists>g''. settles G goos ?g g'' \<and> gw_waiting g'' = {} \<and>
      fst ` set (gw_returned g'') = fst ` set (gw_returned ?g) \<union> fst ` gw_waiting ?g"
    by (rule settle_all [OF reachable_gateway.further [OF assms(1) h]]) (use assms(5) in simp_all)
  then obtain g'' where "settles G goos ?g g''" "gw_waiting g'' = {}"
      "fst ` set (gw_returned g'') = fst ` set (gw_returned g) \<union> fst ` gw_waiting g" by auto
  with h show ?thesis by blast
qed

theorem hang_up_releases_witness:
  "\<exists>g' g''. gstep sample_gateway_lib ''linux'' sample_gateway HangUp g' \<and> settles sample_gateway_lib ''linux'' g' g'' \<and>
    gw_waiting g'' = {} \<and> fst ` set (gw_returned g'') = {0}"
  using hang_up_releases [OF sample_gateway_reachable, of 0 "(hello_ok \<lparr>ho_Type = ''hello-ok'', ho_Protocol = 3\<rparr> new_loop)\<lparr>rl_hello := []\<rparr>"]
  by (simp add: sample_gateway_def new_gateway_def hello_ok_def new_loop_def)

text \<open>A challenge that comes when no token is configured ends the loop without telling anyone: the
  client still counts as connected, and what is pending stays pending.\<close>

lemma late_challenge:
  assumes "gc_token c = []" "gl_probe G data = Ok (''event'', ''connect.challenge'')" "\<not> rl_helloPending l"
  shows "read_message G goos werr data c l = (c, l\<lparr>rl_done := True, rl_shut := True\<rparr>, None)"
  using assms by (simp add: read_message_def hello_error_def)

end
