(* ===== verification/Daemon.thy ===== *)
theory Daemon
  imports Proxy_Connect Config Notify Discovery Log_Parsers Sqlite_Store OpenClaw_Client Raw_Payload
begin

text \<open>
  \<open>internal/daemon/daemon.go\<close>: the daemon's state and what changes it: starting, forwarding the
  adapters' events, reloading, discovery and the gateway observer. The API is in its own
  theory. The queue exists from the start of \<open>Run\<close>. The tool registry is one object that the
  daemon, the proxy and the log parsers share, and so is the correlation store; each of them
  has a copy here, and the daemon's is the one its status reports. Logging to standard error,
  the telemetry provider and the operating system's signals are left out.
\<close>

section \<open>The rules, loaded or not\<close>

text \<open>\<open>CommandmentsService\<close>: the interface's two implementations.\<close>

datatype RulesImpl = Loaded CommandmentsService | Noop

definition cmd_Evaluate :: "Lib \<Rightarrow> RulesImpl \<Rightarrow> Evaluator" where
  "cmd_Evaluate L s = (case s of Loaded c \<Rightarrow> svc_Evaluate L c | Noop \<Rightarrow> noop_Evaluate)"

definition cmd_Redact :: "Lib \<Rightarrow> RulesImpl \<Rightarrow> EventRedactor" where
  "cmd_Redact L s = (case s of Loaded c \<Rightarrow> svc_Redact L c | Noop \<Rightarrow> noop_Redact)"

definition cmd_List :: "RulesImpl \<Rightarrow> CommandmentRuleSummary list" where
  "cmd_List s = (case s of Loaded c \<Rightarrow> svc_List c | Noop \<Rightarrow> [])"

definition cmd_Test :: "Lib \<Rightarrow> RulesImpl \<Rightarrow> Evaluator" where
  "cmd_Test L s = (case s of Loaded c \<Rightarrow> svc_Test L c | Noop \<Rightarrow> noop_Evaluate)"

interpretation rules: commandments "cmd_Evaluate L s" "cmd_Redact L s"
proof (cases s)
  case (Loaded c)
  then show "commandments (cmd_Evaluate L s) (cmd_Redact L s)"
    using service.commandments_axioms [of L c] by (simp add: cmd_Evaluate_def cmd_Redact_def [abs_def])
next
  case Noop
  then show "commandments (cmd_Evaluate L s) (cmd_Redact L s)"
    using noop.commandments_axioms by (simp add: cmd_Evaluate_def cmd_Redact_def [abs_def])
qed

section \<open>State\<close>

text \<open>The parts of the library and of the embedded files that the daemon uses.\<close>

record DaemonLib =
  dl_lib :: Lib
  dl_config :: ConfigLib
  dl_config_yaml :: "string \<Rightarrow> Config \<Rightarrow> error + Config"
  dl_rules_yaml :: "string \<Rightarrow> error + RuleSet"
  dl_registry_yaml :: "string \<Rightarrow> error + RegistryConfig"
  dl_load_error :: "LoadError \<Rightarrow> error"
  dl_price :: "string \<Rightarrow> float64"
  dl_notify :: NotifyLib
  dl_configYAML :: string
  dl_commandmentsYAML :: string
  dl_toolRegistryYAML :: string
  dl_defaultToolRegistryYAML :: string

text \<open>What one emitted event meets: the clock, and what \<open>Send\<close> meets.\<close>

record EmitIo =
  em_now :: time
  em_wait :: wait
  em_t1 :: time
  em_t2 :: time

text \<open>What an operation meets: the files and the environment, the provider mappings, and for each
  action of a system event what its emission meets.\<close>

record DaemonIo =
  dio_files :: "string \<Rightarrow> ReadResult"
  dio_env :: Env
  dio_specs :: "string \<Rightarrow> error + Spec"
  dio_emit :: "string \<Rightarrow> EmitIo"

record Daemon =
  d_cfg :: Config
  d_cfgPath :: string
  d_logger :: "Store Logger"
  d_evaluator :: RulesImpl
  d_redactor :: RulesImpl
  d_queue :: "QItem Queue"
  d_registry :: AgentRegistry
  d_proxy :: "Proxy option"
  d_openclaw :: "(GatewayClient \<times> SessionCache) option"
  d_openclawState :: "ClawState option"
  d_commandments :: RulesImpl
  d_gate :: RulesImpl
  d_classifier :: Registry
  d_parser :: ParserState
  d_notifier :: "Backend list"
  d_startTime :: time
  d_hostname :: string
  d_userID :: string
  d_eventCh :: "AuditEvent list"

section \<open>Events\<close>

definition system_event :: "Daemon \<Rightarrow> time \<Rightarrow> string \<Rightarrow> Outcome \<Rightarrow> json option \<Rightarrow> AuditEvent" where
  "system_event d now action outcome payload =
     zero_event\<lparr>ev_ID := ''sys_'' @ show_int now @ ''_'' @ action, ev_Timestamp := now, ev_AgentID := ''crabwise'',
       ev_ActionType := ActionSystem, ev_Action := action,
       ev_Arguments := (case payload of None \<Rightarrow> [] | Some v \<Rightarrow> json_print v), ev_Outcome := outcome,
       ev_AdapterID := ''daemon'', ev_AdapterType := ''daemon'', ev_Hostname := d_hostname d, ev_UserID := d_userID d\<rparr>"

definition send_queue :: "EmitIo \<Rightarrow> AuditEvent \<Rightarrow> Daemon \<Rightarrow> Daemon" where
  "send_queue em e d = d\<lparr>d_queue := snd (Send (em_wait em) (em_t1 em) (em_t2 em) (d_queue d) (EventItem e))\<rparr>"

definition emitSystemEvent :: "DaemonIo \<Rightarrow> string \<Rightarrow> Outcome \<Rightarrow> json option \<Rightarrow> Daemon \<Rightarrow> Daemon" where
  "emitSystemEvent io action outcome payload d =
     send_queue (dio_emit io action) (system_event d (em_now (dio_emit io action)) action outcome payload) d"

definition error_payload :: "error \<Rightarrow> json option" where
  "error_payload err = Some (json_map [(''error'', JStr err)])"

text \<open>One turn of \<open>forwardEvents\<close>: an event off the channel is stamped and queued.\<close>

definition forwardEvent :: "EmitIo \<Rightarrow> AuditEvent \<Rightarrow> Daemon \<Rightarrow> Daemon" where
  "forwardEvent em evt d = send_queue em (evt\<lparr>ev_Hostname := d_hostname d, ev_UserID := d_userID d\<rparr>) d"

fun forwardEvents :: "(EmitIo \<times> AuditEvent) list \<Rightarrow> Daemon \<Rightarrow> Daemon" where
  "forwardEvents [] d = d"
| "forwardEvents ((em, evt) # evts) d = forwardEvents evts (forwardEvent em evt d)"

section \<open>Configurations of the parts\<close>

definition notifierConfig :: "NotificationsConfig \<Rightarrow> NotifierConfig" where
  "notifierConfig n =
     \<lparr>nc_Desktop = \<lparr>dc_Enabled = dn_Enabled (nt_Desktop n), dc_MinInterval = dn_MinInterval (nt_Desktop n)\<rparr>,
      nc_Webhook = \<lparr>wc_Enabled = wn_Enabled (nt_Webhook n), wc_URL = wn_URL (nt_Webhook n),
        wc_AuthHeaderEnv = wn_AuthHeaderEnv (nt_Webhook n), wc_Format = wn_Format (nt_Webhook n),
        wc_MinInterval = wn_MinInterval (nt_Webhook n)\<rparr>\<rparr>"

definition provider_config :: "string \<times> ProxyProviderConfig \<Rightarrow> string \<times> ProviderConfig" where
  "provider_config kv = (case kv of (name, p) \<Rightarrow>
     (name, \<lparr>pcf_Name = name, pcf_UpstreamBaseURL = pp_UpstreamBaseURL p,
       pcf_AuthMode = (if pp_AuthMode p = [] then ''passthrough'' else pp_AuthMode p), pcf_AuthKey = pp_AuthKey p,
       pcf_RoutePatterns = pp_RoutePatterns p, pcf_MaxIdleConns = pp_MaxIdleConns p, pcf_IdleConnTimeout = pp_IdleConnTimeout p\<rparr>))"

definition proxyConfig :: "Config \<Rightarrow> ProxyConfig" where
  "proxyConfig cfg =
     (let p = cf_Proxy cfg in
      \<lparr>pxc_Listen = dp_Listen p, pxc_DefaultProvider = dp_DefaultProvider p, pxc_UpstreamTimeout = dp_UpstreamTimeout p,
       pxc_StreamIdleTimeout = dp_StreamIdleTimeout p, pxc_StreamMaxBuffer = dp_StreamMaxBuffer p,
       pxc_MaxRequestBody = dp_MaxRequestBody p, pxc_RedactEgressDefault = dp_RedactEgressDefault p,
       pxc_CACert = dp_CACert p, pxc_CAKey = dp_CAKey p, pxc_MappingsDir = dp_MappingsDir p,
       pxc_MappingStrictMode = dp_MappingStrictMode p, pxc_Providers = map provider_config (dp_Providers p),
       pxc_Pricing = map (\<lambda>(model, c). (model, \<lparr>prc_InputPerMillion = mp_Input c, prc_OutputPerMillion = mp_Output c\<rparr>)) (cf_Pricing cfg),
       pxc_RedactPatterns = dp_RedactPatterns p\<rparr>)"

definition toolRegistryFallbackYAML :: "DaemonLib \<Rightarrow> string" where
  "toolRegistryFallbackYAML DL =
     (if dl_toolRegistryYAML DL \<noteq> [] then dl_toolRegistryYAML DL else dl_defaultToolRegistryYAML DL)"

definition loadToolRegistryCandidate :: "DaemonLib \<Rightarrow> DaemonIo \<Rightarrow> Config \<Rightarrow> error + Registry" where
  "loadToolRegistryCandidate DL io cfg =
     LoadRegistry (dl_registry_yaml DL) (dio_files io) (cf_ToolRegistryFile cfg) (toolRegistryFallbackYAML DL)"

definition load_commandments :: "DaemonLib \<Rightarrow> DaemonIo \<Rightarrow> Config \<Rightarrow> error + CommandmentsService" where
  "load_commandments DL io cfg =
     map_sum (dl_load_error DL) id
       (NewCommandmentsService (dl_lib DL) (dl_rules_yaml DL) (dio_files io) (cf_CommandmentsFile cfg) (dl_commandmentsYAML DL))"

definition read_config :: "DaemonLib \<Rightarrow> DaemonIo \<Rightarrow> string \<Rightarrow> error + Config" where
  "read_config DL io path =
     LoadConfig (dl_config DL) (dl_config_yaml DL) (\<lambda>p. case dio_files io p of FileData s \<Rightarrow> Some s | _ \<Rightarrow> None)
       (dio_env io) (dl_price DL) (dl_configYAML DL) path"

section \<open>Reloading\<close>

text \<open>The switch over the three errors; \<open>errors.Join\<close> puts each on a line.\<close>

definition reload_error :: "error option \<Rightarrow> error option \<Rightarrow> error option \<Rightarrow> error option" where
  "reload_error cfgErr cmdErr regErr =
     (let errs = (case cfgErr of None \<Rightarrow> [] | Some e \<Rightarrow> [''reload config: '' @ e]) @
                 (case cmdErr of None \<Rightarrow> [] | Some e \<Rightarrow> [''reload commandments: '' @ e]) @
                 (case regErr of None \<Rightarrow> [] | Some e \<Rightarrow> [''reload tool registry: '' @ e])
      in if errs = [] then None else Some (''runtime reload failed: '' @ join errs [CHR 0x0A]))"

definition failed :: "error + 'a \<Rightarrow> error option" where
  "failed r = (case r of Inl err \<Rightarrow> Some err | Inr _ \<Rightarrow> None)"

text \<open>The event of a part that did not load.\<close>

definition report_failure :: "DaemonIo \<Rightarrow> string \<Rightarrow> error + 'a \<Rightarrow> Daemon \<Rightarrow> Daemon" where
  "report_failure io action r d =
     (case r of Inl err \<Rightarrow> emitSystemEvent io action OutcomeFailure (error_payload err) d | Inr _ \<Rightarrow> d)"

definition reload_notifications :: "DaemonLib \<Rightarrow> DaemonIo \<Rightarrow> Daemon \<Rightarrow> Daemon" where
  "reload_notifications DL io d =
     (case read_config DL io (d_cfgPath d) of
        Inl err \<Rightarrow> emitSystemEvent io ''config_reload_failed'' OutcomeFailure (error_payload err) d
      | Inr newCfg \<Rightarrow> d\<lparr>d_cfg := (d_cfg d)\<lparr>cf_Notifications := cf_Notifications newCfg\<rparr>\<rparr>)"

text \<open>What a successful reload puts in place: the rules, then the registry and the mappings.\<close>

definition install_rules :: "DaemonLib \<Rightarrow> CommandmentsService \<Rightarrow> Daemon \<Rightarrow> Daemon" where
  "install_rules DL svc d =
     d\<lparr>d_commandments := Loaded svc, d_evaluator := Loaded svc, d_redactor := Loaded svc,
       d_proxy := map_option (SetEvaluator (Some (cmd_Evaluate (dl_lib DL) (Loaded svc)))) (d_proxy d)\<rparr>"

definition install_registry :: "DaemonIo \<Rightarrow> Registry \<Rightarrow> Daemon \<Rightarrow> Daemon" where
  "install_registry io reg d =
     (let d = d\<lparr>d_classifier := reg, d_parser := SetClassifier (Some reg) (d_parser d)\<rparr>
      in case d_proxy d of
           None \<Rightarrow> d
         | Some p \<Rightarrow>
             (let (mapErr, p) = ReloadMappings (dio_specs io) (px_SetClassifier (Some reg) p);
                  d = d\<lparr>d_proxy := Some p\<rparr>
              in case mapErr of
                   Some err \<Rightarrow> emitSystemEvent io ''proxy_mappings_reload_failed'' OutcomeFailure (error_payload err) d
                 | None \<Rightarrow> emitSystemEvent io ''proxy_mappings_reload_ok'' OutcomeSuccess None d))"

definition rules_loaded_payload :: "Daemon \<Rightarrow> json option" where
  "rules_loaded_payload d = Some (json_map [(''rules_loaded'', JNum (show_nat (length (cmd_List (d_commandments d)))))])"

definition reloadRuntime :: "DaemonLib \<Rightarrow> DaemonIo \<Rightarrow> Daemon \<Rightarrow> (nat \<times> error option) \<times> Daemon" where
  "reloadRuntime DL io d =
     (let cfg = read_config DL io (d_cfgPath d);
          d = reload_notifications DL io d;
          newCommandments = load_commandments DL io (d_cfg d);
          d = report_failure io ''commandments_reload_failed'' newCommandments d;
          newRegistry = loadToolRegistryCandidate DL io (d_cfg d);
          d = report_failure io ''tool_registry_reload_failed'' newRegistry d;
          reloadErr = reload_error (failed cfg) (failed newCommandments) (failed newRegistry)
      in case (newCommandments, newRegistry) of
           (Inr svc, Inr reg) \<Rightarrow>
             (let d = install_registry io reg (install_rules DL svc d);
                  d = emitSystemEvent io ''commandments_reload_ok'' OutcomeSuccess (rules_loaded_payload d) d;
                  d = emitSystemEvent io ''tool_registry_reload_ok'' OutcomeSuccess
                        (Some (json_map [(''version'', JStr (reg_version reg))])) d;
                  d = (if failed cfg = None then d\<lparr>d_notifier := NewNotifier (notifierConfig (cf_Notifications (d_cfg d)))\<rparr> else d)
              in ((length (cmd_List (d_commandments d)), reloadErr), d))
         | _ \<Rightarrow> ((0, reloadErr), d))"

section \<open>Starting\<close>

text \<open>\<open>pidData\<close> is what the PID file holds, \<open>alive\<close> whether a process takes a signal.\<close>

definition atoi :: "string \<Rightarrow> int option" where
  "atoi s =
     (let (neg, ds) = (case s of c # t \<Rightarrow> if c = CHR ''-'' then (True, t) else if c = CHR ''+'' then (False, t) else (False, s) | [] \<Rightarrow> (False, []));
          n = int (read_nat_from 0 ds); n = (if neg then - n else n)
      in if ds = [] \<or> \<not> list_all (\<lambda>c. CHR ''0'' \<le> c \<and> c \<le> CHR ''9'') ds \<or> n < - (2 ^ 63) \<or> n \<ge> 2 ^ 63 then None else Some n)"

definition writePID :: "(int \<Rightarrow> bool) \<Rightarrow> int \<Rightarrow> string option \<Rightarrow> error + string" where
  "writePID alive pid pidData =
     (case (case pidData of None \<Rightarrow> None | Some data \<Rightarrow> atoi (trim_space data)) of
        Some other \<Rightarrow> (if alive other then Err (''daemon already running (pid '' @ show_int other @ '')'') else Ok (show_int pid))
      | None \<Rightarrow> Ok (show_int pid))"

definition queue_policy :: "Config \<Rightarrow> OverflowPolicy" where
  "queue_policy cfg = (if qc_Overflow (cf_Queue cfg) = ''drop_oldest'' then PolicyDropOldest else PolicyBlockWithTimeout)"

definition initial_registry :: "DaemonLib \<Rightarrow> DaemonIo \<Rightarrow> Config \<Rightarrow> Registry" where
  "initial_registry DL io cfg =
     (case loadToolRegistryCandidate DL io cfg of
        Inr reg \<Rightarrow> reg
      | Inl _ \<Rightarrow>
          (case LoadRegistry (dl_registry_yaml DL) (dio_files io) [] (toolRegistryFallbackYAML DL) of
             Inr reg \<Rightarrow> reg | Inl _ \<Rightarrow> NewFallbackRegistry))"

text \<open>The identity of the host and the process, and what starting the parts met.\<close>

record RunIo =
  ri_hostname :: string
  ri_userID :: string
  ri_now :: time
  ri_ipc_error :: "error option"
  ri_loadCA :: "string \<Rightarrow> string \<Rightarrow> error option"
  ri_rawWriter :: "RawPayloadManager \<Rightarrow> string \<Rightarrow> string \<Rightarrow> error + string"

text \<open>The proxy of a start; an error is logged and the daemon runs without it.\<close>

definition start_proxy :: "DaemonLib \<Rightarrow> DaemonIo \<Rightarrow> RunIo \<Rightarrow> Daemon \<Rightarrow> Daemon" where
  "start_proxy DL io run d =
     (let cfg = d_cfg d in
      if \<not> dp_Enabled (cf_Proxy cfg) then d
      else case NewProxy (dl_lib DL) (dio_specs io) (ri_loadCA run) (proxyConfig cfg)
             (Some (cmd_Evaluate (dl_lib DL) (d_commandments d))) (Some (d_classifier d)) (Some []) of
        Inl _ \<Rightarrow> d
      | Inr (p, _) \<Rightarrow>
          (let rpm = NewRawPayloadManager (dm_RawPayloadDir (cf_Daemon cfg)) (ac_RawPayloadMaxSize (cf_Audit cfg))
                 (ac_RawPayloadQuota (cf_Audit cfg)) (ac_RetentionDays (cf_Audit cfg))
           in d\<lparr>d_proxy := Some (if ac_RawPayloadEnabled (cf_Audit cfg) then SetRawPayloadWriter (Some (ri_rawWriter run rpm)) p else p)\<rparr>))"

text \<open>The state when the rules and the registry are in place and their event is queued.\<close>

definition boot :: "DaemonLib \<Rightarrow> DaemonIo \<Rightarrow> RunIo \<Rightarrow> Config \<Rightarrow> string \<Rightarrow> Store Logger \<Rightarrow> Daemon" where
  "boot DL io run cfg cfgPath logger =
     (let loaded = load_commandments DL io cfg;
          rules = (case loaded of Inr svc \<Rightarrow> Loaded svc | Inl _ \<Rightarrow> Noop);
          reg = initial_registry DL io cfg;
          d = \<lparr>d_cfg = cfg, d_cfgPath = cfgPath, d_logger = logger, d_evaluator = rules, d_redactor = rules,
               d_queue = New (nat (qc_Capacity (cf_Queue cfg))) (queue_policy cfg) (qc_BlockTimeout (cf_Queue cfg)),
               d_registry = NewAgentRegistry, d_proxy = None, d_openclaw = None, d_openclawState = None,
               d_commandments = rules, d_gate = rules, d_classifier = reg,
               d_parser = SetClassifier (Some reg) \<lparr>ps_classifier = NewFallbackRegistry, ps_models = []\<rparr>,
               d_notifier = NewNotifier (notifierConfig (cf_Notifications cfg)), d_startTime = ri_now run,
               d_hostname = ri_hostname run, d_userID = ri_userID run, d_eventCh = []\<rparr>
      in case loaded of
           Inl err \<Rightarrow> emitSystemEvent io ''commandments_load_failed'' OutcomeFailure (error_payload err) d
         | Inr _ \<Rightarrow> emitSystemEvent io ''commandments_load_ok'' OutcomeSuccess (rules_loaded_payload d) d)"

text \<open>\<open>Run\<close> from the opened store to the started adapters.\<close>

definition start :: "DaemonLib \<Rightarrow> DaemonIo \<Rightarrow> RunIo \<Rightarrow> Config \<Rightarrow> string \<Rightarrow> Store \<Rightarrow> error + Daemon" where
  "start DL io run cfg cfgPath s =
     (case NewLogger sqlite_api s (qc_BatchSize (cf_Queue cfg)) of
        Inl err \<Rightarrow> Err (''audit logger: '' @ err)
      | Inr logger \<Rightarrow>
          (case ri_ipc_error run of
             Some err \<Rightarrow> Err (''ipc server: '' @ err)
           | None \<Rightarrow> Ok (start_proxy DL io run (boot DL io run cfg cfgPath logger))))"

section \<open>Discovery and the gateway\<close>

definition discovery_scan ::
  "time \<Rightarrow> (int \<times> string option) list \<Rightarrow> (string \<Rightarrow> WalkEntry list) \<Rightarrow> Daemon \<Rightarrow> Daemon" where
  "discovery_scan now procs walk d =
     (let agents = ScanProcesses now (di_ProcessSignatures (cf_Discovery (d_cfg d))) procs @
                   ScanLogPaths now walk (di_LogPaths (cf_Discovery (d_cfg d)))
      in d\<lparr>d_registry := ReplaceSource now ''scanner'' agents (d_registry d)\<rparr>)"

definition openclawSessionsToAgents :: "time \<Rightarrow> SessionInfo list \<Rightarrow> AgentInfo list" where
  "openclawSessionsToAgents now sessions =
     map (\<lambda>session. \<lparr>ai_ID = ''openclaw/'' @ si_Key session, ai_Type = ''openclaw'', ai_PID = 0, ai_Status = [], ai_SessionFile = [],
       ai_LastActivityAt = unix_milli (si_LastActivityAt session), ai_DiscoveredAt = now\<rparr>) sessions"

definition ResolveConfigEnv :: "Env \<Rightarrow> OpenClawConfig \<Rightarrow> string" where
  "ResolveConfigEnv env c = (if oc_APITokenEnv c \<noteq> [] then env_get env (oc_APITokenEnv c) else [])"

text \<open>\<open>startOpenClaw\<close>: \<open>dial\<close> and \<open>outcome\<close> are what \<open>Connect\<close> meets, \<open>answer\<close> the first answer to the list of
  sessions, met in the order \<open>keys\<close>. An adapter that did not start is forgotten, the correlation
  store stays.\<close>

definition startOpenClaw ::
  "Env \<Rightarrow> error + nat \<Rightarrow> Handshake \<Rightarrow> error + SessionInfo list \<Rightarrow> string list \<Rightarrow> time \<Rightarrow> Daemon \<Rightarrow> error option \<times> Daemon" where
  "startOpenClaw env dial outcome answer keys now d =
     (let cfg = cf_OpenClaw (d_cfg d) in
      if \<not> oc_Enabled cfg then (None, d)
      else
        let s = claw_New (oc_CorrelationWindow cfg);
            d = d\<lparr>d_openclawState := Some s, d_proxy := map_option (SetRequestAttributor (Some s)) (d_proxy d)\<rparr>;
            client = NewGatewayClient (ResolveConfigEnv env cfg);
            cache = NewSessionCache (oc_SessionRefreshInterval cfg)
        in case Connect dial outcome client of
             (Inl err, _) \<Rightarrow> (Some err, d)
           | (Inr _, client) \<Rightarrow>
               (case refreshSessions answer keys cache s of
                  (Inl err, _, _) \<Rightarrow> (Some err, d)
                | (Inr sessions, cache, s) \<Rightarrow>
                    (None, d\<lparr>d_openclawState := Some s, d_proxy := map_option (SetRequestAttributor (Some s)) (d_proxy d),
                          d_registry := ReplaceSource now ''openclaw-gateway'' (openclawSessionsToAgents now sessions) (d_registry d),
                          d_openclaw := Some (client, cache)\<rparr>)))"

section \<open>Status\<close>

text \<open>\<open>Duration.String\<close> of whole seconds.\<close>

definition seconds_text :: "int \<Rightarrow> string" where
  "seconds_text s =
     (let h = s div 3600; m = s div 60 in
      (if h > 0 then show_int h @ ''h'' else []) @ (if m > 0 then show_int (m mod 60) @ ''m'' else []) @ show_int (s mod 60) @ ''s'')"

definition uptime_text :: "duration \<Rightarrow> string" where
  "uptime_text d = (if d < 0 \<and> (- d) div second > 0 then ''-'' @ seconds_text ((- d) div second) else seconds_text (\<bar>d\<bar> div second))"

text \<open>A count as a \<open>float64\<close> is printed with its digits; counts above \<open>2\<^sup>53\<close> would be rounded.\<close>

definition count_json :: "nat \<Rightarrow> json" where "count_json n = JNum (show_nat n)"

definition statusSnapshot :: "time \<Rightarrow> int \<Rightarrow> Daemon \<Rightarrow> (string \<times> json) list" where
  "statusSnapshot now pid d =
     (let stats = Stats_of (d_queue d);
          cached = (case d_openclaw d of Some (c, cache) \<Rightarrow> if Connected_gateway c then Some (card (dom (sc_sessions cache))) else None | None \<Rightarrow> None);
          cache_count = (case cached of Some n \<Rightarrow> n | None \<Rightarrow> 0);
          claw = (case d_openclawState d of
            None \<Rightarrow> (cache_count, 0, 0)
          | Some s \<Rightarrow> (if cache_count = 0 then card (dom (cs_sessions s)) else cache_count, unat (cs_matches s), unat (cs_ambiguous s)))
      in [(''uptime'', JStr (uptime_text (time_sub now (d_startTime d)))),
          (''agents'', count_json (CountAgents (d_registry d))),
          (''queue_depth'', count_json (st_Depth stats)), (''queue_dropped'', count_json (unat (st_Dropped stats))),
          (''pid'', JNum (show_int pid)), (''unclassified_tool_count'', count_json (unat (UnclassifiedCount (d_classifier d)))),
          (''openclaw_connected'', count_json (case cached of Some _ \<Rightarrow> 1 | None \<Rightarrow> 0)),
          (''openclaw_session_cache_size'', count_json (fst claw)),
          (''openclaw_correlation_matches'', count_json (fst (snd claw))),
          (''openclaw_correlation_ambiguous'', count_json (snd (snd claw)))] @
         (case d_proxy d of None \<Rightarrow> [] | Some p \<Rightarrow> map (\<lambda>(k, v). (k, JNum (show_int (if k = ''active_connections'' then sint v else uint v)))) (Snapshot p)))"

section \<open>Reloading is all or nothing\<close>

lemma send_queue_frame [simp]:
  "d_cfg (send_queue em e d) = d_cfg d" "d_cfgPath (send_queue em e d) = d_cfgPath d" "d_logger (send_queue em e d) = d_logger d"
  "d_evaluator (send_queue em e d) = d_evaluator d" "d_redactor (send_queue em e d) = d_redactor d"
  "d_registry (send_queue em e d) = d_registry d" "d_proxy (send_queue em e d) = d_proxy d"
  "d_openclaw (send_queue em e d) = d_openclaw d" "d_openclawState (send_queue em e d) = d_openclawState d"
  "d_commandments (send_queue em e d) = d_commandments d" "d_gate (send_queue em e d) = d_gate d"
  "d_classifier (send_queue em e d) = d_classifier d" "d_parser (send_queue em e d) = d_parser d"
  "d_notifier (send_queue em e d) = d_notifier d" "d_hostname (send_queue em e d) = d_hostname d"
  "d_userID (send_queue em e d) = d_userID d" "d_eventCh (send_queue em e d) = d_eventCh d"
  by (simp_all add: send_queue_def)

text \<open>What a failed reload may change: the queue, by events, and the stored notification settings.\<close>

definition settings_and_queue :: "Daemon \<Rightarrow> Daemon \<Rightarrow> bool" where
  "settings_and_queue d d' \<longleftrightarrow>
     (\<exists>q n. d' = d\<lparr>d_cfg := (d_cfg d)\<lparr>cf_Notifications := n\<rparr>, d_queue := q\<rparr>)"

lemma settings_and_queue_refl [intro]: "settings_and_queue d d"
  unfolding settings_and_queue_def by (rule exI [of _ "d_queue d"], rule exI [of _ "cf_Notifications (d_cfg d)"]) simp

lemma settings_and_queue_queue:
  assumes "settings_and_queue d d'"
  shows "settings_and_queue d (d'\<lparr>d_queue := q\<rparr>)"
proof -
  obtain n where "d'\<lparr>d_queue := q\<rparr> = d\<lparr>d_cfg := (d_cfg d)\<lparr>cf_Notifications := n\<rparr>, d_queue := q\<rparr>"
    using assms by (auto simp: settings_and_queue_def)
  then show ?thesis unfolding settings_and_queue_def by blast
qed

lemma settings_and_queue_emit [intro]:
  "settings_and_queue d d' \<Longrightarrow> settings_and_queue d (emitSystemEvent io action outcome payload d')"
  unfolding emitSystemEvent_def send_queue_def by (rule settings_and_queue_queue)

lemma settings_and_queue_report [intro]:
  "settings_and_queue d d' \<Longrightarrow> settings_and_queue d (report_failure io action r d')"
  by (auto simp: report_failure_def split: sum.splits)

lemma settings_and_queue_notifications [intro]: "settings_and_queue d (reload_notifications DL io d)"
proof (cases "read_config DL io (d_cfgPath d)")
  case (Inr c)
  then show ?thesis
    unfolding settings_and_queue_def by (intro exI [of _ "d_queue d"] exI [of _ "cf_Notifications c"]) (simp add: reload_notifications_def)
qed (auto simp: reload_notifications_def)

lemma load_commandments_cfg [simp]:
  "settings_and_queue d d' \<Longrightarrow> load_commandments DL io (d_cfg d') = load_commandments DL io (d_cfg d)"
  by (auto simp: settings_and_queue_def load_commandments_def)

lemma loadToolRegistryCandidate_cfg [simp]:
  "settings_and_queue d d' \<Longrightarrow> loadToolRegistryCandidate DL io (d_cfg d') = loadToolRegistryCandidate DL io (d_cfg d)"
  by (auto simp: settings_and_queue_def loadToolRegistryCandidate_def)

text \<open>The state just before the two candidates are looked at.\<close>

definition before_install :: "DaemonLib \<Rightarrow> DaemonIo \<Rightarrow> Daemon \<Rightarrow> Daemon" where
  "before_install DL io d =
     (let d1 = reload_notifications DL io d;
          d2 = report_failure io ''commandments_reload_failed'' (load_commandments DL io (d_cfg d)) d1
      in report_failure io ''tool_registry_reload_failed'' (loadToolRegistryCandidate DL io (d_cfg d)) d2)"

lemma before_install_settings: "settings_and_queue d (before_install DL io d)"
  unfolding before_install_def Let_def by blast

lemma reloadRuntime_before:
  "reloadRuntime DL io d =
     (let cfg = read_config DL io (d_cfgPath d); newCommandments = load_commandments DL io (d_cfg d);
          newRegistry = loadToolRegistryCandidate DL io (d_cfg d); d = before_install DL io d;
          reloadErr = reload_error (failed cfg) (failed newCommandments) (failed newRegistry)
      in case (newCommandments, newRegistry) of
           (Inr svc, Inr reg) \<Rightarrow>
             (let d = install_registry io reg (install_rules DL svc d);
                  d = emitSystemEvent io ''commandments_reload_ok'' OutcomeSuccess (rules_loaded_payload d) d;
                  d = emitSystemEvent io ''tool_registry_reload_ok'' OutcomeSuccess (Some (json_map [(''version'', JStr (reg_version reg))])) d;
                  d = (if failed cfg = None then d\<lparr>d_notifier := NewNotifier (notifierConfig (cf_Notifications (d_cfg d)))\<rparr> else d)
              in ((length (cmd_List (d_commandments d)), reloadErr), d))
         | _ \<Rightarrow> ((0, reloadErr), d))"
proof -
  let ?d1 = "reload_notifications DL io d"
  have c: "load_commandments DL io (d_cfg ?d1) = load_commandments DL io (d_cfg d)"
    by (rule load_commandments_cfg) (rule settings_and_queue_notifications)
  have r: "loadToolRegistryCandidate DL io (d_cfg (report_failure io ''commandments_reload_failed'' x ?d1)) =
      loadToolRegistryCandidate DL io (d_cfg d)" for x :: "error + CommandmentsService"
    by (rule loadToolRegistryCandidate_cfg) (intro settings_and_queue_report settings_and_queue_notifications)
  show ?thesis unfolding reloadRuntime_def before_install_def Let_def c r by (rule refl)
qed

lemma emitSystemEvent_frame [simp]:
  "d_cfg (emitSystemEvent io a oc p d) = d_cfg d" "d_cfgPath (emitSystemEvent io a oc p d) = d_cfgPath d"
  "d_logger (emitSystemEvent io a oc p d) = d_logger d" "d_evaluator (emitSystemEvent io a oc p d) = d_evaluator d"
  "d_redactor (emitSystemEvent io a oc p d) = d_redactor d" "d_registry (emitSystemEvent io a oc p d) = d_registry d"
  "d_proxy (emitSystemEvent io a oc p d) = d_proxy d" "d_openclaw (emitSystemEvent io a oc p d) = d_openclaw d"
  "d_openclawState (emitSystemEvent io a oc p d) = d_openclawState d" "d_commandments (emitSystemEvent io a oc p d) = d_commandments d"
  "d_gate (emitSystemEvent io a oc p d) = d_gate d" "d_classifier (emitSystemEvent io a oc p d) = d_classifier d"
  "d_parser (emitSystemEvent io a oc p d) = d_parser d" "d_notifier (emitSystemEvent io a oc p d) = d_notifier d"
  "d_hostname (emitSystemEvent io a oc p d) = d_hostname d" "d_userID (emitSystemEvent io a oc p d) = d_userID d"
  "d_eventCh (emitSystemEvent io a oc p d) = d_eventCh d"
  by (simp_all add: emitSystemEvent_def)

lemma ReloadMappings_frame:
  "ReloadMappings load p = (err, p') \<Longrightarrow> px_evaluator p' = px_evaluator p \<and> px_classifier p' = px_classifier p"
  by (auto simp: ReloadMappings_def split: sum.splits)

lemma install_registry_frame [simp]:
  "d_cfg (install_registry io reg d) = d_cfg d" "d_evaluator (install_registry io reg d) = d_evaluator d"
  "d_redactor (install_registry io reg d) = d_redactor d" "d_commandments (install_registry io reg d) = d_commandments d"
  "d_gate (install_registry io reg d) = d_gate d" "d_classifier (install_registry io reg d) = reg"
  "ps_classifier (d_parser (install_registry io reg d)) = reg"
  "d_hostname (install_registry io reg d) = d_hostname d" "d_userID (install_registry io reg d) = d_userID d"
  by (auto simp: install_registry_def Let_def SetClassifier_def case_prod_beta split: option.splits)

lemma install_registry_proxy:
  "d_proxy (install_registry io reg d) = None \<longleftrightarrow> d_proxy d = None"
  "d_proxy (install_registry io reg d) = Some p' \<Longrightarrow>
     \<exists>p. d_proxy d = Some p \<and> px_evaluator p' = px_evaluator p \<and> px_classifier p' = reg"
  using ReloadMappings_frame [of "dio_specs io" "px_SetClassifier (Some reg) (the (d_proxy d))"]
  by (auto simp: install_registry_def Let_def px_SetClassifier_def split: option.splits prod.splits)

text \<open>The parts that judge by the same rules and classify by the same registry. The handler of \<open>gate.evaluate\<close> is not among them:
  it has the rules it was registered with, \<open>d_gate\<close>.\<close>

definition judged_by :: "DaemonLib \<Rightarrow> RulesImpl \<Rightarrow> Registry \<Rightarrow> Daemon \<Rightarrow> bool" where
  "judged_by DL s reg d \<longleftrightarrow>
     d_commandments d = s \<and> d_evaluator d = s \<and> d_redactor d = s \<and> d_classifier d = reg \<and> ps_classifier (d_parser d) = reg \<and>
     (\<forall>p. d_proxy d = Some p \<longrightarrow> px_evaluator p = Some (cmd_Evaluate (dl_lib DL) s) \<and> px_classifier p = reg)"

lemma reload_installs:
  assumes "load_commandments DL io (d_cfg d) = Inr svc" "loadToolRegistryCandidate DL io (d_cfg d) = Inr reg"
  shows "judged_by DL (Loaded svc) reg (snd (reloadRuntime DL io d))"
proof -
  have "judged_by DL (Loaded svc) reg (install_registry io reg (install_rules DL svc (before_install DL io d)))"
    using install_registry_proxy(2) [of io reg "install_rules DL svc (before_install DL io d)"]
    by (fastforce simp: judged_by_def install_rules_def SetEvaluator_def)
  then show ?thesis by (simp add: reloadRuntime_before Let_def judged_by_def assms)
qed

text \<open>What no reload changes.\<close>

lemma reload_keeps [simp]:
  "d_gate (snd (reloadRuntime DL io d)) = d_gate d" "d_hostname (snd (reloadRuntime DL io d)) = d_hostname d"
  "d_userID (snd (reloadRuntime DL io d)) = d_userID d"
proof -
  obtain q n where "before_install DL io d = d\<lparr>d_cfg := (d_cfg d)\<lparr>cf_Notifications := n\<rparr>, d_queue := q\<rparr>"
    using before_install_settings [of d DL io] unfolding settings_and_queue_def by blast
  then show "d_gate (snd (reloadRuntime DL io d)) = d_gate d" "d_hostname (snd (reloadRuntime DL io d)) = d_hostname d"
    "d_userID (snd (reloadRuntime DL io d)) = d_userID d"
    by (simp_all add: reloadRuntime_before Let_def install_rules_def split: sum.split)
qed

text \<open>C7: A reload replaces the rules and the tool registry in the logger, the redaction, the proxy and the parsers, or in none
  of them, and never at the gate. If both files load, the logger judges and redacts by the new rules, the proxy
  judges by the same, and the daemon, the log parsers and the proxy classify by the new registry; the number
  of rules is returned. If either fails, an error is returned, and only the queue (an event for what
  failed) and the stored notification settings have changed. In both cases the gate keeps the rules it had.\<close>

theorem reload_all_or_nothing:
  "case reloadRuntime DL io d of ((n, err), d') \<Rightarrow>
     d_gate d' = d_gate d \<and>
     (case (load_commandments DL io (d_cfg d), loadToolRegistryCandidate DL io (d_cfg d)) of
        (Inr svc, Inr reg) \<Rightarrow> judged_by DL (Loaded svc) reg d' \<and> n = length (svc_List svc) \<and>
          (err = None \<longleftrightarrow> failed (read_config DL io (d_cfgPath d)) = None)
      | _ \<Rightarrow> err \<noteq> None \<and> n = 0 \<and> settings_and_queue d d')"
proof -
  obtain n err d' where r: "reloadRuntime DL io d = ((n, err), d')" by (metis surj_pair)
  have g: "d_gate d' = d_gate d" using reload_keeps(1) [of DL io d] by (simp add: r)
  show ?thesis
  proof (cases "load_commandments DL io (d_cfg d)")
    case (Inl e)
    then show ?thesis
      using before_install_settings [of d DL io] r g by (auto simp: reloadRuntime_before Let_def reload_error_def failed_def)
  next
    case c: (Inr svc)
    show ?thesis
    proof (cases "loadToolRegistryCandidate DL io (d_cfg d)")
      case (Inl e)
      then show ?thesis
        using before_install_settings [of d DL io] c r g by (auto simp: reloadRuntime_before Let_def reload_error_def failed_def)
    next
      case reg: (Inr reg)
      have "judged_by DL (Loaded svc) reg d'" using reload_installs [OF c reg] by (simp add: r)
      moreover have "n = length (svc_List svc)" "err = None \<longleftrightarrow> failed (read_config DL io (d_cfgPath d)) = None"
        using r c reg by (auto simp: reloadRuntime_before Let_def cmd_List_def reload_error_def failed_def install_rules_def split: sum.splits)
      ultimately show ?thesis using r c reg g by simp
    qed
  qed
qed

section \<open>What a start puts in place\<close>

lemma NewProxy_parts:
  assumes "NewProxy L load loadCA cfg ev (Some reg) events = Inr (p, cache)"
  shows "px_evaluator p = ev \<and> px_classifier p = reg"
proof (cases "CompilePatterns L (pxc_RedactPatterns cfg)")
  case (Inr extra)
  then show ?thesis
    using assms
    by (cases "loadCA (pxc_CACert cfg) (pxc_CAKey cfg)") (auto simp: NewProxy_def bind_result_Inr_iff Let_def split: if_split_asm)
qed (use assms in \<open>auto simp: NewProxy_def bind_result_Inr_iff\<close>)

lemma boot_frame [simp]:
  "d_gate (boot DL io run cfg cfgPath logger) = d_commandments (boot DL io run cfg cfgPath logger)"
  "d_evaluator (boot DL io run cfg cfgPath logger) = d_commandments (boot DL io run cfg cfgPath logger)"
  "d_redactor (boot DL io run cfg cfgPath logger) = d_commandments (boot DL io run cfg cfgPath logger)"
  "d_commandments (boot DL io run cfg cfgPath logger) = (case load_commandments DL io cfg of Inr svc \<Rightarrow> Loaded svc | Inl _ \<Rightarrow> Noop)"
  "d_classifier (boot DL io run cfg cfgPath logger) = initial_registry DL io cfg"
  "ps_classifier (d_parser (boot DL io run cfg cfgPath logger)) = initial_registry DL io cfg"
  "d_proxy (boot DL io run cfg cfgPath logger) = None" "d_cfg (boot DL io run cfg cfgPath logger) = cfg"
  "d_hostname (boot DL io run cfg cfgPath logger) = ri_hostname run" "d_userID (boot DL io run cfg cfgPath logger) = ri_userID run"
  by (simp_all add: boot_def Let_def SetClassifier_def split: sum.splits)

lemma Send_New:
  "0 < n \<Longrightarrow> q_ch (snd (Send w t1 t2 (New n policy timeout) x)) = [x]"
  by (simp add: Send_def New_def sendDropOldest_def sendBlockTimeout_def try_send_def)

lemma boot_queue_failed:
  assumes "load_commandments DL io cfg = Inl err" "0 < qc_Capacity (cf_Queue cfg)"
  shows "\<exists>evt. q_ch (d_queue (boot DL io run cfg cfgPath logger)) = [EventItem evt] \<and> ev_Action evt = ''commandments_load_failed'' \<and>
    ev_Outcome evt = OutcomeFailure"
  using assms by (simp add: boot_def Let_def emitSystemEvent_def send_queue_def Send_New system_event_def)

lemma start_proxy_frame [simp]:
  "d_gate (start_proxy DL io run d) = d_gate d" "d_commandments (start_proxy DL io run d) = d_commandments d"
  "d_evaluator (start_proxy DL io run d) = d_evaluator d" "d_redactor (start_proxy DL io run d) = d_redactor d"
  "d_classifier (start_proxy DL io run d) = d_classifier d" "d_parser (start_proxy DL io run d) = d_parser d"
  "d_queue (start_proxy DL io run d) = d_queue d" "d_hostname (start_proxy DL io run d) = d_hostname d"
  "d_userID (start_proxy DL io run d) = d_userID d"
  by (simp_all add: start_proxy_def Let_def split: sum.split prod.split)

lemma start_proxy_proxy:
  assumes "d_proxy (start_proxy DL io run d) = Some p" "d_proxy d = None"
  shows "px_evaluator p = Some (cmd_Evaluate (dl_lib DL) (d_commandments d)) \<and> px_classifier p = d_classifier d"
  using assms
  by (auto simp: start_proxy_def Let_def SetRawPayloadWriter_def dest!: NewProxy_parts split: sum.split_asm prod.split_asm if_split_asm)

text \<open>C9: The daemon starts with its rules in force everywhere, and without rules when they do not load.
  After a start, the gate, the logger, the redaction and the proxy have the same rules: the ones
  the file (or the embedded default) gives or, when it does not load, no rules at all, so that
  the gate passes every call and nothing is blocked, warned of or redacted because of a rule;
  in that case a failure event is the first in the queue.\<close>

theorem start_rules:
  assumes "start DL io run cfg cfgPath s = Inr d"
  shows "d_gate d = d_commandments d \<and> judged_by DL (d_commandments d) (initial_registry DL io cfg) d \<and>
    (case load_commandments DL io cfg of
       Inr svc \<Rightarrow> d_commandments d = Loaded svc
     | Inl err \<Rightarrow> d_commandments d = Noop \<and> aer_Triggered (cmd_Evaluate (dl_lib DL) (d_commandments d) e) = [] \<and>
         (0 < qc_Capacity (cf_Queue cfg) \<longrightarrow>
            (\<exists>evt. q_ch (d_queue d) = [EventItem evt] \<and> ev_Action evt = ''commandments_load_failed'' \<and> ev_Outcome evt = OutcomeFailure)))"
proof -
  obtain logger where d: "d = start_proxy DL io run (boot DL io run cfg cfgPath logger)"
    using assms by (auto simp: start_def split: sum.split_asm option.split_asm)
  let ?d0 = "boot DL io run cfg cfgPath logger"
  have p: "px_evaluator p = Some (cmd_Evaluate (dl_lib DL) (d_commandments d)) \<and> px_classifier p = initial_registry DL io cfg"
    if "d_proxy d = Some p" for p
    using start_proxy_proxy [of DL io run ?d0 p] that by (simp add: d)
  show ?thesis
    using boot_queue_failed [of DL io cfg] p
    by (auto simp: judged_by_def d cmd_Evaluate_def noop_Evaluate_def split: sum.splits)
qed
text \<open>A host on which no rules load, with a queue of eight events.\<close>

definition sample_daemon_lib :: DaemonLib where
  "sample_daemon_lib = \<lparr>dl_lib = sample_lib, dl_config = \<lparr>ul_hostname = (\<lambda>_. None), ul_regex_error = (\<lambda>_. None)\<rparr>,
     dl_config_yaml = (\<lambda>_ cfg. Ok cfg), dl_rules_yaml = (\<lambda>_. Err ''not a rule file''), dl_registry_yaml = (\<lambda>_. Err ''not a registry''),
     dl_load_error = (\<lambda>_. ''load commandments''), dl_price = (\<lambda>_. 0), dl_notify = sample_notify_lib, dl_configYAML = [],
     dl_commandmentsYAML = ''rules'', dl_toolRegistryYAML = [], dl_defaultToolRegistryYAML = ''tools''\<rparr>"

definition sample_daemon_io :: DaemonIo where
  "sample_daemon_io = \<lparr>dio_files = (\<lambda>_. FileMissing), dio_env = \<lparr>env_get = (\<lambda>_. []), env_home = ''/home/u''\<rparr>,
     dio_specs = (\<lambda>_. Err ''no mapping''), dio_emit = (\<lambda>_. \<lparr>em_now = 0, em_wait = TimedOut, em_t1 = 0, em_t2 = 0\<rparr>)\<rparr>"

definition sample_run_io :: RunIo where
  "sample_run_io = \<lparr>ri_hostname = ''host'', ri_userID = ''u'', ri_now = 0, ri_ipc_error = None, ri_loadCA = (\<lambda>_ _. None),
     ri_rawWriter = (\<lambda>_ _ _. Err ''no writer'')\<rparr>"

definition sample_daemon_cfg :: Config where
  "sample_daemon_cfg = zero_config\<lparr>cf_Queue := \<lparr>qc_Capacity = 8, qc_BatchSize = 100, qc_FlushInterval = 0,
     qc_Overflow = ''drop_oldest'', qc_BlockTimeout = 0\<rparr>\<rparr>"

lemma sample_start:
  "\<exists>d. start sample_daemon_lib sample_daemon_io sample_run_io sample_daemon_cfg [] empty_db = Inr d"
  by (simp add: start_def NewLogger_def sqlite_api_def GetLastEventHash_def db_call_def empty_db_def sample_daemon_cfg_def sample_run_io_def)

lemma sample_no_rules: "load_commandments sample_daemon_lib sample_daemon_io sample_daemon_cfg = Inl ''load commandments''"
  by code_simp

theorem start_rules_witness:
  "\<exists>d. start sample_daemon_lib sample_daemon_io sample_run_io sample_daemon_cfg [] empty_db = Inr d \<and>
     d_gate d = Noop \<and> (\<exists>evt. q_ch (d_queue d) = [EventItem evt] \<and> ev_Action evt = ''commandments_load_failed'')"
proof -
  obtain d where d: "start sample_daemon_lib sample_daemon_io sample_run_io sample_daemon_cfg [] empty_db = Inr d"
    using sample_start by blast
  have "0 < qc_Capacity (cf_Queue sample_daemon_cfg)" by (simp add: sample_daemon_cfg_def)
  then show ?thesis using start_rules [OF d, of zero_event] d by (auto simp: sample_no_rules)
qed

end
