(* ===== verification/Daemon_Api.thy ===== *)
theory Daemon_Api
  imports Daemon Ipc
begin

text \<open>
  The API of \<open>internal/daemon/daemon.go\<close> (\<open>registerIPC\<close>): the methods the daemon serves over its
  socket, each a handler on the daemon's state, and their registration on the server of \<open>Ipc\<close>.
  Decoding parameters is a parameter, one decoder for each type. What a request meets besides
  (the clock, an identifier, the files) comes from a stream in the state, one \<open>ApiIo\<close> per request.
\<close>

section \<open>What is sent\<close>

definition opt_int :: "string \<Rightarrow> int \<Rightarrow> (string \<times> json) list" where
  "opt_int key n = (if n = 0 then [] else [(key, JNum (show_int n))])"

text \<open>\<open>tj\<close> is the text of an instant in the zone it carries, \<open>fj\<close> that of a float.\<close>

definition event_json :: "(time \<Rightarrow> string) \<Rightarrow> (float64 \<Rightarrow> string) \<Rightarrow> AuditEvent \<Rightarrow> json" where
  "event_json tj fj e = JObj
     ([(''id'', JStr (ev_ID e)), (''timestamp'', JStr (tj (ev_Timestamp e))), (''agent_id'', JStr (ev_AgentID e))] @
      opt_int ''agent_pid'' (sint (ev_AgentPID e)) @ [(''action_type'', JStr (ev_ActionType e))] @
      omitempty ''action'' (ev_Action e) @ omitempty ''arguments'' (ev_Arguments e) @ omitempty ''session_id'' (ev_SessionID e) @
      omitempty ''parent_session_id'' (ev_ParentSessionID e) @ omitempty ''working_dir'' (ev_WorkingDir e) @
      omitempty ''parser_version'' (ev_ParserVersion e) @ [(''outcome'', JStr (ev_Outcome e))] @
      omitempty ''commandments_evaluated'' (ev_CommandmentsEvaluated e) @
      omitempty ''commandments_triggered'' (ev_CommandmentsTriggered e) @
      omitempty ''provider'' (ev_Provider e) @ omitempty ''model'' (ev_Model e) @ omitempty ''tool_category'' (ev_ToolCategory e) @
      omitempty ''tool_effect'' (ev_ToolEffect e) @ omitempty ''tool_name'' (ev_ToolName e) @
      omitempty ''taxonomy_version'' (ev_TaxonomyVersion e) @ omitempty ''classification_source'' (ev_ClassificationSource e) @
      opt_int ''input_tokens'' (sint (ev_InputTokens e)) @ opt_int ''output_tokens'' (sint (ev_OutputTokens e)) @
      (if f64_eq (ev_CostUSD e) 0 then [] else [(''cost_usd'', JNum (fj (ev_CostUSD e)))]) @
      omitempty ''adapter_id'' (ev_AdapterID e) @ omitempty ''adapter_type'' (ev_AdapterType e) @
      omitempty ''raw_payload_ref'' (ev_RawPayloadRef e) @ omitempty ''hostname'' (ev_Hostname e) @ omitempty ''user_id'' (ev_UserID e) @
      omitempty ''prev_hash'' (ev_PrevHash e) @ omitempty ''event_hash'' (ev_EventHash e) @
      (if ev_Redacted e then [(''redacted'', JBool True)] else []))"

text \<open>A nil slice is written as \<open>null\<close>.\<close>

definition slice_json :: "json list \<Rightarrow> json" where
  "slice_json vs = (if vs = [] then JNull else JArr vs)"

definition agent_json :: "(time \<Rightarrow> string) \<Rightarrow> AgentInfo \<Rightarrow> json" where
  "agent_json tj a = JObj
     ([(''id'', JStr (ai_ID a)), (''type'', JStr (ai_Type a)), (''pid'', JNum (show_int (ai_PID a))), (''status'', JStr (ai_Status a))] @
      omitempty ''session_file'' (ai_SessionFile a) @
      [(''last_activity_at'', JStr (tj (ai_LastActivityAt a))), (''discovered_at'', JStr (tj (ai_DiscoveredAt a)))])"

definition summary_json :: "CommandmentRuleSummary \<Rightarrow> json" where
  "summary_json r = JObj [(''name'', JStr (crs_Name r)), (''enforcement'', JStr (crs_Enforcement r)),
     (''priority'', JNum (show_int (crs_Priority r))), (''enabled'', JBool (crs_Enabled r))]"

definition triggered_json :: "AuditTriggeredRule \<Rightarrow> json" where
  "triggered_json r = JObj ([(''name'', JStr (atr_Name r)), (''enforcement'', JStr (atr_Enforcement r))] @ omitempty ''message'' (atr_Message r))"

text \<open>The no-op service makes its slices, the other copies the names onto a nil slice.\<close>

definition eval_json :: "RulesImpl \<Rightarrow> AuditEvalResult \<Rightarrow> json" where
  "eval_json s r = JObj
     [(''Evaluated'', if s = Noop then JArr [] else slice_json (map JStr (aer_Evaluated r))),
      (''Triggered'', JArr (map triggered_json (aer_Triggered r)))]"

definition token_json :: "TokenSummaryRow \<Rightarrow> json" where
  "token_json r = JObj [(''day'', JStr (tsr_Day r)), (''agent_id'', JStr (tsr_AgentID r)), (''model'', JStr (tsr_Model r)),
     (''input_tokens'', JNum (show_int (tsr_InputTokens r))), (''output_tokens'', JNum (show_int (tsr_OutputTokens r)))]"

definition gate_json :: "GateEvaluateResult \<Rightarrow> json" where
  "gate_json r = JObj
     ([(''gate_event_id'', JStr (gr_GateEventID r)), (''decision'', JStr (gr_Decision r))] @
      omitempty ''commandment_id'' (gr_CommandmentID r) @ omitempty ''reason'' (gr_Reason r) @ omitempty ''enforcement'' (gr_Enforcement r))"

section \<open>Parameters\<close>

record QueryParams =
  qp_Since :: string
  qp_Until :: string
  qp_Agent :: string
  qp_Action :: string
  qp_Session :: string
  qp_Outcome :: string
  qp_Triggered :: bool
  qp_Limit :: int
  qp_Offset :: int

record ApiLib =
  al_query :: "string \<Rightarrow> error + QueryParams"
  al_tokens :: "string \<Rightarrow> error + QueryParams"
  al_event :: "string \<Rightarrow> error + AuditEvent"
  al_payload :: "string \<Rightarrow> string option"
  al_gate :: "string \<Rightarrow> error + GateEvaluateParams"
  al_outcome :: "string \<Rightarrow> string"
  al_unmarshal :: "string \<Rightarrow> json option"
  al_glob :: "string \<Rightarrow> string \<Rightarrow> error + bool"
  al_time :: "time \<Rightarrow> string"
  al_float :: "float64 \<Rightarrow> string"

record ApiIo =
  ao_now :: time
  ao_id :: string
  ao_pid :: int
  ao_agents :: "string list"
  ao_reload :: DaemonIo

text \<open>\<open>t, _ := time.Parse(time.RFC3339, s)\<close>: a text that does not parse is the zero time.\<close>

definition time_param :: "string \<Rightarrow> time option" where
  "time_param s = (if s = [] then None else Some (parse_or_zero s))"

definition zero_filter :: QueryFilter where
  "zero_filter = \<lparr>qf_Since = None, qf_Until = None, qf_Agent = [], qf_Action = [], qf_Session = [], qf_Outcome = [],
     qf_TriggeredOnly = False, qf_Limit = 0, qf_Offset = 0\<rparr>"

definition query_filter :: "QueryParams \<Rightarrow> QueryFilter" where
  "query_filter f =
     \<lparr>qf_Since = time_param (qp_Since f), qf_Until = time_param (qp_Until f), qf_Agent = qp_Agent f, qf_Action = qp_Action f,
      qf_Session = qp_Session f, qf_Outcome = qp_Outcome f, qf_TriggeredOnly = qp_Triggered f, qf_Limit = qp_Limit f, qf_Offset = qp_Offset f\<rparr>"

section \<open>Handlers\<close>

type_synonym api = "ApiIo \<Rightarrow> string \<Rightarrow> Daemon \<Rightarrow> (error + json option) \<times> Daemon"

definition handle_status :: api where
  "handle_status io params d = (Ok (Some (json_map (statusSnapshot (ao_now io) (ao_pid io) d))), d)"

text \<open>\<open>List\<close> meets the agents in the order \<open>ao_agents\<close>.\<close>

definition handle_agents :: "ApiLib \<Rightarrow> api" where
  "handle_agents A io params d =
     (Ok (Some (JArr (map (agent_json (al_time A)) (List.map_filter (GetAgent (d_registry d)) (ao_agents io))))), d)"

definition set_store :: "Store \<Rightarrow> Daemon \<Rightarrow> Daemon" where
  "set_store s d = d\<lparr>d_logger := (d_logger d)\<lparr>lg_store := s\<rparr>\<rparr>"

definition result_json :: "ApiLib \<Rightarrow> QueryResult \<Rightarrow> json" where
  "result_json A r = JObj
     [(''Events'', slice_json (map (event_json rfc3339nano (al_float A)) (qr_Events r))), (''Total'', JNum (show_nat (qr_Total r)))]"

definition handle_query :: "ApiLib \<Rightarrow> api" where
  "handle_query A io params d =
     (case (if params = [] then Ok zero_filter else map_sum id query_filter (al_query A params)) of
        Inl err \<Rightarrow> (Err (''parse params: '' @ err), d)
      | Inr qf \<Rightarrow>
          (case QueryEvents (lg_store (d_logger d)) qf of
             (r, s) \<Rightarrow> (map_sum id (\<lambda>res. Some (result_json A res)) r, set_store s d)))"

definition handle_list :: api where
  "handle_list io params d = (Ok (Some (JArr (map summary_json (cmd_List (d_commandments d))))), d)"

text \<open>A test event without a category is classified first.\<close>

definition classify_test :: "ApiLib \<Rightarrow> AuditEvent \<Rightarrow> Registry \<Rightarrow> AuditEvent \<times> Registry" where
  "classify_test A event reg =
     (let toolName = (if ev_ToolName event = [] then ev_Action event else ev_ToolName event)
      in if ev_ToolCategory event \<noteq> [] \<or> toolName = [] then (event, reg)
         else
           let (result, reg) = Classify (al_glob A) reg (ev_Provider event) toolName (ExtractArgKeys (al_unmarshal A) (ev_Arguments event))
           in (event\<lparr>ev_ToolCategory := cl_Category result, ev_ToolEffect := cl_Effect result,
                 ev_ActionType := (if ev_ActionType event = [] then actionTypeForToolCategory (cl_Category result) else ev_ActionType event)\<rparr>,
               reg))"

definition handle_test :: "DaemonLib \<Rightarrow> ApiLib \<Rightarrow> api" where
  "handle_test DL A io params d =
     (if params = [] then (Err ''missing params'', d)
      else case al_event A (case al_payload A params of Some raw \<Rightarrow> raw | None \<Rightarrow> params) of
        Inl err \<Rightarrow> (Err (''parse event: '' @ err), d)
      | Inr event \<Rightarrow>
          (let (event, reg) = classify_test A event (d_classifier d)
           in (Ok (Some (eval_json (d_commandments d) (cmd_Test (dl_lib DL) (d_commandments d) event))), d\<lparr>d_classifier := reg\<rparr>)))"

definition handle_reload :: "DaemonLib \<Rightarrow> api" where
  "handle_reload DL io params d =
     (case reloadRuntime DL (ao_reload io) d of
        ((_, Some err), d) \<Rightarrow> (Err err, d)
      | ((rulesLoaded, None), d) \<Rightarrow> (Ok (Some (json_map [(''ok'', JBool True), (''rules_loaded'', JNum (show_nat rulesLoaded))])), d))"

definition handle_verify :: api where
  "handle_verify io params d =
     (case VerifyIntegrity (lg_store (d_logger d)) of
        (Inl err, s) \<Rightarrow> (Err err, set_store s d)
      | (Inr (valid, n, brokenAt), s) \<Rightarrow>
          (Ok (Some (json_map [(''valid'', JBool valid), (''total'', JNum (show_nat n)), (''broken_at'', JStr brokenAt)])), set_store s d))"

definition handle_export :: "ApiLib \<Rightarrow> api" where
  "handle_export A io params d =
     (case QueryEvents (lg_store (d_logger d)) zero_filter of
        (Inl err, s) \<Rightarrow> (Err err, set_store s d)
      | (Inr r, s) \<Rightarrow> (Ok (Some (slice_json (map (event_json rfc3339nano (al_float A)) (qr_Events r)))), set_store s d))"

definition handle_tokens :: "ApiLib \<Rightarrow> api" where
  "handle_tokens A io params d =
     (case (if params = [] then Ok zero_filter
            else map_sum id (\<lambda>f. zero_filter\<lparr>qf_Since := time_param (qp_Since f), qf_Until := time_param (qp_Until f), qf_Agent := qp_Agent f\<rparr>)
                   (al_tokens A params)) of
        Inl err \<Rightarrow> (Err (''parse params: '' @ err), d)
      | Inr qf \<Rightarrow>
          (case QueryTokenSummary (lg_store (d_logger d)) qf of
             (r, s) \<Rightarrow> (map_sum id (\<lambda>rows. Some (JArr (map token_json rows))) r, set_store s d)))"

text \<open>\<open>RegisterGateEvaluate\<close> was given the service of the start; what it emits goes to the channel of
  the adapters, which may make it wait for room.\<close>

definition handle_gate :: "DaemonLib \<Rightarrow> ApiLib \<Rightarrow> api" where
  "handle_gate DL A io params d =
     (case gate_evaluate (al_gate A) (cmd_Evaluate (dl_lib DL) (d_gate d)) (ao_id io) (ao_now io) params of
        (r, emitted) \<Rightarrow> (map_sum id (\<lambda>res. Some (gate_json res)) r, d\<lparr>d_eventCh := d_eventCh d @ emitted\<rparr>))"

section \<open>Registration\<close>

type_synonym ApiState = "Daemon \<times> (nat \<Rightarrow> ApiIo)"

text \<open>A request takes what it meets off the stream.\<close>

definition serving :: "api \<Rightarrow> ApiState Handler" where
  "serving h params st =
     (case st of (d, env) \<Rightarrow> (case h (env 0) params d of (r, d') \<Rightarrow> (r, (d', \<lambda>n. env (Suc n)))))"

text \<open>What comes in while a subscription lasts: an event of the logger, or a tick.\<close>

datatype Feed = Delivered AuditEvent | Beat string

definition subscribe_acts :: "ApiLib \<Rightarrow> Feed list \<Rightarrow> string \<Rightarrow> SubAct list" where
  "subscribe_acts A feed params =
     (let outcome = (if params = [] then [] else al_outcome A params)
      in List.map_filter (\<lambda>f. case f of
           Beat ts \<Rightarrow> Some (Tick ts)
         | Delivered evt \<Rightarrow>
             (if outcome \<noteq> [] \<and> ev_Outcome evt \<noteq> outcome then None
              else Some (Notify ''audit.event'' (event_json (al_time A) (al_float A) evt)))) feed)"

definition daemon_methods :: "DaemonLib \<Rightarrow> ApiLib \<Rightarrow> (string \<times> api) list" where
  "daemon_methods DL A =
     [(''status'', handle_status), (''agents.list'', handle_agents A), (''audit.query'', handle_query A),
      (''commandments.list'', handle_list), (''commandments.test'', handle_test DL A), (''commandments.reload'', handle_reload DL),
      (''audit.verify'', handle_verify), (''audit.export'', handle_export A), (''audit.tokens'', handle_tokens A),
      (''gate.evaluate'', handle_gate DL A)]"

definition registerIPC :: "DaemonLib \<Rightarrow> ApiLib \<Rightarrow> Feed list \<Rightarrow> ApiState RpcServer" where
  "registerIPC DL A feed =
     HandleSubscribe (subscribe_acts A feed)
       (foldl (\<lambda>sv (method, h). Handle method (serving h) sv) NewServer (daemon_methods DL A))"

end
