(* ===== verification/Daemon_Runs.thy ===== *)
theory Daemon_Runs
  imports Daemon_Api
begin

text \<open>
  Runs of the daemon: \<open>daemon_step\<close> interleaves what its goroutines and its connections do, at the
  granularity of one handler, one forwarded event, one reload, one scan or one receive of the
  logger. The invariants say which events reach the queue and which rules the gate judges by.
\<close>

section \<open>Steps\<close>

text \<open>The capacity of the channel between the adapters and the forwarder.\<close>

definition event_capacity :: nat where "event_capacity = 1000"

text \<open>What a step does: an adapter puts an event on the channel, the forwarder takes one, the logger
  takes from the queue, a connection is served a request, the hangup signal reloads, the scanner
  runs, the gateway adapter is started.\<close>

datatype Doing =
    Adapter AuditEvent
  | Forward EmitIo
  | Take
  | Serve RpcRequest
  | Hangup DaemonIo
  | Scan time
  | Observe time

inductive daemon_step :: "DaemonLib \<Rightarrow> ApiLib \<Rightarrow> Feed list \<Rightarrow> Doing \<Rightarrow> ApiState \<Rightarrow> ApiState \<Rightarrow> bool"
  for DL A feed where
  adapter: "length (d_eventCh d) < event_capacity \<Longrightarrow>
     daemon_step DL A feed (Adapter evt) (d, env) (d\<lparr>d_eventCh := d_eventCh d @ [evt]\<rparr>, env)"
| forward: "d_eventCh d = evt # evts \<Longrightarrow>
     daemon_step DL A feed (Forward em) (d, env) (forwardEvent em evt (d\<lparr>d_eventCh := evts\<rparr>), env)"
| taken: "daemon_step DL A feed Take (d, env) (d\<lparr>d_queue := snd (try_recv (d_queue d))\<rparr>, env)"
| serve: "daemon_step DL A feed (Serve req) st (snd (answer (registerIPC DL A feed) req st))"
| hangup: "daemon_step DL A feed (Hangup io) (d, env) (snd (reloadRuntime DL io d), env)"
| scan: "daemon_step DL A feed (Scan now) (d, env) (discovery_scan now procs walk d, env)"
| observe: "daemon_step DL A feed (Observe now) (d, env) (snd (startOpenClaw envv dial outcome ans keys now d), env)"

inductive_cases daemon_step_cases: "daemon_step DL A feed l st st'"

inductive daemon_run :: "DaemonLib \<Rightarrow> ApiLib \<Rightarrow> Feed list \<Rightarrow> Doing list \<Rightarrow> ApiState \<Rightarrow> ApiState \<Rightarrow> bool"
  for DL A feed where
  stop: "daemon_run DL A feed [] st st"
| next_step: "daemon_run DL A feed ls st st' \<Longrightarrow> daemon_step DL A feed l st' st'' \<Longrightarrow> daemon_run DL A feed (ls @ [l]) st st''"

lemma daemon_run_invariant:
  assumes "daemon_run DL A feed ls st st'" "I (fst st)"
    "\<And>l s s'. I (fst s) \<Longrightarrow> daemon_step DL A feed l s s' \<Longrightarrow> I (fst s')"
  shows "I (fst st')"
  using assms by (induction rule: daemon_run.induct) auto

section \<open>The registered methods\<close>

lemma registered:
  "map_of (sv_handlers (registerIPC DL A feed)) method = map_option serving (map_of (daemon_methods DL A) method)"
  by (simp add: registerIPC_def daemon_methods_def HandleSubscribe_def Handle_def NewServer_def update_conv' fun_upd_def)

lemma answer_method:
  "answer (registerIPC DL A feed) req (d, env) =
     (case map_of (daemon_methods DL A) (iq_Method req) of
        None \<Rightarrow> (error_response (iq_ID req) (-32601) ''method not found'', (d, env))
      | Some h \<Rightarrow>
          (case h (env 0) (iq_Params req) d of
             (Inl err, d') \<Rightarrow> (error_response (iq_ID req) (-32000) err, (d', \<lambda>n. env (Suc n)))
           | (Inr v, d') \<Rightarrow> (result_response (iq_ID req) v, (d', \<lambda>n. env (Suc n)))))"
  by (auto simp: answer_def registered serving_def split: option.split prod.split sum.split)

lemma answer_reload:
  assumes "iq_Method req = ''commandments.reload''"
  shows "snd (answer (registerIPC DL A feed) req (d, env)) = (snd (reloadRuntime DL (ao_reload (env 0)) d), \<lambda>n. env (Suc n))"
proof -
  obtain r err d' where "reloadRuntime DL (ao_reload (env 0)) d = ((r, err), d')" by (metis prod.exhaust)
  then show ?thesis using assms by (simp add: answer_method daemon_methods_def handle_reload_def split: option.split)
qed

text \<open>A step is what a registered handler does, or nothing.\<close>

lemma served:
  "fst (snd (answer (registerIPC DL A feed) req st)) = fst st \<or>
   (\<exists>m h io params. (m, h) \<in> set (daemon_methods DL A) \<and> fst (snd (answer (registerIPC DL A feed) req st)) = snd (h io params (fst st)))"
proof (cases st)
  case [simp]: (Pair d env)
  show ?thesis
  proof (cases "map_of (daemon_methods DL A) (iq_Method req)")
    case (Some h)
    then have "(iq_Method req, h) \<in> set (daemon_methods DL A)" by (rule map_of_SomeD)
    then show ?thesis
      using Some by (auto simp: answer_method split: prod.split sum.split) (metis snd_conv)+
  qed (simp add: answer_method)
qed

section \<open>What the handlers change\<close>

lemma QueryEvents_store: "snd (QueryEvents s f) = s\<lparr>db_calls := db_calls (snd (QueryEvents s f))\<rparr>"
  by (auto simp: QueryEvents_def db_call_def Let_def split: prod.split option.split sum.split)

lemma QueryTokenSummary_store: "snd (QueryTokenSummary s f) = s\<lparr>db_calls := db_calls (snd (QueryTokenSummary s f))\<rparr>"
  by (auto simp: QueryTokenSummary_def db_call_def Let_def split: prod.split option.split sum.split)

lemma VerifyIntegrity_store: "snd (VerifyIntegrity s) = s\<lparr>db_calls := db_calls (snd (VerifyIntegrity s))\<rparr>"
  by (auto simp: VerifyIntegrity_def db_call_def Let_def split: prod.split option.split sum.split)

lemma Classify_registry:
  "snd (Classify glob r p t ks) = r\<lparr>reg_unclassified := reg_unclassified (snd (Classify glob r p t ks))\<rparr>"
  by (auto simp: Classify_def Let_def split: option.split prod.split)

lemma classify_test_registry:
  "snd (classify_test A e r) = r\<lparr>reg_unclassified := reg_unclassified (snd (classify_test A e r))\<rparr>"
  by (simp add: classify_test_def Let_def case_prod_beta Classify_registry [symmetric])

text \<open>The state but for the counters of driver calls and of unclassified tools, and the channel of events.\<close>

definition counted :: "nat \<Rightarrow> 64 word \<Rightarrow> AuditEvent list \<Rightarrow> Daemon \<Rightarrow> Daemon" where
  "counted calls unclassified evts d =
     d\<lparr>d_logger := (d_logger d)\<lparr>lg_store := (lg_store (d_logger d))\<lparr>db_calls := calls\<rparr>\<rparr>,
       d_classifier := (d_classifier d)\<lparr>reg_unclassified := unclassified\<rparr>, d_eventCh := d_eventCh d @ evts\<rparr>"

definition only_counts :: "nat \<Rightarrow> Daemon \<Rightarrow> Daemon \<Rightarrow> bool" where
  "only_counts n d d' \<longleftrightarrow> (\<exists>calls unclassified evts. length evts \<le> n \<and> d' = counted calls unclassified evts d)"

lemma only_counts_refl [simp]: "only_counts n d d"
  unfolding only_counts_def counted_def
  by (rule exI [of _ "db_calls (lg_store (d_logger d))"], rule exI [of _ "reg_unclassified (d_classifier d)"], rule exI [of _ "[]"]) simp

lemma only_counts_mono: "only_counts m d d' \<Longrightarrow> m \<le> n \<Longrightarrow> only_counts n d d'"
  unfolding only_counts_def by (blast intro: le_trans)

lemma only_counts_store: "s = (lg_store (d_logger d))\<lparr>db_calls := k\<rparr> \<Longrightarrow> only_counts n d (set_store s d)"
  unfolding only_counts_def counted_def set_store_def
  by (rule exI [of _ k], rule exI [of _ "reg_unclassified (d_classifier d)"], rule exI [of _ "[]"]) simp

lemma only_counts_classifier: "reg = (d_classifier d)\<lparr>reg_unclassified := k\<rparr> \<Longrightarrow> only_counts n d (d\<lparr>d_classifier := reg\<rparr>)"
  unfolding only_counts_def counted_def
  by (rule exI [of _ "db_calls (lg_store (d_logger d))"], rule exI [of _ k], rule exI [of _ "[]"]) simp

lemma only_counts_channel: "length evts \<le> n \<Longrightarrow> only_counts n d (d\<lparr>d_eventCh := d_eventCh d @ evts\<rparr>)"
  unfolding only_counts_def counted_def
  by (rule exI [of _ "db_calls (lg_store (d_logger d))"], rule exI [of _ "reg_unclassified (d_classifier d)"], rule exI [of _ evts]) simp

lemma handle_query_counts: "only_counts n d (snd (handle_query A io params d))"
  using only_counts_store [OF QueryEvents_store] by (auto simp: handle_query_def case_prod_beta split: sum.split)

lemma handle_export_counts: "only_counts n d (snd (handle_export A io params d))"
  using only_counts_store [OF QueryEvents_store] by (auto simp: handle_export_def split: sum.split prod.split) (metis snd_conv)+

lemma handle_tokens_counts: "only_counts n d (snd (handle_tokens A io params d))"
  using only_counts_store [OF QueryTokenSummary_store] by (auto simp: handle_tokens_def case_prod_beta split: sum.split)

lemma handle_verify_counts: "only_counts n d (snd (handle_verify io params d))"
  using only_counts_store [OF VerifyIntegrity_store] by (auto simp: handle_verify_def split: sum.split prod.split) (metis snd_conv)+

lemma handle_test_counts: "only_counts n d (snd (handle_test DL A io params d))"
  using only_counts_classifier [OF classify_test_registry]
  by (auto simp: handle_test_def Let_def case_prod_beta split: sum.split)

lemma gate_emits_one: "length (snd (gate_evaluate unmarshal evaluate i now raw)) \<le> 1"
  by (auto simp: gate_evaluate_def gate_decide_find Let_def split: sum.split option.split)

lemma handle_gate_counts: "only_counts 1 d (snd (handle_gate DL A io params d))"
  using only_counts_channel [OF gate_emits_one] by (simp add: handle_gate_def case_prod_beta)

lemmas handler_counts =
  handle_query_counts handle_export_counts handle_tokens_counts handle_verify_counts handle_test_counts handle_gate_counts

lemma handler_only_counts:
  assumes "map_of (daemon_methods DL A) method = Some h" "method \<noteq> ''commandments.reload''"
  shows "only_counts (if method = ''gate.evaluate'' then 1 else 0) d (snd (h io params d))"
  using assms
  by (auto simp: daemon_methods_def handle_status_def handle_agents_def handle_list_def split: if_split_asm intro!: handler_counts [simplified])

text \<open>C26: What a request may do to the daemon. Only \<open>commandments.reload\<close> replaces anything; every
  other method leaves the audit rows, the log offsets, the rules, the registries, the proxy, the
  queue and the settings as they are and moves two counters at most, and only \<open>gate.evaluate\<close>
  puts an event, at most one, on the channel to the audit log. A method that is not registered
  changes nothing, and is the only one refused as unknown.\<close>

theorem api_read_only:
  "case answer (registerIPC DL A feed) req (d, env) of (resp, (d', env')) \<Rightarrow>
     (if iq_Method req = ''commandments.reload'' then d' = snd (reloadRuntime DL (ao_reload (env 0)) d)
      else only_counts (if iq_Method req = ''gate.evaluate'' then 1 else 0) d d') \<and>
     (is_Error resp = Some (-32601, ''method not found'') \<longleftrightarrow> iq_Method req \<notin> fst ` set (daemon_methods DL A)) \<and>
     (if iq_Method req \<in> fst ` set (daemon_methods DL A) then env' = (\<lambda>n. env (Suc n)) else d' = d \<and> env' = env)"
proof (cases "map_of (daemon_methods DL A) (iq_Method req)")
  case None
  then have "iq_Method req \<notin> fst ` set (daemon_methods DL A)" by (simp add: map_of_eq_None_iff)
  moreover have "iq_Method req \<noteq> ''commandments.reload''" using None by (auto simp: daemon_methods_def)
  ultimately show ?thesis using None by (simp add: answer_method error_response_def)
next
  case (Some h)
  then have m: "iq_Method req \<in> fst ` set (daemon_methods DL A)" using map_of_SomeD [OF Some] by force
  have "d' = snd (reloadRuntime DL (ao_reload (env 0)) d)"
    if "iq_Method req = ''commandments.reload''" "h (env 0) (iq_Params req) d = (r, d')" for r d'
    using that Some by (auto simp: daemon_methods_def handle_reload_def split: prod.split_asm option.split_asm)
  moreover have "only_counts (if iq_Method req = ''gate.evaluate'' then 1 else 0) d d'"
    if "iq_Method req \<noteq> ''commandments.reload''" "h (env 0) (iq_Params req) d = (r, d')" for r d'
    using handler_only_counts [OF Some that(1), of d "env 0" "iq_Params req"] that(2) by simp
  ultimately show ?thesis
    using Some m by (auto simp: answer_method error_response_def result_response_def split: prod.split sum.split)
qed

section \<open>What never changes while the daemon runs\<close>

lemma only_counts_keeps:
  "only_counts n d d' \<Longrightarrow> d_gate d' = d_gate d \<and> d_hostname d' = d_hostname d \<and> d_userID d' = d_userID d \<and> d_queue d' = d_queue d"
  by (auto simp: only_counts_def counted_def)

lemma startOpenClaw_keeps [simp]:
  "d_gate (snd (startOpenClaw e c o' a ks now d)) = d_gate d" "d_hostname (snd (startOpenClaw e c o' a ks now d)) = d_hostname d"
  "d_userID (snd (startOpenClaw e c o' a ks now d)) = d_userID d" "d_queue (snd (startOpenClaw e c o' a ks now d)) = d_queue d"
  by (auto simp: startOpenClaw_def Let_def split: option.split prod.split sum.split)

text \<open>A request is a reload or only counts.\<close>

lemma served_cases:
  "(\<exists>io. fst (snd (answer (registerIPC DL A feed) req st)) = snd (reloadRuntime DL io (fst st))) \<or>
   only_counts 1 (fst st) (fst (snd (answer (registerIPC DL A feed) req st)))"
proof (cases st)
  case [simp]: (Pair d env)
  show ?thesis
  proof (cases "map_of (daemon_methods DL A) (iq_Method req)")
    case None
    then show ?thesis by (simp add: answer_method)
  next
    case (Some h)
    have "\<exists>io. snd (h (env 0) (iq_Params req) d) = snd (reloadRuntime DL io d)" if "iq_Method req = ''commandments.reload''"
      using that Some by (auto simp: daemon_methods_def handle_reload_def split: prod.split option.split) (metis snd_conv)+
    moreover have "only_counts 1 d (snd (h (env 0) (iq_Params req) d))" if "iq_Method req \<noteq> ''commandments.reload''"
      using handler_only_counts [OF Some that, of d "env 0" "iq_Params req"] by (rule only_counts_mono) simp
    ultimately show ?thesis
      using Some by (cases "iq_Method req = ''commandments.reload''") (auto simp: answer_method split: prod.split sum.split)
  qed
qed

text \<open>What every step keeps: the gate's rules, the identity, and what may stand in the queue.\<close>

definition stamped :: "string \<Rightarrow> string \<Rightarrow> QItem \<Rightarrow> bool" where
  "stamped host user item = (case item of EventItem e \<Rightarrow> ev_Hostname e = host \<and> ev_UserID e = user | OtherItem \<Rightarrow> True)"

definition daemon_inv :: "RulesImpl \<Rightarrow> string \<Rightarrow> string \<Rightarrow> Daemon \<Rightarrow> bool" where
  "daemon_inv rules host user d \<longleftrightarrow>
     d_gate d = rules \<and> d_hostname d = host \<and> d_userID d = user \<and> (\<forall>item \<in> set (q_ch (d_queue d)). stamped host user item)"

lemma emitOverflow_ch [simp]: "q_ch (emitOverflow now now' q) = q_ch q"
  by (simp add: emitOverflow_def Let_def)

lemma Send_ch: "set (q_ch (snd (Send w t1 t2 q x))) \<subseteq> insert x (set (q_ch q))"
proof -
  have "set (drop k xs @ [x]) \<subseteq> insert x (set xs)" for k and xs :: "'a list" by (auto dest: in_set_dropD)
  moreover have "set (drop k xs) \<subseteq> insert x (set xs)" for k and xs :: "'a list" by (auto dest: in_set_dropD)
  moreover have "set (q_ch (drop_oldest q)) \<subseteq> set (q_ch q)" by (auto simp: drop_oldest_def split: list.splits)
  ultimately show ?thesis
    by (auto simp: Send_def sendDropOldest_def sendBlockTimeout_def try_send_def count_dropped_def count_overflow_def
        split: wait.splits dest: in_set_dropD)
qed

lemma daemon_inv_send:
  assumes "daemon_inv rules host user d" "stamped host user (EventItem e)"
  shows "daemon_inv rules host user (send_queue em e d)"
  using assms Send_ch [of "em_wait em" "em_t1 em" "em_t2 em" "d_queue d" "EventItem e"]
  by (auto simp: daemon_inv_def send_queue_def)

lemma daemon_inv_emit [inv_rule]:
  "daemon_inv rules host user d \<Longrightarrow> daemon_inv rules host user (emitSystemEvent io action outcome payload d)"
  unfolding emitSystemEvent_def by (rule daemon_inv_send) (auto simp: stamped_def system_event_def daemon_inv_def)

lemma daemon_inv_forward [inv_rule]:
  "daemon_inv rules host user d \<Longrightarrow> daemon_inv rules host user (forwardEvent em evt (d\<lparr>d_eventCh := evts\<rparr>))"
  unfolding forwardEvent_def by (rule daemon_inv_send) (auto simp: stamped_def daemon_inv_def)

lemma daemon_inv_report [inv_rule]:
  "daemon_inv rules host user d \<Longrightarrow> daemon_inv rules host user (report_failure io action r d)"
  by (auto simp: report_failure_def inv_rule split: sum.split)

lemma daemon_inv_before [inv_rule]:
  assumes "daemon_inv rules host user d"
  shows "daemon_inv rules host user (before_install DL io d)"
proof -
  have "daemon_inv rules host user (reload_notifications DL io d)"
    using assms by (auto simp: reload_notifications_def inv_rule split: sum.split) (simp add: daemon_inv_def)
  then show ?thesis by (auto simp: before_install_def Let_def intro!: daemon_inv_report)
qed

lemma daemon_inv_install [inv_rule]:
  assumes "daemon_inv rules host user d"
  shows "daemon_inv rules host user (install_registry io reg (install_rules DL svc d))"
proof -
  have "daemon_inv rules host user (d'\<lparr>d_classifier := reg, d_parser := ps\<rparr>)" if "daemon_inv rules host user d'" for d' ps
    using that by (simp add: daemon_inv_def)
  moreover have "daemon_inv rules host user (d'\<lparr>d_proxy := p\<rparr>)" if "daemon_inv rules host user d'" for d' p
    using that by (simp add: daemon_inv_def)
  moreover have "daemon_inv rules host user (install_rules DL svc d)" using assms by (simp add: daemon_inv_def install_rules_def)
  ultimately show ?thesis
    by (auto simp: install_registry_def Let_def intro!: daemon_inv_emit split: option.split prod.split)
qed

lemma daemon_inv_reload [inv_rule]:
  assumes "daemon_inv rules host user d"
  shows "daemon_inv rules host user (snd (reloadRuntime DL io d))"
proof -
  have "daemon_inv rules host user (d'\<lparr>d_notifier := ns\<rparr>)" if "daemon_inv rules host user d'" for d' ns
    using that by (simp add: daemon_inv_def)
  with assms show ?thesis
    by (auto simp: reloadRuntime_before Let_def inv_rule split: sum.split)
qed

lemma daemon_inv_counts [inv_rule]:
  "daemon_inv rules host user d \<Longrightarrow> only_counts n d d' \<Longrightarrow> daemon_inv rules host user d'"
  by (auto simp: daemon_inv_def dest!: only_counts_keeps)

lemma daemon_inv_take [inv_rule]:
  "daemon_inv rules host user d \<Longrightarrow> daemon_inv rules host user (d\<lparr>d_queue := snd (try_recv (d_queue d))\<rparr>)"
  by (auto simp: daemon_inv_def try_recv_def split: list.splits)

lemma daemon_inv_step:
  assumes "daemon_inv rules host user (fst st)" "daemon_step DL A feed l st st'"
  shows "daemon_inv rules host user (fst st')"
  using assms(2)
proof cases
  case (serve req)
  then show ?thesis using served_cases [of DL A feed req st] assms(1) by (auto simp: inv_rule)
next
  case (scan now d procs walk env)
  then show ?thesis using assms(1) by (simp add: daemon_inv_def discovery_scan_def Let_def)
next
  case (observe now d envv dial outcome ans keys env)
  then show ?thesis using assms(1) by (simp add: daemon_inv_def)
next
  case (adapter d evt env)
  then show ?thesis using assms(1) by (simp add: daemon_inv_def)
qed (use assms(1) in \<open>auto simp: inv_rule\<close>)

lemma daemon_inv_start:
  assumes "start DL io run cfg cfgPath s = Inr d"
  shows "daemon_inv (d_commandments d) (ri_hostname run) (ri_userID run) d"
proof -
  obtain logger where d: "d = start_proxy DL io run (boot DL io run cfg cfgPath logger)"
    using assms by (auto simp: start_def split: sum.split_asm option.split_asm)
  let ?d0 = "boot DL io run cfg cfgPath logger"
  have e: "daemon_inv r h u (emitSystemEvent io a oc p d')"
    if "d_gate d' = r" "d_hostname d' = h" "d_userID d' = u" "q_ch (d_queue d') = []" for r h u a oc p d'
    by (rule daemon_inv_emit) (simp add: daemon_inv_def that)
  have "daemon_inv (d_commandments ?d0) (ri_hostname run) (ri_userID run) ?d0"
    by (cases "load_commandments DL io cfg") (simp_all add: boot_def Let_def e New_def)
  then show ?thesis by (simp add: daemon_inv_def d)
qed

lemma daemon_inv_run:
  assumes "start DL io run cfg cfgPath s = Inr d0" "daemon_run DL A feed ls (d0, env) st"
  shows "daemon_inv (d_commandments d0) (ri_hostname run) (ri_userID run) (fst st)"
  using daemon_run_invariant [OF assms(2), of "daemon_inv (d_commandments d0) (ri_hostname run) (ri_userID run)"]
    daemon_inv_start [OF assms(1)] daemon_inv_step by auto

text \<open>C8: The origin of what is audited is the daemon's own. However its handlers, forwarder, reloads and
  adapters interleave, every event that stands in the queue to the audit log carries the host and
  the user the daemon found at its start, whatever the adapter that emitted it had put there.\<close>

theorem origin_stamped:
  assumes "start DL io run cfg cfgPath s = Inr d0" "daemon_run DL A feed ls (d0, env) (d, env')"
    and "EventItem e \<in> set (q_ch (d_queue d))"
  shows "ev_Hostname e = ri_hostname run \<and> ev_UserID e = ri_userID run"
  using daemon_inv_run [OF assms(1,2)] assms(3) by (auto simp: daemon_inv_def stamped_def)

text \<open>C12: The gate judges by the rules of the start. Whatever happened since, and however many reloads put
  other rules in place for the logger, the proxy and the list of commandments, \<open>gate.evaluate\<close>
  answers by the rules the daemon had loaded when it registered its methods.\<close>

theorem gate_rules_of_start:
  assumes "start DL io run cfg cfgPath s = Inr d0" "daemon_run DL A feed ls (d0, env) (d, env')"
    and "iq_Method req = ''gate.evaluate''"
  shows "fst (answer (registerIPC DL A feed) req (d, env')) =
    (case fst (gate_evaluate (al_gate A) (cmd_Evaluate (dl_lib DL) (d_commandments d0)) (ao_id (env' 0)) (ao_now (env' 0)) (iq_Params req)) of
       Inl err \<Rightarrow> error_response (iq_ID req) (-32000) err
     | Inr res \<Rightarrow> result_response (iq_ID req) (Some (gate_json res)))"
proof -
  have "d_gate d = d_commandments d0" using daemon_inv_run [OF assms(1,2)] by (simp add: daemon_inv_def)
  then show ?thesis
    using assms(3) by (simp add: answer_method daemon_methods_def handle_gate_def split: prod.split sum.split)
qed

section \<open>A concrete run\<close>

text \<open>A daemon that starts while its rule file does not parse; the file is repaired, with one rule that
  blocks \<open>Bash\<close>, and the daemon is told to reload.\<close>

definition sample_run_lib :: DaemonLib where
  "sample_run_lib = sample_daemon_lib\<lparr>
     dl_rules_yaml := (\<lambda>data. if data = ''repaired'' then Ok \<lparr>rs_Version = ''1'', rs_Commandments = [sample_rule ''no-bash'' 5]\<rparr>
                             else Err ''not a rule file''),
     dl_registry_yaml := (\<lambda>_. Ok sample_registry_config)\<rparr>"

definition sample_files :: "string \<Rightarrow> DaemonIo" where
  "sample_files data = sample_daemon_io\<lparr>dio_files := (\<lambda>_. FileData data)\<rparr>"

definition sample_run_cfg :: Config where
  "sample_run_cfg = sample_daemon_cfg\<lparr>cf_CommandmentsFile := ''rules.yaml''\<rparr>"

definition sample_api_lib :: ApiLib where
  "sample_api_lib = \<lparr>al_query = (\<lambda>_. Err ''no query''), al_tokens = (\<lambda>_. Err ''no query''), al_event = (\<lambda>_. Err ''no event''),
     al_payload = (\<lambda>_. None), al_gate = (\<lambda>_. Ok sample_gate_params), al_outcome = (\<lambda>_. []), al_unmarshal = (\<lambda>_. None),
     al_glob = (\<lambda>_ _. Ok False), al_time = rfc3339nano, al_float = (\<lambda>_. ''0'')\<rparr>"

definition sample_env :: "nat \<Rightarrow> ApiIo" where
  "sample_env n = \<lparr>ao_now = 7, ao_id = ''g1'', ao_pid = 1, ao_agents = [], ao_reload = sample_files ''repaired''\<rparr>"

lemma sample_run_start:
  "\<exists>d. start sample_run_lib (sample_files ''broken'') sample_run_io sample_run_cfg [] empty_db = Inr d \<and>
     d_commandments d = Noop \<and> d_cfg d = sample_run_cfg \<and> d_eventCh d = [] \<and>
     (\<exists>x. d_queue d = (New 8 PolicyDropOldest 0)\<lparr>q_ch := [x]\<rparr>)"
proof -
  have "load_commandments sample_run_lib (sample_files ''broken'') sample_run_cfg = Inl ''load commandments''" by code_simp
  then show ?thesis
    by (simp add: start_def NewLogger_def sqlite_api_def GetLastEventHash_def db_call_def empty_db_def sample_run_cfg_def
        sample_daemon_cfg_def sample_run_io_def start_proxy_def zero_config_def boot_def Let_def emitSystemEvent_def send_queue_def Send_def
        sendDropOldest_def try_send_def New_def queue_policy_def PolicyDropOldest_def)
qed

lemma sample_reload_candidates:
  "\<exists>svc. load_commandments sample_run_lib (sample_files ''repaired'') sample_run_cfg = Inr svc \<and>
     map crs_Name (svc_List svc) = [''no-bash'']"
  "loadToolRegistryCandidate sample_run_lib (sample_files ''repaired'') sample_run_cfg = Inr sample_registry"
proof -
  have "(case load_commandments sample_run_lib (sample_files ''repaired'') sample_run_cfg of
      Inr svc \<Rightarrow> map crs_Name (svc_List svc) = [''no-bash''] | Inl _ \<Rightarrow> False)"
    by code_simp
  then show "\<exists>svc. load_commandments sample_run_lib (sample_files ''repaired'') sample_run_cfg = Inr svc \<and>
     map crs_Name (svc_List svc) = [''no-bash'']"
    by (auto split: sum.splits)
  show "loadToolRegistryCandidate sample_run_lib (sample_files ''repaired'') sample_run_cfg = Inr sample_registry"
    by code_simp
qed

definition reload_request :: RpcRequest where
  "reload_request = \<lparr>iq_JSONRPC = ''2.0'', iq_ID = JNull, iq_Method = ''commandments.reload'', iq_Params = []\<rparr>"

definition gate_request :: RpcRequest where
  "gate_request = \<lparr>iq_JSONRPC = ''2.0'', iq_ID = JNull, iq_Method = ''gate.evaluate'', iq_Params = ''{}''\<rparr>"

lemma daemon_run_one: "daemon_step DL A feed l st st' \<Longrightarrow> daemon_run DL A feed [l] st st'"
  using next_step [OF stop, of DL A feed l st st'] by simp

text \<open>After the reload the listed rules have the rule that blocks the call, and the gate still passes it.\<close>

theorem gate_rules_of_start_witness:
  "\<exists>d0 d env'. start sample_run_lib (sample_files ''broken'') sample_run_io sample_run_cfg [] empty_db = Inr d0 \<and>
     daemon_run sample_run_lib sample_api_lib [] [Serve reload_request] (d0, sample_env) (d, env') \<and>
     map crs_Name (cmd_List (d_commandments d)) = [''no-bash''] \<and>
     fst (answer (registerIPC sample_run_lib sample_api_lib []) gate_request (d, env')) =
       result_response JNull (Some (gate_json \<lparr>gr_GateEventID = ''g1'', gr_Decision = ''pass'', gr_CommandmentID = [], gr_Reason = [], gr_Enforcement = []\<rparr>))"
proof -
  obtain d0 where d0: "start sample_run_lib (sample_files ''broken'') sample_run_io sample_run_cfg [] empty_db = Inr d0"
      "d_commandments d0 = Noop" "d_cfg d0 = sample_run_cfg"
    using sample_run_start by blast
  obtain svc where svc: "load_commandments sample_run_lib (sample_files ''repaired'') sample_run_cfg = Inr svc"
      "map crs_Name (svc_List svc) = [''no-bash'']"
    using sample_reload_candidates(1) by (elim exE conjE)
  define d where "d = snd (reloadRuntime sample_run_lib (ao_reload (sample_env 0)) d0)"
  define env' where "env' = (\<lambda>n. sample_env (Suc n))"
  have "snd (answer (registerIPC sample_run_lib sample_api_lib []) reload_request (d0, sample_env)) = (d, env')"
    unfolding d_def env'_def by (rule answer_reload) (simp add: reload_request_def)
  then have run: "daemon_run sample_run_lib sample_api_lib [] [Serve reload_request] (d0, sample_env) (d, env')"
    using daemon_run_one [OF serve, of sample_run_lib sample_api_lib "[]" reload_request "(d0, sample_env)"] by simp
  have "judged_by sample_run_lib (Loaded svc) sample_registry d"
    unfolding d_def by (rule reload_installs) (simp_all add: d0 svc sample_reload_candidates sample_env_def)
  then have rules: "map crs_Name (cmd_List (d_commandments d)) = [''no-bash'']"
    by (simp add: judged_by_def cmd_List_def svc)
  have io: "al_gate sample_api_lib = (\<lambda>_. Ok sample_gate_params)" "ao_id (env' 0) = ''g1''" "iq_ID gate_request = JNull"
    "iq_Method gate_request = ''gate.evaluate''"
    by (simp_all add: sample_api_lib_def env'_def sample_env_def gate_request_def)
  have "fst (answer (registerIPC sample_run_lib sample_api_lib []) gate_request (d, env')) =
      result_response JNull (Some (gate_json \<lparr>gr_GateEventID = ''g1'', gr_Decision = ''pass'', gr_CommandmentID = [], gr_Reason = [], gr_Enforcement = []\<rparr>))"
    unfolding gate_rules_of_start [OF d0(1) run io(4)]
    by (simp add: gate_evaluate_def io d0(2) cmd_Evaluate_def noop_Evaluate_def Let_def)
  then show ?thesis
    using d0(1) run rules by (intro exI [of _ d0] exI [of _ d] exI [of _ env'] conjI)
qed

text \<open>An adapter that claims another host is corrected.\<close>

theorem origin_stamped_witness:
  "\<exists>d0 d e. start sample_run_lib (sample_files ''broken'') sample_run_io sample_run_cfg [] empty_db = Inr d0 \<and>
     daemon_run sample_run_lib sample_api_lib [] [Adapter (zero_event\<lparr>ev_ID := ''e'', ev_Hostname := ''elsewhere''\<rparr>), Forward (dio_emit sample_daemon_io [])]
       (d0, sample_env) (d, sample_env) \<and>
     EventItem e \<in> set (q_ch (d_queue d)) \<and> ev_ID e = ''e'' \<and> ev_Hostname e = ''host''"
proof -
  let ?e = "zero_event\<lparr>ev_ID := ''e'', ev_Hostname := ''elsewhere''\<rparr>" and ?em = "dio_emit sample_daemon_io []"
  obtain d0 x where d0: "start sample_run_lib (sample_files ''broken'') sample_run_io sample_run_cfg [] empty_db = Inr d0"
      "d_eventCh d0 = []" "d_queue d0 = (New 8 PolicyDropOldest 0)\<lparr>q_ch := [x]\<rparr>"
    using sample_run_start by blast
  let ?d1 = "d0\<lparr>d_eventCh := [?e]\<rparr>"
  let ?d = "forwardEvent ?em ?e (?d1\<lparr>d_eventCh := []\<rparr>)"
  have "daemon_run sample_run_lib sample_api_lib [] ([Adapter ?e] @ [Forward ?em]) (d0, sample_env) (?d, sample_env)"
  proof (rule next_step)
    show "daemon_run sample_run_lib sample_api_lib [] [Adapter ?e] (d0, sample_env) (?d1, sample_env)"
      using daemon_run_one [OF adapter [of d0]] by (simp add: d0(2) event_capacity_def)
    show "daemon_step sample_run_lib sample_api_lib [] (Forward ?em) (?d1, sample_env) (?d, sample_env)"
      by (rule forward) simp
  qed
  then have run: "daemon_run sample_run_lib sample_api_lib [] [Adapter ?e, Forward ?em] (d0, sample_env) (?d, sample_env)" by simp
  let ?e' = "?e\<lparr>ev_Hostname := d_hostname d0, ev_UserID := d_userID d0\<rparr>"
  have mem: "EventItem ?e' \<in> set (q_ch (d_queue ?d))"
    by (simp add: forwardEvent_def send_queue_def d0(3) Send_def sendDropOldest_def try_send_def New_def)
  have "ev_Hostname ?e' = ''host''"
    using origin_stamped [OF d0(1) run mem] by (simp add: sample_run_io_def)
  moreover have "ev_ID ?e' = ''e''" by simp
  ultimately show ?thesis
    using d0(1) run mem by (intro exI [of _ d0] exI [of _ ?d] exI [of _ ?e'] conjI)
qed

end
