(* ===== verification/Log_Following.thy ===== *)
theory Log_Following
  imports Log_Watcher Discovery Sqlite_Store
begin

text \<open>
  The rest of \<open>internal/adapter/logwatcher/logwatcher.go\<close>: the watcher that starts, scans its
  directories and follows them by notifications or by polling, over the offsets of the store.
  The second half composes it with the store: in any interleaving of growing logs, scans,
  notifications, commits, failing calls and crashes, no line before a stored offset is lost.
\<close>

section \<open>The watcher\<close>

text \<open>\<open>wa_watching\<close>: there is an fsnotify watcher; \<open>wa_watched\<close> are the directories added to it.\<close>

record LogWatcher =
  wa_logPaths :: "string list"
  wa_watching :: bool
  wa_polling :: bool
  wa_watched :: "string list"

definition NewLogWatcher :: "string list \<Rightarrow> LogWatcher" where
  "NewLogWatcher logPaths = \<lparr>wa_logPaths = logPaths, wa_watching = False, wa_polling = False, wa_watched = []\<rparr>"

text \<open>\<open>wt_sent\<close> are the events that left the watcher and are not stored yet.\<close>

record WatchState =
  wt_watcher :: LogWatcher
  wt_store :: Store
  wt_sent :: "AuditEvent list"
  wt_parser :: ParserState

text \<open>What one operation meets: the directories as \<open>Walk\<close> lists them, the files, the errors of \<open>watcher.Add\<close>,
  what \<open>Stat\<close> says of a name (a directory or not), the clock, and the room on the channel.\<close>

record WatchIo =
  wi_walk :: "string \<Rightarrow> WalkEntry list"
  wi_files :: "string \<Rightarrow> string option"
  wi_add_error :: "string \<Rightarrow> error option"
  wi_stat :: "string \<Rightarrow> bool option"
  wi_clock :: "string \<Rightarrow> int64 \<Rightarrow> nat \<Rightarrow> time"
  wi_accepts :: "string \<Rightarrow> nat \<Rightarrow> bool"

definition tail_path :: "LogLib \<Rightarrow> WatchIo \<Rightarrow> string \<Rightarrow> WatchState \<Rightarrow> WatchState" where
  "tail_path L io path st =
     (case GetFileOffset (wt_store st) path of (offset, s) \<Rightarrow>
        case tailFile L (wi_clock io path) (wi_accepts io path) path offset (wi_files io path) (wt_parser st) of
          (sent, set_to, ps) \<Rightarrow>
            st\<lparr>wt_store := (case set_to of None \<Rightarrow> s | Some n \<Rightarrow> snd (SetFileOffset s path n)),
               wt_sent := wt_sent st @ sent, wt_parser := ps\<rparr>)"

definition scan_entry :: "LogLib \<Rightarrow> WatchIo \<Rightarrow> WalkEntry \<Rightarrow> WatchState \<Rightarrow> WatchState" where
  "scan_entry L io f st =
     (let w = wt_watcher st; path = we_path f in
      if we_failed f then st
      else if we_isDir f then
        (if \<not> wa_watching w then st
         else case wi_add_error io path of
           None \<Rightarrow> st\<lparr>wt_watcher := w\<lparr>wa_watched := wa_watched w @ [path]\<rparr>\<rparr>
         | Some _ \<Rightarrow> st\<lparr>wt_watcher := w\<lparr>wa_polling := True\<rparr>\<rparr>)
      else if has_suffix path ''.jsonl'' then tail_path L io path st
      else st)"

definition scanAndWatch :: "LogLib \<Rightarrow> WatchIo \<Rightarrow> string \<Rightarrow> WatchState \<Rightarrow> WatchState" where
  "scanAndWatch L io dir st = fold (scan_entry L io) (wi_walk io dir) st"

definition scan_all :: "LogLib \<Rightarrow> WatchIo \<Rightarrow> WatchState \<Rightarrow> WatchState" where
  "scan_all L io st = fold (scanAndWatch L io) (wa_logPaths (wt_watcher st)) st"

text \<open>\<open>Start\<close> up to its loop: the loop polls if \<open>wa_polling\<close> is set after the first scan.\<close>

definition watcher_Start :: "LogLib \<Rightarrow> error option \<Rightarrow> WatchIo \<Rightarrow> WatchState \<Rightarrow> WatchState" where
  "watcher_Start L fsnotify io st =
     (let w = wt_watcher st
      in scan_all L io (st\<lparr>wt_watcher := (case fsnotify of Some _ \<Rightarrow> w\<lparr>wa_polling := True\<rparr> | None \<Rightarrow> w\<lparr>wa_watching := True\<rparr>)\<rparr>))"

text \<open>A notification: the operations it reports and the name. A created directory is watched and not read.\<close>

definition watch_event :: "LogLib \<Rightarrow> WatchIo \<Rightarrow> bool \<Rightarrow> bool \<Rightarrow> string \<Rightarrow> WatchState \<Rightarrow> WatchState" where
  "watch_event L io created written name st =
     (let tail = (\<lambda>st. if has_suffix name ''.jsonl'' then tail_path L io name st else st);
          written_part = (\<lambda>st. if written then tail st else st)
      in if \<not> created then written_part st
         else case wi_stat io name of
           None \<Rightarrow> st
         | Some True \<Rightarrow>
             (if wi_add_error io name = None
              then st\<lparr>wt_watcher := (wt_watcher st)\<lparr>wa_watched := wa_watched (wt_watcher st) @ [name]\<rparr>\<rparr> else st)
         | Some False \<Rightarrow> written_part (tail st))"

text \<open>The loop the watcher runs: a tick of the poller or a notification.\<close>

datatype WatchTurn = PollTick | Notified bool bool string

definition watch_turn :: "LogLib \<Rightarrow> WatchIo \<Rightarrow> WatchTurn \<Rightarrow> WatchState \<Rightarrow> WatchState" where
  "watch_turn L io turn st =
     (case turn of
        PollTick \<Rightarrow> (if wa_polling (wt_watcher st) then scan_all L io st else st)
      | Notified created written name \<Rightarrow> watch_event L io created written name st)"

section \<open>What a reading sends\<close>

text \<open>The events of the lines from an offset on, each with the end of its line.\<close>

fun marked :: "LogLib \<Rightarrow> (int64 \<Rightarrow> nat \<Rightarrow> time) \<Rightarrow> string \<Rightarrow> int64 \<Rightarrow> string list \<Rightarrow> ParserState \<Rightarrow> AuditEvent list" where
  "marked L clock path off [] ps = []"
| "marked L clock path off (line # lines) ps =
     (let (es, ps) = ParseLineForSource L (clock off) line path off ps; off' = off + word_of_nat (length line) + 1
      in map (\<lambda>e. e\<lparr>ev_SourceFile := path, ev_SourceOffset := off'\<rparr>) es @ marked L clock path off' lines ps)"

lemma tail_events_marked:
  "held (tail_events (\<lambda>_. True) path evts t) =
     held t @ map (\<lambda>e. e\<lparr>ev_SourceFile := path, ev_SourceOffset := tl_newOffset t\<rparr>) evts"
  by (induction evts arbitrary: t) (auto simp: Let_def held_def send_event_def split: option.splits)

lemma tail_lines_marked:
  "held (tail_lines L clock (\<lambda>_. True) path lines t) = held t @ marked L clock path (tl_newOffset t) lines (tl_parser t)"
  by (induction lines arbitrary: t) (auto simp: case_prod_beta Let_def tail_events_marked tail_events_held)

text \<open>The last event carries the end of the scan.\<close>

definition end_marked :: "int64 \<Rightarrow> AuditEvent list \<Rightarrow> AuditEvent list" where
  "end_marked off es = (if es = [] then [] else butlast es @ [(last es)\<lparr>ev_SourceOffset := off\<rparr>])"

lemma tailFile_sends:
  assumes "scan_lines MiB rest = lines" "length pre + line_bytes lines < 2 ^ 63"
  shows "case tailFile L clock (\<lambda>_. True) path (Inr (word_of_nat (length pre))) (Some (pre @ rest)) ps of (sent, set_to, _) \<Rightarrow>
      sent = end_marked (word_of_nat (length pre + line_bytes lines)) (marked L clock path (word_of_nat (length pre)) lines ps) \<and>
      set_to = (if marked L clock path (word_of_nat (length pre)) lines ps = [] \<and> lines \<noteq> []
        then Some (word_of_nat (length pre + line_bytes lines)) else None)"
proof -
  let ?off = "word_of_nat (length pre) :: int64"
  let ?start = "\<lparr>tl_sent = [], tl_attempts = 0, tl_lastEvt = None, tl_newOffset = ?off, tl_parser = ps\<rparr>"
  let ?t = "tail_lines L clock (\<lambda>_. True) path lines ?start"
  have off: "sint ?off = int (length pre)" using assms(2) by (intro sint_of_nat63) simp
  have new: "tl_newOffset ?t = word_of_nat (length pre + line_bytes lines)" by (simp add: tail_lines_held)
  have less: "word_sless ?off (tl_newOffset ?t) \<longleftrightarrow> lines \<noteq> []"
    unfolding new word_sless_alt off using sint_of_nat63 [OF assms(2)] by (cases lines) (auto simp: line_bytes_def)
  have held: "held ?t = marked L clock path ?off lines ps"
    using tail_lines_marked [of L clock path lines ?start] by (simp add: held_def)
  have none: "tl_lastEvt ?t = None \<longleftrightarrow> held ?t = []"
  proof (cases "tl_lastEvt ?t")
    case None
    then have "fst (log_events L clock path ?off lines ps) = []"
      using tail_lines_held(4) [of L clock "\<lambda>_. True" path lines ?start] by simp
    then have "map no_offset (held ?t) = []" using tail_lines_held(1) [of L clock path lines ?start] by (simp add: held_def)
    with None show ?thesis by simp
  qed (simp add: held_def)
  have r: "tailFile L clock (\<lambda>_. True) path (Inr ?off) (Some (pre @ rest)) ps = (case tl_lastEvt ?t of
      Some e \<Rightarrow> (tl_sent ?t @ [e\<lparr>ev_SourceOffset := tl_newOffset ?t\<rparr>], None, tl_parser ?t)
    | None \<Rightarrow> ([], if lines \<noteq> [] then Some (tl_newOffset ?t) else None, tl_parser ?t))"
    by (simp add: assms(1) tailFile_def start_offset_def off Let_def less send_event_def split: option.splits)
  show ?thesis
  proof (cases "tl_lastEvt ?t")
    case None
    with none held show ?thesis unfolding r by (simp add: end_marked_def new [simplified])
  next
    case (Some e)
    then have "held ?t = tl_sent ?t @ [e]" by (simp add: held_def)
    with held have m: "marked L clock path ?off lines ps = tl_sent ?t @ [e]" by simp
    with Some show ?thesis unfolding r by (simp add: end_marked_def new [simplified])
  qed
qed

section \<open>What is kept\<close>

definition line_start :: "(string \<Rightarrow> string list) \<Rightarrow> string \<Rightarrow> nat \<Rightarrow> nat" where
  "line_start logs p i = line_bytes (take i (logs p))"

text \<open>A line gives no events, or its first one has its identifier among \<open>ids\<close>.\<close>

definition line_kept :: "LogLib \<Rightarrow> string set \<Rightarrow> string \<Rightarrow> nat \<Rightarrow> string \<Rightarrow> bool" where
  "line_kept L ids p n line \<longleftrightarrow>
     (\<exists>now ps. fst (ParseLineForSource L now line p (word_of_nat n) ps) = []) \<or>
     deterministicID (ll_sum256 L) p (word_of_nat n) 0 line \<in> ids"

definition kept :: "LogLib \<Rightarrow> string set \<Rightarrow> (string \<Rightarrow> string list) \<Rightarrow> string \<Rightarrow> nat \<Rightarrow> bool" where
  "kept L ids logs p k \<longleftrightarrow> k \<le> length (logs p) \<and> (\<forall>i < k. line_kept L ids p (line_start logs p i) (logs p ! i))"

lemma line_bytes_Nil [simp]: "line_bytes [] = 0"
  by (simp add: line_bytes_def)

lemma line_kept_mono: "line_kept L ids p n line \<Longrightarrow> ids \<subseteq> ids' \<Longrightarrow> line_kept L ids' p n line"
  by (auto simp: line_kept_def)

lemma kept_mono: "kept L ids logs p k \<Longrightarrow> ids \<subseteq> ids' \<Longrightarrow> kept L ids' logs p k"
  by (auto simp: kept_def intro: line_kept_mono)

lemma kept_grow:
  assumes "kept L ids logs p k"
  shows "kept L ids (logs(q := logs q @ added)) p k" "line_start (logs(q := logs q @ added)) p k = line_start logs p k"
proof -
  have start: "line_start (logs(q := logs q @ added)) p i = line_start logs p i" if "i \<le> k" for i
    using assms that by (auto simp: kept_def line_start_def)
  moreover have "(logs(q := logs q @ added)) p ! i = logs p ! i" if "i < k" for i
    using assms that by (auto simp: kept_def nth_append)
  ultimately show "kept L ids (logs(q := logs q @ added)) p k" "line_start (logs(q := logs q @ added)) p k = line_start logs p k"
    using assms by (auto simp: kept_def)
qed

text \<open>The events of the lines up to one keep those lines.\<close>

lemma first_event_id:
  assumes "fst (ParseLineForSource L now line p off ps) = e # es"
  shows "ev_ID e = deterministicID (ll_sum256 L) p off 0 line"
  using parsed_ids [of L now line p off ps] assms by (simp add: upt_rec)

lemma marked_kept:
  assumes "i < length lines"
  shows "line_kept L (ev_ID ` set (marked L clock p (word_of_nat n) lines ps)) p (n + line_bytes (take i lines)) (lines ! i)"
  using assms
proof (induction lines arbitrary: i n ps)
  case (Cons line lines)
  let ?r = "ParseLineForSource L (clock (word_of_nat n)) line p (word_of_nat n) ps"
  have next_off: "word_of_nat n + word_of_nat (length line) + 1 = (word_of_nat (n + Suc (length line)) :: int64)" by (simp add: algebra_simps)
  have ids: "ev_ID ` set (marked L clock p (word_of_nat n) (line # lines) ps) =
      ev_ID ` set (fst ?r) \<union> ev_ID ` set (marked L clock p (word_of_nat (n + Suc (length line))) lines (snd ?r))"
    unfolding marked.simps next_off by (simp add: case_prod_beta Let_def image_Un image_image)
  show ?case
  proof (cases i)
    case 0
    show ?thesis
    proof (cases "fst ?r")
      case Nil
      then show ?thesis by (auto simp: 0 line_kept_def line_bytes_def)
    next
      case (Cons e es)
      then have "ev_ID e \<in> ev_ID ` set (marked L clock p (word_of_nat n) (line # lines) ps)" unfolding ids by simp
      then show ?thesis using first_event_id [OF Cons] by (simp add: 0 line_kept_def line_bytes_def)
    qed
  next
    case (Suc j)
    with Cons.prems have "j < length lines" by simp
    from Cons.IH [OF this, of "n + Suc (length line)" "snd ?r"]
    have "line_kept L (ev_ID ` set (marked L clock p (word_of_nat (n + Suc (length line))) lines (snd ?r))) p
        (n + Suc (length line) + line_bytes (take j lines)) (lines ! j)" .
    then show ?thesis
      unfolding ids by (auto simp: Suc line_bytes_def add.assoc elim!: line_kept_mono)
  qed
qed simp

text \<open>An event's offset is the end of a line, and the events up to it keep the lines up to there.\<close>

lemma marked_prefix_kept:
  assumes "j < length (marked L clock p (word_of_nat n) lines ps)"
  shows "\<exists>k \<le> length lines. ev_SourceFile (marked L clock p (word_of_nat n) lines ps ! j) = p \<and>
    ev_SourceOffset (marked L clock p (word_of_nat n) lines ps ! j) = word_of_nat (n + line_bytes (take k lines)) \<and>
    (\<forall>i < k. line_kept L (ev_ID ` set (take (Suc j) (marked L clock p (word_of_nat n) lines ps))) p (n + line_bytes (take i lines)) (lines ! i))"
  using assms
proof (induction lines arbitrary: j n ps)
  case (Cons line lines)
  let ?r = "ParseLineForSource L (clock (word_of_nat n)) line p (word_of_nat n) ps" and ?n = "n + Suc (length line)"
  let ?rest = "marked L clock p (word_of_nat ?n) lines (snd ?r)"
  let ?A = "map (\<lambda>e. e\<lparr>ev_SourceFile := p, ev_SourceOffset := word_of_nat ?n\<rparr>) (fst ?r)"
  have next_off: "word_of_nat n + word_of_nat (length line) + 1 = (word_of_nat ?n :: int64)" by (simp add: algebra_simps)
  have all: "marked L clock p (word_of_nat n) (line # lines) ps = ?A @ ?rest"
    unfolding marked.simps next_off by (simp add: case_prod_beta Let_def)
  have first: "line_kept L (ev_ID ` set (take (Suc j) (?A @ ?rest))) p n line"
  proof (cases "fst ?r")
    case Nil
    then show ?thesis by (auto simp: line_kept_def)
  next
    case (Cons e es)
    then show ?thesis using first_event_id [OF Cons] by (simp add: line_kept_def)
  qed
  show ?case
  proof (cases "j < length ?A")
    case True
    then have "ev_SourceFile ((?A @ ?rest) ! j) = p" "ev_SourceOffset ((?A @ ?rest) ! j) = word_of_nat ?n"
      by (simp_all add: nth_append)
    then show ?thesis
      using first unfolding all by (intro exI [of _ 1]) (simp add: line_bytes_def)
  next
    case False
    let ?j = "j - length ?A"
    have "?j < length ?rest" using Cons.prems False unfolding all by simp
    from Cons.IH [OF this] obtain k where k: "k \<le> length lines" "ev_SourceFile (?rest ! ?j) = p"
      "ev_SourceOffset (?rest ! ?j) = word_of_nat (?n + line_bytes (take k lines))"
      "\<forall>i < k. line_kept L (ev_ID ` set (take (Suc ?j) ?rest)) p (?n + line_bytes (take i lines)) (lines ! i)" by blast
    have at: "(?A @ ?rest) ! j = ?rest ! ?j" using False by (simp add: nth_append)
    have sub: "ev_ID ` set (take (Suc ?j) ?rest) \<subseteq> ev_ID ` set (take (Suc j) (?A @ ?rest))"
      using False by (auto simp: Suc_diff_le)
    have "line_kept L (ev_ID ` set (take (Suc j) (?A @ ?rest))) p (n + line_bytes (take i (line # lines))) ((line # lines) ! i)"
      if "i < Suc k" for i
      using that first k(4) line_kept_mono [OF _ sub] by (cases i) (auto simp: line_bytes_def add.assoc)
    with k(1-3) show ?thesis
      unfolding all at by (intro exI [of _ "Suc k"]) (simp add: line_bytes_def)
  qed
qed simp

text \<open>\<open>reaches\<close>: the offset is the end of a line, and \<open>ids\<close> keep the lines before it.\<close>

definition reaches :: "LogLib \<Rightarrow> string set \<Rightarrow> (string \<Rightarrow> string list) \<Rightarrow> string \<Rightarrow> int64 \<Rightarrow> bool" where
  "reaches L ids logs p off \<longleftrightarrow> (\<exists>k. kept L ids logs p k \<and> off = word_of_nat (line_start logs p k))"

lemma reaches_mono: "reaches L ids logs p off \<Longrightarrow> ids \<subseteq> ids' \<Longrightarrow> reaches L ids' logs p off"
  by (auto simp: reaches_def intro: kept_mono)

lemma reaches_grow: "reaches L ids logs p off \<Longrightarrow> reaches L ids (logs(q := logs q @ added)) p off"
  using kept_grow unfolding reaches_def by metis

definition logs_ok :: "(string \<Rightarrow> string list) \<Rightarrow> bool" where
  "logs_ok logs \<longleftrightarrow> (\<forall>p. list_all (is_line MiB) (logs p) \<and> line_bytes (logs p) < 2 ^ 63)"

definition log_text :: "(string \<Rightarrow> string list) \<Rightarrow> string \<Rightarrow> string" where
  "log_text logs p = concat (map as_line (logs p))"

definition rows :: "Store \<Rightarrow> string set" where
  "rows s = row_id ` set (db_events s)"

definition offset_of :: "Store \<Rightarrow> string \<Rightarrow> int64" where
  "offset_of s p = (case db_offsets s p of Some (n, _) \<Rightarrow> n | None \<Rightarrow> 0)"

text \<open>In flight: each event's offset is reached by the rows and the events before it and itself.\<close>

definition in_flight :: "LogLib \<Rightarrow> string set \<Rightarrow> (string \<Rightarrow> string list) \<Rightarrow> AuditEvent list \<Rightarrow> bool" where
  "in_flight L ids logs sent \<longleftrightarrow>
     (\<forall>j < length sent. ev_SourceFile (sent ! j) \<noteq> [] \<and>
        reaches L (ids \<union> ev_ID ` set (take (Suc j) sent)) logs (ev_SourceFile (sent ! j)) (ev_SourceOffset (sent ! j)))"

definition watch_inv :: "LogLib \<Rightarrow> (string \<Rightarrow> string list) \<Rightarrow> WatchState \<Rightarrow> bool" where
  "watch_inv L logs st \<longleftrightarrow> logs_ok logs \<and>
     (\<forall>p. reaches L (rows (wt_store st)) logs p (offset_of (wt_store st) p)) \<and>
     in_flight L (rows (wt_store st)) logs (wt_sent st)"

text \<open>The files of an operation are the logs, and there is room on the channel.\<close>

definition shows_logs :: "WatchIo \<Rightarrow> (string \<Rightarrow> string list) \<Rightarrow> bool" where
  "shows_logs io logs \<longleftrightarrow> (\<forall>p. (wi_files io p = None \<or> wi_files io p = Some (log_text logs p)) \<and> wi_accepts io p = (\<lambda>_. True))"

lemma log_text_split:
  assumes "logs_ok logs" "k \<le> length (logs p)"
  shows "log_text logs p = concat (map as_line (take k (logs p))) @ concat (map as_line (drop k (logs p)))"
    "length (concat (map as_line (take k (logs p)))) = line_start logs p k"
    "scan_lines MiB (concat (map as_line (drop k (logs p)))) = drop k (logs p)"
    "line_start logs p k + line_bytes (drop k (logs p)) = line_start logs p (length (logs p))"
    "line_start logs p (length (logs p)) < 2 ^ 63"
proof -
  show "log_text logs p = concat (map as_line (take k (logs p))) @ concat (map as_line (drop k (logs p)))"
    unfolding log_text_def by (subst append_take_drop_id [of k "logs p", symmetric]) (simp del: append_take_drop_id)
  show "length (concat (map as_line (take k (logs p)))) = line_start logs p k" by (simp add: length_lines line_start_def)
  have "list_all (is_line MiB) (drop k (logs p))"
    using assms(1) by (auto simp: logs_ok_def list_all_iff dest: in_set_dropD)
  then show "scan_lines MiB (concat (map as_line (drop k (logs p)))) = drop k (logs p)" by (rule scan_lines_lines)
  show "line_start logs p k + line_bytes (drop k (logs p)) = line_start logs p (length (logs p))"
    using line_bytes_append [of "take k (logs p)" "drop k (logs p)"] by (simp add: line_start_def)
  show "line_start logs p (length (logs p)) < 2 ^ 63" using assms(1) by (simp add: logs_ok_def line_start_def)
qed

lemma line_start_drop: "line_start logs p k + line_bytes (take i (drop k (logs p))) = line_start logs p (k + i)"
  by (simp add: line_start_def take_add)

lemma kept_extend:
  assumes "kept L ids logs p k" "k + n \<le> length (logs p)"
    "\<And>i. i < n \<Longrightarrow> line_kept L ids p (line_start logs p k + line_bytes (take i (drop k (logs p)))) (drop k (logs p) ! i)"
  shows "kept L ids logs p (k + n)"
proof -
  have "line_kept L ids p (line_start logs p i) (logs p ! i)" if "i < k + n" for i
  proof (cases "i < k")
    case False
    then have i: "i = k + (i - k)" "i - k < n" using that by auto
    have "drop k (logs p) ! (i - k) = logs p ! i" using i assms(2) by simp
    with assms(3) [OF i(2)] i(1) show ?thesis unfolding line_start_drop by simp
  qed (use assms(1) in \<open>simp add: kept_def\<close>)
  with assms(2) show ?thesis by (simp add: kept_def)
qed

text \<open>What one reading sends from a reached offset.\<close>

lemma end_marked_length [simp]: "length (end_marked off es) = length es"
  by (auto simp: end_marked_def)

lemma end_marked_ids: "map ev_ID (end_marked off es) = map ev_ID es"
  by (cases es rule: rev_cases) (auto simp: end_marked_def)

lemma end_marked_nth:
  assumes "j < length es"
  shows "end_marked off es ! j = (if Suc j = length es then (last es)\<lparr>ev_SourceOffset := off\<rparr> else es ! j)"
  using assms by (cases es rule: rev_cases) (auto simp: end_marked_def nth_append)

lemma reading_sends:
  assumes "logs_ok logs" "kept L ids logs p k" "p \<noteq> []"
    "M = marked L clock p (word_of_nat (line_start logs p k)) (drop k (logs p)) ps"
    "N = end_marked (word_of_nat (line_start logs p (length (logs p)))) M"
  shows "in_flight L ids logs N" "kept L (ids \<union> ev_ID ` set N) logs p (length (logs p))"
proof -
  let ?n = "line_start logs p k" and ?ds = "drop k (logs p)"
  have k: "k \<le> length (logs p)" using assms(2) by (simp add: kept_def)
  have ids: "ev_ID ` set (take m N) = ev_ID ` set (take m M)" for m
    unfolding image_set take_map [symmetric] assms(5) end_marked_ids by (rule refl)
  have all: "kept L (ids \<union> ev_ID ` set M) logs p (k + (length (logs p) - k))"
  proof (rule kept_extend)
    show "kept L (ids \<union> ev_ID ` set M) logs p k" by (rule kept_mono [OF assms(2)]) simp
    show "k + (length (logs p) - k) \<le> length (logs p)" using k by simp
    fix i assume "i < length (logs p) - k"
    then have "i < length ?ds" by simp
    from marked_kept [OF this, of L clock p ?n ps]
    show "line_kept L (ids \<union> ev_ID ` set M) p (?n + line_bytes (take i ?ds)) (?ds ! i)"
      unfolding assms(4) by (rule line_kept_mono) simp
  qed
  then have full: "kept L (ids \<union> ev_ID ` set M) logs p (length (logs p))" using k by simp
  have len: "length N = length M" by (simp add: assms(5))
  then have "ev_ID ` set N = ev_ID ` set M" using ids [of "length M"] by simp
  with full show "kept L (ids \<union> ev_ID ` set N) logs p (length (logs p))" by simp
  show "in_flight L ids logs N"
    unfolding in_flight_def
  proof (intro allI impI)
    fix j assume "j < length N"
    then have j: "j < length M" by (simp add: len)
    from marked_prefix_kept [OF j [unfolded assms(4)]] obtain m where m: "m \<le> length ?ds" "ev_SourceFile (M ! j) = p"
      "ev_SourceOffset (M ! j) = word_of_nat (?n + line_bytes (take m ?ds))"
      "\<forall>i < m. line_kept L (ev_ID ` set (take (Suc j) M)) p (?n + line_bytes (take i ?ds)) (?ds ! i)"
      unfolding assms(4) by blast
    show "ev_SourceFile (N ! j) \<noteq> [] \<and>
        reaches L (ids \<union> ev_ID ` set (take (Suc j) N)) logs (ev_SourceFile (N ! j)) (ev_SourceOffset (N ! j))"
    proof (cases "Suc j = length M")
      case True
      then have "M \<noteq> []" by auto
      then have "last M = M ! j" by (simp add: last_conv_nth True [symmetric])
      then have "ev_SourceFile (N ! j) = p" "ev_SourceOffset (N ! j) = word_of_nat (line_start logs p (length (logs p)))"
        using m(2) True j by (simp_all add: assms(5) end_marked_nth)
      moreover have "ev_ID ` set (take (Suc j) N) = ev_ID ` set M" unfolding ids using True by simp
      ultimately show ?thesis using full assms(3) by (auto simp: reaches_def)
    next
      case False
      then have at: "N ! j = M ! j" using j by (simp add: assms(5) end_marked_nth)
      have "kept L (ids \<union> ev_ID ` set (take (Suc j) M)) logs p (k + m)"
      proof (rule kept_extend)
        show "kept L (ids \<union> ev_ID ` set (take (Suc j) M)) logs p k" by (rule kept_mono [OF assms(2)]) simp
        show "k + m \<le> length (logs p)" using m(1) k by simp
        fix i assume "i < m"
        with m(4) have "line_kept L (ev_ID ` set (take (Suc j) M)) p (?n + line_bytes (take i ?ds)) (?ds ! i)" by blast
        then show "line_kept L (ids \<union> ev_ID ` set (take (Suc j) M)) p (?n + line_bytes (take i ?ds)) (?ds ! i)"
          by (rule line_kept_mono) simp
      qed
      then have "reaches L (ids \<union> ev_ID ` set (take (Suc j) M)) logs p (ev_SourceOffset (M ! j))"
        unfolding reaches_def m(3) line_start_drop by blast
      then show ?thesis using m(2) assms(3) unfolding at ids by simp
    qed
  qed
qed

section \<open>Every operation keeps what is kept\<close>

lemma GetFileOffset_store:
  "GetFileOffset s p = (r, s') \<Longrightarrow> rows s' = rows s \<and> offset_of s' = offset_of s \<and> (\<forall>n. r = Inr n \<longrightarrow> n = offset_of s p)"
  by (auto simp: GetFileOffset_def db_call_def rows_def offset_of_def [abs_def] split: option.splits prod.splits)

lemma SetFileOffset_store:
  "rows (snd (SetFileOffset s p n)) = rows s"
  "offset_of (snd (SetFileOffset s p n)) q = (if q = p \<and> fst (SetFileOffset s p n) = None then n else offset_of s q)"
  by (auto simp: SetFileOffset_def db_call_def rows_def offset_of_def Let_def split: option.splits)

lemma in_flight_append:
  assumes "in_flight L ids logs xs" "in_flight L ids logs ys"
  shows "in_flight L ids logs (xs @ ys)"
  unfolding in_flight_def
proof (intro allI impI)
  fix j assume j: "j < length (xs @ ys)"
  show "ev_SourceFile ((xs @ ys) ! j) \<noteq> [] \<and> reaches L (ids \<union> ev_ID ` set (take (Suc j) (xs @ ys))) logs
      (ev_SourceFile ((xs @ ys) ! j)) (ev_SourceOffset ((xs @ ys) ! j))"
  proof (cases "j < length xs")
    case True
    then show ?thesis using assms(1) by (auto simp: in_flight_def nth_append)
  next
    case False
    then have i: "j - length xs < length ys" "take (Suc j) (xs @ ys) = xs @ take (Suc (j - length xs)) ys"
      using j by (auto simp: Suc_diff_le)
    have "reaches L (ids \<union> ev_ID ` set (take (Suc j) (xs @ ys))) logs (ev_SourceFile (ys ! (j - length xs))) (ev_SourceOffset (ys ! (j - length xs)))"
      using assms(2) i(1) unfolding in_flight_def i(2) by (auto elim!: reaches_mono)
    then show ?thesis using assms(2) i(1) False by (auto simp: in_flight_def nth_append)
  qed
qed

lemma tail_path_kept:
  assumes "watch_inv L logs st" "shows_logs io logs" "p \<noteq> []"
  shows "watch_inv L logs (tail_path L io p st)"
    and "fst (GetFileOffset (wt_store st) p) = Inr n \<Longrightarrow> wi_files io p \<noteq> None \<Longrightarrow>
      kept L (rows (wt_store (tail_path L io p st)) \<union> ev_ID ` set (wt_sent (tail_path L io p st))) logs p (length (logs p))"
    and "rows (wt_store (tail_path L io p st)) = rows (wt_store st) \<and> (\<exists>es. wt_sent (tail_path L io p st) = wt_sent st @ es)"
proof -
  obtain r s where g: "GetFileOffset (wt_store st) p = (r, s)" by (cases "GetFileOffset (wt_store st) p")
  note gs = GetFileOffset_store [OF g]
  have inv: "logs_ok logs" "\<And>q. reaches L (rows (wt_store st)) logs q (offset_of (wt_store st) q)"
    "in_flight L (rows (wt_store st)) logs (wt_sent st)"
    using assms(1) by (auto simp: watch_inv_def)
  show "watch_inv L logs (tail_path L io p st)"
    and "fst (GetFileOffset (wt_store st) p) = Inr n \<Longrightarrow> wi_files io p \<noteq> None \<Longrightarrow>
      kept L (rows (wt_store (tail_path L io p st)) \<union> ev_ID ` set (wt_sent (tail_path L io p st))) logs p (length (logs p))"
    and "rows (wt_store (tail_path L io p st)) = rows (wt_store st) \<and> (\<exists>es. wt_sent (tail_path L io p st) = wt_sent st @ es)"
  proof (atomize (full), cases "(\<exists>n. r = Inr n) \<and> wi_files io p \<noteq> None")
    case False
    then have "tailFile L (wi_clock io p) (wi_accepts io p) p r (wi_files io p) (wt_parser st) = ([], None, wt_parser st)"
      by (cases r; cases "wi_files io p") (auto simp: tailFile_def)
    then have "tail_path L io p st = st\<lparr>wt_store := s, wt_sent := wt_sent st, wt_parser := wt_parser st\<rparr>"
      by (simp add: tail_path_def g)
    with False inv gs g show "watch_inv L logs (tail_path L io p st) \<and>
      (fst (GetFileOffset (wt_store st) p) = Inr n \<longrightarrow> wi_files io p \<noteq> None \<longrightarrow>
        kept L (rows (wt_store (tail_path L io p st)) \<union> ev_ID ` set (wt_sent (tail_path L io p st))) logs p (length (logs p))) \<and>
      rows (wt_store (tail_path L io p st)) = rows (wt_store st) \<and> (\<exists>es. wt_sent (tail_path L io p st) = wt_sent st @ es)"
      by (auto simp: watch_inv_def)
  next
    case True
    then have r: "r = Inr (offset_of (wt_store st) p)" and found: "wi_files io p = Some (log_text logs p)" and acc: "wi_accepts io p = (\<lambda>_. True)"
      using gs assms(2) [unfolded shows_logs_def, rule_format, of p] by auto
    from inv(2) [of p] obtain k where k: "kept L (rows (wt_store st)) logs p k"
      and off: "offset_of (wt_store st) p = word_of_nat (line_start logs p k)" unfolding reaches_def by blast
    have kl: "k \<le> length (logs p)" using k by (simp add: kept_def)
    note parts = log_text_split [where k = k, OF inv(1) kl]
    let ?pre = "concat (map as_line (take k (logs p)))" and ?rest = "concat (map as_line (drop k (logs p)))"
    define M where "M = marked L (wi_clock io p) p (word_of_nat (line_start logs p k)) (drop k (logs p)) (wt_parser st)"
    define N where "N = end_marked (word_of_nat (line_start logs p (length (logs p)))) M"
    have small: "length ?pre + line_bytes (drop k (logs p)) < 2 ^ 63" unfolding parts(2,4) by (rule parts(5))
    obtain ps where t: "tailFile L (wi_clock io p) (\<lambda>_. True) p (Inr (word_of_nat (line_start logs p k))) (Some (log_text logs p)) (wt_parser st) =
        (N, if M = [] \<and> drop k (logs p) \<noteq> [] then Some (word_of_nat (line_start logs p (length (logs p)))) else None, ps)"
      using tailFile_sends [OF parts(3) small, of L "wi_clock io p" p "wt_parser st"]
      unfolding parts(2,4) parts(1) [symmetric] M_def [symmetric] N_def [symmetric] by (auto split: prod.splits)
    note sends = reading_sends [OF inv(1) k assms(3) M_def N_def]
    have st': "tail_path L io p st = st\<lparr>wt_store := (if M = [] \<and> drop k (logs p) \<noteq> []
          then snd (SetFileOffset s p (word_of_nat (line_start logs p (length (logs p))))) else s),
        wt_sent := wt_sent st @ N, wt_parser := ps\<rparr>"
      by (simp add: tail_path_def g r found acc off t)
    have rows: "rows (wt_store (tail_path L io p st)) = rows (wt_store st)"
      using gs by (simp add: st' SetFileOffset_store)
    have sent: "wt_sent (tail_path L io p st) = wt_sent st @ N" by (simp add: st')
    have "reaches L (rows (wt_store st)) logs q (offset_of (wt_store (tail_path L io p st)) q)" for q
    proof (cases "M = [] \<and> drop k (logs p) \<noteq> [] \<and> q = p")
      case True
      then have "kept L (rows (wt_store st)) logs p (length (logs p))" using sends(2) by (simp add: N_def end_marked_def)
      then have "reaches L (rows (wt_store st)) logs p (word_of_nat (line_start logs p (length (logs p))))"
        by (auto simp: reaches_def)
      then show ?thesis using True inv(2) [of q] gs by (simp add: st' SetFileOffset_store)
    next
      case False
      then show ?thesis using inv(2) [of q] gs by (auto simp: st' SetFileOffset_store)
    qed
    moreover have "in_flight L (rows (wt_store st)) logs (wt_sent st @ N)"
      by (rule in_flight_append [OF inv(3) sends(1)])
    moreover have "kept L (rows (wt_store st) \<union> ev_ID ` set (wt_sent st @ N)) logs p (length (logs p))"
      by (rule kept_mono [OF sends(2)]) auto
    ultimately show "watch_inv L logs (tail_path L io p st) \<and>
      (fst (GetFileOffset (wt_store st) p) = Inr n \<longrightarrow> wi_files io p \<noteq> None \<longrightarrow>
        kept L (rows (wt_store (tail_path L io p st)) \<union> ev_ID ` set (wt_sent (tail_path L io p st))) logs p (length (logs p))) \<and>
      rows (wt_store (tail_path L io p st)) = rows (wt_store st) \<and> (\<exists>es. wt_sent (tail_path L io p st) = wt_sent st @ es)"
      using inv(1) by (auto simp: watch_inv_def rows sent)
  qed
qed

text \<open>An operation of the watcher keeps the invariant, and only adds to what it sent.\<close>

definition follows :: "LogLib \<Rightarrow> (string \<Rightarrow> string list) \<Rightarrow> WatchState \<Rightarrow> WatchState \<Rightarrow> bool" where
  "follows L logs st st' \<longleftrightarrow> (watch_inv L logs st \<longrightarrow> watch_inv L logs st') \<and>
     rows (wt_store st') = rows (wt_store st) \<and> (\<exists>es. wt_sent st' = wt_sent st @ es) \<and>
     (fault_free (wt_store st) \<longrightarrow> fault_free (wt_store st')) \<and>
     wa_logPaths (wt_watcher st') = wa_logPaths (wt_watcher st) \<and>
     (wa_polling (wt_watcher st) \<longrightarrow> wa_polling (wt_watcher st'))"

lemma follows_refl [intro, simp]: "follows L logs st st"
  by (simp add: follows_def)

lemma follows_trans: "follows L logs a b \<Longrightarrow> follows L logs b c \<Longrightarrow> follows L logs a c"
  by (auto simp: follows_def)

lemma watch_inv_watcher [simp]: "watch_inv L logs (st\<lparr>wt_watcher := w\<rparr>) = watch_inv L logs st"
  by (simp add: watch_inv_def)

lemma follows_watcher [intro]:
  "wa_logPaths w = wa_logPaths (wt_watcher st) \<Longrightarrow> (wa_polling (wt_watcher st) \<longrightarrow> wa_polling w) \<Longrightarrow> follows L logs st (st\<lparr>wt_watcher := w\<rparr>)"
  by (simp add: follows_def)

lemma fault_free_offsets:
  "fault_free s \<Longrightarrow> GetFileOffset s p = (r, s') \<Longrightarrow> (\<exists>n. r = Inr n) \<and> fault_free s'"
  "fault_free s \<Longrightarrow> fault_free (snd (SetFileOffset s p n))"
  by (auto simp: GetFileOffset_def SetFileOffset_def fault_free_call Let_def) (simp add: fault_free_def)

lemma follows_tail:
  assumes "shows_logs io logs" "has_suffix p ''.jsonl''"
  shows "follows L logs st (tail_path L io p st)"
proof -
  have p: "p \<noteq> []" using assms(2) by (auto simp: has_suffix_def)
  have "fault_free (wt_store (tail_path L io p st))" if "fault_free (wt_store st)"
    using that fault_free_offsets by (auto simp: tail_path_def split: prod.splits option.splits)
  moreover have "wt_watcher (tail_path L io p st) = wt_watcher st"
    by (simp add: tail_path_def split: prod.split)
  moreover have "rows (wt_store (tail_path L io p st)) = rows (wt_store st) \<and> (\<exists>es. wt_sent (tail_path L io p st) = wt_sent st @ es)"
    by (auto simp: tail_path_def SetFileOffset_store dest: GetFileOffset_store split: prod.split option.split)
  ultimately show ?thesis using tail_path_kept(1) [OF _ assms(1) p] by (auto simp: follows_def)
qed

lemma follows_fold: "(\<And>x st. follows L logs st (f x st)) \<Longrightarrow> follows L logs st (fold f xs st)"
  by (induction xs arbitrary: st) (auto intro: follows_trans)

lemma follows_entry: "shows_logs io logs \<Longrightarrow> follows L logs st (scan_entry L io f st)"
  using follows_tail by (auto simp: scan_entry_def Let_def split: option.split)

lemma follows_scan: "shows_logs io logs \<Longrightarrow> follows L logs st (scanAndWatch L io dir st)"
  unfolding scanAndWatch_def by (rule follows_fold) (rule follows_entry)

lemma follows_scan_all: "shows_logs io logs \<Longrightarrow> follows L logs st (scan_all L io st)"
  unfolding scan_all_def by (rule follows_fold) (rule follows_scan)

lemma follows_event: "shows_logs io logs \<Longrightarrow> follows L logs st (watch_event L io created written name st)"
  using follows_tail [of io logs name L]
  by (auto simp: watch_event_def Let_def intro: follows_trans split: option.split bool.split)

lemma follows_turn: "shows_logs io logs \<Longrightarrow> follows L logs st (watch_turn L io turn st)"
  by (auto simp: watch_turn_def follows_scan_all follows_event split: WatchTurn.split)

text \<open>A batch of the logger: its log events are the first ones in flight, as far as the store looks at them.\<close>

definition origin :: "AuditEvent \<Rightarrow> string \<times> string \<times> int64" where
  "origin e = (ev_ID e, ev_SourceFile e, ev_SourceOffset e)"

lemma row_id_row_of [simp]: "row_id (row_of e) = ev_ID e"
  by (simp add: row_id_def row_of_def col_def)

lemma inserted_ids: "row_id ` set (foldl insert_or_ignore rs (map row_of es)) = row_id ` set rs \<union> ev_ID ` set es"
  by (induction es arbitrary: rs) (auto simp: insert_or_ignore_def)

lemma batch_event:
  assumes "map origin (filter (\<lambda>e. ev_SourceFile e \<noteq> []) batch) = map origin (take m sent)" "e \<in> set batch" "ev_SourceFile e \<noteq> []"
  shows "\<exists>j < length (take m sent). ev_SourceFile (sent ! j) = ev_SourceFile e \<and> ev_SourceOffset (sent ! j) = ev_SourceOffset e"
proof -
  have "origin e \<in> set (map origin (filter (\<lambda>e. ev_SourceFile e \<noteq> []) batch))" using assms(2,3) by simp
  then have "origin e \<in> set (map origin (take m sent))" using assms(1) by simp
  then obtain j where "j < length (map origin (take m sent))" "map origin (take m sent) ! j = origin e" by (auto simp: in_set_conv_nth)
  then show ?thesis by (intro exI [of _ j]) (auto simp: origin_def)
qed

lemma batch_ids:
  assumes "map origin (filter (\<lambda>e. ev_SourceFile e \<noteq> []) batch) = map origin (take m sent)"
  shows "ev_ID ` set (take m sent) \<subseteq> ev_ID ` set batch"
proof -
  have "ev_ID ` set (take m sent) = fst ` set (map origin (take m sent))" by (force simp: origin_def)
  also have "\<dots> = ev_ID ` set (filter (\<lambda>e. ev_SourceFile e \<noteq> []) batch)" unfolding assms [symmetric] by (force simp: origin_def)
  finally show ?thesis by auto
qed

lemma highest_is_some:
  assumes "highest_offset es p > 0"
  shows "\<exists>e \<in> set es. ev_SourceFile e = p \<and> sint (ev_SourceOffset e) = highest_offset es p"
proof -
  let ?S = "{sint (ev_SourceOffset e) |e. e \<in> set es \<and> ev_SourceFile e = p}"
  have "Max (insert 0 ?S) \<in> insert 0 ?S" by (intro Max_in) auto
  with assms show ?thesis by (auto simp: highest_offset_def)
qed

lemma in_flight_drop:
  assumes "in_flight L ids logs sent" "ev_ID ` set (take m sent) \<subseteq> ids'" "ids \<subseteq> ids'"
  shows "in_flight L ids' logs (drop m sent)"
  unfolding in_flight_def
proof (intro allI impI)
  fix j assume "j < length (drop m sent)"
  then have j: "m + j < length sent" by simp
  have "take (Suc (m + j)) sent = take m sent @ take (Suc j) (drop m sent)" using take_add [of m "Suc j" sent] by simp
  then have sub: "ids \<union> ev_ID ` set (take (Suc (m + j)) sent) \<subseteq> ids' \<union> ev_ID ` set (take (Suc j) (drop m sent))"
    using assms(2,3) by auto
  show "ev_SourceFile (drop m sent ! j) \<noteq> [] \<and> reaches L (ids' \<union> ev_ID ` set (take (Suc j) (drop m sent))) logs
      (ev_SourceFile (drop m sent ! j)) (ev_SourceOffset (drop m sent ! j))"
    using assms(1) j reaches_mono [OF _ sub] unfolding in_flight_def by auto
qed

lemma commit_kept:
  assumes "watch_inv L logs st" "InsertEvents (wt_store st) batch = (err, s)"
    "map origin (filter (\<lambda>e. ev_SourceFile e \<noteq> []) batch) = map origin (take m (wt_sent st))"
  shows "watch_inv L logs (st\<lparr>wt_store := s, wt_sent := (if err = None then drop m (wt_sent st) else wt_sent st)\<rparr>)"
proof (cases "err = None")
  case False
  then have "rows s = rows (wt_store st)" "offset_of s = offset_of (wt_store st)"
    using InsertEvents_tables [of "wt_store st" batch] assms(2) by (auto simp: rows_def offset_of_def [abs_def])
  then show ?thesis using assms(1) False by (auto simp: watch_inv_def)
next
  case True
  let ?s = "wt_store st" and ?sent = "wt_sent st"
  have inv: "logs_ok logs" "\<And>q. reaches L (rows ?s) logs q (offset_of ?s q)" "in_flight L (rows ?s) logs ?sent"
    using assms(1) by (auto simp: watch_inv_def)
  have tables: "db_events s = foldl insert_or_ignore (db_events ?s) (map row_of batch)"
    "map_option (sint \<circ> fst) (db_offsets s p) = (if p \<noteq> [] \<and> highest_offset batch p > 0 then Some (highest_offset batch p)
       else map_option (sint \<circ> fst) (db_offsets ?s p))" for p
    using InsertEvents_tables [of ?s batch] assms(2) True by auto
  have ids: "rows s = rows ?s \<union> ev_ID ` set batch" by (simp add: rows_def tables(1) inserted_ids)
  have "reaches L (rows s) logs p (offset_of s p)" for p
  proof (cases "p \<noteq> [] \<and> highest_offset batch p > 0")
    case False
    then have "map_option (sint \<circ> fst) (db_offsets s p) = map_option (sint \<circ> fst) (db_offsets ?s p)" using tables(2) [of p] by (auto split: if_splits)
    then have "offset_of s p = offset_of ?s p"
      by (cases "db_offsets s p"; cases "db_offsets ?s p") (auto simp: offset_of_def intro: signed_word_eqI)
    with inv(2) [of p] show ?thesis by (auto simp: ids elim!: reaches_mono)
  next
    case True
    then obtain e where e: "e \<in> set batch" "ev_SourceFile e = p" "sint (ev_SourceOffset e) = highest_offset batch p"
      using highest_is_some by blast
    from tables(2) [of p] True obtain n t where "db_offsets s p = Some (n, t)" "sint n = highest_offset batch p" by auto
    then have "sint (offset_of s p) = sint (ev_SourceOffset e)" using e(3) by (simp add: offset_of_def)
    then have off: "offset_of s p = ev_SourceOffset e" by (rule signed_word_eqI)
    from batch_event [OF assms(3) e(1)] e(2) True obtain j where j: "j < length (take m ?sent)"
      "ev_SourceFile (?sent ! j) = p" "ev_SourceOffset (?sent ! j) = ev_SourceOffset e" by auto
    have "set (take (Suc j) ?sent) \<subseteq> set (take m ?sent)" using j(1) by (intro set_take_subset_set_take) simp
    then have sub: "rows ?s \<union> ev_ID ` set (take (Suc j) ?sent) \<subseteq> rows s" using batch_ids [OF assms(3)] by (auto simp: ids)
    have "reaches L (rows ?s \<union> ev_ID ` set (take (Suc j) ?sent)) logs p (ev_SourceOffset e)"
      using inv(3) j unfolding in_flight_def by auto
    then show ?thesis unfolding off by (rule reaches_mono [OF _ sub])
  qed
  moreover have "in_flight L (rows s) logs (drop m ?sent)"
    using batch_ids [OF assms(3)] by (intro in_flight_drop [OF inv(3)]) (auto simp: ids)
  ultimately show ?thesis using inv(1) True by (simp add: watch_inv_def)
qed

section \<open>Runs\<close>

text \<open>
  What happens around the watcher: logs grow by whole lines; the watcher starts, on the first run or
  after a crash, which loses what is in flight and the parser's state; it turns; the logger inserts
  a batch, which may fail and is kept; other calls of the store leave events and offsets. Two things are
  taken not to happen, as either loses lines: the channel of the events is never full (\<open>shows_logs\<close>), and the
  queue between the watcher and the logger does not overflow, so that what the logger inserts is a
  first part of what the watcher sent (\<open>inserted\<close>).
\<close>

inductive watching :: "LogLib \<Rightarrow> (string \<Rightarrow> string list) \<Rightarrow> WatchState \<Rightarrow> bool" for L where
  fresh: "logs_ok logs \<Longrightarrow> db_offsets s = Map.empty \<Longrightarrow>
     watching L logs \<lparr>wt_watcher = NewLogWatcher paths, wt_store = s, wt_sent = [], wt_parser = ps\<rparr>"
| grown: "watching L logs st \<Longrightarrow> logs_ok (logs(p := logs p @ added)) \<Longrightarrow> watching L (logs(p := logs p @ added)) st"
| started: "watching L logs st \<Longrightarrow> shows_logs io logs \<Longrightarrow>
     watching L logs (watcher_Start L fsnotify io \<lparr>wt_watcher = NewLogWatcher paths, wt_store = wt_store st, wt_sent = [], wt_parser = ps\<rparr>)"
| turned: "watching L logs st \<Longrightarrow> shows_logs io logs \<Longrightarrow> watching L logs (watch_turn L io turn st)"
| inserted: "watching L logs st \<Longrightarrow> InsertEvents (wt_store st) batch = (err, s) \<Longrightarrow>
     map origin (filter (\<lambda>e. ev_SourceFile e \<noteq> []) batch) = map origin (take m (wt_sent st)) \<Longrightarrow>
     watching L logs (st\<lparr>wt_store := s, wt_sent := (if err = None then drop m (wt_sent st) else wt_sent st)\<rparr>)"
| other_call: "watching L logs st \<Longrightarrow> db_events s = db_events (wt_store st) \<Longrightarrow> db_offsets s = db_offsets (wt_store st) \<Longrightarrow>
     watching L logs (st\<lparr>wt_store := s\<rparr>)"

lemma watching_inv: "watching L logs st \<Longrightarrow> watch_inv L logs st"
proof (induction rule: watching.induct)
  case (fresh logs s paths ps)
  have "kept L (rows s) logs p 0" for p by (simp add: kept_def)
  then have "reaches L (rows s) logs p 0" for p
    unfolding reaches_def by (intro exI [of _ 0]) (simp add: line_start_def)
  then show ?case using fresh by (simp add: watch_inv_def offset_of_def in_flight_def)
next
  case (grown logs st p added)
  then show ?case using reaches_grow [of L _ logs _ _ p added] by (simp add: watch_inv_def in_flight_def del: fun_upd_apply)
next
  case (started logs st io fsnotify paths ps)
  have "watch_inv L logs (st'\<lparr>wt_sent := [], wt_watcher := w, wt_parser := ps\<rparr>)" if "watch_inv L logs st'" for st' w
    using that by (simp add: watch_inv_def in_flight_def)
  from this [OF started.IH] have "watch_inv L logs \<lparr>wt_watcher = w, wt_store = wt_store st, wt_sent = [], wt_parser = ps\<rparr>" for w
    by (simp add: watch_inv_def)
  then show ?case
    using follows_scan_all [OF started.hyps(2), of L] by (simp add: watcher_Start_def follows_def Let_def)
next
  case (turned logs st io turn)
  then show ?case using follows_turn [OF turned.hyps(2), of L st turn] by (simp add: follows_def)
next
  case (inserted logs st batch err s m)
  show ?case by (rule commit_kept [OF inserted.IH inserted.hyps(2,3)])
next
  case (other_call logs st s)
  then have "rows s = rows (wt_store st)" "offset_of s = offset_of (wt_store st)" by (auto simp: rows_def offset_of_def [abs_def])
  then show ?case using other_call.IH by (simp add: watch_inv_def)
qed

text \<open>C4: No line of a log is skipped, also across crashes, as long as nothing on the way is full. While logs grow by
  whole lines of less than 1 MiB, the channel of the events has room and the queue hands on all it gets, in
  order: however the growth, the scans and notifications, the logger's batches, failing calls of the
  store and crashes that lose everything in flight interleave, the stored offset of a log is the
  end of one of its lines, and every line before it gave no events or has the row of its first
  event in the store. A full channel or an overflowing queue does lose lines.\<close>

theorem log_lines_kept:
  assumes "watching L logs st"
  shows "\<exists>k \<le> length (logs p). offset_of (wt_store st) p = word_of_nat (line_start logs p k) \<and>
    (\<forall>i < k. (\<exists>now ps. fst (ParseLineForSource L now (logs p ! i) p (word_of_nat (line_start logs p i)) ps) = []) \<or>
       deterministicID (ll_sum256 L) p (word_of_nat (line_start logs p i)) 0 (logs p ! i) \<in> row_id ` set (db_events (wt_store st)))"
  using watching_inv [OF assms]
  unfolding watch_inv_def reaches_def kept_def line_kept_def rows_def by blast

text \<open>A log of one line, read at a start that has to poll, and its event inserted.\<close>

definition sample_logs :: "string \<Rightarrow> string list" where
  "sample_logs = (\<lambda>p. if p = ''/d/a.jsonl'' then [''x''] else [])"

definition sample_watch_io :: WatchIo where
  "sample_watch_io = \<lparr>wi_walk = (\<lambda>_. [\<lparr>we_path = ''/d'', we_isDir = True, we_failed = False, we_modTime = 0\<rparr>,
       \<lparr>we_path = ''/d/a.jsonl'', we_isDir = False, we_failed = False, we_modTime = 0\<rparr>]),
     wi_files = (\<lambda>p. Some (log_text sample_logs p)), wi_add_error = (\<lambda>_. None), wi_stat = (\<lambda>_. Some False),
     wi_clock = (\<lambda>_ _ _. 0), wi_accepts = (\<lambda>_ _. True)\<rparr>"

definition sample_watch_start :: WatchState where
  "sample_watch_start = watcher_Start sample_log_lib (Some ''no inotify'') sample_watch_io
     \<lparr>wt_watcher = NewLogWatcher [''/d''], wt_store = empty_db, wt_sent = [], wt_parser = sample_parser\<rparr>"

lemma sample_logs_ok: "logs_ok sample_logs"
  by (simp add: logs_ok_def sample_logs_def is_line_def MiB_def newline_def creturn_def line_bytes_def)

lemma sample_watching: "watching sample_log_lib sample_logs sample_watch_start"
proof -
  have "watching sample_log_lib sample_logs \<lparr>wt_watcher = NewLogWatcher [''/d''], wt_store = empty_db, wt_sent = [], wt_parser = sample_parser\<rparr>"
    by (rule fresh) (simp_all add: sample_logs_ok empty_db_def)
  from started [OF this, of sample_watch_io "Some ''no inotify''" "[''/d'']" sample_parser]
  show ?thesis by (simp add: sample_watch_start_def sample_watch_io_def shows_logs_def)
qed

definition sample_watch_zero :: WatchState where
  "sample_watch_zero = \<lparr>wt_watcher = (NewLogWatcher [''/d''])\<lparr>wa_polling := True\<rparr>, wt_store = empty_db, wt_sent = [], wt_parser = sample_parser\<rparr>"

lemma sample_start_tail: "sample_watch_start = tail_path sample_log_lib sample_watch_io ''/d/a.jsonl'' sample_watch_zero"
  by (simp add: sample_watch_start_def watcher_Start_def scan_all_def scanAndWatch_def scan_entry_def Let_def NewLogWatcher_def
      sample_watch_zero_def has_suffix_def sample_watch_io_def [THEN arg_cong, of wi_walk])

lemma sample_marked: "length (marked sample_log_lib (\<lambda>_ _. 0) ''/d/a.jsonl'' 0 [''x''] sample_parser) = 1"
  by (simp add: ParseLineForSource_def isCodexSource_def replace_char_def looksLikeCodexLine_def sample_log_lib_def ParseLine_def)

lemma sample_sent:
  "\<exists>e. wt_sent sample_watch_start = [e] \<and> ev_SourceFile e = ''/d/a.jsonl'' \<and> ev_SourceOffset e = 2 \<and>
     fault_free (wt_store sample_watch_start) \<and> db_events (wt_store sample_watch_start) = []"
proof -
  obtain e where m: "marked sample_log_lib (\<lambda>_ _. 0) ''/d/a.jsonl'' 0 [''x''] sample_parser = [e]"
    using sample_marked by (auto simp: length_Suc_conv)
  have g: "GetFileOffset empty_db ''/d/a.jsonl'' = (Inr 0, empty_db\<lparr>db_calls := 1\<rparr>)"
    by (simp add: GetFileOffset_def db_call_def empty_db_def)
  have "scan_lines MiB (as_line ''x'') = [''x'']" using scan_lines_lines [of MiB "[''x'']"] by (simp add: is_line_def MiB_def newline_def creturn_def)
  from tailFile_sends [OF this, of "[]" sample_log_lib "\<lambda>_ _. 0" "''/d/a.jsonl''" sample_parser]
  obtain ps where t: "tailFile sample_log_lib (\<lambda>_ _. 0) (\<lambda>_. True) ''/d/a.jsonl'' (Inr 0) (Some (as_line ''x'')) sample_parser =
      ([e\<lparr>ev_SourceOffset := 2\<rparr>], None, ps)"
    by (auto simp: m line_bytes_def end_marked_def simp del: marked.simps split: prod.splits)
  have io: "wi_clock sample_watch_io p = (\<lambda>_ _. 0)" "wi_accepts sample_watch_io p = (\<lambda>_. True)"
    "wi_files sample_watch_io ''/d/a.jsonl'' = Some (as_line ''x'')" for p
    by (simp_all add: sample_watch_io_def log_text_def sample_logs_def)
  have st: "sample_watch_start = sample_watch_zero\<lparr>wt_store := empty_db\<lparr>db_calls := 1\<rparr>, wt_sent := [e\<lparr>ev_SourceOffset := 2\<rparr>], wt_parser := ps\<rparr>"
    by (simp add: sample_start_tail tail_path_def io sample_watch_zero_def g t)
  have "ev_SourceFile e = ''/d/a.jsonl''"
    using marked_prefix_kept [of 0 sample_log_lib "\<lambda>_ _. 0" "''/d/a.jsonl''" 0 "[''x'']" sample_parser] by (auto simp: m simp del: marked.simps)
  then show ?thesis unfolding st by (intro exI [of _ "e\<lparr>ev_SourceOffset := 2\<rparr>"]) (simp add: fault_free_def empty_db_def)
qed

lemma sample_inserted:
  "\<exists>s. InsertEvents (wt_store sample_watch_start) (wt_sent sample_watch_start) = (None, s) \<and> offset_of s ''/d/a.jsonl'' = 2"
proof -
  obtain e where e: "wt_sent sample_watch_start = [e]" "ev_SourceFile e = ''/d/a.jsonl''" "ev_SourceOffset e = 2"
    "fault_free (wt_store sample_watch_start)" using sample_sent by blast
  obtain s where s: "InsertEvents (wt_store sample_watch_start) [e] = (None, s)" using InsertEvents_fault_free [OF e(4)] by blast
  have "highest_offset [e] ''/d/a.jsonl'' = 2" using highest_offset_snoc [of "[]" e] e(2,3) by (simp add: highest_offset_def)
  then have "map_option (sint \<circ> fst) (db_offsets s ''/d/a.jsonl'') = Some 2"
    using InsertEvents_tables [of "wt_store sample_watch_start" "[e]"] by (simp add: s)
  then obtain n t where n: "db_offsets s ''/d/a.jsonl'' = Some (n, t)" "sint n = 2" by auto
  have "sint n = sint (2 :: int64)" by (simp add: n(2))
  then have "n = 2" by (rule signed_word_eqI)
  then have "offset_of s ''/d/a.jsonl'' = 2" by (simp add: offset_of_def n(1))
  with s e(1) show ?thesis by simp
qed

theorem log_lines_kept_witness:
  "\<exists>st. watching sample_log_lib sample_logs st \<and> offset_of (wt_store st) ''/d/a.jsonl'' = 2 \<and>
    (\<exists>k \<le> 1. 2 = (word_of_nat (line_start sample_logs ''/d/a.jsonl'' k) :: int64))"
proof -
  let ?st = "sample_watch_start"
  obtain s where s: "InsertEvents (wt_store ?st) (wt_sent ?st) = (None, s)" "offset_of s ''/d/a.jsonl'' = 2"
    using sample_inserted by blast
  have "filter (\<lambda>e. ev_SourceFile e \<noteq> []) (wt_sent ?st) = wt_sent ?st"
    using sample_sent by auto
  then have w: "watching sample_log_lib sample_logs (?st\<lparr>wt_store := s, wt_sent := []\<rparr>)"
    using inserted [OF sample_watching s(1), of "length (wt_sent ?st)"] by simp
  then show ?thesis
    using log_lines_kept [OF w, of "''/d/a.jsonl''"] s(2) by (intro exI [of _ "?st\<lparr>wt_store := s, wt_sent := []\<rparr>"]) (auto simp: sample_logs_def)
qed

text \<open>A fold that meets an entry ends with that log read.\<close>

lemma fold_reads:
  assumes "x \<in> set xs" "\<And>x st. follows L logs st (f x st)" "R st"
    "\<And>st st'. R st \<Longrightarrow> follows L logs st st' \<Longrightarrow> R st'" "\<And>st. R st \<Longrightarrow> Q (f x st)" "\<And>st st'. Q st \<Longrightarrow> follows L logs st st' \<Longrightarrow> Q st'"
  shows "Q (fold f xs st)"
  using assms(1,3)
proof (induction xs arbitrary: st)
  case (Cons y ys)
  show ?case
  proof (cases "x = y")
    case True
    have "Q (f y st)" using assms(5) [OF Cons.prems(2)] True by simp
    then show ?thesis using assms(6) follows_fold [of L logs f "f y st" ys, OF assms(2)] by simp
  next
    case False
    then show ?thesis using Cons assms(4) [OF Cons.prems(2) assms(2) [of st y]] by simp
  qed
qed simp

definition all_seen :: "LogLib \<Rightarrow> (string \<Rightarrow> string list) \<Rightarrow> string \<Rightarrow> WatchState \<Rightarrow> bool" where
  "all_seen L logs p st \<longleftrightarrow> kept L (rows (wt_store st) \<union> ev_ID ` set (wt_sent st)) logs p (length (logs p))"

lemma all_seen_follows: "all_seen L logs p st \<Longrightarrow> follows L logs st st' \<Longrightarrow> all_seen L logs p st'"
  unfolding all_seen_def follows_def by (elim conjE exE) (rule kept_mono, auto)

lemma scan_reads:
  assumes "shows_logs io logs" "watch_inv L logs st" "fault_free (wt_store st)" "dir \<in> set (wa_logPaths (wt_watcher st))"
    "f \<in> set (wi_walk io dir)" "\<not> we_failed f" "\<not> we_isDir f" "has_suffix (we_path f) ''.jsonl''" "wi_files io (we_path f) \<noteq> None"
  shows "all_seen L logs (we_path f) (scan_all L io st)"
proof -
  let ?R = "\<lambda>st. watch_inv L logs st \<and> fault_free (wt_store st)"
  have R: "?R st'" if "?R st" "follows L logs st st'" for st st' using that by (simp add: follows_def)
  have p: "we_path f \<noteq> []" using assms(8) by (auto simp: has_suffix_def)
  have read: "all_seen L logs (we_path f) (scan_entry L io f st)" if ok: "?R st" for st
  proof -
    obtain n where "fst (GetFileOffset (wt_store st) (we_path f)) = Inr n"
      using fault_free_offsets(1) [OF _ prod.collapse [symmetric], of "wt_store st" "we_path f"] ok by auto
    from tail_path_kept(2) [OF _ assms(1) p this assms(9)] ok
    show ?thesis by (simp add: all_seen_def scan_entry_def Let_def assms(6-8))
  qed
  have dir: "all_seen L logs (we_path f) (scanAndWatch L io dir st)" if "?R st" for st
    unfolding scanAndWatch_def
  proof (rule fold_reads [OF assms(5) follows_entry [OF assms(1)], where R = ?R])
  qed (fact that, fact R, erule read, erule (1) all_seen_follows)
  show ?thesis
    unfolding scan_all_def
  proof (rule fold_reads [OF assms(4) follows_scan [OF assms(1)], where R = ?R])
  qed (use assms(2,3) in simp, fact R, erule dir, erule (1) all_seen_follows)
qed

text \<open>C28: A poll catches up with every log it lists, when nothing fails and nothing is full. In polling mode, while logs grow
  by whole lines, the store does not fail and the channel has room, after a turn of the poller each line
  of a listed log that can be read, however much it had grown, gave no events or has its first event in
  the store or on its way there.\<close>

theorem poll_catches_up:
  assumes "watching L logs st" "shows_logs io logs" "fault_free (wt_store st)" "wa_polling (wt_watcher st)"
    "dir \<in> set (wa_logPaths (wt_watcher st))" "f \<in> set (wi_walk io dir)" "\<not> we_failed f" "\<not> we_isDir f"
    "has_suffix (we_path f) ''.jsonl''" "wi_files io (we_path f) \<noteq> None" "i < length (logs (we_path f))"
  shows "let st' = watch_turn L io PollTick st; n = word_of_nat (line_start logs (we_path f) i); line = logs (we_path f) ! i in
    (\<exists>now ps. fst (ParseLineForSource L now line (we_path f) n ps) = []) \<or>
    deterministicID (ll_sum256 L) (we_path f) n 0 line \<in> row_id ` set (db_events (wt_store st')) \<union> ev_ID ` set (wt_sent st')"
  using scan_reads [OF assms(2) watching_inv [OF assms(1)] assms(3,5-10)] assms(4,11)
  by (simp add: watch_turn_def all_seen_def kept_def line_kept_def rows_def Let_def)

theorem poll_catches_up_witness:
  "let st' = watch_turn sample_log_lib sample_watch_io PollTick sample_watch_start in
    (\<exists>now ps. fst (ParseLineForSource sample_log_lib now ''x'' ''/d/a.jsonl'' 0 ps) = []) \<or>
    deterministicID (ll_sum256 sample_log_lib) ''/d/a.jsonl'' 0 0 ''x'' \<in> row_id ` set (db_events (wt_store st')) \<union> ev_ID ` set (wt_sent st')"
proof -
  let ?f = "\<lparr>we_path = ''/d/a.jsonl'', we_isDir = False, we_failed = False, we_modTime = 0\<rparr>"
  have "shows_logs sample_watch_io sample_logs" by (simp add: shows_logs_def sample_watch_io_def)
  moreover from this have "follows sample_log_lib sample_logs sample_watch_zero sample_watch_start"
    unfolding sample_start_tail by (rule follows_tail) (simp add: has_suffix_def)
  then have "fault_free (wt_store sample_watch_start)" "wa_logPaths (wt_watcher sample_watch_start) = [''/d'']"
    "wa_polling (wt_watcher sample_watch_start)"
    by (simp_all add: follows_def sample_watch_zero_def NewLogWatcher_def fault_free_def empty_db_def)
  moreover have "?f \<in> set (wi_walk sample_watch_io ''/d'')" "wi_files sample_watch_io (we_path ?f) \<noteq> None"
    by (simp_all add: sample_watch_io_def)
  moreover have "has_suffix (we_path ?f) ''.jsonl''" by (simp add: has_suffix_def)
  ultimately show ?thesis
    using poll_catches_up [OF sample_watching, of sample_watch_io "''/d''" ?f 0]
    by (simp add: sample_logs_def line_start_def Let_def)
qed

end
