(* ===== verification/Ipc_Server.thy ===== *)
theory Ipc_Server
  imports Ipc
begin

text \<open>
  The life of the server of \<open>internal/ipc/server.go\<close> (starting, accepting, stopping), as a step relation,
  and the subscribing call of \<open>internal/ipc/client.go\<close>, composed with the server's side of \<open>Ipc\<close>.
\<close>

section \<open>Starting, accepting, stopping\<close>

text \<open>\<open>ln_conns\<close> are the connections whose goroutine has not ended, with the user of their peer, and
  \<open>ln_socket\<close> says whether the socket file is there.\<close>

record Listener =
  ln_uid :: "32 word"
  ln_listening :: bool
  ln_accepting :: bool
  ln_done :: bool
  ln_conns :: "(nat \<times> 32 word) set"
  ln_next :: nat
  ln_socket :: bool
  ln_returned :: bool

definition new_listener :: "32 word \<Rightarrow> Listener" where
  "new_listener uid = \<lparr>ln_uid = uid, ln_listening = False, ln_accepting = False, ln_done = False, ln_conns = {}, ln_next = 0,
     ln_socket = False, ln_returned = False\<rparr>"

text \<open>The errors of making the directory, of listening and of \<open>Chmod\<close>; a listener that is closed takes
  its socket with it.\<close>

definition server_Start :: "error option \<Rightarrow> error option \<Rightarrow> error option \<Rightarrow> Listener \<Rightarrow> error option \<times> Listener" where
  "server_Start mkdir listening chmod s =
     (case mkdir of
        Some err \<Rightarrow> (Some (''create socket dir: '' @ err), s)
      | None \<Rightarrow>
          (case listening of
             Some err \<Rightarrow> (Some (''listen: '' @ err), s\<lparr>ln_socket := False\<rparr>)
           | None \<Rightarrow>
               (case chmod of
                  Some err \<Rightarrow> (Some (''chmod socket: '' @ err), s\<lparr>ln_socket := False\<rparr>)
                | None \<Rightarrow> (None, s\<lparr>ln_listening := True, ln_accepting := True, ln_socket := True\<rparr>))))"

datatype ServerStep = Accepted | Rejected | AcceptFailed | ConnEnded nat | StopCalled | StopReturned

inductive server_step :: "Listener \<Rightarrow> ServerStep \<Rightarrow> Listener \<Rightarrow> bool" where
  accepted: "ln_accepting s \<Longrightarrow> ln_listening s \<Longrightarrow> verifyPeer (ln_uid s) peer = None \<Longrightarrow> peer = Inr uid \<Longrightarrow>
     server_step s Accepted (s\<lparr>ln_conns := insert (ln_next s, uid) (ln_conns s), ln_next := Suc (ln_next s)\<rparr>)"
| rejected: "ln_accepting s \<Longrightarrow> ln_listening s \<Longrightarrow> verifyPeer (ln_uid s) peer = Some err \<Longrightarrow>
     server_step s Rejected (s\<lparr>ln_next := Suc (ln_next s)\<rparr>)"
| accept_failed: "ln_accepting s \<Longrightarrow> server_step s AcceptFailed (if ln_done s then s\<lparr>ln_accepting := False\<rparr> else s)"
| conn_ended: "(i, uid) \<in> ln_conns s \<Longrightarrow> server_step s (ConnEnded i) (s\<lparr>ln_conns := ln_conns s - {(i, uid)}\<rparr>)"
| stop_called: "\<not> ln_done s \<Longrightarrow> server_step s StopCalled (s\<lparr>ln_done := True, ln_listening := False\<rparr>)"
| stop_returned: "ln_done s \<Longrightarrow> \<not> ln_accepting s \<Longrightarrow> ln_conns s = {} \<Longrightarrow>
     server_step s StopReturned (s\<lparr>ln_socket := False, ln_returned := True\<rparr>)"

inductive_cases server_step_cases: "server_step s l s'"

inductive server_run :: "Listener \<Rightarrow> ServerStep list \<Rightarrow> Listener \<Rightarrow> bool" where
  idle: "server_run s [] s"
| step: "server_run s ls s' \<Longrightarrow> server_step s' l s'' \<Longrightarrow> server_run s (ls @ [l]) s''"

definition listener_inv :: "Listener \<Rightarrow> bool" where
  "listener_inv s \<longleftrightarrow> (\<forall>(i, uid) \<in> ln_conns s. uid = ln_uid s \<and> i < ln_next s) \<and>
     (ln_returned s \<longrightarrow> ln_done s \<and> \<not> ln_accepting s \<and> ln_conns s = {} \<and> \<not> ln_socket s) \<and> (ln_done s \<longrightarrow> \<not> ln_listening s)"

lemma verified_uid: "verifyPeer me (Inr uid) = None \<Longrightarrow> uid = me"
  by (auto simp: verifyPeer_def split: if_splits)

lemma listener_inv_step: "server_step s l s' \<Longrightarrow> listener_inv s \<Longrightarrow> listener_inv s' \<and> ln_uid s' = ln_uid s"
  by (erule server_step_cases) (auto simp: listener_inv_def dest: verified_uid)

lemma listener_inv_run:
  "server_run s ls s' \<Longrightarrow> listener_inv s \<Longrightarrow> listener_inv s' \<and> ln_uid s' = ln_uid s"
  by (induction rule: server_run.induct) (auto dest: listener_inv_step)

lemma started_inv: "server_Start mkdir listening chmod (new_listener uid) = (None, s) \<Longrightarrow> listener_inv s \<and> ln_uid s = uid"
  by (auto simp: server_Start_def new_listener_def listener_inv_def split: option.splits)

text \<open>Only the daemon's own user is served, and when \<open>Stop\<close> has returned nobody is, and the socket is gone.\<close>

theorem own_user_served:
  assumes "server_Start mkdir listening chmod (new_listener uid) = (None, s)" "server_run s ls s'"
  shows "(\<forall>(i, peer) \<in> ln_conns s'. peer = uid) \<and> (ln_returned s' \<longrightarrow> ln_conns s' = {} \<and> \<not> ln_accepting s' \<and> \<not> ln_socket s')"
  using listener_inv_run [OF assms(2)] started_inv [OF assms(1)] by (auto simp: listener_inv_def)

text \<open>\<open>Stop\<close> waits for the peers: it cannot return before each connection that is open has ended, and it
  ends none of them itself.\<close>

lemma conn_stays: "server_step s l s' \<Longrightarrow> (i, uid) \<in> ln_conns s \<Longrightarrow> listener_inv s \<Longrightarrow> l \<noteq> ConnEnded i \<Longrightarrow> (i, uid) \<in> ln_conns s'"
  by (erule server_step_cases) (auto simp: listener_inv_def)

theorem stop_waits_for_peers:
  assumes "server_run s ls s'" "listener_inv s" "(i, uid) \<in> ln_conns s" "ConnEnded i \<notin> set ls"
  shows "(i, uid) \<in> ln_conns s' \<and> StopReturned \<notin> set ls"
  using assms
proof (induction rule: server_run.induct)
  case (step s ls s' l s'')
  then have conn: "(i, uid) \<in> ln_conns s'" and rest: "StopReturned \<notin> set ls" "l \<noteq> ConnEnded i" by auto
  have inv: "listener_inv s'" using listener_inv_run step by blast
  have "l \<noteq> StopReturned" using step.hyps(2) conn by (auto elim: server_step_cases)
  with conn_stays [OF step.hyps(2) conn inv rest(2)] rest(1) show ?case by simp
qed simp

section \<open>Subscribing\<close>

text \<open>The acknowledgement, and the lines that follow it for the caller's scanner; \<open>write\<close> is the error of the write.\<close>

definition read_ack :: "(string \<Rightarrow> RpcResponse option) \<Rightarrow> string \<Rightarrow> error + string list" where
  "read_ack decode_response input =
     (case scan_lines MiB input of
        [] \<Rightarrow> Err ''no ack received''
      | line # rest \<Rightarrow>
          (case decode_response line of
             None \<Rightarrow> Err ''unmarshal ack''
           | Some resp \<Rightarrow> (case is_Error resp of Some (code, msg) \<Rightarrow> Err (''subscribe error: '' @ msg) | None \<Rightarrow> Ok rest)))"

definition client_Subscribe ::
  "error option \<Rightarrow> (string \<Rightarrow> RpcRequest option) \<Rightarrow> (string \<Rightarrow> RpcResponse option) \<Rightarrow> 's RpcServer \<Rightarrow> string \<Rightarrow> string \<Rightarrow> Client \<times> 's \<Rightarrow>
   (error + string list) \<times> Client \<times> 's" where
  "client_Subscribe write decode decode_response sv method params cs =
     (let (req, c) = client_request (fst cs) method params
      in case write of
           Some err \<Rightarrow> (Err (''write: '' @ err), c, snd cs)
         | None \<Rightarrow>
             (let (reply, s) = handleConn decode sv (\<lambda>_. True) (as_line (json_print (request_json req))) (snd cs)
              in (read_ack decode_response reply, c, s)))"

definition act_json :: "SubAct \<Rightarrow> json" where
  "act_json a = (case a of Tick ts \<Rightarrow> notification_json ''audit.heartbeat'' (JObj [(''ts'', JStr ts)])
     | Notify method params \<Rightarrow> notification_json method params)"

lemma run_subscription_all:
  "run_subscription (\<lambda>_. True) True acts out = out @ map (\<lambda>a. json_print (act_json a)) acts"
proof (induction acts arbitrary: out)
  case (Cons a acts)
  then show ?case by (cases a) (simp_all add: writeResponse_def act_json_def)
qed simp

definition ack_response :: "RpcRequest \<Rightarrow> RpcResponse" where
  "ack_response req = result_response (iq_ID req) (Some (JObj [(''ok'', JBool True)]))"

text \<open>What a subscriber reads is what the handler sent. Over a connection that takes every write, the lines
  the client's scanner gives after the acknowledgement are the notifications of the subscription's
  handler and the heartbeats, one line each, in the order they happened.\<close>

theorem Subscribe_delivers:
  assumes "clean params" "req = fst (client_request c ''audit.subscribe'' params)" "sv_subHandler sv = Some h"
    "decode (json_print (request_json req)) = Some req" "length (json_print (request_json req)) < MiB"
    "decode_response (json_print (response_json (ack_response req))) = Some (ack_response req)"
    "length (json_print (response_json (ack_response req))) < MiB"
    "\<forall>a \<in> set (h params). clean_json (act_json a) \<and> length (json_print (act_json a)) < MiB"
  shows "client_Subscribe None decode decode_response sv ''audit.subscribe'' params (c, s) =
    (Ok (map (\<lambda>a. json_print (act_json a)) (h params)), c\<lparr>cl_nextID := cl_nextID c + 1\<rparr>, s)"
proof -
  have req: "iq_Method req = ''audit.subscribe''" "iq_Params req = params" "clean_json (iq_ID req)"
    "snd (client_request c ''audit.subscribe'' params) = c\<lparr>cl_nextID := cl_nextID c + 1\<rparr>"
    by (simp_all add: assms(2) client_request_def Let_def clean_show_int)
  have line: "is_line MiB (json_print (request_json req))"
    using assms(1,5) req by (intro printed_is_line clean_request) simp_all
  have ne: "json_print (request_json req) \<noteq> []" by (simp add: request_json_def)
  let ?lines = "json_print (response_json (ack_response req)) # map (\<lambda>a. json_print (act_json a)) (h params)"
  have "clean_json (response_json (ack_response req))"
    using req(3) by (simp add: ack_response_def result_response_def response_json_def id_member_def)
  then have lines: "list_all (is_line MiB) ?lines"
    using assms(7,8) by (auto simp: list_all_iff intro: printed_is_line)
  have "handleConn decode sv (\<lambda>_. True) (as_line (json_print (request_json req))) s = (concat (map as_line ?lines), s)"
    using scan_lines_lines [of MiB "[json_print (request_json req)]"] line ne assms(3,4) req(1,2)
    by (simp add: handleConn_def handleSubscribe_def writeResponse_def run_subscription_all ack_response_def)
  moreover have "read_ack decode_response (concat (map as_line ?lines)) = Ok (map (\<lambda>a. json_print (act_json a)) (h params))"
    unfolding read_ack_def scan_lines_lines [OF lines] using assms(6) by (simp add: ack_response_def result_response_def)
  ultimately show ?thesis
    using req(4) by (simp add: client_Subscribe_def case_prod_beta Let_def assms(2) [symmetric])
qed

end
