(* ===== verification/Watch_View.thy ===== *)
theory Watch_View
  imports Ipc_Server Audit_Event Matchers
begin

text \<open>
  \<open>internal/cli/watch_tui.go\<close>: the live view, a state machine driven by keys, by the lines of its
  subscription and by the answers to its polls, with the helpers of \<open>internal/tui/format.go\<close>,
  \<open>internal/cli/agent_labels.go\<close> and \<open>internal/cli/start_tui.go\<close> it uses. An update gives the new
  model and the commands to run. Colours, the text input and the decoding of JSON are parameters;
  what the screen looks like (\<open>View\<close>) is left out.
\<close>

section \<open>Formatting\<close>

text \<open>The characters of a text in UTF-8: its bytes that do not continue one.\<close>

definition rune_count :: "string \<Rightarrow> nat" where
  "rune_count s = length (filter (\<lambda>c. \<not> (of_char c \<ge> (128 :: nat) \<and> of_char c < (192 :: nat))) s)"

text \<open>\<open>%-ns\<close>\<close>

definition pad_right :: "nat \<Rightarrow> string \<Rightarrow> string" where
  "pad_right n s = s @ replicate (n - rune_count s) (CHR '' '')"

definition Truncate :: "string \<Rightarrow> nat \<Rightarrow> string" where
  "Truncate s n = (if n \<le> 3 then take n s else if length s \<le> n then s else take (n - 3) s @ ''...'')"

text \<open>\<open>d.Round(time.Second)\<close> of a duration that is not negative.\<close>

definition round_seconds :: "duration \<Rightarrow> int" where
  "round_seconds d = (d + second div 2) div second"

definition FormatDuration :: "duration \<Rightarrow> string" where
  "FormatDuration d =
     (let secs = round_seconds \<bar>d\<bar>; h = secs div 3600; m = secs div 60 mod 60; s = secs mod 60
      in if h > 0 \<and> m > 0 then show_int h @ ''h '' @ show_int m @ ''m''
         else if h > 0 then show_int h @ ''h''
         else if m > 0 \<and> s > 0 then show_int m @ ''m '' @ show_int s @ ''s''
         else if m > 0 then show_int m @ ''m''
         else show_int s @ ''s'')"

definition trim_right :: "char \<Rightarrow> string \<Rightarrow> string" where
  "trim_right c s = rev (dropWhile (\<lambda>x. x = c) (rev s))"

text \<open>\<open>fixed3\<close> prints with three decimals.\<close>

definition FormatCost :: "(float64 \<Rightarrow> string) \<Rightarrow> float64 \<Rightarrow> string" where
  "FormatCost fixed3 usd = (if f64_eq usd 0 then ''$0'' else ''$'' @ trim_right (CHR ''.'') (trim_right (CHR ''0'') (fixed3 usd)))"

definition compactSessionKey :: "string \<Rightarrow> string" where
  "compactSessionKey sessionID =
     (let parts = split_at (CHR '':'') sessionID
      in if length parts \<ge> 4 then parts ! 1 @ '':'' @ parts ! 2 @ '':'' @ last parts
         else if length sessionID \<le> 24 then sessionID
         else take 12 sessionID @ ''...'' @ drop (length sessionID - 8) sessionID)"

definition compactAgentLabel :: "string \<Rightarrow> string \<Rightarrow> string" where
  "compactAgentLabel agentID sessionID =
     (if agentID \<noteq> ''openclaw'' \<or> sessionID = [] then agentID else ''openclaw/'' @ compactSessionKey sessionID)"

fun replace_first :: "string \<Rightarrow> string \<Rightarrow> string \<Rightarrow> string" where
  "replace_first old new [] = (if old = [] then new else [])"
| "replace_first old new (c # s) =
     (if has_prefix (c # s) old then new @ drop (length old) (c # s) else c # replace_first old new s)"

definition shortenHome :: "string option \<Rightarrow> string \<Rightarrow> string" where
  "shortenHome home path =
     (let path = filter (\<lambda>c. c \<noteq> CHR 0x0A) path
      in case home of Some h \<Rightarrow> if h \<noteq> [] then replace_first h ''~'' path else path | None \<Rightarrow> path)"

definition outcomeAliases :: "Outcome \<Rightarrow> string" where
  "outcomeAliases oc = (if oc = OutcomeBlocked then ''block'' else if oc = OutcomeWarned then ''warn'' else [])"

section \<open>The model\<close>

text \<open>The colours by their names, the text input's reaction to a key, the clock of an instant, and decoders.\<close>

record ViewLib =
  vl_style :: "string \<Rightarrow> string \<Rightarrow> string"
  vl_icon :: "string \<Rightarrow> string"
  vl_type :: "string \<Rightarrow> string \<Rightarrow> string"
  vl_clock :: "time \<Rightarrow> string"
  vl_fixed3 :: "float64 \<Rightarrow> string"
  vl_home :: "string option"
  vl_notification :: "string \<Rightarrow> (string \<times> string) option"
  vl_event :: "string \<Rightarrow> AuditEvent option"
  vl_heartbeat :: "string \<Rightarrow> (int \<times> 64 word) option"
  vl_rules :: "string \<Rightarrow> nat option"

text \<open>\<open>wd_poll\<close>, \<open>wd_reconnect\<close>: the function is set.\<close>

record WatchDeps =
  wd_delay :: duration
  wd_interval :: duration
  wd_poll :: bool
  wd_reconnect :: bool

record FeedEntry =
  fe_formatted :: string
  fe_outcome :: Outcome
  fe_searchable :: string

text \<open>A client and a scanner are numbered by their connection.\<close>

record WatchModel =
  wm_feed :: "string list"
  wm_allEvents :: "FeedEntry list"
  wm_queueDepth :: int
  wm_queueDropped :: "64 word"
  wm_daemonUptime :: string
  wm_startedAt :: time
  wm_triggerTimes :: "time list"
  wm_triggersLastMinute :: nat
  wm_reconnectAttempts :: nat
  wm_fatalErr :: "string option"
  wm_connected :: bool
  wm_width :: int
  wm_height :: int
  wm_filterMode :: bool
  wm_filterInput :: string
  wm_filterText :: string
  wm_client :: "nat option"
  wm_scanner :: "nat option"
  wm_deps :: WatchDeps

definition newWatchModel :: "time \<Rightarrow> WatchDeps \<Rightarrow> WatchModel" where
  "newWatchModel now deps =
     \<lparr>wm_feed = [], wm_allEvents = [], wm_queueDepth = 0, wm_queueDropped = 0, wm_daemonUptime = [], wm_startedAt = now,
      wm_triggerTimes = [], wm_triggersLastMinute = 0, wm_reconnectAttempts = 0, wm_fatalErr = None, wm_connected = False,
      wm_width = 80, wm_height = 24, wm_filterMode = False, wm_filterInput = [], wm_filterText = [], wm_client = None, wm_scanner = None,
      wm_deps = deps\<lparr>wd_delay := (if wd_delay deps \<le> 0 then 1500000000 else wd_delay deps),
                   wd_interval := (if wd_interval deps \<le> 0 then 3 * second else wd_interval deps)\<rparr>\<rparr>"

section \<open>The feed\<close>

definition feedCapacity :: "WatchModel \<Rightarrow> int" where
  "feedCapacity m = (if wm_height m - 10 < 5 then 5 else wm_height m - 10)"

definition appendFeed :: "string \<Rightarrow> WatchModel \<Rightarrow> WatchModel" where
  "appendFeed line m =
     (let feed = line # wm_feed m
      in m\<lparr>wm_feed := (if int (length feed) > feedCapacity m then take (nat (feedCapacity m)) feed else feed)\<rparr>)"

text \<open>The loop of \<open>rebuildFeed\<close>, which ends once the feed is full.\<close>

fun rebuild_from :: "string \<Rightarrow> int \<Rightarrow> FeedEntry list \<Rightarrow> string list \<Rightarrow> string list" where
  "rebuild_from pat maxFeed [] feed = feed"
| "rebuild_from pat maxFeed (entry # entries) feed =
     (if pat \<noteq> [] \<and> \<not> contains (fe_searchable entry) pat then rebuild_from pat maxFeed entries feed
      else let feed = feed @ [fe_formatted entry]
           in if int (length feed) \<ge> maxFeed then feed else rebuild_from pat maxFeed entries feed)"

definition rebuildFeed :: "WatchModel \<Rightarrow> WatchModel" where
  "rebuildFeed m = m\<lparr>wm_feed := rebuild_from (to_lower (wm_filterText m)) (feedCapacity m) (wm_allEvents m) []\<rparr>"

definition isTriggeredAuditEvent :: "ViewLib \<Rightarrow> AuditEvent \<Rightarrow> bool" where
  "isTriggeredAuditEvent V evt =
     (if ev_Outcome evt = OutcomeWarned \<or> ev_Outcome evt = OutcomeBlocked then True
      else let raw = trim_space (ev_CommandmentsTriggered evt)
           in if raw = [] then False else case vl_rules V raw of None \<Rightarrow> False | Some n \<Rightarrow> n > 0)"

text \<open>The part of a line after its action, in one colour.\<close>

definition line_detail :: "ViewLib \<Rightarrow> string \<Rightarrow> string \<Rightarrow> AuditEvent \<Rightarrow> string" where
  "line_detail V colour args evt =
     (if args \<noteq> [] then '' '' @ vl_style V colour args else []) @
     (if ev_ActionType evt = ActionAIRequest \<and> f64_less 0 (ev_CostUSD evt)
      then '' '' @ vl_style V colour (''('' @ FormatCost (vl_fixed3 V) (ev_CostUSD evt) @ '')'') else [])"

definition feed_line :: "ViewLib \<Rightarrow> time \<Rightarrow> AuditEvent \<Rightarrow> string" where
  "feed_line V when evt =
     (let ts = vl_clock V when;
          args = Truncate (shortenHome (vl_home V) (ev_Arguments evt)) 50;
          label = compactAgentLabel (ev_AgentID evt) (ev_SessionID evt);
          kind = pad_right 18 (ev_ActionType evt); act = pad_right 10 (ev_Action evt);
          plain = ts @ '' ['' @ label @ ''] '' @ kind @ '' '' @ act
      in if ev_Outcome evt = OutcomeWarned then vl_icon V ''warned'' @ '' '' @ vl_style V ''orange'' plain @ line_detail V ''orange'' args evt
         else if ev_Outcome evt = OutcomeBlocked then vl_icon V ''blocked'' @ '' '' @ vl_style V ''red'' plain @ line_detail V ''red'' args evt
         else ''  '' @ vl_style V ''gray'' ts @ '' '' @ vl_style V ''gold'' (''['' @ label @ '']'') @ '' '' @ vl_style V ''white'' kind @ '' '' @
              vl_style V ''white'' act @ line_detail V ''gray'' args evt)"

definition searchable_text :: "AuditEvent \<Rightarrow> string" where
  "searchable_text evt = to_lower (join [ev_AgentID evt, ev_SessionID evt, ev_ActionType evt, ev_Action evt, ev_Arguments evt,
     ev_Outcome evt, outcomeAliases (ev_Outcome evt)] '' '')"

definition maxAllEvents :: nat where "maxAllEvents = 200"

text \<open>\<open>now\<close> and \<open>now'\<close> are the readings of the clock for an event without a time and for the window.\<close>

definition recordAuditEvent :: "ViewLib \<Rightarrow> time \<Rightarrow> time \<Rightarrow> AuditEvent \<Rightarrow> WatchModel \<Rightarrow> WatchModel" where
  "recordAuditEvent V now now' evt m =
     (let when = (if ev_Timestamp evt = zero_time then now else ev_Timestamp evt);
          times = (if isTriggeredAuditEvent V evt then wm_triggerTimes m @ [when] else wm_triggerTimes m);
          kept = filter (\<lambda>ts. now' - 60 * second \<le> ts) times;
          entry = \<lparr>fe_formatted = feed_line V when evt, fe_outcome = ev_Outcome evt, fe_searchable = searchable_text evt\<rparr>
      in rebuildFeed (m\<lparr>wm_triggerTimes := kept, wm_triggersLastMinute := length kept,
           wm_allEvents := take maxAllEvents (entry # wm_allEvents m)\<rparr>))"

definition handleStreamLine :: "ViewLib \<Rightarrow> time \<Rightarrow> time \<Rightarrow> string \<Rightarrow> WatchModel \<Rightarrow> WatchModel" where
  "handleStreamLine V now now' line m =
     (case vl_notification V line of
        None \<Rightarrow> m
      | Some (method, params) \<Rightarrow>
          (if method = ''audit.event'' then (case vl_event V params of None \<Rightarrow> m | Some evt \<Rightarrow> recordAuditEvent V now now' evt m)
           else if method = ''audit.heartbeat'' then
             (case vl_heartbeat V params of None \<Rightarrow> m | Some (depth, dropped) \<Rightarrow> m\<lparr>wm_queueDepth := depth, wm_queueDropped := dropped\<rparr>)
           else m))"

section \<open>Updates\<close>

text \<open>Messages: a key, a size, a line of the stream, an event, a tick and an answer of the status poll, the
  loss of the stream, the end of the delay, and the outcome of dialling again: an error, or a
  client with a scanner or without one.\<close>

datatype WatchMsg =
    WindowSize int int
  | Key string
  | StreamLine string
  | AuditEventMsg AuditEvent
  | StatusTick
  | StatusResult bool int "64 word" string
  | Disconnected error
  | ReconnectMsg
  | ReconnectResult "error + nat \<times> bool"

datatype WatchCmd = Quit | ReadStream nat | PollStatus | TickStatus duration | TickReconnect duration | Redial | Blink | CloseClient nat

definition lost_message :: string where
  "lost_message = ''watch stream disconnected after one reconnect attempt; rerun with `crabwise watch` or use `crabwise watch --text`: ''"

definition key_update :: "ViewLib \<Rightarrow> string \<Rightarrow> WatchModel \<Rightarrow> WatchModel \<times> WatchCmd list" where
  "key_update V key m =
     (if wm_filterMode m then
        (if key = ''enter'' then (rebuildFeed (m\<lparr>wm_filterText := wm_filterInput m, wm_filterMode := False\<rparr>), [])
         else if key = ''esc'' then (rebuildFeed (m\<lparr>wm_filterText := [], wm_filterMode := False, wm_filterInput := []\<rparr>), [])
         else (m\<lparr>wm_filterInput := vl_type V key (wm_filterInput m)\<rparr>, []))
      else if key = ''q'' \<or> key = ''ctrl+c'' then (m, [Quit])
      else if key = ''/'' then (m\<lparr>wm_filterMode := True\<rparr>, [Blink])
      else (m, []))"

definition disconnected :: "error \<Rightarrow> WatchModel \<Rightarrow> WatchModel \<times> WatchCmd list" where
  "disconnected err m =
     (let closing = (case wm_client m of Some n \<Rightarrow> [CloseClient n] | None \<Rightarrow> []);
          m = appendFeed (''stream disconnected: '' @ err) (m\<lparr>wm_client := None, wm_scanner := None, wm_connected := False\<rparr>)
      in if wm_reconnectAttempts m \<ge> 1 then (m\<lparr>wm_fatalErr := Some (lost_message @ err)\<rparr>, closing @ [Quit])
         else (appendFeed ''attempting reconnect in 1.5s'' (m\<lparr>wm_reconnectAttempts := wm_reconnectAttempts m + 1\<rparr>),
               closing @ [TickReconnect (wd_delay (wm_deps m))]))"

definition reconnected :: "error + nat \<times> bool \<Rightarrow> WatchModel \<Rightarrow> WatchModel \<times> WatchCmd list" where
  "reconnected result m =
     (case result of
        Inl err \<Rightarrow> (m\<lparr>wm_fatalErr := Some (''watch stream reconnect failed; check daemon status and retry, or use `crabwise watch --text`: '' @ err)\<rparr>, [Quit])
      | Inr (n, has_scanner) \<Rightarrow>
          (let m = appendFeed ''reconnected'' (m\<lparr>wm_client := Some n, wm_scanner := (if has_scanner then Some n else None), wm_connected := True\<rparr>)
           in if has_scanner then (m, [ReadStream n])
              else (m\<lparr>wm_fatalErr := Some ''watch stream reconnect returned no scanner''\<rparr>, [Quit])))"

fun Update :: "ViewLib \<Rightarrow> time \<Rightarrow> time \<Rightarrow> WatchMsg \<Rightarrow> WatchModel \<Rightarrow> WatchModel \<times> WatchCmd list" where
  "Update V now now' (WindowSize w h) m = (rebuildFeed (m\<lparr>wm_width := (if w < 40 then 40 else w), wm_height := h\<rparr>), [])"
| "Update V now now' (Key key) m = key_update V key m"
| "Update V now now' (StreamLine line) m =
     (let m = handleStreamLine V now now' line m
      in if wm_fatalErr m \<noteq> None then (m, [Quit])
         else case wm_scanner m of None \<Rightarrow> (m, []) | Some n \<Rightarrow> (m, [ReadStream n]))"
| "Update V now now' (AuditEventMsg evt) m = (recordAuditEvent V now now' evt m, [])"
| "Update V now now' StatusTick m = (m, (if wd_poll (wm_deps m) then [PollStatus] else []) @ [TickStatus (wd_interval (wm_deps m))])"
| "Update V now now' (StatusResult ok depth dropped uptime) m =
     (if ok then m\<lparr>wm_queueDepth := depth, wm_queueDropped := dropped,
                    wm_daemonUptime := (if uptime \<noteq> [] then uptime else wm_daemonUptime m)\<rparr> else m, [])"
| "Update V now now' (Disconnected err) m = disconnected err m"
| "Update V now now' ReconnectMsg m =
     (if wd_reconnect (wm_deps m) then (m, [Redial])
      else (m\<lparr>wm_fatalErr := Some ''watch stream disconnected and reconnect is unavailable; rerun with `crabwise watch --text`''\<rparr>, [Quit]))"
| "Update V now now' (ReconnectResult result) m = reconnected result m"

text \<open>What a poll of the status makes of the call: the decoded answer, if there is one.\<close>

definition pollDaemonStatus :: "(error + string) option \<Rightarrow> (string \<Rightarrow> (int \<times> 64 word \<times> string) option) \<Rightarrow> WatchMsg" where
  "pollDaemonStatus reply decode =
     (case reply of
        Some (Inr result) \<Rightarrow> (case decode result of Some (depth, dropped, uptime) \<Rightarrow> StatusResult True depth dropped uptime | None \<Rightarrow> StatusResult False 0 0 [])
      | _ \<Rightarrow> StatusResult False 0 0 [])"

text \<open>What reading the stream gives: a line, or how it ended.\<close>

definition readWatchStreamCmd :: "string option \<Rightarrow> error option \<Rightarrow> WatchMsg" where
  "readWatchStreamCmd line err =
     (case line of Some l \<Rightarrow> StreamLine l | None \<Rightarrow> Disconnected (case err of None \<Rightarrow> ''EOF'' | Some e \<Rightarrow> e))"

section \<open>What the view keeps\<close>

text \<open>The loop of \<open>rebuildFeed\<close> takes the newest entries that match.\<close>

lemma rebuild_from_take:
  "int (length feed) < cap \<Longrightarrow> rebuild_from pat cap entries feed =
     take (nat cap) (feed @ map fe_formatted (filter (\<lambda>e. pat = [] \<or> contains (fe_searchable e) pat) entries))"
proof (induction entries arbitrary: feed)
  case (Cons e es)
  have "nat cap - length feed = Suc (nat cap - Suc (length feed))" using Cons.prems by linarith
  then show ?case using Cons by (auto simp: Let_def)
qed simp

definition matching_lines :: "WatchModel \<Rightarrow> string list" where
  "matching_lines m = map fe_formatted (filter (\<lambda>e. to_lower (wm_filterText m) = [] \<or>
     contains (fe_searchable e) (to_lower (wm_filterText m))) (wm_allEvents m))"

lemma capacity_pos: "5 \<le> feedCapacity m" by (simp add: feedCapacity_def)

lemma rebuildFeed_spec: "rebuildFeed m = m\<lparr>wm_feed := take (nat (feedCapacity m)) (matching_lines m)\<rparr>"
  using capacity_pos [of m] by (simp add: rebuildFeed_def rebuild_from_take matching_lines_def)

definition watch_view_ok :: "WatchModel \<Rightarrow> bool" where
  "watch_view_ok m \<longleftrightarrow> int (length (wm_feed m)) \<le> feedCapacity m \<and> length (wm_allEvents m) \<le> maxAllEvents \<and>
     wm_triggersLastMinute m = length (wm_triggerTimes m) \<and> wm_reconnectAttempts m \<le> 1 \<and>
     (wm_scanner m \<noteq> None \<longrightarrow> wm_scanner m = wm_client m)"

fun watch_run :: "ViewLib \<Rightarrow> (time \<times> time \<times> WatchMsg) list \<Rightarrow> WatchModel \<Rightarrow> WatchModel \<times> WatchCmd list" where
  "watch_run V [] m = (m, [])"
| "watch_run V ((now, now', msg) # msgs) m =
     (let (m, cmds) = Update V now now' msg m; (m, rest) = watch_run V msgs m in (m, cmds @ rest))"

lemma feedCapacity_height: "wm_height m = wm_height m' \<Longrightarrow> feedCapacity m = feedCapacity m'"
  by (simp add: feedCapacity_def)

lemma rebuildFeed_frame [simp]:
  "wm_allEvents (rebuildFeed m) = wm_allEvents m" "wm_triggersLastMinute (rebuildFeed m) = wm_triggersLastMinute m"
  "wm_triggerTimes (rebuildFeed m) = wm_triggerTimes m" "wm_reconnectAttempts (rebuildFeed m) = wm_reconnectAttempts m"
  "wm_scanner (rebuildFeed m) = wm_scanner m" "wm_client (rebuildFeed m) = wm_client m" "wm_fatalErr (rebuildFeed m) = wm_fatalErr m"
  "wm_height (rebuildFeed m) = wm_height m" "wm_filterText (rebuildFeed m) = wm_filterText m"
  by (simp_all add: rebuildFeed_def)

lemma appendFeed_frame [simp]:
  "wm_allEvents (appendFeed l m) = wm_allEvents m" "wm_triggersLastMinute (appendFeed l m) = wm_triggersLastMinute m"
  "wm_triggerTimes (appendFeed l m) = wm_triggerTimes m" "wm_reconnectAttempts (appendFeed l m) = wm_reconnectAttempts m"
  "wm_scanner (appendFeed l m) = wm_scanner m" "wm_client (appendFeed l m) = wm_client m" "wm_fatalErr (appendFeed l m) = wm_fatalErr m"
  "wm_height (appendFeed l m) = wm_height m" "wm_deps (appendFeed l m) = wm_deps m"
  by (simp_all add: appendFeed_def Let_def)

lemma rebuildFeed_fits: "int (length (wm_feed (rebuildFeed m))) \<le> feedCapacity (rebuildFeed m)"
  using capacity_pos [of m] feedCapacity_height [of "rebuildFeed m" m] by (simp add: rebuildFeed_spec)

lemma appendFeed_fits: "int (length (wm_feed (appendFeed l m))) \<le> feedCapacity (appendFeed l m)"
  using capacity_pos [of m] feedCapacity_height [of "appendFeed l m" m] by (simp add: appendFeed_def Let_def)

lemma watch_view_ok_rebuild:
  "length (wm_allEvents m) \<le> maxAllEvents \<Longrightarrow> wm_triggersLastMinute m = length (wm_triggerTimes m) \<Longrightarrow> wm_reconnectAttempts m \<le> 1 \<Longrightarrow>
   wm_scanner m \<noteq> None \<longrightarrow> wm_scanner m = wm_client m \<Longrightarrow> watch_view_ok (rebuildFeed m)"
  using rebuildFeed_fits by (simp add: watch_view_ok_def)

lemma watch_view_ok_append:
  "length (wm_allEvents m) \<le> maxAllEvents \<Longrightarrow> wm_triggersLastMinute m = length (wm_triggerTimes m) \<Longrightarrow> wm_reconnectAttempts m \<le> 1 \<Longrightarrow>
   wm_scanner m \<noteq> None \<longrightarrow> wm_scanner m = wm_client m \<Longrightarrow> watch_view_ok (appendFeed l m)"
  using appendFeed_fits by (simp add: watch_view_ok_def)

lemma recordAuditEvent_ok: "watch_view_ok m \<Longrightarrow> watch_view_ok (recordAuditEvent V now now' evt m)"
  unfolding recordAuditEvent_def Let_def by (rule watch_view_ok_rebuild) (auto simp: watch_view_ok_def)

lemma recordAuditEvent_frame [simp]:
  "wm_reconnectAttempts (recordAuditEvent V now now' evt m) = wm_reconnectAttempts m"
  "wm_fatalErr (recordAuditEvent V now now' evt m) = wm_fatalErr m"
  by (simp_all add: recordAuditEvent_def Let_def)

lemma watch_view_ok_fields:
  "watch_view_ok m \<Longrightarrow> wm_feed m' = wm_feed m \<Longrightarrow> wm_height m' = wm_height m \<Longrightarrow> wm_allEvents m' = wm_allEvents m \<Longrightarrow>
   wm_triggersLastMinute m' = wm_triggersLastMinute m \<Longrightarrow> wm_triggerTimes m' = wm_triggerTimes m \<Longrightarrow>
   wm_reconnectAttempts m' = wm_reconnectAttempts m \<Longrightarrow> wm_scanner m' = wm_scanner m \<Longrightarrow> wm_client m' = wm_client m \<Longrightarrow> watch_view_ok m'"
  using feedCapacity_height [of m' m] by (simp add: watch_view_ok_def)

lemma handleStreamLine_ok:
  "watch_view_ok m \<Longrightarrow> watch_view_ok (handleStreamLine V now now' line m)"
  by (auto simp: handleStreamLine_def recordAuditEvent_ok elim: watch_view_ok_fields split: option.split)

lemma handleStreamLine_frame [simp]:
  "wm_reconnectAttempts (handleStreamLine V now now' line m) = wm_reconnectAttempts m"
  "wm_fatalErr (handleStreamLine V now now' line m) = wm_fatalErr m"
  by (auto simp: handleStreamLine_def split: option.split)

lemma watch_view_ok_refilter:
  "watch_view_ok m \<Longrightarrow> watch_view_ok (rebuildFeed (m\<lparr>wm_filterText := t, wm_filterMode := b\<rparr>))"
  "watch_view_ok m \<Longrightarrow> watch_view_ok (rebuildFeed (m\<lparr>wm_filterText := t, wm_filterMode := b, wm_filterInput := i\<rparr>))"
  by (rule watch_view_ok_rebuild; simp add: watch_view_ok_def)+

lemma key_update_ok: "watch_view_ok m \<Longrightarrow> watch_view_ok (fst (key_update V key m))"
  using watch_view_ok_fields [of m "m\<lparr>wm_filterInput := i\<rparr>" for i] watch_view_ok_fields [of m "m\<lparr>wm_filterMode := True\<rparr>"]
  by (simp add: key_update_def watch_view_ok_refilter)

lemma disconnected_ok: "watch_view_ok m \<Longrightarrow> watch_view_ok (fst (disconnected err m))"
proof -
  assume ok: "watch_view_ok m"
  let ?m = "appendFeed (''stream disconnected: '' @ err) (m\<lparr>wm_client := None, wm_scanner := None, wm_connected := False\<rparr>)"
  have m: "watch_view_ok ?m" using ok by (intro watch_view_ok_append) (auto simp: watch_view_ok_def)
  show ?thesis
  proof (cases "wm_reconnectAttempts m \<ge> 1")
    case True
    then show ?thesis using watch_view_ok_fields [OF m] by (simp add: disconnected_def Let_def)
  next
    case False
    have "watch_view_ok (appendFeed ''attempting reconnect in 1.5s'' (?m\<lparr>wm_reconnectAttempts := wm_reconnectAttempts ?m + 1\<rparr>))"
      using m False by (intro watch_view_ok_append) (auto simp: watch_view_ok_def)
    then show ?thesis using False by (simp add: disconnected_def Let_def)
  qed
qed

lemma reconnected_ok: "watch_view_ok m \<Longrightarrow> watch_view_ok (fst (reconnected result m))"
proof -
  assume ok: "watch_view_ok m"
  have m: "watch_view_ok (appendFeed ''reconnected'' (m\<lparr>wm_client := Some n, wm_scanner := (if b then Some n else None), wm_connected := True\<rparr>))" for n :: nat and b :: bool
    using ok by (intro watch_view_ok_append) (auto simp: watch_view_ok_def)
  show ?thesis
  proof (cases result)
    case (Inl err)
    then show ?thesis using watch_view_ok_fields [OF ok] by (simp add: reconnected_def)
  next
    case (Inr r)
    obtain n b where r: "r = (n, b)" by (cases r)
    show ?thesis
      using m [where n = n and b = b] watch_view_ok_fields [OF m [where n = n and b = b]] by (cases b) (simp_all add: reconnected_def Inr r Let_def)
  qed
qed

lemma Update_ok: "watch_view_ok m \<Longrightarrow> watch_view_ok (fst (Update V now now' msg m))"
proof (cases msg)
  case (WindowSize w h)
  assume "watch_view_ok m"
  then have "watch_view_ok (rebuildFeed (m\<lparr>wm_width := w', wm_height := h\<rparr>))" for w'
    by (intro watch_view_ok_rebuild) (auto simp: watch_view_ok_def)
  then show ?thesis by (simp add: WindowSize)
next
  case (StatusResult ok depth dropped uptime)
  assume "watch_view_ok m"
  then show ?thesis by (auto simp: StatusResult elim: watch_view_ok_fields)
next
  case ReconnectMsg
  assume "watch_view_ok m"
  then show ?thesis by (auto simp: ReconnectMsg elim: watch_view_ok_fields)
qed (simp_all add: key_update_ok disconnected_ok reconnected_ok recordAuditEvent_ok handleStreamLine_ok Let_def split: option.split)

text \<open>What a message does to the attempts and to the fatal error.\<close>

definition is_loss :: "WatchMsg \<Rightarrow> bool" where "is_loss msg = (case msg of Disconnected _ \<Rightarrow> True | _ \<Rightarrow> False)"
definition is_attempt :: "WatchCmd \<Rightarrow> bool" where "is_attempt cmd = (case cmd of TickReconnect _ \<Rightarrow> True | _ \<Rightarrow> False)"

lemma Update_attempts:
  assumes "Update V now now' msg m = (m', cmds)"
  shows "wm_reconnectAttempts m' = wm_reconnectAttempts m + length (filter is_attempt cmds)"
    and "wm_fatalErr m' = None \<Longrightarrow> wm_fatalErr m = None \<and> length (filter is_attempt cmds) = (if is_loss msg then 1 else 0)"
proof -
  have "wm_reconnectAttempts m' = wm_reconnectAttempts m + length (filter is_attempt cmds) \<and>
    (wm_fatalErr m' = None \<longrightarrow> wm_fatalErr m = None \<and> length (filter is_attempt cmds) = (if is_loss msg then 1 else 0))"
    using assms
    by (cases msg) (auto simp: is_loss_def is_attempt_def key_update_def disconnected_def reconnected_def Let_def
        split: if_splits option.splits sum.splits)
  then show "wm_reconnectAttempts m' = wm_reconnectAttempts m + length (filter is_attempt cmds)"
    and "wm_fatalErr m' = None \<Longrightarrow> wm_fatalErr m = None \<and> length (filter is_attempt cmds) = (if is_loss msg then 1 else 0)" by auto
qed

lemma watch_run_lemma:
  "watch_view_ok m \<Longrightarrow> watch_run V msgs m = (m', cmds) \<Longrightarrow>
     watch_view_ok m' \<and> wm_reconnectAttempts m' = wm_reconnectAttempts m + length (filter is_attempt cmds) \<and>
     (wm_fatalErr m' = None \<longrightarrow> wm_fatalErr m = None \<and>
        length (filter is_attempt cmds) = length (filter (\<lambda>(_, _, msg). is_loss msg) msgs))"
proof (induction V msgs m arbitrary: m' cmds rule: watch_run.induct)
  case (2 V now now' msg msgs m)
  obtain m1 c1 where u: "Update V now now' msg m = (m1, c1)" by (cases "Update V now now' msg m")
  obtain m2 c2 where r: "watch_run V msgs m1 = (m2, c2)" by (cases "watch_run V msgs m1")
  have "watch_view_ok m1" using Update_ok [OF 2(2), of V now now' msg] by (simp add: u)
  from 2(1) [OF u [symmetric] refl this r] Update_attempts [OF u] 2(3) u r show ?case by auto
qed simp

text \<open>C39: The live view is bounded and honest about a lost stream. Whatever messages arrive in whatever order,
  the feed never has more lines than the window has room for, at most 200 events are kept, the
  trigger count is the number of triggers remembered, at most one reconnection is attempted in the
  life of the view, and if the stream was lost twice the view has a fatal error to show.\<close>

theorem watch_view_bounded:
  "case watch_run V msgs (newWatchModel now deps) of (m, cmds) \<Rightarrow>
     int (length (wm_feed m)) \<le> feedCapacity m \<and> length (wm_allEvents m) \<le> 200 \<and>
     wm_triggersLastMinute m = length (wm_triggerTimes m) \<and> length (filter is_attempt cmds) \<le> 1 \<and>
     (case wm_fatalErr m of None \<Rightarrow> length (filter (\<lambda>(_, _, msg). is_loss msg) msgs) \<le> 1 | Some _ \<Rightarrow> True)"
proof -
  obtain m cmds where r: "watch_run V msgs (newWatchModel now deps) = (m, cmds)" by (cases "watch_run V msgs (newWatchModel now deps)")
  have "watch_view_ok (newWatchModel now deps)" by (simp add: watch_view_ok_def newWatchModel_def feedCapacity_def)
  from watch_run_lemma [OF this r]
  have "watch_view_ok m" "wm_reconnectAttempts m = length (filter is_attempt cmds)"
    "wm_fatalErr m = None \<Longrightarrow> length (filter is_attempt cmds) = length (filter (\<lambda>(_, _, msg). is_loss msg) msgs)"
    by (simp_all add: newWatchModel_def)
  then show ?thesis unfolding r by (auto simp: watch_view_ok_def maxAllEvents_def split: option.split)
qed

text \<open>The entry the view keeps of an event, and the view after a sequence of events.\<close>

definition feed_entry :: "ViewLib \<Rightarrow> time \<times> time \<times> AuditEvent \<Rightarrow> FeedEntry" where
  "feed_entry V x = (case x of (now, now', evt) \<Rightarrow>
     \<lparr>fe_formatted = feed_line V (if ev_Timestamp evt = zero_time then now else ev_Timestamp evt) evt, fe_outcome = ev_Outcome evt,
       fe_searchable = searchable_text evt\<rparr>)"

fun record_all :: "ViewLib \<Rightarrow> (time \<times> time \<times> AuditEvent) list \<Rightarrow> WatchModel \<Rightarrow> WatchModel" where
  "record_all V [] m = m"
| "record_all V ((now, now', evt) # evts) m = record_all V evts (fst (Update V now now' (AuditEventMsg evt) m))"

lemma recordAuditEvent_keeps:
  "wm_allEvents (recordAuditEvent V now now' evt m) = take maxAllEvents (feed_entry V (now, now', evt) # wm_allEvents m)"
  "wm_filterText (recordAuditEvent V now now' evt m) = wm_filterText m"
  "wm_height (recordAuditEvent V now now' evt m) = wm_height m"
  by (simp_all add: recordAuditEvent_def Let_def feed_entry_def)

lemma recordAuditEvent_feed:
  "wm_feed (recordAuditEvent V now now' evt m) = take (nat (feedCapacity m)) (matching_lines (recordAuditEvent V now now' evt m))"
  by (simp add: recordAuditEvent_def Let_def rebuildFeed_spec matching_lines_def feedCapacity_def)

lemma take_append_take: "take n (xs @ take n ys) = take n (xs @ ys)" by (simp add: min_def)

lemma record_all_keeps:
  "length (wm_allEvents m) \<le> maxAllEvents \<Longrightarrow>
     wm_allEvents (record_all V evts m) = take maxAllEvents (rev (map (feed_entry V) evts) @ wm_allEvents m) \<and>
     wm_filterText (record_all V evts m) = wm_filterText m \<and> wm_height (record_all V evts m) = wm_height m"
proof (induction evts arbitrary: m)
  case (Cons x evts)
  obtain now now' evt where x: "x = (now, now', evt)" by (cases x)
  have "length (wm_allEvents (recordAuditEvent V now now' evt m)) \<le> maxAllEvents" by (simp add: recordAuditEvent_keeps)
  from Cons.IH [OF this] show ?case
    by (simp add: x recordAuditEvent_keeps take_append_take)
qed simp

lemma record_all_snoc: "record_all V (evts @ [(now, now', evt)]) m = recordAuditEvent V now now' evt (record_all V evts m)"
  by (induction V evts m rule: record_all.induct) simp_all

text \<open>C38: The feed shows the newest events that match the filter. After any number of events, the lines of the
  feed are those of the newest events kept, newest first, whose agent, session, type, action, arguments or
  outcome contains the filter's text, as many as the window has room for.\<close>

theorem watch_shows_newest:
  assumes "evts \<noteq> []" and "length (wm_allEvents m) \<le> maxAllEvents"
  shows "wm_feed (record_all V evts m) = take (nat (feedCapacity m))
    (map fe_formatted (filter (\<lambda>e. to_lower (wm_filterText m) = [] \<or> contains (fe_searchable e) (to_lower (wm_filterText m)))
      (take maxAllEvents (rev (map (feed_entry V) evts) @ wm_allEvents m))))"
proof -
  obtain before last where evts: "evts = before @ [last]" using assms(1) by (metis rev_exhaust)
  obtain now now' evt where last: "last = (now, now', evt)" by (cases last)
  let ?m = "record_all V before m"
  have keeps: "wm_allEvents (record_all V evts m) = take maxAllEvents (rev (map (feed_entry V) evts) @ wm_allEvents m)"
    "wm_filterText (record_all V evts m) = wm_filterText m"
    using record_all_keeps [OF assms(2)] by blast+
  have "feedCapacity ?m = feedCapacity m" using record_all_keeps [OF assms(2)] by (intro feedCapacity_height) blast
  then have "wm_feed (record_all V evts m) = take (nat (feedCapacity m)) (matching_lines (record_all V evts m))"
    using recordAuditEvent_feed [of V now now' evt ?m] by (simp add: evts last record_all_snoc)
  then show ?thesis by (simp add: matching_lines_def keeps)
qed

text \<open>A view where nothing is coloured, and every event is dated by the same clock.\<close>

definition plain_view :: ViewLib where
  "plain_view = \<lparr>vl_style = (\<lambda>_ s. s), vl_icon = (\<lambda>_. ''!''), vl_type = (\<lambda>k s. s @ k), vl_clock = (\<lambda>_. ''12:00:00''), vl_fixed3 = (\<lambda>_. ''0.000''),
     vl_home = None, vl_notification = (\<lambda>_. None), vl_event = (\<lambda>_. None), vl_heartbeat = (\<lambda>_. None), vl_rules = (\<lambda>_. None)\<rparr>"

theorem watch_shows_newest_witness:
  "\<forall>e e'. wm_feed (record_all plain_view [(1, 2, e), (3, 4, e')] (newWatchModel 0 \<lparr>wd_delay = 1, wd_interval = 1, wd_poll = True, wd_reconnect = True\<rparr>)) =
     [feed_line plain_view (if ev_Timestamp e' = zero_time then 3 else ev_Timestamp e') e',
      feed_line plain_view (if ev_Timestamp e = zero_time then 1 else ev_Timestamp e) e]"
  by (intro allI, subst watch_shows_newest) (simp_all add: newWatchModel_def feedCapacity_def maxAllEvents_def feed_entry_def)

end
