(* ===== verification/Service_Env.thy ===== *)
theory Service_Env
  imports Go_Scan Go_Path Config "HOL-Library.AList"
begin

text \<open>
  \<open>internal/service\<close> and the commands over it (\<open>internal/cli/service.go\<close>, \<open>wrap.go\<close>, \<open>env.go\<close>): how an
  agent's traffic is sent through the proxy, by the environment of a wrapped command, of a shell, or
  of a service. The two managers stand behind the interface \<open>Manager\<close>, a record of operations over the
  state of the machine; its contract is the locale \<open>service_manager\<close>, which the systemd manager is
  shown to meet. The file system's failures are arguments, and so are the commands that launchd's
  manager runs, which are kept in a state of their own.
\<close>

section \<open>Proxy variables\<close>

record EnvConfig =
  ec_ProxyURL :: string
  ec_CACert :: string

type_synonym EnvVar = "string \<times> string"

definition ProxyEnvVars :: "EnvConfig \<Rightarrow> EnvVar list" where
  "ProxyEnvVars cfg =
     [(''HTTPS_PROXY'', ec_ProxyURL cfg), (''HTTP_PROXY'', ec_ProxyURL cfg), (''ALL_PROXY'', ec_ProxyURL cfg),
      (''https_proxy'', ec_ProxyURL cfg), (''http_proxy'', ec_ProxyURL cfg), (''all_proxy'', ec_ProxyURL cfg),
      (''NO_PROXY'', ''localhost,127.0.0.1''), (''no_proxy'', ''localhost,127.0.0.1'')] @
     (if ec_CACert cfg \<noteq> [] then [(''NODE_EXTRA_CA_CERTS'', ec_CACert cfg)] else [])"

definition envConfigFromDaemon :: "Config \<Rightarrow> EnvConfig" where
  "envConfigFromDaemon cfg = \<lparr>ec_ProxyURL = ''http://'' @ dp_Listen (cf_Proxy cfg), ec_CACert = dp_CACert (cf_Proxy cfg)\<rparr>"

text \<open>\<open>strings.Cut(entry, "=")\<close>: the part before the first equals sign, or everything.\<close>

definition env_key :: "string \<Rightarrow> string" where "env_key entry = takeWhile (\<lambda>c. c \<noteq> CHR ''='') entry"

text \<open>The loop over the base environment: the result so far and the keys seen.\<close>

fun overlay_base :: "(string \<rightharpoonup> string) \<Rightarrow> string list \<Rightarrow> string list \<times> string set \<Rightarrow> string list \<times> string set" where
  "overlay_base overrides [] acc = acc"
| "overlay_base overrides (entry # base) (out, seen) =
     (case overrides (env_key entry) of
        Some v \<Rightarrow> overlay_base overrides base (out @ [env_key entry @ ''='' @ v], insert (env_key entry) seen)
      | None \<Rightarrow> overlay_base overrides base (out @ [entry], seen))"

text \<open>A variable set twice keeps its last value: the map of the reversed list.\<close>

definition overlayEnv :: "string list \<Rightarrow> EnvVar list \<Rightarrow> string list" where
  "overlayEnv base vars =
     (let (out, seen) = overlay_base (map_of (rev vars)) base ([], {})
      in out @ map (\<lambda>(k, v). k @ ''='' @ v) (filter (\<lambda>(k, _). k \<notin> seen) vars))"

text \<open>\<open>crabwise wrap\<close> up to its \<open>Exec\<close>: the binary, its arguments and its environment.\<close>

definition wrap_cmd ::
  "string list \<Rightarrow> error + Config \<Rightarrow> (string \<Rightarrow> error + string) \<Rightarrow> string list \<Rightarrow> error + string \<times> string list \<times> string list" where
  "wrap_cmd args config look_path environ =
     (case args of
        [] \<Rightarrow> Err ''no command specified; usage: crabwise wrap -- <command> [args...]''
      | command # _ \<Rightarrow>
          (case config of
             Inl err \<Rightarrow> Err (''load config: '' @ err)
           | Inr cfg \<Rightarrow>
               (case look_path command of
                  Inl err \<Rightarrow> Err (''resolve command '' @ command @ '': '' @ err)
                | Inr binary \<Rightarrow> Ok (binary, args, overlayEnv environ (ProxyEnvVars (envConfigFromDaemon cfg))))))"

text \<open>\<open>crabwise env\<close>, with the quoting of \<open>%q\<close> as an argument.\<close>

definition env_cmd :: "(string \<Rightarrow> string) \<Rightarrow> string \<Rightarrow> error + Config \<Rightarrow> error + string list" where
  "env_cmd quote shell config =
     (case config of
        Inl err \<Rightarrow> Err (''load config: '' @ err)
      | Inr cfg \<Rightarrow> Ok (map (\<lambda>(k, v). if shell = ''fish'' then ''set -gx '' @ k @ '' '' @ quote v else ''export '' @ k @ ''='' @ quote v)
          (ProxyEnvVars (envConfigFromDaemon cfg))))"

section \<open>What a wrapped command sees\<close>

text \<open>\<open>getenv\<close>: the first entry with the key.\<close>

definition getenv :: "string list \<Rightarrow> string \<rightharpoonup> string" where
  "getenv env k = map_option (\<lambda>e. drop (Suc (length k)) e) (find (\<lambda>e. env_key e = k \<and> k \<noteq> e) env)"

lemma env_key_set [simp]: "CHR ''='' \<notin> set k \<Longrightarrow> env_key (k @ CHR ''='' # v) = k"
  by (induction k) (auto simp: env_key_def)

lemma env_key_no_eq: "CHR ''='' \<notin> set (env_key e)"
  by (induction e) (auto simp: env_key_def)

lemma overlay_base_spec:
  "overlay_base m base (out, seen) =
     (out @ map (\<lambda>e. case m (env_key e) of Some v \<Rightarrow> env_key e @ ''='' @ v | None \<Rightarrow> e) base,
      seen \<union> {k \<in> env_key ` set base. m k \<noteq> None})"
  by (induction m base "(out, seen)" arbitrary: out seen rule: overlay_base.induct) (auto split: option.splits)

definition entry_for :: "EnvVar list \<Rightarrow> string \<Rightarrow> string" where
  "entry_for vars e = (case map_of (rev vars) (env_key e) of Some v \<Rightarrow> env_key e @ ''='' @ v | None \<Rightarrow> e)"

lemma overlayEnv_eq:
  "overlayEnv base vars = map (entry_for vars) base @
     map (\<lambda>(k, v). k @ ''='' @ v) (filter (\<lambda>(k, _). k \<notin> env_key ` set base) vars)"
proof -
  have "map_of (rev vars) k \<noteq> None" if "(k, v) \<in> set vars" for k v
    using that by (simp add: map_of_eq_None_iff) force
  then show ?thesis
    by (simp add: overlayEnv_def overlay_base_spec entry_for_def [abs_def]) (intro arg_cong [of _ _ "map _"] filter_cong; force)
qed

lemma distinct_ProxyEnvVars: "distinct (map fst (ProxyEnvVars cfg))"
  by (simp add: ProxyEnvVars_def)

lemma ProxyEnvVars_keys: "(k, v) \<in> set (ProxyEnvVars cfg) \<Longrightarrow> CHR ''='' \<notin> set k"
  by (auto simp: ProxyEnvVars_def split: if_splits)

lemma map_of_rev_distinct: "distinct (map fst vars) \<Longrightarrow> map_of (rev vars) = map_of vars"
  by (subst map_of_inject_set) (simp_all add: rev_map [symmetric])

lemma getenv_Cons:
  "getenv (e # env) k = (if env_key e = k \<and> k \<noteq> e then Some (drop (Suc (length k)) e) else getenv env k)"
  by (simp add: getenv_def)

lemma entry_for_key:
  "distinct (map fst vars) \<Longrightarrow> entry_for vars e = (case map_of vars (env_key e) of Some v \<Rightarrow> env_key e @ ''='' @ v | None \<Rightarrow> e)"
  "env_key (entry_for vars e) = env_key e"
  using env_key_no_eq [of e] by (simp_all add: entry_for_def map_of_rev_distinct split: option.split)

lemma getenv_overlaid:
  assumes "distinct (map fst vars)"
  shows "getenv (map (entry_for vars) base @ rest) k =
    (case (if k \<in> env_key ` set base then map_of vars k else None) of Some v \<Rightarrow> Some v
     | None \<Rightarrow> (case getenv base k of Some v \<Rightarrow> Some v | None \<Rightarrow> getenv rest k))"
proof (induction base)
  case (Cons e base)
  show ?case
  proof (cases "env_key e = k")
    case True
    have "k \<noteq> k @ CHR ''='' # v" for v by simp
    then show ?thesis
      using True Cons entry_for_key(1) [OF assms, of e] entry_for_key(2) [of vars e]
      by (cases "map_of vars k") (auto simp: getenv_Cons split: option.splits if_splits)
  next
    case False
    then have "getenv (e # base) k = getenv base k" "k \<in> env_key ` set (e # base) \<longleftrightarrow> k \<in> env_key ` set base"
      by (auto simp: getenv_Cons)
    then show ?thesis using False Cons entry_for_key(2) [of vars e] by (simp add: getenv_Cons cong: option.case_cong)
  qed
qed (simp add: getenv_def)

lemma getenv_added:
  "distinct (map fst vars) \<Longrightarrow> \<forall>(k, v) \<in> set vars. CHR ''='' \<notin> set k \<Longrightarrow>
     getenv (map (\<lambda>(k, v). k @ ''='' @ v) (filter (\<lambda>(k, _). k \<notin> K) vars)) k = (if k \<in> K then None else map_of vars k)"
  by (induction vars) (auto simp: getenv_Cons, auto simp: getenv_def)

lemma getenv_missing: "k \<notin> env_key ` set base \<Longrightarrow> getenv base k = None"
  by (auto simp: getenv_def find_None_iff)

text \<open>C17: A wrapped command sees the proxy and nothing else changed. When \<open>crabwise wrap\<close> runs a command, the
  lookup of each proxy variable gives the daemon's address (and the certificate, when one is
  configured), no other entry for it is left to be found, and every other variable has the value it
  had.\<close>

theorem wrap_env:
  assumes "wrap_cmd args (Ok cfg) look_path base = Ok (binary, args', env)"
  shows "getenv env k = (case map_of (ProxyEnvVars (envConfigFromDaemon cfg)) k of Some v \<Rightarrow> Some v | None \<Rightarrow> getenv base k) \<and>
    (\<forall>e \<in> set env. \<forall>v. map_of (ProxyEnvVars (envConfigFromDaemon cfg)) (env_key e) = Some v \<longrightarrow> e = env_key e @ ''='' @ v) \<and>
    args' = args \<and> look_path (hd args) = Ok binary"
proof -
  let ?vars = "ProxyEnvVars (envConfigFromDaemon cfg)"
  note d = distinct_ProxyEnvVars [of "envConfigFromDaemon cfg"]
  have env: "env = overlayEnv base ?vars" "args' = args" "look_path (hd args) = Ok binary"
    using assms by (auto simp: wrap_cmd_def split: list.splits sum.splits)
  have keys: "\<forall>(k, v) \<in> set ?vars. CHR ''='' \<notin> set k" using ProxyEnvVars_keys by blast
  have "getenv env k = (case map_of ?vars k of Some v \<Rightarrow> Some v | None \<Rightarrow> getenv base k)"
    unfolding env(1) overlayEnv_eq getenv_overlaid [OF d] getenv_added [OF d keys]
    using getenv_missing [of k base] by (auto split: option.splits)
  moreover have "e = env_key e @ ''='' @ v" if mem: "e \<in> set env" and v: "map_of ?vars (env_key e) = Some v" for e v
  proof -
    consider x where "e = entry_for ?vars x" | k' v' where "e = k' @ ''='' @ v'" "(k', v') \<in> set ?vars"
      using mem by (auto simp: env(1) overlayEnv_eq)
    then show ?thesis
    proof cases
      case 1
      then show ?thesis using v entry_for_key(1) [OF d, of x] entry_for_key(2) [of ?vars x] by (simp split: option.splits)
    next
      case 2
      then show ?thesis using v keys map_of_is_SomeI [OF d 2(2)] by auto
    qed
  qed
  ultimately show ?thesis using env by blast
qed

section \<open>Managers of services\<close>

datatype Scope = ScopeSystem | ScopeUser

definition scope_text :: "Scope \<Rightarrow> string" where
  "scope_text sc = (case sc of ScopeSystem \<Rightarrow> ''system'' | ScopeUser \<Rightarrow> ''user'')"

definition ParseScope :: "string \<Rightarrow> error + Scope" where
  "ParseScope raw =
     (if raw = [] \<or> raw = ''system'' then Ok ScopeSystem else if raw = ''user'' then Ok ScopeUser
      else Err (''invalid scope '' @ raw @ ''; expected system or user''))"

definition ValidatePrivileges :: "Scope \<Rightarrow> int \<Rightarrow> string \<Rightarrow> error option" where
  "ValidatePrivileges sc uid sudoUser =
     (case sc of
        ScopeSystem \<Rightarrow> (if uid \<noteq> 0 then Some ''system scope requires root; run with sudo'' else None)
      | ScopeUser \<Rightarrow>
          (if uid = 0 then
             (if sudoUser \<noteq> [] then Some (''user scope requires a non-root user; run without sudo as '' @ sudoUser @ '' instead'')
              else Some ''user scope requires a non-root user; run as the owning user, not as root'')
           else None))"

record AgentServiceEntry =
  ae_SystemdUnit :: string
  ae_LaunchdPlist :: string

definition ResolveAgentName :: "string \<Rightarrow> (string \<rightharpoonup> AgentServiceEntry) \<Rightarrow> string \<Rightarrow> string" where
  "ResolveAgentName agent agents goos =
     (case agents agent of
        None \<Rightarrow> agent
      | Some entry \<Rightarrow>
          (if goos = ''linux'' \<and> ae_SystemdUnit entry \<noteq> [] then ae_SystemdUnit entry
           else if goos = ''darwin'' \<and> ae_LaunchdPlist entry \<noteq> [] then ae_LaunchdPlist entry
           else agent))"

record SystemdResolution =
  sd_UnitName :: string
  sd_UnitPath :: string
  sd_DropInRoot :: string

record LaunchdResolution =
  ld_PlistPath :: string
  ld_Label :: string
  ld_DomainTarget :: string

record Resolution =
  re_ServiceName :: string
  re_Scope :: Scope
  re_Systemd :: "SystemdResolution option"
  re_Launchd :: "LaunchdResolution option"

text \<open>The interface over the state \<open>'s\<close> of the machine. An operation gives its path, what it did, and the error.\<close>

record 's Manager =
  mg_Resolve :: "string \<Rightarrow> Scope \<Rightarrow> 's \<Rightarrow> error + Resolution"
  mg_Inject :: "Resolution \<Rightarrow> EnvConfig \<Rightarrow> 's \<Rightarrow> (error + string) \<times> 's"
  mg_Remove :: "Resolution \<Rightarrow> EnvConfig \<Rightarrow> 's \<Rightarrow> (error + string \<times> bool) \<times> 's"
  mg_CheckInjected :: "Resolution \<Rightarrow> 's \<Rightarrow> error + bool"
  mg_Restart :: "Resolution \<Rightarrow> 's \<Rightarrow> error option \<times> 's"

subsection \<open>systemd\<close>

text \<open>The files with their contents and the directories; only paths are kept, not the parents of a directory.
  \<open>fs_commands\<close> are the commands that were run.\<close>

record FileSys =
  fs_files :: "(string \<times> string) list"
  fs_dirs :: "string list"
  fs_commands :: "string list list"

datatype StatResult = Exists | NotExist | StatFailed error

text \<open>What the calls meet: the failures of \<open>MkdirAll\<close>, of \<open>WriteFile\<close> (with what it leaves in the file, if it
  touched it), of \<open>Stat\<close>, \<open>Remove\<close>, \<open>ReadFile\<close>, \<open>ReadDir\<close>, and of the commands.\<close>

record FsFaults =
  ff_mkdir :: "string \<Rightarrow> error option"
  ff_write :: "string \<Rightarrow> (error \<times> string option) option"
  ff_stat :: "string \<Rightarrow> error option"
  ff_remove :: "string \<Rightarrow> error option"
  ff_read :: "string \<Rightarrow> error option"
  ff_readdir :: "string \<Rightarrow> error option"
  ff_run :: "string list \<Rightarrow> error option"

definition fs_stat :: "FsFaults \<Rightarrow> FileSys \<Rightarrow> string \<Rightarrow> StatResult" where
  "fs_stat F fs p =
     (case ff_stat F p of
        Some err \<Rightarrow> StatFailed err
      | None \<Rightarrow> if p \<in> fst ` set (fs_files fs) \<or> p \<in> set (fs_dirs fs) then Exists else NotExist)"

definition fs_mkdir_all :: "FsFaults \<Rightarrow> string \<Rightarrow> FileSys \<Rightarrow> error option \<times> FileSys" where
  "fs_mkdir_all F p fs =
     (case ff_mkdir F p of
        Some err \<Rightarrow> (Some err, fs)
      | None \<Rightarrow> (None, if p \<in> set (fs_dirs fs) then fs else fs\<lparr>fs_dirs := fs_dirs fs @ [p]\<rparr>))"

definition fs_write_file :: "FsFaults \<Rightarrow> string \<Rightarrow> string \<Rightarrow> FileSys \<Rightarrow> error option \<times> FileSys" where
  "fs_write_file F p content fs =
     (case ff_write F p of
        Some (err, left) \<Rightarrow> (Some err, case left of None \<Rightarrow> fs | Some c \<Rightarrow> fs\<lparr>fs_files := AList.update p c (fs_files fs)\<rparr>)
      | None \<Rightarrow> (None, fs\<lparr>fs_files := AList.update p content (fs_files fs)\<rparr>))"

definition fs_remove :: "FsFaults \<Rightarrow> string \<Rightarrow> FileSys \<Rightarrow> error option \<times> FileSys" where
  "fs_remove F p fs =
     (case ff_remove F p of
        Some err \<Rightarrow> (Some err, fs)
      | None \<Rightarrow> (None, fs\<lparr>fs_files := filter (\<lambda>f. fst f \<noteq> p) (fs_files fs), fs_dirs := filter (\<lambda>d. d \<noteq> p) (fs_dirs fs)\<rparr>))"

text \<open>The number of entries of a directory, or an error.\<close>

definition fs_entries :: "FsFaults \<Rightarrow> FileSys \<Rightarrow> string \<Rightarrow> error + nat" where
  "fs_entries F fs d =
     (case ff_readdir F d of
        Some err \<Rightarrow> Err err
      | None \<Rightarrow> Ok (length (filter (\<lambda>p. has_prefix p (d @ ''/'')) (map fst (fs_files fs) @ fs_dirs fs))))"

definition fs_read_file :: "FsFaults \<Rightarrow> FileSys \<Rightarrow> string \<Rightarrow> error option + string" where
  "fs_read_file F fs p =
     (case ff_read F p of
        Some err \<Rightarrow> Err (Some err)
      | None \<Rightarrow> (case map_of (fs_files fs) p of Some c \<Rightarrow> Ok c | None \<Rightarrow> Err None))"

definition fs_run :: "FsFaults \<Rightarrow> string list \<Rightarrow> FileSys \<Rightarrow> error option \<times> FileSys" where
  "fs_run F command fs = (ff_run F command, fs\<lparr>fs_commands := fs_commands fs @ [command]\<rparr>)"

record SystemdManager =
  sm_SystemDirs :: "string list"
  sm_UserDirs :: "string list"

definition NewSystemdManager :: "string \<Rightarrow> SystemdManager" where
  "NewSystemdManager home =
     \<lparr>sm_SystemDirs = [''/etc/systemd/system'', ''/usr/lib/systemd/system'', ''/lib/systemd/system''],
      sm_UserDirs = [path_join [home, ''.config'', ''systemd'', ''user''], ''/etc/systemd/user'']\<rparr>"

definition dropInFileName :: string where "dropInFileName = ''crabwise-proxy.conf''"

definition dropInHeader :: string where
  "dropInHeader = ''# Generated by crabwise service inject '' @ [CHR 0xE2, CHR 0x80, CHR 0x94] @ '' do not edit manually.'' @ [newline]"

definition env_line :: "EnvVar \<Rightarrow> string" where
  "env_line kv = ''Environment=\"'' @ fst kv @ ''='' @ snd kv @ ''\"''"

definition generateSystemdDropIn :: "EnvConfig \<Rightarrow> string" where
  "generateSystemdDropIn cfg = dropInHeader @ as_line ''[Service]'' @ concat (map (\<lambda>kv. as_line (env_line kv)) (ProxyEnvVars cfg))"

definition systemd_Resolve :: "FsFaults \<Rightarrow> SystemdManager \<Rightarrow> string \<Rightarrow> Scope \<Rightarrow> FileSys \<Rightarrow> error + Resolution" where
  "systemd_Resolve F m name sc fs =
     (let unitName = name @ ''.service'';
          dirs = (if sc = ScopeUser then sm_UserDirs m else sm_SystemDirs m);
          root = (if sc = ScopeUser \<and> dirs \<noteq> [] then hd dirs else ''/etc/systemd/system'')
      in case find (\<lambda>dir. fs_stat F fs (path_join [dir, unitName]) = Exists) dirs of
           Some dir \<Rightarrow> Ok \<lparr>re_ServiceName = name, re_Scope = sc,
             re_Systemd = Some \<lparr>sd_UnitName = unitName, sd_UnitPath = path_join [dir, unitName], sd_DropInRoot = root\<rparr>, re_Launchd = None\<rparr>
         | None \<Rightarrow> Err (''unit '' @ unitName @ '' not found in '' @ scope_text sc @ '' scope (searched: '' @ join dirs '', '' @ '')''))"

definition drop_in_dir :: "SystemdResolution \<Rightarrow> string" where
  "drop_in_dir sd = path_join [sd_DropInRoot sd, sd_UnitName sd @ ''.d'']"

definition drop_in_path :: "SystemdResolution \<Rightarrow> string" where
  "drop_in_path sd = path_join [drop_in_dir sd, dropInFileName]"

definition systemd_Inject :: "FsFaults \<Rightarrow> Resolution \<Rightarrow> EnvConfig \<Rightarrow> FileSys \<Rightarrow> (error + string) \<times> FileSys" where
  "systemd_Inject F res cfg fs =
     (case re_Systemd res of
        None \<Rightarrow> (Err ''not a systemd resolution'', fs)
      | Some sd \<Rightarrow>
          (case fs_mkdir_all F (drop_in_dir sd) fs of
             (Some err, fs) \<Rightarrow> (Err (''create drop-in dir: '' @ err), fs)
           | (None, fs) \<Rightarrow>
               (case fs_write_file F (drop_in_path sd) (generateSystemdDropIn cfg) fs of
                  (Some err, fs) \<Rightarrow> (Err (''write drop-in: '' @ err), fs)
                | (None, fs) \<Rightarrow> (Ok (drop_in_path sd), fs))))"

definition systemd_Remove :: "FsFaults \<Rightarrow> Resolution \<Rightarrow> EnvConfig \<Rightarrow> FileSys \<Rightarrow> (error + string \<times> bool) \<times> FileSys" where
  "systemd_Remove F res cfg fs =
     (case re_Systemd res of
        None \<Rightarrow> (Err ''not a systemd resolution'', fs)
      | Some sd \<Rightarrow>
          (if fs_stat F fs (drop_in_path sd) = NotExist then (Ok (drop_in_path sd, False), fs)
           else case fs_remove F (drop_in_path sd) fs of
             (Some err, fs) \<Rightarrow> (Err (''remove drop-in: '' @ err), fs)
           | (None, fs) \<Rightarrow>
               (Ok (drop_in_path sd, True),
                if fs_entries F fs (drop_in_dir sd) = Ok 0 then snd (fs_remove F (drop_in_dir sd) fs) else fs)))"

definition injected_line :: "string \<Rightarrow> bool" where
  "injected_line line \<longleftrightarrow> contains line ''HTTPS_PROXY='' \<and> \<not> has_suffix (trim_space line) ''HTTPS_PROXY=\"\"''"

definition systemd_CheckInjected :: "FsFaults \<Rightarrow> Resolution \<Rightarrow> FileSys \<Rightarrow> error + bool" where
  "systemd_CheckInjected F res fs =
     (case re_Systemd res of
        None \<Rightarrow> Err ''not a systemd resolution''
      | Some sd \<Rightarrow>
          (let path = path_join [sd_DropInRoot sd, sd_UnitName sd @ ''.d'', dropInFileName]
           in case fs_read_file F fs path of
                Inl None \<Rightarrow> Ok False
              | Inl (Some err) \<Rightarrow> Err (''read drop-in '' @ path @ '': '' @ err)
              | Inr content \<Rightarrow> Ok (has_prefix content dropInHeader \<and> list_ex injected_line (split_at newline content))))"

definition systemd_Restart :: "FsFaults \<Rightarrow> Resolution \<Rightarrow> FileSys \<Rightarrow> error option \<times> FileSys" where
  "systemd_Restart F res fs =
     (let user = (if re_Scope res = ScopeUser then [''--user''] else [])
      in case fs_run F ([''systemctl''] @ user @ [''daemon-reload'']) fs of
           (Some err, fs) \<Rightarrow> (Some (join ([''systemctl''] @ user @ [''daemon-reload'']) '' '' @ '': '' @ err), fs)
         | (None, fs) \<Rightarrow> fs_run F ([''systemctl''] @ user @ [''restart'', re_ServiceName res]) fs)"

definition systemd_manager :: "FsFaults \<Rightarrow> SystemdManager \<Rightarrow> FileSys Manager" where
  "systemd_manager F m = \<lparr>mg_Resolve = systemd_Resolve F m, mg_Inject = systemd_Inject F, mg_Remove = systemd_Remove F,
     mg_CheckInjected = systemd_CheckInjected F, mg_Restart = systemd_Restart F\<rparr>"

subsection \<open>launchd\<close>

text \<open>The manager runs external tools: \<open>lt_run\<close> takes the command and the state of the machine, \<open>lt_output\<close>
  reads the output, or the error with what the tool wrote to its error stream.\<close>

record 's LaunchdTools =
  lt_run :: "string list \<Rightarrow> 's \<Rightarrow> error option \<times> 's"
  lt_output :: "string list \<Rightarrow> 's \<Rightarrow> (error \<times> string) + string"
  lt_stat :: "string \<Rightarrow> 's \<Rightarrow> bool"
  lt_uid :: int

record LaunchdManager =
  lm_SystemDirs :: "string list"
  lm_UserDirs :: "string list"

definition NewLaunchdManager :: "string \<Rightarrow> LaunchdManager" where
  "NewLaunchdManager home =
     \<lparr>lm_SystemDirs = [''/Library/LaunchDaemons''], lm_UserDirs = [path_join [home, ''Library'', ''LaunchAgents'']]\<rparr>"

definition plist_buddy :: string where "plist_buddy = ''/usr/libexec/PlistBuddy''"

definition validatePlistBuddyValue :: "string \<Rightarrow> error option" where
  "validatePlistBuddyValue v =
     (if contains v '';'' then Some (''value '' @ v @ '' contains semicolon, which PlistBuddy uses as a command separator'') else None)"

definition launchdDomainPrefix :: "Scope \<Rightarrow> int \<Rightarrow> string" where
  "launchdDomainPrefix sc uid = (if sc = ScopeSystem then ''system'' else ''gui/'' @ show_int uid)"

definition launchdDomain :: "Scope \<Rightarrow> int \<Rightarrow> string \<Rightarrow> string" where
  "launchdDomain sc uid label =
     (if sc = ScopeSystem then ''system/'' @ label else ''gui/'' @ show_int uid @ ''/'' @ label)"

definition readLabel :: "'s LaunchdTools \<Rightarrow> string \<Rightarrow> 's \<Rightarrow> error + string" where
  "readLabel T plistPath s =
     (case lt_output T [plist_buddy, ''-c'', ''Print :Label'', plistPath] s of
        Inl (err, _) \<Rightarrow> Err (''read Label from '' @ plistPath @ '': '' @ err)
      | Inr out \<Rightarrow> (let label = trim_space out in if label = [] then Err (''empty Label in '' @ plistPath) else Ok label))"

definition launchd_Resolve :: "'s LaunchdTools \<Rightarrow> LaunchdManager \<Rightarrow> string \<Rightarrow> Scope \<Rightarrow> 's \<Rightarrow> error + Resolution" where
  "launchd_Resolve T m name sc s =
     (let dirs = (if sc = ScopeUser then lm_UserDirs m else lm_SystemDirs m);
          path = (\<lambda>dir. path_join [dir, name @ ''.plist''])
      in case find (\<lambda>dir. lt_stat T (path dir) s) dirs of
           None \<Rightarrow> Err (''plist '' @ name @ ''.plist not found in '' @ scope_text sc @ '' scope (searched: '' @ join dirs '', '' @ '')'')
         | Some dir \<Rightarrow>
             (case readLabel T (path dir) s of
                Inl err \<Rightarrow> Err err
              | Inr label \<Rightarrow> Ok \<lparr>re_ServiceName = name, re_Scope = sc, re_Systemd = None,
                  re_Launchd = Some \<lparr>ld_PlistPath = path dir, ld_Label = label, ld_DomainTarget = launchdDomain sc (lt_uid T) label\<rparr>\<rparr>))"

text \<open>The first value that must not be given to PlistBuddy.\<close>

fun unsafe_value :: "EnvVar list \<Rightarrow> error option" where
  "unsafe_value [] = None"
| "unsafe_value ((k, v) # vars) =
     (case validatePlistBuddyValue v of Some err \<Rightarrow> Some (''unsafe value for '' @ k @ '': '' @ err) | None \<Rightarrow> unsafe_value vars)"

text \<open>Each variable is set, or added when it cannot be set; the first that is neither ends the loop.\<close>

fun patch_plist :: "'s LaunchdTools \<Rightarrow> string \<Rightarrow> EnvVar list \<Rightarrow> 's \<Rightarrow> error option \<times> 's" where
  "patch_plist T path [] s = (None, s)"
| "patch_plist T path ((k, v) # vars) s =
     (case lt_run T [plist_buddy, ''-c'', ''Set :EnvironmentVariables:'' @ k @ '' '' @ v, path] s of
        (None, s) \<Rightarrow> patch_plist T path vars s
      | (Some _, s) \<Rightarrow>
          (case lt_run T [plist_buddy, ''-c'', ''Add :EnvironmentVariables:'' @ k @ '' string '' @ v, path] s of
             (None, s) \<Rightarrow> patch_plist T path vars s
           | (Some err, s) \<Rightarrow> (Some (''plist patch '' @ k @ '': '' @ err), s)))"

definition launchd_Inject :: "'s LaunchdTools \<Rightarrow> Resolution \<Rightarrow> EnvConfig \<Rightarrow> 's \<Rightarrow> (error + string) \<times> 's" where
  "launchd_Inject T res cfg s =
     (case re_Launchd res of
        None \<Rightarrow> (Err ''not a launchd resolution'', s)
      | Some ld \<Rightarrow>
          (case unsafe_value (ProxyEnvVars cfg) of
             Some err \<Rightarrow> (Err err, s)
           | None \<Rightarrow>
               (let (_, s) = lt_run T [plist_buddy, ''-c'', ''Add :EnvironmentVariables dict'', ld_PlistPath ld] s
                in case patch_plist T (ld_PlistPath ld) (ProxyEnvVars cfg) s of
                     (Some err, s) \<Rightarrow> (Err err, s)
                   | (None, s) \<Rightarrow> (Ok (ld_PlistPath ld), s))))"

text \<open>\<open>lt_output\<close> gives an empty error stream for an error that is no exit of the tool.\<close>

definition launchd_CheckInjected :: "'s LaunchdTools \<Rightarrow> Resolution \<Rightarrow> 's \<Rightarrow> error + bool" where
  "launchd_CheckInjected T res s =
     (case re_Launchd res of
        None \<Rightarrow> Err ''not a launchd resolution''
      | Some ld \<Rightarrow>
          (case lt_output T [plist_buddy, ''-c'', ''Print :EnvironmentVariables:HTTPS_PROXY'', ld_PlistPath ld] s of
             Inl (err, stderr) \<Rightarrow>
               (if contains stderr ''Does Not Exist'' then Ok False else Err (''check plist '' @ ld_PlistPath ld @ '': '' @ err))
           | Inr out \<Rightarrow> Ok (trim_space out \<noteq> [])))"

definition delete_vars :: "'s LaunchdTools \<Rightarrow> string \<Rightarrow> EnvVar list \<Rightarrow> 's \<Rightarrow> 's" where
  "delete_vars T path vars s =
     fold (\<lambda>(k, _) s. snd (lt_run T [plist_buddy, ''-c'', ''Delete :EnvironmentVariables:'' @ k, path] s)) vars s"

definition launchd_Remove :: "'s LaunchdTools \<Rightarrow> Resolution \<Rightarrow> EnvConfig \<Rightarrow> 's \<Rightarrow> (error + string \<times> bool) \<times> 's" where
  "launchd_Remove T res cfg s =
     (case re_Launchd res of
        None \<Rightarrow> (Err ''not a launchd resolution'', s)
      | Some ld \<Rightarrow>
          (case launchd_CheckInjected T res s of
             Inl err \<Rightarrow> (Err (''check before remove: '' @ err), s)
           | Inr injected \<Rightarrow>
               (if \<not> injected then (Ok (ld_PlistPath ld, False), s)
                else (Ok (ld_PlistPath ld, True), delete_vars T (ld_PlistPath ld) (ProxyEnvVars cfg) s))))"

definition launchd_Restart :: "'s LaunchdTools \<Rightarrow> Resolution \<Rightarrow> 's \<Rightarrow> error option \<times> 's" where
  "launchd_Restart T res s =
     (case re_Launchd res of
        None \<Rightarrow> (Some ''not a launchd resolution'', s)
      | Some ld \<Rightarrow>
          (if ld_DomainTarget ld = [] then (Some ''no domain target resolved for launchd restart'', s)
           else lt_run T [''launchctl'', ''bootstrap'', launchdDomainPrefix (re_Scope res) (lt_uid T), ld_PlistPath ld]
                  (snd (lt_run T [''launchctl'', ''bootout'', ld_DomainTarget ld] s))))"

definition launchd_manager :: "'s LaunchdTools \<Rightarrow> LaunchdManager \<Rightarrow> 's Manager" where
  "launchd_manager T m = \<lparr>mg_Resolve = launchd_Resolve T m, mg_Inject = launchd_Inject T, mg_Remove = launchd_Remove T,
     mg_CheckInjected = launchd_CheckInjected T, mg_Restart = launchd_Restart T\<rparr>"

section \<open>The commands\<close>

text \<open>What a command prints, without its wording; \<open>MsgStatus\<close> is the answer of the check.\<close>

datatype ServiceMsg =
    MsgHint
  | MsgInjected string
  | MsgRemoved string
  | MsgNotInjected string
  | MsgRestarted string
  | MsgUnresolved string
  | MsgStatus string "error + bool"

record ServiceFlags =
  sf_scope :: string
  sf_agent :: string
  sf_restart :: bool

text \<open>What the commands find: the configuration with the agents of its service section, the user, the
  environment's \<open>SUDO_USER\<close> and the operating system.\<close>

record ServiceEnv =
  sv_config :: "error + Config \<times> (string \<rightharpoonup> AgentServiceEntry)"
  sv_uid :: int
  sv_sudoUser :: string
  sv_goos :: string

type_synonym 's service_result = "ServiceMsg list \<times> error option \<times> 's"

definition service_name :: "ServiceEnv \<Rightarrow> ServiceFlags \<Rightarrow> (string \<rightharpoonup> AgentServiceEntry) \<Rightarrow> string" where
  "service_name env flags agents = ResolveAgentName (sf_agent flags) agents (sv_goos env)"

text \<open>The part \<open>inject\<close> and \<open>remove\<close> have in common, up to the resolution.\<close>

definition service_target ::
  "'s Manager option \<Rightarrow> ServiceEnv \<Rightarrow> ServiceFlags \<Rightarrow> 's \<Rightarrow>
   (ServiceMsg list \<times> error) + ('s Manager \<times> Config \<times> string \<times> Resolution)" where
  "service_target detected env flags s =
     (case sv_config env of
        Inl err \<Rightarrow> Err ([], ''load config: '' @ err)
      | Inr (cfg, agents) \<Rightarrow>
          (case ParseScope (sf_scope flags) of
             Inl err \<Rightarrow> Err ([], err)
           | Inr sc \<Rightarrow>
               (case ValidatePrivileges sc (sv_uid env) (sv_sudoUser env) of
                  Some err \<Rightarrow> Err (if sc = ScopeSystem then [MsgHint] else [], err)
                | None \<Rightarrow>
                    (case detected of
                       None \<Rightarrow> Err ([], ''unsupported operating system'')
                     | Some mgr \<Rightarrow>
                         (case mg_Resolve mgr (service_name env flags agents) sc s of
                            Inl err \<Rightarrow> Err ([], err)
                          | Inr res \<Rightarrow> Ok (mgr, cfg, service_name env flags agents, res))))))"

definition inject_cmd :: "'s Manager option \<Rightarrow> ServiceEnv \<Rightarrow> ServiceFlags \<Rightarrow> 's \<Rightarrow> 's service_result" where
  "inject_cmd detected env flags s =
     (case service_target detected env flags s of
        Inl (msgs, err) \<Rightarrow> (msgs, Some err, s)
      | Inr (mgr, cfg, name, res) \<Rightarrow>
          (case mg_Inject mgr res (envConfigFromDaemon cfg) s of
             (Inl err, s) \<Rightarrow> ([], Some err, s)
           | (Inr path, s) \<Rightarrow>
               (if \<not> sf_restart flags then ([MsgInjected path], None, s)
                else case mg_Restart mgr res s of
                  (Some err, s) \<Rightarrow> ([MsgInjected path], Some (''inject succeeded but restart failed: '' @ err), s)
                | (None, s) \<Rightarrow> ([MsgInjected path, MsgRestarted name], None, s))))"

definition remove_cmd :: "'s Manager option \<Rightarrow> ServiceEnv \<Rightarrow> ServiceFlags \<Rightarrow> 's \<Rightarrow> 's service_result" where
  "remove_cmd detected env flags s =
     (case service_target detected env flags s of
        Inl (msgs, err) \<Rightarrow> (msgs, Some err, s)
      | Inr (mgr, cfg, name, res) \<Rightarrow>
          (case mg_Remove mgr res (envConfigFromDaemon cfg) s of
             (Inl err, s) \<Rightarrow> ([], Some err, s)
           | (Inr (path, removed), s) \<Rightarrow>
               (let msg = (if removed then MsgRemoved path else MsgNotInjected path)
                in if \<not> (sf_restart flags \<and> removed) then ([msg], None, s)
                   else case mg_Restart mgr res s of
                     (Some err, s) \<Rightarrow> ([msg], Some (''remove succeeded but restart failed: '' @ err), s)
                   | (None, s) \<Rightarrow> ([msg, MsgRestarted name], None, s))))"

text \<open>The status needs no privileges, and a service that is not found is no error.\<close>

definition status_cmd :: "'s Manager option \<Rightarrow> ServiceEnv \<Rightarrow> ServiceFlags \<Rightarrow> 's \<Rightarrow> ServiceMsg list \<times> error option" where
  "status_cmd detected env flags s =
     (case sv_config env of
        Inl err \<Rightarrow> ([], Some (''load config: '' @ err))
      | Inr (cfg, agents) \<Rightarrow>
          (case ParseScope (sf_scope flags) of
             Inl err \<Rightarrow> ([], Some err)
           | Inr sc \<Rightarrow>
               (case detected of
                  None \<Rightarrow> ([], Some ''unsupported operating system'')
                | Some mgr \<Rightarrow>
                    (case mg_Resolve mgr (service_name env flags agents) sc s of
                       Inl _ \<Rightarrow> ([MsgUnresolved (service_name env flags agents)], None)
                     | Inr res \<Rightarrow> ([MsgStatus (service_name env flags agents) (mg_CheckInjected mgr res s)], None)))))"

section \<open>The contract of a manager\<close>

text \<open>
  What the commands rely on: injecting and removing leave the service where it was found, so do
  restarts, which do not touch the injection either; after an injection of a proper address the
  check does not deny it, and after a removal it does not claim it.
\<close>

definition plain_address :: "EnvConfig \<Rightarrow> bool" where
  "plain_address cfg \<longleftrightarrow> ec_ProxyURL cfg \<noteq> [] \<and> newline \<notin> set (ec_ProxyURL cfg) \<and> CHR 0x22 \<notin> set (ec_ProxyURL cfg)"

locale service_manager =
  fixes mgr :: "'s Manager"
  assumes inject_resolves: "mg_Resolve mgr name sc s = Ok res \<Longrightarrow> mg_Inject mgr res cfg s = (r, s') \<Longrightarrow> mg_Resolve mgr name sc s' = Ok res"
    and remove_resolves: "mg_Resolve mgr name sc s = Ok res \<Longrightarrow> mg_Remove mgr res cfg s = (r', s') \<Longrightarrow> mg_Resolve mgr name sc s' = Ok res"
    and restart_resolves: "mg_Restart mgr res s = (e, s') \<Longrightarrow> mg_Resolve mgr name sc s' = mg_Resolve mgr name sc s"
    and restart_checks: "mg_Restart mgr res s = (e, s') \<Longrightarrow> mg_CheckInjected mgr res' s' = mg_CheckInjected mgr res' s"
    and inject_checks: "mg_Inject mgr res cfg s = (Ok p, s') \<Longrightarrow> plain_address cfg \<Longrightarrow> mg_CheckInjected mgr res s' \<noteq> Ok False"
    and remove_checks: "mg_Remove mgr res cfg s = (Ok pb, s') \<Longrightarrow> mg_CheckInjected mgr res s' \<noteq> Ok True"
begin

lemma target_parts:
  assumes "service_target (Some mgr) env flags s = Ok (m, cfg, name, res)"
  obtains agents sc where "m = mgr" "sv_config env = Ok (cfg, agents)" "ParseScope (sf_scope flags) = Ok sc"
    "name = service_name env flags agents" "mg_Resolve mgr name sc s = Ok res"
  using assms by (auto simp: service_target_def split: sum.splits prod.splits option.splits)

lemma status_of:
  "sv_config env = Ok (cfg, agents) \<Longrightarrow> ParseScope (sf_scope flags) = Ok sc \<Longrightarrow> mg_Resolve mgr (service_name env flags agents) sc s = Ok res \<Longrightarrow>
     status_cmd (Some mgr) env flags s = ([MsgStatus (service_name env flags agents) (mg_CheckInjected mgr res s)], None)"
  by (simp add: status_cmd_def)

lemma restarted:
  "mg_Restart mgr res s = (e, s') \<Longrightarrow> mg_Resolve mgr name sc s = Ok res' \<Longrightarrow> mg_CheckInjected mgr res' s \<noteq> v \<Longrightarrow>
     mg_Resolve mgr name sc s' = Ok res' \<and> mg_CheckInjected mgr res' s' \<noteq> v"
  using restart_resolves restart_checks by metis

lemma inject_then_status:
  assumes "inject_cmd (Some mgr) env flags s = (MsgInjected path # msgs, err, s')"
    and "sv_config env = Ok (cfg, agents)" "plain_address (envConfigFromDaemon cfg)"
  shows "\<exists>name r. status_cmd (Some mgr) env flags s' = ([MsgStatus name r], None) \<and> r \<noteq> Ok False"
proof -
  obtain m cfg' name res where t: "service_target (Some mgr) env flags s = Ok (m, cfg', name, res)"
    using assms(1) by (auto simp: inject_cmd_def service_target_def split: sum.splits prod.splits option.splits if_splits)
  from t obtain agents' sc where p: "m = mgr" "sv_config env = Ok (cfg', agents')" "ParseScope (sf_scope flags) = Ok sc"
    "name = service_name env flags agents'" "mg_Resolve mgr name sc s = Ok res" by (rule target_parts)
  obtain p' s1 where i: "mg_Inject mgr res (envConfigFromDaemon cfg') s = (Ok p', s1)"
    and s': "s' = s1 \<or> (\<exists>e. mg_Restart mgr res s1 = (e, s'))"
    using assms(1) t p(1) by (auto simp: inject_cmd_def split: sum.splits prod.splits option.splits if_splits)
  have "mg_Resolve mgr name sc s1 = Ok res" "mg_CheckInjected mgr res s1 \<noteq> Ok False"
    using inject_resolves [OF p(5) i] inject_checks [OF i] assms(2,3) p(2) by simp_all
  then have "mg_Resolve mgr name sc s' = Ok res" "mg_CheckInjected mgr res s' \<noteq> Ok False" using s' restarted by blast+
  then show ?thesis using status_of [OF p(2,3)] p(4) by blast
qed

lemma remove_then_status:
  assumes "remove_cmd (Some mgr) env flags s = (msgs, None, s')"
  shows "\<exists>name r. status_cmd (Some mgr) env flags s' = ([MsgStatus name r], None) \<and> r \<noteq> Ok True"
proof -
  obtain m cfg' name res where t: "service_target (Some mgr) env flags s = Ok (m, cfg', name, res)"
    using assms(1) by (auto simp: remove_cmd_def split: sum.splits prod.splits)
  from t obtain agents' sc where p: "m = mgr" "sv_config env = Ok (cfg', agents')" "ParseScope (sf_scope flags) = Ok sc"
    "name = service_name env flags agents'" "mg_Resolve mgr name sc s = Ok res" by (rule target_parts)
  obtain pb s1 where i: "mg_Remove mgr res (envConfigFromDaemon cfg') s = (Ok pb, s1)"
    and s': "s' = s1 \<or> (\<exists>e. mg_Restart mgr res s1 = (e, s'))"
    using assms(1) t p(1) by (auto simp: remove_cmd_def Let_def split: sum.splits prod.splits option.splits if_splits)
  have "mg_Resolve mgr name sc s1 = Ok res" "mg_CheckInjected mgr res s1 \<noteq> Ok True"
    using remove_resolves [OF p(5) i] remove_checks [OF i] by simp_all
  then have "mg_Resolve mgr name sc s' = Ok res" "mg_CheckInjected mgr res s' \<noteq> Ok True" using s' restarted by blast+
  then show ?thesis using status_of [OF p(2,3)] p(4) by blast
qed

end

section \<open>systemd meets the contract\<close>

lemma has_suffix_iff: "has_suffix s t \<longleftrightarrow> (\<exists>u. s = u @ t)"
proof
  assume "has_suffix s t"
  then obtain u where "rev s = rev t @ u" by (auto simp: has_suffix_def prefix_def)
  then have "s = rev u @ t" by (metis rev_append rev_rev_ident)
  then show "\<exists>u. s = u @ t" ..
qed (auto simp: has_suffix_def)

lemma has_suffix_trans: "has_suffix s t \<Longrightarrow> has_suffix t u \<Longrightarrow> has_suffix s u"
  by (auto simp: has_suffix_iff)

lemma has_suffix_last: "has_suffix s t \<Longrightarrow> t \<noteq> [] \<Longrightarrow> last s = last t"
  by (auto simp: has_suffix_iff)

text \<open>A joined path ends as its last element ends, when that ends with a proper ending.\<close>

lemma path_join_suffix:
  assumes "CHR ''/'' \<notin> set e" "e \<noteq> []" "last e \<noteq> CHR ''.''"
  shows "has_suffix (path_join [dir, x @ e]) e"
proof -
  note e = assms(2)
  let ?p = "join (filter (\<lambda>e. e \<noteq> []) [dir, x @ e]) ''/''"
  have p: "\<exists>s. ?p = s @ e" using e by (cases "dir = []") auto
  then obtain s where s: "?p = s @ e" ..
  define w where "w = last (split_at (CHR ''/'') s) @ e"
  have l: "last (split_at (CHR ''/'') ?p) = w" unfolding s w_def by (rule last_split_at_append [OF assms(1)])
  have "w \<noteq> []" "last w \<noteq> CHR ''.''" using assms(2,3) by (simp_all add: w_def)
  then have "w \<noteq> []" "w \<noteq> ''.''" "w \<noteq> ''..''" by auto
  then have "has_suffix (path_clean ?p) w" by (rule path_clean_last [OF l])
  moreover have "has_suffix w e" by (simp add: w_def)
  ultimately have "has_suffix (path_clean ?p) e" by (rule has_suffix_trans)
  then show ?thesis using e by (simp add: path_join_def Let_def)
qed

lemma systemd_paths:
  "last (path_join [dir, name @ ''.service'']) = CHR ''e''"
  "last (drop_in_dir sd) = CHR ''d''" "last (drop_in_path sd) = CHR ''f''"
  using has_suffix_last [OF path_join_suffix [of "''.service''" dir name]]
    has_suffix_last [OF path_join_suffix [of "''.d''" "sd_DropInRoot sd" "sd_UnitName sd"]]
    has_suffix_last [OF path_join_suffix [of "dropInFileName" "drop_in_dir sd" "[]"]]
  by (simp_all add: drop_in_dir_def drop_in_path_def dropInFileName_def)

text \<open>The file of the injection and its directory are no unit files, so neither operation changes what is found.\<close>

definition same_units :: "FileSys \<Rightarrow> FileSys \<Rightarrow> bool" where
  "same_units fs fs' \<longleftrightarrow> (\<forall>p. last p = CHR ''e'' \<longrightarrow>
     (p \<in> fst ` set (fs_files fs') \<or> p \<in> set (fs_dirs fs')) = (p \<in> fst ` set (fs_files fs) \<or> p \<in> set (fs_dirs fs)))"

lemma same_units_resolve: "same_units fs fs' \<Longrightarrow> systemd_Resolve F m name sc fs' = systemd_Resolve F m name sc fs"
proof -
  assume "same_units fs fs'"
  then have "fs_stat F fs' (path_join [dir, name @ ''.service'']) = fs_stat F fs (path_join [dir, name @ ''.service''])" for dir
    using systemd_paths(1) [of dir name] by (simp add: fs_stat_def same_units_def split: option.split)
  then show ?thesis unfolding systemd_Resolve_def by simp
qed

lemma same_units_refl [simp]: "same_units fs fs" by (simp add: same_units_def)

lemma keys_update [simp]: "fst ` set (AList.update k v al) = insert k (fst ` set al)"
  using dom_update [of k v al] by (simp add: dom_map_of_conv_image_fst)

lemma same_units_trans: "same_units a b \<Longrightarrow> same_units b c \<Longrightarrow> same_units a c" by (simp add: same_units_def)

lemma same_units_mkdir: "fs_mkdir_all F p fs = (e, fs') \<Longrightarrow> last p \<noteq> CHR ''e'' \<Longrightarrow> same_units fs fs'"
  by (force simp: fs_mkdir_all_def same_units_def split: option.splits if_splits)

lemma same_units_write: "fs_write_file F p c fs = (e, fs') \<Longrightarrow> last p \<noteq> CHR ''e'' \<Longrightarrow> same_units fs fs'"
proof -
  assume w: "fs_write_file F p c fs = (e, fs')" and p: "last p \<noteq> CHR ''e''"
  have dirs: "fs_dirs fs' = fs_dirs fs" using w by (auto simp: fs_write_file_def split: option.splits prod.splits)
  have "fs_files fs' = fs_files fs \<or> (\<exists>c. fs_files fs' = AList.update p c (fs_files fs))"
    using w by (auto simp: fs_write_file_def split: option.splits prod.splits)
  then show ?thesis
  proof (elim disjE exE)
    fix c assume "fs_files fs' = AList.update p c (fs_files fs)"
    then have "fst ` set (fs_files fs') = insert p (fst ` set (fs_files fs))" by simp
    then show ?thesis using p dirs by (simp add: same_units_def) blast
  qed (simp add: same_units_def dirs)
qed

lemma same_units_rm: "fs_remove F p fs = (e, fs') \<Longrightarrow> last p \<noteq> CHR ''e'' \<Longrightarrow> same_units fs fs'"
  by (force simp: fs_remove_def same_units_def split: option.splits)

lemma same_units_inject: "systemd_Inject F res cfg fs = (r, fs') \<Longrightarrow> same_units fs fs'"
  using systemd_paths(2,3)
  by (auto simp: systemd_Inject_def split: option.splits prod.splits
      dest!: same_units_mkdir same_units_write intro: same_units_trans)

lemma same_units_remove: "systemd_Remove F res cfg fs = (r, fs') \<Longrightarrow> same_units fs fs'"
  using systemd_paths(2,3) same_units_rm [OF prod.collapse [symmetric]]
  by (auto simp: systemd_Remove_def split: option.splits prod.splits if_splits dest!: same_units_rm intro: same_units_trans)

lemma restart_frame:
  "systemd_Restart F res fs = (e, fs') \<Longrightarrow> fs_files fs' = fs_files fs \<and> fs_dirs fs' = fs_dirs fs"
  by (auto simp: systemd_Restart_def fs_run_def Let_def split: option.splits)

lemma check_path: "path_join [sd_DropInRoot sd, sd_UnitName sd @ ''.d'', dropInFileName] = drop_in_path sd"
  using path_join_nested [of "sd_UnitName sd @ ''.d''" dropInFileName "sd_DropInRoot sd"]
  by (simp add: drop_in_path_def drop_in_dir_def dropInFileName_def)

lemma check_files: "fs_files fs' = fs_files fs \<Longrightarrow> systemd_CheckInjected F res fs' = systemd_CheckInjected F res fs"
proof -
  assume "fs_files fs' = fs_files fs"
  then have "fs_read_file F fs' p = fs_read_file F fs p" for p by (simp add: fs_read_file_def split: option.split)
  then show ?thesis by (simp add: systemd_CheckInjected_def Let_def split: option.split)
qed

text \<open>The generated file has the line the check looks for.\<close>

lemma trim_env_line: "trim_space (env_line kv) = env_line kv"
proof -
  have "lead_len space_seqs (env_line kv) = 0" "lead_len (map rev space_seqs) (rev (env_line kv)) = 0"
    by (simp_all add: env_line_def space_seqs_def)
  then show ?thesis by (simp add: trim_space_def trim_front_fix)
qed

lemma injected_env_line:
  assumes "plain_address cfg"
  shows "injected_line (env_line (''HTTPS_PROXY'', ec_ProxyURL cfg))"
proof -
  let ?l = "env_line (''HTTPS_PROXY'', ec_ProxyURL cfg)"
  have "contains ?l ''HTTPS_PROXY=''"
    unfolding contains_iff by (rule exI [of _ "''Environment=\"''"], rule exI [of _ "ec_ProxyURL cfg @ ''\"''"]) (simp add: env_line_def)
  moreover have "\<not> has_suffix ?l ''HTTPS_PROXY=\"\"''"
  proof
    assume "has_suffix ?l ''HTTPS_PROXY=\"\"''"
    then have "prefix (rev ''HTTPS_PROXY=\"\"'') (rev ?l)" by (simp add: has_suffix_def)
    moreover obtain c u where u: "rev (ec_ProxyURL cfg) = c # u"
      using assms by (cases "rev (ec_ProxyURL cfg)") (auto simp: plain_address_def)
    ultimately have "c = CHR 0x22" by (simp add: env_line_def)
    then have "CHR 0x22 \<in> set (rev (ec_ProxyURL cfg))" using u by simp
    then show False using assms by (simp add: plain_address_def)
  qed
  ultimately show ?thesis by (simp add: injected_line_def trim_env_line)
qed

lemma generated_injected:
  assumes "plain_address cfg"
  shows "has_prefix (generateSystemdDropIn cfg) dropInHeader \<and> list_ex injected_line (split_at newline (generateSystemdDropIn cfg))"
proof -
  let ?l = "env_line (''HTTPS_PROXY'', ec_ProxyURL cfg)"
  have l: "newline \<notin> set ?l" using assms by (simp add: env_line_def plain_address_def newline_def)
  obtain rest where "generateSystemdDropIn cfg = (dropInHeader @ ''[Service]'') @ newline # (?l @ newline # rest)"
    by (simp add: generateSystemdDropIn_def ProxyEnvVars_def as_line_def)
  then have "?l \<in> set (split_at newline (generateSystemdDropIn cfg))"
    unfolding split_at_append using split_at_line [OF l] split_at_append by (metis Un_iff list.set_intros(1) set_append)
  moreover have "has_prefix (generateSystemdDropIn cfg) dropInHeader" by (simp add: generateSystemdDropIn_def)
  ultimately show ?thesis using injected_env_line [OF assms] by (auto simp: list_ex_iff)
qed

lemma systemd_inject_checks:
  assumes "systemd_Inject F res cfg fs = (Ok p, fs')" "plain_address cfg"
  shows "systemd_CheckInjected F res fs' \<noteq> Ok False"
proof -
  obtain sd where sd: "re_Systemd res = Some sd" using assms(1) by (auto simp: systemd_Inject_def split: option.splits)
  then have "map_of (fs_files fs') (drop_in_path sd) = Some (generateSystemdDropIn cfg)"
    using assms(1) by (auto simp: systemd_Inject_def fs_mkdir_all_def fs_write_file_def update_conv split: option.splits prod.splits if_splits)
  then show ?thesis using generated_injected [OF assms(2)] sd
    by (simp add: systemd_CheckInjected_def check_path fs_read_file_def Let_def split: option.split)
qed

lemma systemd_remove_checks:
  assumes "systemd_Remove F res cfg fs = (Ok pb, fs')"
  shows "systemd_CheckInjected F res fs' \<noteq> Ok True"
proof -
  obtain sd where sd: "re_Systemd res = Some sd" using assms by (auto simp: systemd_Remove_def split: option.splits)
  have "map_of (fs_files fs') (drop_in_path sd) = None"
    using assms sd by (auto simp: systemd_Remove_def fs_remove_def fs_stat_def map_of_eq_None_iff
        split: option.splits prod.splits if_splits)
  then show ?thesis using sd by (simp add: systemd_CheckInjected_def check_path fs_read_file_def Let_def split: option.split)
qed

interpretation systemd: service_manager "systemd_manager F m" for F m
proof unfold_locales
  fix name sc s res cfg r s'
  assume a: "mg_Resolve (systemd_manager F m) name sc s = Ok res" "mg_Inject (systemd_manager F m) res cfg s = (r, s')"
  show "mg_Resolve (systemd_manager F m) name sc s' = Ok res"
    using a same_units_resolve [OF same_units_inject [of F res cfg s r s'], of F m name sc] by (simp add: systemd_manager_def)
next
  fix name sc s res cfg r' s'
  assume a: "mg_Resolve (systemd_manager F m) name sc s = Ok res" "mg_Remove (systemd_manager F m) res cfg s = (r', s')"
  show "mg_Resolve (systemd_manager F m) name sc s' = Ok res"
    using a same_units_resolve [OF same_units_remove [of F res cfg s r' s'], of F m name sc] by (simp add: systemd_manager_def)
next
  fix res s e s' name sc
  assume a: "mg_Restart (systemd_manager F m) res s = (e, s')"
  then have "same_units s s'" using restart_frame [of F res s e s'] by (simp add: systemd_manager_def same_units_def)
  then show "mg_Resolve (systemd_manager F m) name sc s' = mg_Resolve (systemd_manager F m) name sc s"
    using same_units_resolve [of s s' F m name sc] by (simp add: systemd_manager_def)
next
  fix res s e s' res'
  assume "mg_Restart (systemd_manager F m) res s = (e, s')"
  then show "mg_CheckInjected (systemd_manager F m) res' s' = mg_CheckInjected (systemd_manager F m) res' s"
    using restart_frame [of F res s e s'] check_files [of s' s F res'] by (simp add: systemd_manager_def)
next
  fix res cfg s p s'
  assume "mg_Inject (systemd_manager F m) res cfg s = (Ok p, s')" "plain_address cfg"
  then show "mg_CheckInjected (systemd_manager F m) res s' \<noteq> Ok False"
    using systemd_inject_checks [of F res cfg s p s'] by (simp add: systemd_manager_def)
next
  fix res cfg s pb s'
  assume "mg_Remove (systemd_manager F m) res cfg s = (Ok pb, s')"
  then show "mg_CheckInjected (systemd_manager F m) res s' \<noteq> Ok True"
    using systemd_remove_checks [of F res cfg s pb s'] by (simp add: systemd_manager_def)
qed

text \<open>The address of the daemon is proper when its listener is.\<close>

lemma daemon_address:
  "newline \<notin> set (dp_Listen (cf_Proxy cfg)) \<Longrightarrow> CHR 0x22 \<notin> set (dp_Listen (cf_Proxy cfg)) \<Longrightarrow> plain_address (envConfigFromDaemon cfg)"
  by (simp add: plain_address_def envConfigFromDaemon_def newline_def)

text \<open>C16: What \<open>crabwise service\<close> did to a systemd service is what its status reports, if the listener of the proxy has
  neither a quote nor a newline in it. Once \<open>inject\<close> has reported that it wrote the proxy into the service, also
  when the restart failed after it, the status of the same service finds it and does not say that it is
  not injected; once \<open>remove\<close> has ended without error, the status does not say that it is injected. This
  holds whatever calls of the file system fail. It is no claim about launchd, whose removal ignores
  failing commands.\<close>

theorem service_status_follows:
  assumes "sv_config env = Ok (cfg, agents)" "newline \<notin> set (dp_Listen (cf_Proxy cfg))" "CHR 0x22 \<notin> set (dp_Listen (cf_Proxy cfg))"
  shows "(inject_cmd (Some (systemd_manager F m)) env flags fs = (MsgInjected path # msgs, err, fs') \<longrightarrow>
      (\<exists>name r. status_cmd (Some (systemd_manager F m)) env flags fs' = ([MsgStatus name r], None) \<and> r \<noteq> Ok False)) \<and>
    (remove_cmd (Some (systemd_manager F m)) env flags fs = (msgs', None, fs'') \<longrightarrow>
      (\<exists>name r. status_cmd (Some (systemd_manager F m)) env flags fs'' = ([MsgStatus name r], None) \<and> r \<noteq> Ok True))"
  using systemd.inject_then_status [OF _ assms(1) daemon_address [OF assms(2,3)]] systemd.remove_then_status by blast




section \<open>A value PlistBuddy would split is refused before anything runs\<close>

lemma unsafe_value_iff: "unsafe_value vars = None \<longleftrightarrow> (\<forall>(k, v) \<in> set vars. \<not> contains v '';'')"
  by (induction vars rule: unsafe_value.induct) (auto simp: validatePlistBuddyValue_def)

lemma launchd_refuses:
  "re_Launchd res = Some ld \<Longrightarrow> (k, v) \<in> set (ProxyEnvVars cfg) \<Longrightarrow> contains v '';'' \<Longrightarrow>
     \<exists>err. launchd_Inject T res cfg s = (Err err, s)"
  using unsafe_value_iff [of "ProxyEnvVars cfg"] by (fastforce simp: launchd_Inject_def split: option.split)

text \<open>launchd's removal deletes the variables of an injection it finds by one of them, whoever set it; what the
  check does not find is left alone.\<close>

lemma launchd_Remove_untouched:
  "launchd_CheckInjected T res s = Ok False \<Longrightarrow> snd (launchd_Remove T res cfg s) = s"
  by (simp add: launchd_Remove_def split: option.split)

section \<open>A machine with one service\<close>

definition sample_service_config :: Config where
  "sample_service_config = zero_config\<lparr>cf_Proxy := (cf_Proxy zero_config)\<lparr>dp_Listen := ''127.0.0.1:9119''\<rparr>\<rparr>"

definition sample_service_env :: ServiceEnv where
  "sample_service_env = \<lparr>sv_config = Ok (sample_service_config, Map.empty), sv_uid = 0, sv_sudoUser = [], sv_goos = ''linux''\<rparr>"

definition sample_flags :: ServiceFlags where
  "sample_flags = \<lparr>sf_scope = [], sf_agent = ''openclaw'', sf_restart = True\<rparr>"

definition no_faults :: FsFaults where
  "no_faults = \<lparr>ff_mkdir = (\<lambda>_. None), ff_write = (\<lambda>_. None), ff_stat = (\<lambda>_. None), ff_remove = (\<lambda>_. None), ff_read = (\<lambda>_. None),
     ff_readdir = (\<lambda>_. None), ff_run = (\<lambda>_. None)\<rparr>"

definition sample_units :: FileSys where
  "sample_units = \<lparr>fs_files = [(''/etc/systemd/system/openclaw.service'', [])], fs_dirs = [], fs_commands = []\<rparr>"

definition sample_resolution :: SystemdResolution where
  "sample_resolution = \<lparr>sd_UnitName = ''openclaw.service'', sd_UnitPath = ''/etc/systemd/system/openclaw.service'',
     sd_DropInRoot = ''/etc/systemd/system''\<rparr>"

lemma sample_paths:
  "drop_in_dir sample_resolution = ''/etc/systemd/system/openclaw.service.d''"
  "drop_in_path sample_resolution = ''/etc/systemd/system/openclaw.service.d/crabwise-proxy.conf''"
  by (simp_all add: drop_in_dir_def drop_in_path_def sample_resolution_def dropInFileName_def path_join_def path_clean_def
      clean_step_def has_prefix_def)

lemma sample_resolved:
  "systemd_Resolve no_faults (NewSystemdManager ''/root'') ''openclaw'' ScopeSystem sample_units =
     Ok \<lparr>re_ServiceName = ''openclaw'', re_Scope = ScopeSystem, re_Systemd = Some sample_resolution, re_Launchd = None\<rparr>"
  by (simp add: systemd_Resolve_def NewSystemdManager_def fs_stat_def no_faults_def sample_units_def sample_resolution_def
      path_join_def path_clean_def clean_step_def has_prefix_def Let_def)

lemma sample_injected:
  "\<exists>fs'. inject_cmd (Some (systemd_manager no_faults (NewSystemdManager ''/root''))) sample_service_env sample_flags sample_units =
     (MsgInjected ''/etc/systemd/system/openclaw.service.d/crabwise-proxy.conf'' # [MsgRestarted ''openclaw''], None, fs')"
  using sample_resolved
  by (simp add: inject_cmd_def service_target_def service_name_def sample_service_env_def sample_flags_def ParseScope_def
      ValidatePrivileges_def ResolveAgentName_def systemd_manager_def systemd_Inject_def fs_mkdir_all_def fs_write_file_def
      systemd_Restart_def fs_run_def no_faults_def sample_paths)

theorem service_status_follows_witness:
  "\<exists>fs' name r. inject_cmd (Some (systemd_manager no_faults (NewSystemdManager ''/root''))) sample_service_env sample_flags sample_units =
      (MsgInjected ''/etc/systemd/system/openclaw.service.d/crabwise-proxy.conf'' # [MsgRestarted ''openclaw''], None, fs') \<and>
    status_cmd (Some (systemd_manager no_faults (NewSystemdManager ''/root''))) sample_service_env sample_flags fs' = ([MsgStatus name r], None) \<and>
    r \<noteq> Ok False"
proof -
  obtain fs' where i: "inject_cmd (Some (systemd_manager no_faults (NewSystemdManager ''/root''))) sample_service_env sample_flags sample_units =
      (MsgInjected ''/etc/systemd/system/openclaw.service.d/crabwise-proxy.conf'' # [MsgRestarted ''openclaw''], None, fs')"
    using sample_injected by blast
  have "sv_config sample_service_env = Ok (sample_service_config, Map.empty)" "newline \<notin> set (dp_Listen (cf_Proxy sample_service_config))"
    "CHR 0x22 \<notin> set (dp_Listen (cf_Proxy sample_service_config))"
    by (simp_all add: sample_service_env_def sample_service_config_def newline_def)
  from service_status_follows [OF this] i show ?thesis by blast
qed


theorem wrap_env_witness:
  "case wrap_cmd [''claude''] (Ok sample_service_config) (\<lambda>c. Ok (''/usr/bin/'' @ c)) [''HOME=/root'', ''HTTPS_PROXY=http://old''] of
     Inr (binary, args, env) \<Rightarrow> getenv env ''HTTPS_PROXY'' = Some ''http://127.0.0.1:9119'' \<and> getenv env ''HOME'' = Some ''/root''
   | Inl _ \<Rightarrow> False"
proof -
  obtain binary args env where w: "wrap_cmd [''claude''] (Ok sample_service_config) (\<lambda>c. Ok (''/usr/bin/'' @ c))
      [''HOME=/root'', ''HTTPS_PROXY=http://old''] = Ok (binary, args, env)"
    by (simp add: wrap_cmd_def)
  have "getenv [''HOME=/root'', ''HTTPS_PROXY=http://old''] ''HOME'' = Some ''/root''" by (simp add: getenv_def env_key_def)
  then show ?thesis
    using wrap_env [OF w, of "''HTTPS_PROXY''"] wrap_env [OF w, of "''HOME''"] unfolding w
    by (simp add: ProxyEnvVars_def envConfigFromDaemon_def sample_service_config_def)
qed

end
