(* ===== verification/Settings_View.thy ===== *)
theory Settings_View
  imports Config
begin

text \<open>
  \<open>internal/cli/settings_tui.go\<close> and \<open>settings.go\<close>: the editor of the configuration, a state machine over
  keys. An update gives the new model and the commands, among them the directories it makes and the
  files it writes, or nothing when it panics. The configuration is the one of \<open>Config\<close>; printing it as
  YAML, the texts of durations and the text input are arguments. Colours and \<open>View\<close> are left out.
\<close>

section \<open>Settings\<close>

datatype SettingKind = KindBool | KindString | KindDuration | KindSection

record SettingItem =
  it_key :: string
  it_label :: string
  it_kind :: SettingKind
  it_section :: string

definition setting :: "string \<Rightarrow> string \<Rightarrow> SettingKind \<Rightarrow> string \<Rightarrow> SettingItem" where
  "setting key label kind sect = \<lparr>it_key = key, it_label = label, it_kind = kind, it_section = sect\<rparr>"

definition settingsSchema :: "SettingItem list" where
  "settingsSchema =
     [setting ''_section_desktop'' ''Desktop Notifications'' KindSection ''desktop'',
      setting ''notifications.desktop.enabled'' ''Enabled'' KindBool ''desktop'',
      setting ''notifications.desktop.min_interval'' ''Min Interval'' KindDuration ''desktop'',
      setting ''_section_webhook'' ''Webhook Notifications'' KindSection ''webhook'',
      setting ''notifications.webhook.enabled'' ''Enabled'' KindBool ''webhook'',
      setting ''notifications.webhook.url'' ''URL'' KindString ''webhook'',
      setting ''notifications.webhook.auth_header_env'' ''Auth Header Env'' KindString ''webhook'',
      setting ''notifications.webhook.format'' ''Format'' KindString ''webhook'',
      setting ''notifications.webhook.min_interval'' ''Min Interval'' KindDuration ''webhook'',
      setting ''_section_audit'' ''Audit'' KindSection ''audit'',
      setting ''audit.retention_days'' ''Retention Days'' KindString ''audit'',
      setting ''audit.raw_payload_enabled'' ''Raw Payload Enabled'' KindBool ''audit'',
      setting ''_section_daemon'' ''Daemon'' KindSection ''daemon'',
      setting ''daemon.log_level'' ''Log Level'' KindString ''daemon'']"

text \<open>\<open>strconv.Atoi\<close>: a sign, digits, and a value that fits 64 bits.\<close>

definition Atoi :: "string \<Rightarrow> int option" where
  "Atoi s =
     (let negative = has_prefix s ''-'';
          digits = (if negative \<or> has_prefix s ''+'' then drop 1 s else s);
          n = int (read_nat_from 0 digits); v = (if negative then - n else n)
      in if digits = [] \<or> \<not> list_all (\<lambda>c. CHR ''0'' \<le> c \<and> c \<le> CHR ''9'') digits then None
         else if - (2 ^ 63) \<le> v \<and> v < 2 ^ 63 then Some v else None)"

definition show_bool :: "bool \<Rightarrow> string" where "show_bool b = (if b then ''true'' else ''false'')"

text \<open>
  The text of a duration and its parser, the text input, YAML, and what validation needs. The input is
  charmbracelet's: given its \<open>CharLimit\<close>, \<open>sl_set_value\<close> is what it keeps of a value that is put into it
  (it cuts the value off there), \<open>sl_type\<close> its reaction to a key.
\<close>

record SettingsLib =
  sl_show_duration :: "duration \<Rightarrow> string"
  sl_parse_duration :: "string \<Rightarrow> error + duration"
  sl_set_value :: "nat \<Rightarrow> string \<Rightarrow> string"
  sl_type :: "nat \<Rightarrow> string \<Rightarrow> string \<Rightarrow> string"
  sl_marshal :: "Config \<Rightarrow> error + string"
  sl_config :: ConfigLib
  sl_env :: Env

definition getValue :: "SettingsLib \<Rightarrow> string \<Rightarrow> Config \<Rightarrow> string" where
  "getValue L key c =
     (let n = cf_Notifications c; d = nt_Desktop n; w = nt_Webhook n
      in if key = ''notifications.desktop.enabled'' then show_bool (dn_Enabled d)
         else if key = ''notifications.desktop.min_interval'' then sl_show_duration L (dn_MinInterval d)
         else if key = ''notifications.webhook.enabled'' then show_bool (wn_Enabled w)
         else if key = ''notifications.webhook.url'' then wn_URL w
         else if key = ''notifications.webhook.auth_header_env'' then wn_AuthHeaderEnv w
         else if key = ''notifications.webhook.format'' then wn_Format w
         else if key = ''notifications.webhook.min_interval'' then sl_show_duration L (wn_MinInterval w)
         else if key = ''audit.retention_days'' then show_int (ac_RetentionDays (cf_Audit c))
         else if key = ''audit.raw_payload_enabled'' then show_bool (ac_RawPayloadEnabled (cf_Audit c))
         else if key = ''daemon.log_level'' then dm_LogLevel (cf_Daemon c)
         else [])"

text \<open>Writing through the pointers of the configuration.\<close>

definition set_desktop :: "(DesktopNotifyConfig \<Rightarrow> DesktopNotifyConfig) \<Rightarrow> Config \<Rightarrow> Config" where
  "set_desktop f c = c\<lparr>cf_Notifications := (cf_Notifications c)\<lparr>nt_Desktop := f (nt_Desktop (cf_Notifications c))\<rparr>\<rparr>"

definition set_webhook :: "(WebhookNotifyConfig \<Rightarrow> WebhookNotifyConfig) \<Rightarrow> Config \<Rightarrow> Config" where
  "set_webhook f c = c\<lparr>cf_Notifications := (cf_Notifications c)\<lparr>nt_Webhook := f (nt_Webhook (cf_Notifications c))\<rparr>\<rparr>"

definition setValue :: "SettingsLib \<Rightarrow> string \<Rightarrow> string \<Rightarrow> Config \<Rightarrow> error + Config" where
  "setValue L key val c =
     (if key = ''notifications.desktop.min_interval'' \<or> key = ''notifications.webhook.min_interval'' then
        (case sl_parse_duration L val of
           Inl err \<Rightarrow> Err (''invalid duration: '' @ err)
         | Inr d \<Rightarrow> Ok (if key = ''notifications.desktop.min_interval'' then set_desktop (dn_MinInterval_update (\<lambda>_. d)) c
                      else set_webhook (wn_MinInterval_update (\<lambda>_. d)) c))
      else if key = ''notifications.webhook.url'' then Ok (set_webhook (wn_URL_update (\<lambda>_. val)) c)
      else if key = ''notifications.webhook.auth_header_env'' then Ok (set_webhook (wn_AuthHeaderEnv_update (\<lambda>_. val)) c)
      else if key = ''notifications.webhook.format'' then
        (if val \<in> {[], ''discord''} then Ok (set_webhook (wn_Format_update (\<lambda>_. val)) c)
         else Err (''must be '' @ quote_string [] @ '' or '' @ quote_string ''discord''))
      else if key = ''audit.retention_days'' then
        (case Atoi val of
           None \<Rightarrow> Err ''must be positive integer''
         | Some n \<Rightarrow> if n \<le> 0 then Err ''must be positive integer'' else Ok (c\<lparr>cf_Audit := (cf_Audit c)\<lparr>ac_RetentionDays := n\<rparr>\<rparr>))
      else if key = ''daemon.log_level'' then
        (if val \<in> {''debug'', ''info'', ''warn'', ''error''} then Ok (c\<lparr>cf_Daemon := (cf_Daemon c)\<lparr>dm_LogLevel := val\<rparr>\<rparr>)
         else Err ''must be debug|info|warn|error'')
      else Err (''unknown setting '' @ quote_string key))"

definition toggleBool :: "string \<Rightarrow> Config \<Rightarrow> Config" where
  "toggleBool key c =
     (if key = ''notifications.desktop.enabled'' then set_desktop (\<lambda>d. d\<lparr>dn_Enabled := \<not> dn_Enabled d\<rparr>) c
      else if key = ''notifications.webhook.enabled'' then set_webhook (\<lambda>w. w\<lparr>wn_Enabled := \<not> wn_Enabled w\<rparr>) c
      else if key = ''audit.raw_payload_enabled'' then c\<lparr>cf_Audit := (cf_Audit c)\<lparr>ac_RawPayloadEnabled := \<not> ac_RawPayloadEnabled (cf_Audit c)\<rparr>\<rparr>
      else c)"

section \<open>The model\<close>

record SettingsModel =
  se_cfg :: Config
  se_cfgPath :: string
  se_items :: "SettingItem list"
  se_cursor :: int
  se_editing :: bool
  se_input :: string
  se_dirty :: bool
  se_saved :: bool
  se_saveMsg :: string
  se_saveTick :: int
  se_width :: int
  se_height :: int

text \<open>The loops from a position up to the end and down to the start.\<close>

definition nextEditable :: "SettingItem list \<Rightarrow> int \<Rightarrow> int" where
  "nextEditable items from =
     (case find (\<lambda>i. it_kind (items ! i) \<noteq> KindSection) [nat (from + 1)..<length items] of Some i \<Rightarrow> int i | None \<Rightarrow> from)"

definition prevEditable :: "SettingItem list \<Rightarrow> int \<Rightarrow> int" where
  "prevEditable items from =
     (case find (\<lambda>i. it_kind (items ! i) \<noteq> KindSection) (rev [0..<nat from]) of Some i \<Rightarrow> int i | None \<Rightarrow> from)"

definition newSettingsModel :: "Config \<Rightarrow> string \<Rightarrow> SettingsModel" where
  "newSettingsModel cfg cfgPath =
     \<lparr>se_cfg = cfg, se_cfgPath = cfgPath, se_items = settingsSchema, se_cursor = nextEditable settingsSchema (-1), se_editing = False,
      se_input = [], se_dirty = False, se_saved = False, se_saveMsg = [], se_saveTick = 0, se_width = 80, se_height = 24\<rparr>"

datatype SettingsCmd = QuitSettings | BlinkInput | TickSave | MakeDir string | WriteConfig string string

text \<open>The errors of \<open>MkdirAll\<close> and of \<open>WriteFile\<close>.\<close>

record SettingsIo =
  si_mkdir :: "error option"
  si_write :: "error option"

definition show_error :: "string \<Rightarrow> SettingsModel \<Rightarrow> SettingsModel" where
  "show_error msg m = m\<lparr>se_saveMsg := msg, se_saveTick := 3\<rparr>"

text \<open>The directory of a path up to its last slash; without one the slice panics.\<close>

definition config_dir :: "string \<Rightarrow> string option" where
  "config_dir path = (if CHR ''/'' \<in> set path then Some (rev (drop 1 (dropWhile (\<lambda>c. c \<noteq> CHR ''/'') (rev path)))) else None)"

definition save_settings :: "SettingsLib \<Rightarrow> SettingsIo \<Rightarrow> SettingsModel \<Rightarrow> (SettingsModel \<times> SettingsCmd list) option" where
  "save_settings L io m =
     (case validate (sl_config L) (sl_env L) (se_cfg m) of
        (Some err, c) \<Rightarrow> Some (show_error (''validation: '' @ err) (m\<lparr>se_cfg := c\<rparr>), [TickSave])
      | (None, c) \<Rightarrow>
          (let m = m\<lparr>se_cfg := c\<rparr>
           in case sl_marshal L c of
                Inl err \<Rightarrow> Some (show_error (''marshal: '' @ err) m, [TickSave])
              | Inr text \<Rightarrow>
                  (case config_dir (se_cfgPath m) of
                     None \<Rightarrow> None
                   | Some dir \<Rightarrow>
                       (let made = (if dir \<noteq> [] then [MakeDir dir] else [])
                        in if dir \<noteq> [] \<and> si_mkdir io \<noteq> None then Some (show_error (''mkdir: '' @ the (si_mkdir io)) m, made @ [TickSave])
                           else case si_write io of
                             Some err \<Rightarrow> Some (show_error (''write: '' @ err) m, made @ [WriteConfig (se_cfgPath m) text, TickSave])
                           | None \<Rightarrow> Some (m\<lparr>se_dirty := False, se_saved := True, se_saveMsg := ''saved to '' @ se_cfgPath m, se_saveTick := 3\<rparr>,
                                         made @ [WriteConfig (se_cfgPath m) text, TickSave])))))"

text \<open>\<open>CharLimit\<close> of the text input.\<close>

definition input_limit :: nat where "input_limit = 256"

definition updateNavigating :: "SettingsLib \<Rightarrow> SettingsIo \<Rightarrow> string \<Rightarrow> SettingsModel \<Rightarrow> (SettingsModel \<times> SettingsCmd list) option" where
  "updateNavigating L io key m =
     (if key = ''q'' \<or> key = ''ctrl+c'' then Some (m, [QuitSettings])
      else if key = ''up'' \<or> key = ''k'' then Some (m\<lparr>se_cursor := prevEditable (se_items m) (se_cursor m)\<rparr>, [])
      else if key = ''down'' \<or> key = ''j'' then Some (m\<lparr>se_cursor := nextEditable (se_items m) (se_cursor m)\<rparr>, [])
      else if key = '' '' \<or> key = ''enter'' then
        (if \<not> (0 \<le> se_cursor m \<and> se_cursor m < int (length (se_items m))) then None
         else let item = se_items m ! nat (se_cursor m)
              in if it_kind item = KindSection then Some (m, [])
                 else if it_kind item = KindBool then Some (m\<lparr>se_cfg := toggleBool (it_key item) (se_cfg m), se_dirty := True\<rparr>, [])
                 else Some (m\<lparr>se_editing := True, se_input := sl_set_value L input_limit (getValue L (it_key item) (se_cfg m))\<rparr>, [BlinkInput]))
      else if key = ''s'' then save_settings L io m
      else Some (m, []))"

definition updateEditing :: "SettingsLib \<Rightarrow> string \<Rightarrow> SettingsModel \<Rightarrow> (SettingsModel \<times> SettingsCmd list) option" where
  "updateEditing L key m =
     (if key = ''enter'' then
        (if \<not> (0 \<le> se_cursor m \<and> se_cursor m < int (length (se_items m))) then None
         else case setValue L (it_key (se_items m ! nat (se_cursor m))) (se_input m) (se_cfg m) of
           Inl err \<Rightarrow> Some (show_error (''invalid: '' @ err) (m\<lparr>se_editing := False\<rparr>), [TickSave])
         | Inr c \<Rightarrow> Some (m\<lparr>se_cfg := c, se_dirty := True, se_editing := False\<rparr>, []))
      else if key = ''esc'' then Some (m\<lparr>se_editing := False\<rparr>, [])
      else Some (m\<lparr>se_input := sl_type L input_limit key (se_input m)\<rparr>, []))"

datatype SettingsMsg = SettingsSize int int | SaveTick | SettingsKey string

definition settings_update :: "SettingsLib \<Rightarrow> SettingsIo \<Rightarrow> SettingsMsg \<Rightarrow> SettingsModel \<Rightarrow> (SettingsModel \<times> SettingsCmd list) option" where
  "settings_update L io msg m =
     (case msg of
        SettingsSize w h \<Rightarrow> Some (m\<lparr>se_width := w, se_height := h\<rparr>, [])
      | SaveTick \<Rightarrow>
          (let m = m\<lparr>se_saveTick := se_saveTick m - 1\<rparr>
           in if se_saveTick m \<le> 0 then Some (m\<lparr>se_saveMsg := []\<rparr>, []) else Some (m, [TickSave]))
      | SettingsKey key \<Rightarrow> (if se_editing m then updateEditing L key m else updateNavigating L io key m))"

section \<open>An edit changes its setting only\<close>

text \<open>What the editor shows after an accepted text: durations and numbers in their own writing.\<close>

definition shown :: "SettingsLib \<Rightarrow> string \<Rightarrow> string \<Rightarrow> string" where
  "shown L key val =
     (if key \<in> {''notifications.desktop.min_interval'', ''notifications.webhook.min_interval''} then
        (case sl_parse_duration L val of Inr d \<Rightarrow> sl_show_duration L d | Inl _ \<Rightarrow> [])
      else if key = ''audit.retention_days'' then (case Atoi val of Some n \<Rightarrow> show_int n | None \<Rightarrow> [])
      else val)"

lemma set_desktop_simps [simp]:
  "nt_Desktop (cf_Notifications (set_desktop f c)) = f (nt_Desktop (cf_Notifications c))"
  "nt_Webhook (cf_Notifications (set_desktop f c)) = nt_Webhook (cf_Notifications c)"
  "cf_Audit (set_desktop f c) = cf_Audit c" "cf_Daemon (set_desktop f c) = cf_Daemon c"
  by (simp_all add: set_desktop_def)

lemma set_webhook_simps [simp]:
  "nt_Webhook (cf_Notifications (set_webhook f c)) = f (nt_Webhook (cf_Notifications c))"
  "nt_Desktop (cf_Notifications (set_webhook f c)) = nt_Desktop (cf_Notifications c)"
  "cf_Audit (set_webhook f c) = cf_Audit c" "cf_Daemon (set_webhook f c) = cf_Daemon c"
  by (simp_all add: set_webhook_def)

lemma setValue_cases:
  assumes "setValue L key val c = Ok c'"
  obtains
    (desktop) d where "key = ''notifications.desktop.min_interval''" "sl_parse_duration L val = Ok d" "c' = set_desktop (dn_MinInterval_update (\<lambda>_. d)) c"
  | (webhook) d where "key = ''notifications.webhook.min_interval''" "sl_parse_duration L val = Ok d" "c' = set_webhook (wn_MinInterval_update (\<lambda>_. d)) c"
  | (url) "key = ''notifications.webhook.url''" "c' = set_webhook (wn_URL_update (\<lambda>_. val)) c"
  | (auth) "key = ''notifications.webhook.auth_header_env''" "c' = set_webhook (wn_AuthHeaderEnv_update (\<lambda>_. val)) c"
  | (format) "key = ''notifications.webhook.format''" "c' = set_webhook (wn_Format_update (\<lambda>_. val)) c"
  | (days) n where "key = ''audit.retention_days''" "Atoi val = Some n" "0 < n" "c' = c\<lparr>cf_Audit := (cf_Audit c)\<lparr>ac_RetentionDays := n\<rparr>\<rparr>"
  | (level) "key = ''daemon.log_level''" "c' = c\<lparr>cf_Daemon := (cf_Daemon c)\<lparr>dm_LogLevel := val\<rparr>\<rparr>"
  using assms unfolding setValue_def
  by (simp split: if_splits sum.splits option.splits)

text \<open>An accepted edit changes the setting it names and no other. After a text is accepted for a setting, the
  editor shows that text for it (a duration or a number in the way it is written), and every other
  setting shows what it showed; so does every other setting after a switch, whose own value is the
  opposite one.\<close>

theorem edit_changes_one:
  "(case setValue L key val c of
      Inl _ \<Rightarrow> True
    | Inr c' \<Rightarrow> \<forall>k. getValue L k c' = (if k = key then shown L key val else getValue L k c)) \<and>
   (\<forall>k. getValue L k (toggleBool key c) =
     (if k = key \<and> key \<in> {''notifications.desktop.enabled'', ''notifications.webhook.enabled'', ''audit.raw_payload_enabled''}
      then (if getValue L k c = ''true'' then ''false'' else ''true'') else getValue L k c))"
proof (intro conjI allI)
  show "case setValue L key val c of Inl _ \<Rightarrow> True | Inr c' \<Rightarrow> \<forall>k. getValue L k c' = (if k = key then shown L key val else getValue L k c)"
  proof (cases "setValue L key val c")
    case (Inr c')
    have "getValue L k c' = (if k = key then shown L key val else getValue L k c)" for k
      using Inr by (cases rule: setValue_cases) (simp_all add: getValue_def shown_def Let_def)
    then show ?thesis using Inr by simp
  qed simp
next
  fix k
  show "getValue L k (toggleBool key c) =
     (if k = key \<and> key \<in> {''notifications.desktop.enabled'', ''notifications.webhook.enabled'', ''audit.raw_payload_enabled''}
      then (if getValue L k c = ''true'' then ''false'' else ''true'') else getValue L k c)"
    by (simp add: getValue_def toggleBool_def show_bool_def Let_def)
qed

section \<open>What is saved can be loaded\<close>

fun settings_run :: "SettingsLib \<Rightarrow> (SettingsIo \<times> SettingsMsg) list \<Rightarrow> SettingsModel \<Rightarrow> (SettingsModel \<times> SettingsCmd list) option" where
  "settings_run L [] m = Some (m, [])"
| "settings_run L ((io, msg) # msgs) m =
     (case settings_update L io msg m of
        None \<Rightarrow> None
      | Some (m, cmds) \<Rightarrow> (case settings_run L msgs m of None \<Rightarrow> None | Some (m, rest) \<Rightarrow> Some (m, cmds @ rest)))"

text \<open>The cursor is on a setting, and what is edited is no switch.\<close>

definition on_setting :: "SettingItem list \<Rightarrow> int \<Rightarrow> bool" where
  "on_setting items i \<longleftrightarrow> 0 \<le> i \<and> i < int (length items) \<and> it_kind (items ! nat i) \<noteq> KindSection"

definition settings_inv :: "string \<Rightarrow> SettingsModel \<Rightarrow> bool" where
  "settings_inv path m \<longleftrightarrow> se_cfgPath m = path \<and> on_setting (se_items m) (se_cursor m) \<and>
     (se_editing m \<longrightarrow> it_kind (se_items m ! nat (se_cursor m)) \<in> {KindString, KindDuration})"

lemma nextEditable_on: "on_setting items i \<Longrightarrow> on_setting items (nextEditable items i)"
  by (auto simp: nextEditable_def on_setting_def find_Some_iff split: option.split)

lemma prevEditable_on: "on_setting items i \<Longrightarrow> on_setting items (prevEditable items i)"
  by (auto simp: prevEditable_def on_setting_def find_Some_iff rev_nth split: option.split)

definition writes_valid :: "SettingsLib \<Rightarrow> string \<Rightarrow> SettingsCmd list \<Rightarrow> bool" where
  "writes_valid L path cmds \<longleftrightarrow>
     (\<forall>p text. WriteConfig p text \<in> set cmds \<longrightarrow> p = path \<and> (\<exists>c. config_ok (sl_config L) c \<and> sl_marshal L c = Ok text))"

lemma save_ok:
  assumes "settings_inv path m" "\<not> se_editing m" "CHR ''/'' \<in> set path"
  shows "\<exists>m' cmds. save_settings L io m = Some (m', cmds) \<and> settings_inv path m' \<and> writes_valid L path cmds"
proof -
  obtain e c where v: "validate (sl_config L) (sl_env L) (se_cfg m) = (e, c)" by (cases "validate (sl_config L) (sl_env L) (se_cfg m)")
  have ok: "config_ok (sl_config L) c" if "e = None" using validate_ok [of "sl_config L" "sl_env L" "se_cfg m" c] v that by auto
  obtain d where d: "config_dir path = Some d" using assms(3) by (simp add: config_dir_def)
  show ?thesis
    using assms(1,2) ok d v
    by (cases e; cases "sl_marshal L c"; cases "si_write io"; cases "d = []"; cases "si_mkdir io")
      (auto simp: save_settings_def show_error_def settings_inv_def writes_valid_def Let_def)
qed

lemma settings_update_ok:
  assumes "settings_inv path m" "CHR ''/'' \<in> set path"
  shows "\<exists>m' cmds. settings_update L io msg m = Some (m', cmds) \<and> settings_inv path m' \<and> writes_valid L path cmds"
proof (cases msg)
  case (SettingsKey key)
  have at: "0 \<le> se_cursor m" "se_cursor m < int (length (se_items m))" "it_kind (se_items m ! nat (se_cursor m)) \<noteq> KindSection"
    using assms(1) by (auto simp: settings_inv_def on_setting_def)
  show ?thesis
  proof (cases "se_editing m")
    case True
    then show ?thesis using assms(1) at
      by (cases "setValue L (it_key (se_items m ! nat (se_cursor m))) (se_input m) (se_cfg m)")
        (simp_all add: SettingsKey settings_update_def updateEditing_def show_error_def settings_inv_def writes_valid_def)
  next
    case False
    have kinds: "it_kind (se_items m ! nat (se_cursor m)) = KindBool \<or> it_kind (se_items m ! nat (se_cursor m)) \<in> {KindString, KindDuration}"
      using at(3) by (cases "it_kind (se_items m ! nat (se_cursor m))") auto
    show ?thesis
      using False assms(1) at kinds save_ok [OF assms(1) False assms(2), of L io] nextEditable_on [of "se_items m" "se_cursor m"]
        prevEditable_on [of "se_items m" "se_cursor m"]
      by (auto simp: SettingsKey settings_update_def updateNavigating_def settings_inv_def writes_valid_def Let_def)
  qed
qed (use assms in \<open>auto simp: settings_update_def settings_inv_def writes_valid_def Let_def\<close>)

lemma settings_run_ok:
  assumes "CHR ''/'' \<in> set path"
  shows "settings_inv path m \<Longrightarrow> \<exists>m' cmds. settings_run L msgs m = Some (m', cmds) \<and> settings_inv path m' \<and> writes_valid L path cmds"
proof (induction msgs arbitrary: m)
  case (Cons x msgs)
  obtain io msg where x: "x = (io, msg)" by (cases x)
  obtain m1 c1 where u: "settings_update L io msg m = Some (m1, c1)" "settings_inv path m1" "writes_valid L path c1"
    using settings_update_ok [OF Cons.prems assms] by blast
  obtain m2 c2 where r: "settings_run L msgs m1 = Some (m2, c2)" "settings_inv path m2" "writes_valid L path c2"
    using Cons.IH [OF u(2)] by blast
  show ?case using u r by (auto simp: x writes_valid_def)
qed (simp add: writes_valid_def)

lemma settings_inv_new: "settings_inv path (newSettingsModel cfg path)"
proof -
  have "nextEditable settingsSchema (- 1) = 1"
    by (simp add: nextEditable_def settingsSchema_def setting_def upt_rec)
  then show ?thesis by (simp add: settings_inv_def newSettingsModel_def on_setting_def settingsSchema_def setting_def)
qed

text \<open>Loading over a home directory keeps a valid configuration valid.\<close>

lemma expand_not_Nil: "home \<noteq> [] \<Longrightarrow> p \<noteq> [] \<Longrightarrow> expand home p \<noteq> []"
  by (simp add: expand_def path_join_def Let_def path_clean_not_Nil)

lemma expandPaths_ok: "home \<noteq> [] \<Longrightarrow> config_ok L c \<Longrightarrow> config_ok L (expandPaths home c)"
  by (simp add: config_ok_def expandPaths_def expand_not_Nil proxy_cfg_ok_def)

text \<open>C19: What the settings editor writes can be loaded. Whatever keys are pressed and whatever calls fail, the
  editor does not panic and writes to no other file than its configuration, and a configuration file
  that holds what it wrote is accepted when the daemon loads it, if YAML reads back what it printed
  over the defaults.\<close>

theorem settings_saved_load:
  assumes "settings_run L msgs (newSettingsModel cfg path) = Some (m, cmds)" "WriteConfig p content \<in> set cmds" "CHR ''/'' \<in> set path"
    and "readFile path = Some content" "yaml dflt zero_config = Ok base" "dflt \<noteq> []" "env_home env \<noteq> []"
    and yaml: "\<forall>c. sl_marshal L c = Ok content \<longrightarrow> yaml content base = Ok c"
  shows "p = path \<and> (\<exists>cfg'. LoadConfig (sl_config L) yaml readFile env price dflt path = Ok cfg' \<and> config_ok (sl_config L) cfg')"
proof -
  have "writes_valid L path cmds"
    using settings_run_ok [OF assms(3) settings_inv_new, of L msgs cfg] assms(1) by auto
  then obtain c where p: "p = path" and c: "config_ok (sl_config L) c" "sl_marshal L c = Ok content"
    using assms(2) by (auto simp: writes_valid_def)
  let ?c = "expandPaths (env_home env) c"
  have ok: "config_ok (sl_config L) ?c" using expandPaths_ok [OF assms(7) c(1)] .
  then obtain c' where v: "validate (sl_config L) env ?c = (None, c')"
    using validate_None [of "sl_config L" env ?c] by (cases "validate (sl_config L) env ?c") auto
  have path: "path \<noteq> []" using assms(3) by auto
  have "LoadConfig (sl_config L) yaml readFile env price dflt path = Ok c'"
    using assms(4-6) yaml c(2) v path by (simp add: LoadConfig_def)
  then show ?thesis using p LoadConfig_ok by blast
qed

text \<open>A configuration named without a directory cannot be saved: the search for the last slash gives -1, and
  the slice up to it panics.\<close>

lemma save_needs_directory:
  "validate (sl_config L) (sl_env L) (se_cfg m) = (None, c) \<Longrightarrow> sl_marshal L c = Ok text \<Longrightarrow> CHR ''/'' \<notin> set (se_cfgPath m) \<Longrightarrow>
     save_settings L io m = None"
  by (simp add: save_settings_def config_dir_def)

section \<open>An editor that saves\<close>

definition sample_config :: Config where
  "sample_config = (fallback_config ''/root'' (\<lambda>_. 0))\<lparr>cf_Pricing := [], cf_Proxy := (cf_Proxy (fallback_config ''/root'' (\<lambda>_. 0)))\<lparr>dp_Enabled := False\<rparr>\<rparr>"

definition sample_settings_lib :: SettingsLib where
  "sample_settings_lib = \<lparr>sl_show_duration = show_int, sl_parse_duration = (\<lambda>s. case Atoi s of Some n \<Rightarrow> Ok n | None \<Rightarrow> Err s),
     sl_set_value = take, sl_type = (\<lambda>n k s. take n (s @ k)), sl_marshal = (\<lambda>c. if c = sample_config then Ok ''info'' else Err ''unknown''),
     sl_config = \<lparr>ul_hostname = (\<lambda>_. None), ul_regex_error = (\<lambda>_. None)\<rparr>, sl_env = \<lparr>env_get = (\<lambda>_. []), env_home = ''/root''\<rparr>\<rparr>"

lemma sample_config_ok: "config_ok (sl_config sample_settings_lib) sample_config"
  by (simp add: config_ok_def sample_config_def fallback_config_def proxy_cfg_ok_def provider_cfg_ok_def upstream_hosts_def
      sample_settings_lib_def second_def trim_space_def space_seqs_def)

lemma sample_saved:
  "\<exists>m. settings_run sample_settings_lib [(\<lparr>si_mkdir = None, si_write = None\<rparr>, SettingsKey ''s'')] (newSettingsModel sample_config ''/c.yaml'') =
     Some (m, [WriteConfig ''/c.yaml'' ''info'', TickSave])"
proof -
  have "fill_paths env sample_config = sample_config" for env
    by (simp add: fill_paths_def sample_config_def fallback_config_def)
  then have "validate (sl_config sample_settings_lib) (sl_env sample_settings_lib) sample_config = (None, sample_config)"
    using sample_config_ok validate_None [of "sl_config sample_settings_lib" "sl_env sample_settings_lib" sample_config]
      validate_ok [of "sl_config sample_settings_lib" "sl_env sample_settings_lib" sample_config]
    by (metis prod.collapse)
  then show ?thesis
    by (simp add: newSettingsModel_def settings_update_def updateNavigating_def save_settings_def Let_def)
      (simp add: sample_settings_lib_def config_dir_def)
qed

theorem settings_saved_load_witness:
  "\<exists>cfg'. LoadConfig (sl_config sample_settings_lib) (\<lambda>text c. Ok (if text = ''info'' then sample_config else c)) (\<lambda>_. Some ''info'')
     \<lparr>env_get = (\<lambda>_. []), env_home = ''/root''\<rparr> (\<lambda>_. 0) ''defaults'' ''/c.yaml'' = Ok cfg' \<and> config_ok (sl_config sample_settings_lib) cfg'"
proof -
  obtain m where "settings_run sample_settings_lib [(\<lparr>si_mkdir = None, si_write = None\<rparr>, SettingsKey ''s'')]
      (newSettingsModel sample_config ''/c.yaml'') = Some (m, [WriteConfig ''/c.yaml'' ''info'', TickSave])"
    using sample_saved by blast
  from settings_saved_load [OF this, where p = "''/c.yaml''" and content = "''info''" and base = zero_config and dflt = "''defaults''"
      and readFile = "\<lambda>_. Some ''info''" and yaml = "\<lambda>text c. Ok (if text = ''info'' then sample_config else c)"
      and env = "\<lparr>env_get = (\<lambda>_. []), env_home = ''/root''\<rparr>" and price = "\<lambda>_. 0"]
  show ?thesis by (simp add: sample_settings_lib_def)
qed

end
