(* ===== verification/Cert_Setup.thy ===== *)
theory Cert_Setup
  imports Proxy_Connect Config
begin

text \<open>
  \<open>internal/certs\<close> and the commands over it (\<open>internal/cli/cert.go\<close>, \<open>init.go\<close>): making the certificate
  authority, checking whether the system trusts it, the command that makes it trusted, and the files
  \<open>crabwise init\<close> writes. Files have a mode; keys, certificates, PEM and the system's pool are the
  library's and are arguments, and so are the failures of the file system and the programs found.
\<close>

section \<open>Files with modes\<close>

type_synonym Files = "string \<rightharpoonup> string \<times> nat"

text \<open>Failures: of \<open>MkdirAll\<close>, of \<open>WriteFile\<close> (with what it leaves in the file, if it touched it), of
  \<open>Stat\<close> and of \<open>ReadFile\<close>; \<open>fo_mask\<close> is what the process's mask leaves of a mode.\<close>

record FileIo =
  fo_mkdir :: "string \<Rightarrow> error option"
  fo_write :: "string \<Rightarrow> (error \<times> string option) option"
  fo_stat :: "string \<Rightarrow> error option"
  fo_read :: "string \<Rightarrow> error option"
  fo_mask :: "nat \<Rightarrow> nat"

definition no_such_file :: error where "no_such_file = ''no such file or directory''"

text \<open>A file that exists keeps its mode.\<close>

definition put_file :: "FileIo \<Rightarrow> string \<Rightarrow> string \<Rightarrow> nat \<Rightarrow> Files \<Rightarrow> Files" where
  "put_file io p content mode fs = fs(p \<mapsto> (content, case fs p of Some (_, m) \<Rightarrow> m | None \<Rightarrow> fo_mask io mode))"

definition write_file :: "FileIo \<Rightarrow> string \<Rightarrow> string \<Rightarrow> nat \<Rightarrow> Files \<Rightarrow> error option \<times> Files" where
  "write_file io p content mode fs =
     (case fo_write io p of
        None \<Rightarrow> (None, put_file io p content mode fs)
      | Some (err, left) \<Rightarrow> (Some err, case left of None \<Rightarrow> fs | Some c \<Rightarrow> put_file io p c mode fs))"

text \<open>The mode of a file, and its content.\<close>

definition stat_file :: "FileIo \<Rightarrow> Files \<Rightarrow> string \<Rightarrow> error + nat" where
  "stat_file io fs p =
     (case fo_stat io p of Some err \<Rightarrow> Err err | None \<Rightarrow> (case fs p of Some (_, m) \<Rightarrow> Ok m | None \<Rightarrow> Err no_such_file))"

definition read_file :: "FileIo \<Rightarrow> Files \<Rightarrow> string \<Rightarrow> error + string" where
  "read_file io fs p =
     (case fo_read io p of Some err \<Rightarrow> Err err | None \<Rightarrow> (case fs p of Some (c, _) \<Rightarrow> Ok c | None \<Rightarrow> Err no_such_file))"

text \<open>\<open>filepath.Dir\<close>\<close>

definition path_dir :: "string \<Rightarrow> string" where
  "path_dir p = path_clean (rev (dropWhile (\<lambda>c. c \<noteq> CHR ''/'') (rev p)))"

section \<open>Making and loading the authority\<close>

record CertTemplate =
  ct_CommonName :: string
  ct_Organization :: "string list"
  ct_DNSNames :: "string list"
  ct_NotBefore :: time
  ct_NotAfter :: time
  ct_KeyUsage :: "string list"
  ct_ExtKeyUsage :: "string list"
  ct_IsCA :: bool

record TlsCert =
  tc_key :: string
  tc_ecdsa :: bool
  tc_leaf :: string

text \<open>\<open>cb_create\<close> signs a template: its serial, the certificate of the issuer (itself without one), the key it
  certifies and the key that signs. \<open>cb_pair\<close> gives a key pair's key, whether it is an ECDSA key, and its first
  certificate.\<close>

record CertLib =
  cb_create :: "CertTemplate \<Rightarrow> string \<Rightarrow> string option \<Rightarrow> string \<Rightarrow> string \<Rightarrow> error + string"
  cb_marshal :: "string \<Rightarrow> error + string"
  cb_pem :: "string \<Rightarrow> string \<Rightarrow> string"
  cb_pair :: "string \<Rightarrow> string \<Rightarrow> error + string \<times> bool \<times> string"
  cb_parse :: "string \<Rightarrow> error + string"

definition ca_template :: "time \<Rightarrow> CertTemplate" where
  "ca_template now =
     \<lparr>ct_CommonName = ''Crabwise Local CA'', ct_Organization = [''Crabwise''], ct_DNSNames = [], ct_NotBefore = now,
      ct_NotAfter = now + 10 * 365 * 24 * 3600 * second, ct_KeyUsage = [''CertSign'', ''CRLSign''], ct_ExtKeyUsage = [], ct_IsCA = True\<rparr>"

text \<open>The key and the serial are what the random source gives.\<close>

definition GenerateCA ::
  "CertLib \<Rightarrow> FileIo \<Rightarrow> error + string \<Rightarrow> error + string \<Rightarrow> time \<Rightarrow> string \<Rightarrow> string \<Rightarrow> Files \<Rightarrow> error option \<times> Files" where
  "GenerateCA L io new_key new_serial now certPath keyPath fs =
     (case new_key of
        Inl err \<Rightarrow> (Some (''generating CA key: '' @ err), fs)
      | Inr key \<Rightarrow>
     (case new_serial of
        Inl err \<Rightarrow> (Some (''generating serial number: '' @ err), fs)
      | Inr serial \<Rightarrow>
     (case cb_create L (ca_template now) serial None key key of
        Inl err \<Rightarrow> (Some (''creating CA certificate: '' @ err), fs)
      | Inr certDER \<Rightarrow>
     (case fo_mkdir io (path_dir certPath) of
        Some err \<Rightarrow> (Some (''creating cert directory: '' @ err), fs)
      | None \<Rightarrow>
     (case fo_mkdir io (path_dir keyPath) of
        Some err \<Rightarrow> (Some (''creating key directory: '' @ err), fs)
      | None \<Rightarrow>
     (case write_file io certPath (cb_pem L ''CERTIFICATE'' certDER) 0x1A4 fs of
        (Some err, fs) \<Rightarrow> (Some (''writing CA certificate: '' @ err), fs)
      | (None, fs) \<Rightarrow>
     (case cb_marshal L key of
        Inl err \<Rightarrow> (Some (''marshalling CA key: '' @ err), fs)
      | Inr keyDER \<Rightarrow>
     (case write_file io keyPath (cb_pem L ''EC PRIVATE KEY'' keyDER) 0x180 fs of
        (Some err, fs) \<Rightarrow> (Some (''writing CA key: '' @ err), fs)
      | (None, fs) \<Rightarrow> (None, fs)))))))))"

text \<open>\<open>%04o\<close> of permission bits.\<close>

definition show_perm :: "nat \<Rightarrow> string" where
  "show_perm p = map (\<lambda>k. char_of (48 + p div 8 ^ k mod 8)) [3, 2, 1, 0]"

definition certs_LoadCA :: "CertLib \<Rightarrow> FileIo \<Rightarrow> string \<Rightarrow> string \<Rightarrow> Files \<Rightarrow> error + TlsCert" where
  "certs_LoadCA L io certPath keyPath fs =
     (case stat_file io fs keyPath of
        Inl err \<Rightarrow> Err (''stat CA key file: '' @ err)
      | Inr perm \<Rightarrow>
     (if perm \<noteq> 0x180 then
        Err (''CA key file '' @ keyPath @ '' has permissions '' @ show_perm perm @ ''; expected 0600 '' @ [CHR 0xE2, CHR 0x80, CHR 0x94] @
          '' run: chmod 600 '' @ keyPath)
      else
     (case read_file io fs certPath of
        Inl err \<Rightarrow> Err (''reading CA certificate: '' @ err)
      | Inr certPEM \<Rightarrow>
     (case read_file io fs keyPath of
        Inl err \<Rightarrow> Err (''reading CA key: '' @ err)
      | Inr keyPEM \<Rightarrow>
     (case cb_pair L certPEM keyPEM of
        Inl err \<Rightarrow> Err (''parsing CA key pair: '' @ err)
      | Inr (key, ecdsa, der) \<Rightarrow>
     (case cb_parse L der of
        Inl err \<Rightarrow> Err (''parsing CA certificate: '' @ err)
      | Inr leaf \<Rightarrow> Ok \<lparr>tc_key = key, tc_ecdsa = ecdsa, tc_leaf = leaf\<rparr>))))))"

section \<open>Trust\<close>

definition mintLeafCert :: "CertLib \<Rightarrow> error + string \<Rightarrow> error + string \<Rightarrow> time \<Rightarrow> TlsCert \<Rightarrow> string \<Rightarrow> error + string" where
  "mintLeafCert L new_key new_serial now ca hostname =
     (case new_key of
        Inl err \<Rightarrow> Err (''generating key for '' @ hostname @ '': '' @ err)
      | Inr key \<Rightarrow>
     (case new_serial of
        Inl err \<Rightarrow> Err (''generating serial number: '' @ err)
      | Inr serial \<Rightarrow>
     (if \<not> tc_ecdsa ca then Err ''CA private key is not ECDSA''
      else
     (case cb_create L \<lparr>ct_CommonName = hostname, ct_Organization = [], ct_DNSNames = [hostname], ct_NotBefore = now,
             ct_NotAfter = now + 24 * 3600 * second, ct_KeyUsage = [''DigitalSignature''], ct_ExtKeyUsage = [''ServerAuth''], ct_IsCA = False\<rparr>
             serial (Some (tc_leaf ca)) key (tc_key ca) of
        Inl err \<Rightarrow> Err (''signing certificate for '' @ hostname @ '': '' @ err)
      | Inr der \<Rightarrow>
     (case cb_parse L der of Inl err \<Rightarrow> Err (''parse generated leaf certificate: '' @ err) | Inr leaf \<Rightarrow> Ok leaf)))))"

datatype VerifyResult = Verified | UnknownAuthority | VerifyFailed error

text \<open>What a check meets besides the files: fresh key and serial, the clock, the system's pool (an error, or whether
  there is one), and the verification against it.\<close>

record TrustIo =
  ti_key :: "error + string"
  ti_serial :: "error + string"
  ti_now :: time
  ti_pool :: "error + bool"
  ti_verify :: "string \<Rightarrow> VerifyResult"

record TrustCheckResult =
  tr_CertPath :: string
  tr_KeyPath :: string
  tr_Exists :: bool
  tr_Trusted :: bool
  tr_Reason :: string

definition CheckTrust :: "CertLib \<Rightarrow> FileIo \<Rightarrow> TrustIo \<Rightarrow> string \<Rightarrow> string \<Rightarrow> Files \<Rightarrow> TrustCheckResult" where
  "CheckTrust L io t certPath keyPath fs =
     (let res = \<lparr>tr_CertPath = certPath, tr_KeyPath = keyPath, tr_Exists = False, tr_Trusted = False, tr_Reason = []\<rparr>;
          present = res\<lparr>tr_Exists := True\<rparr>
      in case stat_file io fs certPath of
           Inl err \<Rightarrow> res\<lparr>tr_Reason := ''CA certificate not found: '' @ err\<rparr>
         | Inr _ \<Rightarrow>
      (case stat_file io fs keyPath of
           Inl err \<Rightarrow> res\<lparr>tr_Reason := ''CA key not found: '' @ err\<rparr>
         | Inr _ \<Rightarrow>
      (case certs_LoadCA L io certPath keyPath fs of
           Inl err \<Rightarrow> present\<lparr>tr_Reason := err\<rparr>
         | Inr ca \<Rightarrow>
      (case mintLeafCert L (ti_key t) (ti_serial t) (ti_now t) ca ''crabwise.local'' of
           Inl err \<Rightarrow> present\<lparr>tr_Reason := err\<rparr>
         | Inr leaf \<Rightarrow>
      (case ti_pool t of
           Inl err \<Rightarrow> present\<lparr>tr_Reason := ''load system trust store: '' @ err\<rparr>
         | Inr False \<Rightarrow> present\<lparr>tr_Reason := ''load system trust store: returned nil pool''\<rparr>
         | Inr True \<Rightarrow>
      (case ti_verify t leaf of
           Verified \<Rightarrow> present\<lparr>tr_Trusted := True, tr_Reason := ''trusted by system''\<rparr>
         | UnknownAuthority \<Rightarrow> present\<lparr>tr_Reason := ''not trusted by system trust store''\<rparr>
         | VerifyFailed err \<Rightarrow> present\<lparr>tr_Reason := ''certificate verification failed: '' @ err\<rparr>))))))"

subsection \<open>The command that trusts\<close>

text \<open>What \<open>range\<close> gives of a string: its runes, a byte that belongs to none as U+FFFD.\<close>

function runes :: "string \<Rightarrow> string list" where
  "runes [] = []"
| "runes (c # s) =
     (if utf8_len (c # s) = 0 then [CHR 0xEF, CHR 0xBF, CHR 0xBD] # runes s
      else take (utf8_len (c # s)) (c # s) # runes (drop (utf8_len (c # s)) (c # s)))"
  by pat_completeness auto
termination by (relation "measure length") auto

declare runes.simps(2) [simp del]

definition quote_posix :: "string list \<Rightarrow> string" where
  "quote_posix rs = concat (map (\<lambda>r. if r = [CHR 0x27] then [CHR 0x27, CHR 0x22, CHR 0x27, CHR 0x22, CHR 0x27] else r) rs)"

definition shellQuotePosix :: "string \<Rightarrow> string" where
  "shellQuotePosix s = [CHR 0x27] @ quote_posix (runes s) @ [CHR 0x27]"

definition shellQuoteWindows :: "string \<Rightarrow> string" where
  "shellQuoteWindows s = [CHR 0x22] @ concat (map (\<lambda>r. if r = [CHR 0x22] then [CHR 0x22, CHR 0x22] else r) (runes s)) @ [CHR 0x22]"

definition nodeExtraCACertsCmd :: "string \<Rightarrow> string \<Rightarrow> string" where
  "nodeExtraCACertsCmd goos certPath =
     (if goos = ''windows'' then ''set NODE_EXTRA_CA_CERTS='' @ shellQuoteWindows certPath
      else ''export NODE_EXTRA_CA_CERTS='' @ shellQuotePosix certPath)"

text \<open>\<open>look\<close> says which programs are on the path.\<close>

definition linuxTrustCmd :: "(string \<Rightarrow> bool) \<Rightarrow> string \<Rightarrow> string" where
  "linuxTrustCmd look certPath =
     (let quoted = shellQuotePosix certPath
      in if look ''trust'' then ''sudo trust anchor --store '' @ quoted
         else if look ''update-ca-trust'' then
           ''sudo cp '' @ quoted @ '' /etc/pki/ca-trust/source/anchors/crabwise.crt && sudo update-ca-trust''
         else if look ''update-ca-certificates'' then
           ''sudo cp '' @ quoted @ '' /usr/local/share/ca-certificates/crabwise.crt && sudo update-ca-certificates''
         else [])"

record TrustCommands =
  to_OS :: string
  to_SystemTrustCmd :: string
  to_NodeExtraCACerts :: string

definition CommandsForOS :: "string \<Rightarrow> (string \<Rightarrow> bool) \<Rightarrow> string \<Rightarrow> TrustCommands" where
  "CommandsForOS goos look certPath =
     \<lparr>to_OS = goos,
      to_SystemTrustCmd =
        (if goos = ''darwin'' then ''sudo security add-trusted-cert -d -r trustRoot -k /Library/Keychains/System.keychain '' @ shellQuotePosix certPath
         else if goos = ''linux'' then linuxTrustCmd look certPath
         else if goos = ''windows'' then ''certutil -addstore -f ROOT '' @ shellQuoteWindows certPath
         else []),
      to_NodeExtraCACerts = nodeExtraCACertsCmd goos certPath\<rparr>"

definition HasClipboard :: "string \<Rightarrow> (string \<Rightarrow> bool) \<Rightarrow> bool" where
  "HasClipboard goos look =
     (if goos = ''darwin'' then look ''pbcopy'' else if goos = ''windows'' then look ''clip''
      else look ''wl-copy'' \<or> look ''xclip'' \<or> look ''xsel'')"

text \<open>\<open>run\<close> is the error of a program that is given a text.\<close>

definition copyPipe :: "(string list \<Rightarrow> string \<Rightarrow> error option) \<Rightarrow> string \<Rightarrow> string list \<Rightarrow> string \<Rightarrow> error + string" where
  "copyPipe run bin args input = (case run (bin # args) input of Some err \<Rightarrow> Err err | None \<Rightarrow> Ok bin)"

definition CopyToClipboard :: "string \<Rightarrow> (string \<Rightarrow> bool) \<Rightarrow> (string list \<Rightarrow> string \<Rightarrow> error option) \<Rightarrow> string \<Rightarrow> error + string" where
  "CopyToClipboard goos look run input =
     (if goos = ''darwin'' then copyPipe run ''pbcopy'' [] input
      else if goos = ''windows'' then copyPipe run ''clip'' [] input
      else if look ''wl-copy'' then copyPipe run ''wl-copy'' [] input
      else if look ''xclip'' then copyPipe run ''xclip'' [''-selection'', ''clipboard''] input
      else if look ''xsel'' then copyPipe run ''xsel'' [''--clipboard'', ''--input''] input
      else Err ''no clipboard helper found (install wl-clipboard or xclip)'')"

section \<open>The commands\<close>

text \<open>What \<open>crabwise cert trust\<close> prints and does: the texts without their wording, and the commands it runs.\<close>

datatype TrustMsg =
    CaGenerated string string
  | ManualTrust string
  | PrintCommand string
  | CopiedVia string
  | RanCommand "string list"

record TrustFlags =
  tf_copy :: bool
  tf_run :: bool
  tf_force :: bool

record TrustEnv =
  te_goos :: string
  te_look :: "string \<Rightarrow> bool"
  te_pipe :: "string list \<Rightarrow> string \<Rightarrow> error option"
  te_shell :: "string list \<Rightarrow> error option"

definition ca_exists :: "FileIo \<Rightarrow> Files \<Rightarrow> string \<Rightarrow> string \<Rightarrow> bool" where
  "ca_exists io fs certPath keyPath \<longleftrightarrow> \<not> isl (stat_file io fs certPath) \<and> \<not> isl (stat_file io fs keyPath)"

definition cert_trust_cmd ::
  "CertLib \<Rightarrow> FileIo \<Rightarrow> TrustIo \<Rightarrow> TrustEnv \<Rightarrow> TrustFlags \<Rightarrow> error + Config \<Rightarrow> Files \<Rightarrow> TrustMsg list \<times> error option \<times> Files" where
  "cert_trust_cmd L io t env flags config fs =
     (case config of
        Inl err \<Rightarrow> ([], Some (''load config: '' @ err), fs)
      | Inr cfg \<Rightarrow>
          (let certPath = dp_CACert (cf_Proxy cfg); keyPath = dp_CAKey (cf_Proxy cfg);
               (made, err, fs) =
                 (if ca_exists io fs certPath keyPath \<and> \<not> tf_force flags then ([], None, fs)
                  else case GenerateCA L io (ti_key t) (ti_serial t) (ti_now t) certPath keyPath fs of
                    (Some err, fs) \<Rightarrow> ([], Some (''generate CA: '' @ err), fs)
                  | (None, fs) \<Rightarrow> ([CaGenerated certPath keyPath], None, fs));
               cmd = to_SystemTrustCmd (CommandsForOS (te_goos env) (te_look env) certPath)
           in if err \<noteq> None then (made, err, fs)
              else if cmd = [] then (made @ [ManualTrust certPath], None, fs)
              else
                let (copied, err) =
                  (if \<not> tf_copy flags then ([], None)
                   else case CopyToClipboard (te_goos env) (te_look env) (te_pipe env) cmd of
                     Inl err \<Rightarrow> ([], Some (''copy to clipboard: '' @ err))
                   | Inr how \<Rightarrow> ([CopiedVia how], None));
                  msgs = made @ [PrintCommand cmd] @ copied;
                  shell = (if te_goos env = ''windows'' then [''cmd.exe'', ''/C'', cmd] else [''sh'', ''-c'', cmd])
                in if err \<noteq> None then (msgs, err, fs)
                   else if \<not> tf_run flags then (msgs, None, fs)
                   else case te_shell env shell of
                     Some err \<Rightarrow> (msgs @ [RanCommand shell], Some (''trust command failed: '' @ err), fs)
                   | None \<Rightarrow> (msgs @ [RanCommand shell], None, fs)))"

definition cert_status_cmd ::
  "CertLib \<Rightarrow> FileIo \<Rightarrow> TrustIo \<Rightarrow> TrustEnv \<Rightarrow> error + Config \<Rightarrow> Files \<Rightarrow> error + TrustCommands \<times> TrustCheckResult \<times> bool" where
  "cert_status_cmd L io t env config fs =
     (case config of
        Inl err \<Rightarrow> Err (''load config: '' @ err)
      | Inr cfg \<Rightarrow> Ok (CommandsForOS (te_goos env) (te_look env) (dp_CACert (cf_Proxy cfg)),
          CheckTrust L io t (dp_CACert (cf_Proxy cfg)) (dp_CAKey (cf_Proxy cfg)) fs, HasClipboard (te_goos env) (te_look env)))"

text \<open>\<open>writeDefaultFile\<close>: whether it wrote, and its error.\<close>

definition writeDefaultFile :: "FileIo \<Rightarrow> string \<Rightarrow> string \<Rightarrow> bool \<Rightarrow> Files \<Rightarrow> (error + bool) \<times> Files" where
  "writeDefaultFile io path content force fs =
     (if \<not> isl (stat_file io fs path) \<and> \<not> force then (Ok False, fs)
      else case write_file io path content 0x180 fs of (Some err, fs) \<Rightarrow> (Err err, fs) | (None, fs) \<Rightarrow> (Ok True, fs))"

definition defaultInitConfigDir :: "Env \<Rightarrow> string" where
  "defaultInitConfigDir env =
     (if env_get env ''XDG_CONFIG_HOME'' \<noteq> [] then path_join [env_get env ''XDG_CONFIG_HOME'', ''crabwise'']
      else path_join [env_home env, ''.config'', ''crabwise''])"

text \<open>The embedded defaults in the order they are written: the name under the directory, the content, the
  error's prefix. The mappings' directory is made before the last.\<close>

record Defaults =
  df_config :: string
  df_commandments :: string
  df_tool_registry :: string
  df_mapping :: string

definition init_files :: "string \<Rightarrow> Defaults \<Rightarrow> (string \<times> string \<times> string) list" where
  "init_files dir d =
     [(path_join [dir, ''config.yaml''], df_config d, ''write config: ''),
      (path_join [dir, ''commandments.yaml''], df_commandments d, ''write commandments: ''),
      (path_join [dir, ''tool_registry.yaml''], df_tool_registry d, ''write tool registry: ''),
      (path_join [path_join [dir, ''proxy_mappings''], ''openai.yaml''], df_mapping d, ''write openai mapping: '')]"

text \<open>The writes in a row: the first that fails ends them; what was written is reported.\<close>

fun write_defaults :: "FileIo \<Rightarrow> bool \<Rightarrow> (string \<times> string \<times> string) list \<Rightarrow> Files \<Rightarrow> (error + (string \<times> bool) list) \<times> Files" where
  "write_defaults io force [] fs = (Ok [], fs)"
| "write_defaults io force ((path, content, what) # rest) fs =
     (case writeDefaultFile io path content force fs of
        (Inl err, fs) \<Rightarrow> (Err (what @ err), fs)
      | (Inr written, fs) \<Rightarrow>
          (case write_defaults io force rest fs of
             (Inl err, fs) \<Rightarrow> (Err err, fs)
           | (Inr later, fs) \<Rightarrow> (Ok ((path, written) # later), fs)))"

definition init_ca_paths :: "Env \<Rightarrow> error + Config \<Rightarrow> string \<times> string" where
  "init_ca_paths env config =
     (case config of
        Inr cfg \<Rightarrow> (dp_CACert (cf_Proxy cfg), dp_CAKey (cf_Proxy cfg))
      | Inl _ \<Rightarrow> (path_join [env_home env, ''.local'', ''share'', ''crabwise'', ''ca.crt''],
                path_join [env_home env, ''.local'', ''share'', ''crabwise'', ''ca.key'']))"

text \<open>\<open>crabwise init\<close>: \<open>load\<close> is \<open>LoadConfig\<close> on the files that are there by then. The result is what was
  written, whether the authority was made, and the command to show.\<close>

definition init_cmd ::
  "CertLib \<Rightarrow> FileIo \<Rightarrow> TrustIo \<Rightarrow> TrustEnv \<Rightarrow> Env \<Rightarrow> (Files \<Rightarrow> error + Config) \<Rightarrow> Defaults \<Rightarrow> bool \<Rightarrow> Files \<Rightarrow>
   (error + (string \<times> bool) list \<times> bool \<times> TrustCommands option) \<times> Files" where
  "init_cmd L io t tenv env load d force fs =
     (let dir = defaultInitConfigDir env; mappings = path_join [dir, ''proxy_mappings'']; files = init_files dir d
      in case fo_mkdir io dir of
           Some err \<Rightarrow> (Err (''create config dir: '' @ err), fs)
         | None \<Rightarrow>
      (case write_defaults io force (take 3 files) fs of
           (Inl err, fs) \<Rightarrow> (Err err, fs)
         | (Inr w1, fs) \<Rightarrow>
      (case fo_mkdir io mappings of
           Some err \<Rightarrow> (Err (''create mappings dir: '' @ err), fs)
         | None \<Rightarrow>
      (case write_defaults io force (drop 3 files) fs of
           (Inl err, fs) \<Rightarrow> (Err err, fs)
         | (Inr w2, fs) \<Rightarrow>
      (let (certPath, keyPath) = init_ca_paths env (load fs);
           keep = ca_exists io fs certPath keyPath \<and> \<not> force;
           (err, fs) = (if keep then (None, fs) else GenerateCA L io (ti_key t) (ti_serial t) (ti_now t) certPath keyPath fs);
           commands = CommandsForOS (te_goos tenv) (te_look tenv) certPath;
           status = CheckTrust L io t certPath keyPath fs
       in case err of
            Some err \<Rightarrow> (Err (''generate CA: '' @ err), fs)
          | None \<Rightarrow> (Ok (w1 @ w2, \<not> keep, if \<not> tr_Trusted status \<and> to_SystemTrustCmd commands \<noteq> [] then Some commands else None), fs))))))"

section \<open>What init keeps\<close>

lemma writeDefaultFile_keeps:
  "writeDefaultFile io p c False fs = (r, fs') \<Longrightarrow> fo_stat io q = None \<Longrightarrow> fs q \<noteq> None \<Longrightarrow> fs' q = fs q"
  by (auto simp: writeDefaultFile_def write_file_def put_file_def stat_file_def split: option.splits if_splits prod.splits)

lemma write_defaults_keeps:
  "write_defaults io False files fs = (r, fs') \<Longrightarrow> fo_stat io q = None \<Longrightarrow> fs q \<noteq> None \<Longrightarrow> fs' q = fs q"
proof (induction files arbitrary: fs r fs')
  case (Cons f files)
  obtain p c w where f: "f = (p, c, w)" by (cases f)
  obtain r1 fs1 where w: "writeDefaultFile io p c False fs = (r1, fs1)" by (cases "writeDefaultFile io p c False fs")
  have q: "fs1 q = fs q" using writeDefaultFile_keeps [OF w Cons.prems(2,3)] .
  show ?case
  proof (cases r1)
    case (Inl err)
    then show ?thesis using Cons.prems(1) w q by (auto simp: f)
  next
    case (Inr written)
    obtain r2 fs2 where r: "write_defaults io False files fs1 = (r2, fs2)" by (cases "write_defaults io False files fs1")
    have "fs2 q = fs q" using Cons.IH [OF r Cons.prems(2)] q Cons.prems(3) by simp
    then show ?thesis using Cons.prems(1) w r Inr by (auto simp: f split: sum.splits)
  qed
qed simp

lemma write_file_other: "q \<noteq> p \<Longrightarrow> write_file io p c m fs = (e, fs') \<Longrightarrow> fs' q = fs q"
  by (auto simp: write_file_def put_file_def split: option.splits prod.splits)

lemma GenerateCA_other:
  "GenerateCA L io k s now certPath keyPath fs = (e, fs') \<Longrightarrow> q \<noteq> certPath \<Longrightarrow> q \<noteq> keyPath \<Longrightarrow> fs' q = fs q"
  by (auto simp: GenerateCA_def split: sum.splits option.splits prod.splits) (metis write_file_other)+

lemma write_defaults_grows:
  assumes "write_defaults io False files fs = (r, fs')" "fo_stat io = (\<lambda>_. None)"
  shows "fs \<subseteq>\<^sub>m fs'"
proof -
  have "fs' q = fs q" if "fs q \<noteq> None" for q using write_defaults_keeps [OF assms(1) _ that] assms(2) by simp
  then show ?thesis by (auto simp: map_le_def dom_def)
qed

text \<open>C20: \<open>crabwise init\<close> without \<open>--force\<close> overwrites nothing but half an authority. Whatever fails on the way (the check
  whether a file is there apart), every file that was there is as it was afterwards, content and mode, with
  one exception: of the authority's two files, the one that is there when the other is missing, which
  is generated anew with it.\<close>

theorem init_overwrites_nothing:
  assumes "init_cmd L io t tenv env load d False fs = (r, fs')" "fo_stat io = (\<lambda>_. None)" "fs q \<noteq> None"
  shows "fs' q = fs q \<or>
    (\<exists>fs1 other. fs \<subseteq>\<^sub>m fs1 \<and> init_ca_paths env (load fs1) \<in> {(q, other), (other, q)} \<and> fs other = None)"
proof -
  let ?dir = "defaultInitConfigDir env"
  obtain r1 fs1 where w1: "write_defaults io False (take 3 (init_files ?dir d)) fs = (r1, fs1)"
    by (cases "write_defaults io False (take 3 (init_files ?dir d)) fs")
  obtain r2 fs2 where w2: "write_defaults io False (drop 3 (init_files ?dir d)) fs1 = (r2, fs2)"
    by (cases "write_defaults io False (drop 3 (init_files ?dir d)) fs1")
  have le1: "fs \<subseteq>\<^sub>m fs1" using write_defaults_grows [OF w1 assms(2)] .
  have le2: "fs \<subseteq>\<^sub>m fs2" using map_le_trans [OF le1 write_defaults_grows [OF w2 assms(2)]] .
  have k: "fs1 q = fs q" "fs2 q = fs q" using le1 le2 assms(3) by (auto simp: map_le_def dom_def)
  obtain certPath keyPath where ca: "init_ca_paths env (load fs2) = (certPath, keyPath)" by (cases "init_ca_paths env (load fs2)")
  consider "fs' \<in> {fs, fs1, fs2}" |
    e where "\<not> ca_exists io fs2 certPath keyPath" "GenerateCA L io (ti_key t) (ti_serial t) (ti_now t) certPath keyPath fs2 = (e, fs')"
    using assms(1) w1 w2 ca by (auto simp: init_cmd_def Let_def split: option.splits sum.splits prod.splits if_splits)
  then show ?thesis
  proof cases
    case 1
    then show ?thesis using k by auto
  next
    case 2
    show ?thesis
    proof (cases "q = certPath \<or> q = keyPath")
      case True
      have "fs p = None" if "fs2 p = None" for p using le2 that unfolding map_le_def by (metis domIff)
      moreover have "fs2 certPath = None \<or> fs2 keyPath = None"
        using 2(1) assms(2) by (auto simp: ca_exists_def stat_file_def split: option.splits)
      ultimately show ?thesis using True ca le2 k assms(3) by auto
    qed (use GenerateCA_other [OF 2(2), of q] k in auto)
  qed
qed

section \<open>The authority made, loaded and trusted\<close>

text \<open>C21: a generated authority loads, if its key is new. Where the library reads back what it writes,
  after a \<open>GenerateCA\<close> without an error \<open>LoadCA\<close> gives the authority, with its ECDSA key, exactly if the
  key's file was not there before or was already private: \<open>WriteFile\<close> leaves the mode of a file that exists.\<close>

theorem generated_ca_loads:
  assumes "GenerateCA L io k s now certPath keyPath fs = (None, fs')" "certPath \<noteq> keyPath"
    "fo_stat io keyPath = None" "fo_read io = (\<lambda>_. None)" "fo_mask io 0x180 = 0x180"
    "\<And>t sn issuer key signer der kder. cb_create L t sn issuer key signer = Ok der \<Longrightarrow> cb_marshal L key = Ok kder \<Longrightarrow>
      cb_pair L (cb_pem L ''CERTIFICATE'' der) (cb_pem L ''EC PRIVATE KEY'' kder) = Ok (key, True, der) \<and> (\<exists>leaf. cb_parse L der = Ok leaf)"
  shows "(\<exists>ca. certs_LoadCA L io certPath keyPath fs' = Ok ca \<and> tc_ecdsa ca) \<longleftrightarrow> (\<forall>c m. fs keyPath = Some (c, m) \<longrightarrow> m = 0x180)"
proof -
  obtain key sn der kder fs1 where g: "cb_create L (ca_template now) sn None key key = Ok der" "cb_marshal L key = Ok kder"
    "write_file io certPath (cb_pem L ''CERTIFICATE'' der) 0x1A4 fs = (None, fs1)"
    "write_file io keyPath (cb_pem L ''EC PRIVATE KEY'' kder) 0x180 fs1 = (None, fs')"
    using assms(1) by (auto simp: GenerateCA_def split: sum.splits option.splits prod.splits)
  define m where "m = (case fs keyPath of Some (_, m) \<Rightarrow> m | None \<Rightarrow> 0x180)"
  obtain m' where files: "fs' certPath = Some (cb_pem L ''CERTIFICATE'' der, m')"
    "fs' keyPath = Some (cb_pem L ''EC PRIVATE KEY'' kder, m)"
    using g(3,4) assms(2,5) by (auto simp: write_file_def put_file_def m_def split: option.splits)
  obtain leaf where lib: "cb_pair L (cb_pem L ''CERTIFICATE'' der) (cb_pem L ''EC PRIVATE KEY'' kder) = Ok (key, True, der)"
    "cb_parse L der = Ok leaf" using assms(6) [OF g(1,2)] by auto
  have "(\<exists>ca. certs_LoadCA L io certPath keyPath fs' = Ok ca \<and> tc_ecdsa ca) \<longleftrightarrow> m = 0x180"
    using files lib assms(3,4) by (auto simp: certs_LoadCA_def stat_file_def read_file_def)
  then show ?thesis by (auto simp: m_def split: option.splits)
qed

definition sample_certs :: CertLib where
  "sample_certs = \<lparr>cb_create = \<lambda>t sn issuer key signer. Ok (ct_CommonName t), cb_marshal = \<lambda>key. Ok key,
     cb_pem = \<lambda>kind body. body, cb_pair = \<lambda>c k. Ok (k, True, c), cb_parse = \<lambda>der. Ok der\<rparr>"

definition sample_io :: FileIo where
  "sample_io = \<lparr>fo_mkdir = \<lambda>_. None, fo_write = \<lambda>_. None, fo_stat = \<lambda>_. None, fo_read = \<lambda>_. None, fo_mask = \<lambda>m. m\<rparr>"

definition sample_disk :: Files where
  "sample_disk = [''k'' \<mapsto> (''old'', 0x1A4)]"

lemma generated_ca_loads_witness:
  "\<exists>fs'. GenerateCA sample_certs sample_io (Ok ''K'') (Ok ''1'') 0 ''c'' ''k'' sample_disk = (None, fs') \<and>
     \<not> (\<exists>ca. certs_LoadCA sample_certs sample_io ''c'' ''k'' fs' = Ok ca \<and> tc_ecdsa ca)"
proof -
  let ?fs = "sample_disk(''c'' \<mapsto> (''Crabwise Local CA'', 0x1A4), ''k'' \<mapsto> (''K'', 0x1A4))"
  have g: "GenerateCA sample_certs sample_io (Ok ''K'') (Ok ''1'') 0 ''c'' ''k'' sample_disk = (None, ?fs)"
    by (simp add: GenerateCA_def sample_certs_def sample_io_def sample_disk_def write_file_def put_file_def ca_template_def)
  show ?thesis using generated_ca_loads [OF g]
    by (intro exI [of _ ?fs]) (simp add: g, simp add: sample_certs_def sample_io_def sample_disk_def)
qed

lemma init_overwrites_nothing_witness:
  "let env = \<lparr>env_get = \<lambda>_. [], env_home = ''/h''\<rparr>;
       old = [''/h/.config/crabwise/config.yaml'' \<mapsto> (''mine'', 0x1A4::nat)]
   in \<forall>fs'. snd (init_cmd sample_certs sample_io
         \<lparr>ti_key = Ok ''K'', ti_serial = Ok ''1'', ti_now = 0, ti_pool = Ok True, ti_verify = \<lambda>_. Verified\<rparr>
         \<lparr>te_goos = ''linux'', te_look = \<lambda>_. True, te_pipe = \<lambda>_ _. None, te_shell = \<lambda>_. None\<rparr>
         env (\<lambda>_. Err ''no'') \<lparr>df_config = ''a'', df_commandments = ''b'', df_tool_registry = ''c'', df_mapping = ''d''\<rparr> False old) = fs' \<longrightarrow>
       fs' ''/h/.config/crabwise/config.yaml'' = Some (''mine'', 0x1A4)"
proof -
  let ?t = "\<lparr>ti_key = Ok ''K'', ti_serial = Ok ''1'', ti_now = 0, ti_pool = Ok True, ti_verify = \<lambda>_. Verified\<rparr>"
  let ?tenv = "\<lparr>te_goos = ''linux'', te_look = \<lambda>_. True, te_pipe = \<lambda>_ _. None, te_shell = \<lambda>_. None\<rparr>"
  let ?env = "\<lparr>env_get = \<lambda>_. [], env_home = ''/h''\<rparr>"
  let ?d = "\<lparr>df_config = ''a'', df_commandments = ''b'', df_tool_registry = ''c'', df_mapping = ''d''\<rparr>"
  let ?old = "[''/h/.config/crabwise/config.yaml'' \<mapsto> (''mine'', 0x1A4::nat)]"
  have ca: "init_ca_paths ?env (Err ''no'') = (''/h/.local/share/crabwise/ca.crt'', ''/h/.local/share/crabwise/ca.key'')"
    by (simp add: init_ca_paths_def) code_simp
  have "fs' ''/h/.config/crabwise/config.yaml'' = Some (''mine'', 0x1A4)"
    if "init_cmd sample_certs sample_io ?t ?tenv ?env (\<lambda>_. Err ''no'') ?d False ?old = (r, fs')" for r fs'
    using init_overwrites_nothing [OF that, of "''/h/.config/crabwise/config.yaml''"] ca by (auto simp: sample_io_def)
  then show ?thesis unfolding Let_def by (metis prod.collapse)
qed

section \<open>Quoting\<close>

lemma ascii_not_in_range: "of_char c < (128 :: nat) \<Longrightarrow> 128 \<le> lo \<Longrightarrow> in_range lo hi c = False"
  by (simp add: in_range_def)

lemma rune_high:
  assumes "in_range 0 127 c = False"
  shows "list_all (\<lambda>c. 128 \<le> (of_char c :: nat)) (take (utf8_len (c # s)) (c # s))"
proof -
  have c: "128 \<le> (of_char c :: nat)" using assms by (simp add: in_range_def)
  consider "s = []" | b where "s = [b]" | b d where "s = [b, d]" | b d e s' where "s = b # d # e # s'"
    by (metis list.exhaust)
  then show ?thesis
  proof cases
    case (2 b)
    then show ?thesis by (cases "of_char b < (128 :: nat)") (simp_all add: c assms ascii_not_in_range)
  next
    case (3 b d)
    then show ?thesis
      by (cases "of_char b < (128 :: nat)"; cases "of_char d < (128 :: nat)") (simp_all add: c assms ascii_not_in_range)
  next
    case (4 b d e s')
    then show ?thesis
      by (cases "of_char b < (128 :: nat)"; cases "of_char d < (128 :: nat)"; cases "of_char e < (128 :: nat)")
        (simp_all add: c assms ascii_not_in_range)
  qed (simp add: c assms)
qed

lemma runes_quotes: "r \<in> set (runes s) \<Longrightarrow> r = [CHR 0x27] \<or> CHR 0x27 \<notin> set r"
proof (induction s rule: runes.induct)
  case (2 c s)
  show ?case
  proof (cases "in_range 0 127 c")
    case True
    then have "utf8_len (c # s) = 1" by simp
    then show ?thesis using 2 by (auto simp: runes.simps(2) simp del: utf8_len.simps)
  next
    case False
    have "CHR 0x27 \<notin> set (take (utf8_len (c # s)) (c # s))"
      using rune_high [of c s] False by (auto simp: list_all_iff simp del: utf8_len.simps)
    then show ?thesis using 2 by (auto simp: runes.simps(2) simp del: utf8_len.simps split: if_splits)
  qed
qed simp

lemma runes_ascii: "list_all (\<lambda>c. (of_char c :: nat) < 128) s \<Longrightarrow> concat (runes s) = s"
  by (induction s) (simp_all add: runes.simps(2) in_range_def)

lemma quote_posix_split:
  assumes single: "\<And>u r. CHR 0x27 \<notin> set u \<Longrightarrow> sh ([CHR 0x27] @ u @ [CHR 0x27] @ r) = map_option (append u) (sh r)"
    and double: "\<And>r. sh ([CHR 0x22, CHR 0x27, CHR 0x22] @ r) = map_option (Cons (CHR 0x27)) (sh r)"
    and fin: "sh [] = Some []"
  shows "CHR 0x27 \<notin> set p \<Longrightarrow> \<forall>r \<in> set rs. r = [CHR 0x27] \<or> CHR 0x27 \<notin> set r \<Longrightarrow>
    sh ([CHR 0x27] @ p @ quote_posix rs @ [CHR 0x27]) = Some (p @ concat rs)"
proof (induction rs arbitrary: p)
  case Nil
  then show ?case using single [of p "[]"] fin by (simp add: quote_posix_def)
next
  case (Cons r rs)
  show ?case
  proof (cases "r = [CHR 0x27]")
    case True
    have "sh ([CHR 0x27] @ p @ quote_posix (r # rs) @ [CHR 0x27]) =
        sh ([CHR 0x27] @ p @ [CHR 0x27] @ [CHR 0x22, CHR 0x27, CHR 0x22] @ [CHR 0x27] @ [] @ quote_posix rs @ [CHR 0x27])"
      using True by (simp add: quote_posix_def)
    also have "\<dots> = map_option (append p) (map_option (Cons (CHR 0x27)) (Some ([] @ concat rs)))"
      unfolding single [OF Cons.prems(1)] double using Cons.IH [of "[]"] Cons.prems(2) by simp
    finally show ?thesis using True by simp
  next
    case False
    then show ?thesis using Cons.IH [of "p @ r"] Cons.prems by (simp add: quote_posix_def)
  qed
qed

text \<open>C23: the shell reads a quoted path back as one word, the path itself if it is ASCII. For a shell that takes what stands
  between single quotes, and a single quote between double ones, as it is, and joins adjacent quotations,
  \<open>shellQuotePosix\<close> of any string, quotes, spaces and \<open>$\<close> included, is one word: that string, but with U+FFFD for
  every byte that is not UTF-8, so that such a path names another file; of an ASCII string exactly it.\<close>

theorem quoting_roundtrip:
  assumes "\<And>u r. CHR 0x27 \<notin> set u \<Longrightarrow> sh ([CHR 0x27] @ u @ [CHR 0x27] @ r) = map_option (append u) (sh r)"
    "\<And>r. sh ([CHR 0x22, CHR 0x27, CHR 0x22] @ r) = map_option (Cons (CHR 0x27)) (sh r)"
    "sh [] = Some []"
  shows "sh (shellQuotePosix s) = Some (concat (runes s)) \<and>
    (list_all (\<lambda>c. (of_char c :: nat) < 128) s \<longrightarrow> sh (shellQuotePosix s) = Some s)"
proof -
  have "sh (shellQuotePosix s) = Some (concat (runes s))"
    using quote_posix_split [of sh "[]" "runes s", OF assms] runes_quotes by (simp add: shellQuotePosix_def)
  then show ?thesis using runes_ascii by simp
qed

text \<open>A shell's quotes, as far as the law speaks of them: outside, between single, between double quotes.\<close>

fun sample_shell :: "nat \<Rightarrow> string \<Rightarrow> string option" where
  "sample_shell q [] = (if q = 0 then Some [] else None)"
| "sample_shell q (c # s) =
     (if q = 0 then (if c = CHR 0x27 then sample_shell 1 s else if c = CHR 0x22 then sample_shell 2 s else None)
      else if c = (if q = 1 then CHR 0x27 else CHR 0x22) then sample_shell 0 s
      else map_option (Cons c) (sample_shell q s))"

lemma sample_shell_single: "CHR 0x27 \<notin> set u \<Longrightarrow> sample_shell 1 (u @ [CHR 0x27] @ r) = map_option (append u) (sample_shell 0 r)"
  by (induction u) (cases "sample_shell 0 r"; auto)+

lemma quoting_roundtrip_witness:
  "sample_shell 0 (shellQuotePosix (''it'' @ [CHR 0x27] @ ''s $HOME'')) = Some (''it'' @ [CHR 0x27] @ ''s $HOME'')"
proof -
  have q: "sample_shell 0 (shellQuotePosix s) = Some (concat (runes s)) \<and>
      (list_all (\<lambda>c. (of_char c :: nat) < 128) s \<longrightarrow> sample_shell 0 (shellQuotePosix s) = Some s)" for s
    by (rule quoting_roundtrip) (use sample_shell_single in \<open>simp_all add: option.map_comp o_def\<close>)
  show ?thesis by (rule q [THEN conjunct2, rule_format]) simp
qed

end
