(* ===== verification/Audit_View.thy ===== *)
theory Audit_View
  imports Watch_View Daemon_Api Config
begin

text \<open>
  \<open>internal/cli/audit.go\<close> and \<open>audit_tui.go\<close>: the command that asks the daemon for the audit trail, and the
  view that pages through it, a state machine over keys and the answers to its loads. A load is
  answered some time after it was asked for, so a run keeps the commands in flight. The daemon is
  an argument; \<open>serve_audit\<close> is the one over the tables of \<open>Sqlite_Store\<close>, and \<open>over_line\<close> what the client, whose
  scanner ends at lines of 1 MiB, makes of its answers. Colours, the widgets' own
  state (the cursor in a table, the text input) and \<open>View\<close> are left out.
\<close>

section \<open>Parameters of a query\<close>

datatype Param = PStr string | PBool bool | PInt int

type_synonym Params = "string \<rightharpoonup> Param"



definition applyFilterToParams :: "Params \<Rightarrow> string \<Rightarrow> Params" where
  "applyFilterToParams base flt =
     (let flt = trim_space flt
      in if flt = [] then base
         else if has_prefix flt ''o:'' then base(''outcome'' \<mapsto> PStr (trim_prefix flt ''o:''))
         else if has_prefix flt ''a:'' then base(''action'' \<mapsto> PStr (trim_prefix flt ''a:''))
         else if has_prefix flt ''agent:'' then base(''agent'' \<mapsto> PStr (trim_prefix flt ''agent:''))
         else base(''agent'' \<mapsto> PStr flt))"

text \<open>The parameters of a token summary.\<close>

definition token_params :: "Params \<Rightarrow> Params" where
  "token_params p = p |` {''since'', ''until'', ''agent''}"

section \<open>Asking the daemon\<close>

text \<open>A call fails, or its result cannot be decoded, or it is the result.\<close>

datatype 'a Reply = CallFailed error | BadResult error | Reply 'a

text \<open>\<open>ad_array\<close> are the events of a result that is an array, nothing for another.\<close>

record AuditIo =
  ad_dial :: "error option"
  ad_query :: "Params \<Rightarrow> QueryResult Reply"
  ad_array :: "Params \<Rightarrow> AuditEvent list"
  ad_tokens :: "Params \<Rightarrow> TokenSummaryRow list Reply"
  ad_verify :: "(bool \<times> nat \<times> string) Reply"











section \<open>The view\<close>

definition upper_char :: "char \<Rightarrow> char" where
  "upper_char c = (if CHR ''a'' \<le> c \<and> c \<le> CHR ''z'' then char_of (of_char c - 32 :: nat) else c)"

definition formatAuditOutcome :: "Outcome \<Rightarrow> string" where
  "formatAuditOutcome outcome =
     (if outcome = OutcomeBlocked then ''BLOCKED'' else if outcome = OutcomeWarned then ''WARNED''
      else if outcome = OutcomeFailure then ''FAILED'' else if outcome = OutcomeSuccess then ''SUCCESS''
      else map upper_char outcome)"

definition auditEventsToRows :: "AuditEvent list \<Rightarrow> string list list" where
  "auditEventsToRows events =
     map (\<lambda>e. [format_clock (ev_Timestamp e), Truncate (compactAgentLabel (ev_AgentID e) (ev_SessionID e)) 28, ev_ActionType e,
       Truncate (ev_Action e) 11, formatAuditOutcome (ev_Outcome e)]) events"

definition auditTokensToRows :: "TokenSummaryRow list \<Rightarrow> string list list" where
  "auditTokensToRows rows =
     map (\<lambda>r. [tsr_Day r, Truncate (tsr_AgentID r) 14, Truncate (tsr_Model r) 24, show_int (tsr_InputTokens r), show_int (tsr_OutputTokens r)]) rows"

record AuditModel =
  am_width :: int
  am_height :: int
  am_mode :: string
  am_table :: "string list list"
  am_events :: "AuditEvent list"
  am_total :: int
  am_page :: int
  am_pageSize :: int
  am_totalPages :: int
  am_filterActive :: bool
  am_filterInput :: string
  am_filterText :: string
  am_tokensTable :: "string list list"
  am_tokensRows :: "TokenSummaryRow list"
  am_verifying :: bool
  am_verifyResult :: string
  am_queryParams :: Params
  am_err :: "error option"

definition newAuditTUIModel :: "Params \<Rightarrow> string \<Rightarrow> AuditModel" where
  "newAuditTUIModel params initialMode =
     \<lparr>am_width = 80, am_height = 24, am_mode = (if initialMode = ''tokens'' then ''tokens'' else ''events''), am_table = [], am_events = [],
      am_total = 0, am_page = 0, am_pageSize = 12, am_totalPages = 0, am_filterActive = False, am_filterInput = [], am_filterText = [],
      am_tokensTable = [], am_tokensRows = [], am_verifying = False, am_verifyResult = [], am_queryParams = params, am_err = None\<rparr>"

datatype AuditCmd =
    LoadEvents Params int int string
  | LoadTokens Params
  | RunVerify
  | BlinkFilter
  | QuitAudit

datatype AuditMsg =
    AuditKey string
  | AuditResized int int
  | EventsLoaded "error + AuditEvent list \<times> int"
  | TokensLoaded "error + TokenSummaryRow list"
  | VerifyDone "error + bool \<times> nat \<times> string"

definition audit_Init :: "AuditModel \<Rightarrow> AuditCmd" where
  "audit_Init m = (if am_mode m = ''tokens'' then LoadTokens (am_queryParams m)
     else LoadEvents (am_queryParams m) (am_page m) (am_pageSize m) [])"

definition reload :: "AuditModel \<Rightarrow> AuditModel \<times> AuditCmd list" where
  "reload m = (m, [LoadEvents (am_queryParams m) (am_page m) (am_pageSize m) (am_filterText m)])"

text \<open>\<open>typed\<close> is the text input's reaction to a key.\<close>

definition filter_key :: "(string \<Rightarrow> string \<Rightarrow> string) \<Rightarrow> string \<Rightarrow> AuditModel \<Rightarrow> AuditModel \<times> AuditCmd list" where
  "filter_key typed key m =
     (if key = ''enter'' then reload (m\<lparr>am_filterText := am_filterInput m, am_filterActive := False, am_page := 0\<rparr>)
      else if key = ''esc'' then
        (if am_filterText m \<noteq> [] then reload (m\<lparr>am_filterActive := False, am_filterText := [], am_filterInput := [], am_page := 0\<rparr>)
         else (m\<lparr>am_filterActive := False\<rparr>, []))
      else (m\<lparr>am_filterInput := typed key (am_filterInput m)\<rparr>, []))"

definition view_key :: "string \<Rightarrow> AuditModel \<Rightarrow> AuditModel \<times> AuditCmd list" where
  "view_key key m =
     (let events = (am_mode m = ''events'')
      in if key = ''q'' \<or> key = ''ctrl+c'' then (m, [QuitAudit])
         else if key = ''/'' \<and> events then (m\<lparr>am_filterActive := True\<rparr>, [BlinkFilter])
         else if key = ''c'' then
           (if events then (m\<lparr>am_mode := ''tokens''\<rparr>, [LoadTokens (am_queryParams m)]) else reload (m\<lparr>am_mode := ''events''\<rparr>))
         else if key = ''v'' \<and> events \<and> \<not> am_verifying m then (m\<lparr>am_verifying := True, am_verifyResult := []\<rparr>, [RunVerify])
         else if key \<in> {''n'', ''right''} \<and> events \<and> am_page m < am_totalPages m - 1 then reload (m\<lparr>am_page := am_page m + 1\<rparr>)
         else if key \<in> {''p'', ''left''} \<and> events \<and> am_page m > 0 then reload (m\<lparr>am_page := am_page m - 1\<rparr>)
         else (m, []))"

text \<open>The pages of \<open>n\<close> events; neither number is negative, so Go's division is \<open>div\<close>.\<close>

definition page_count :: "int \<Rightarrow> int \<Rightarrow> int" where
  "page_count n ps = (let k = (n + ps - 1) div ps in if k < 1 then 1 else k)"

definition audit_update :: "(string \<Rightarrow> string \<Rightarrow> string) \<Rightarrow> AuditMsg \<Rightarrow> AuditModel \<Rightarrow> AuditModel \<times> AuditCmd list" where
  "audit_update typed msg m =
     (case msg of
        AuditKey key \<Rightarrow> if am_filterActive m then filter_key typed key m else view_key key m
      | AuditResized w h \<Rightarrow> (m\<lparr>am_width := w, am_height := h, am_pageSize := (if h - 12 < 5 then 5 else h - 12)\<rparr>, [])
      | EventsLoaded (Inl err) \<Rightarrow> (m\<lparr>am_err := Some err\<rparr>, [])
      | EventsLoaded (Inr (events, n)) \<Rightarrow>
          (m\<lparr>am_err := None, am_events := events, am_total := n, am_totalPages := page_count n (am_pageSize m),
             am_table := auditEventsToRows events\<rparr>, [])
      | TokensLoaded (Inl err) \<Rightarrow> (m\<lparr>am_err := Some err\<rparr>, [])
      | TokensLoaded (Inr rows) \<Rightarrow> (m\<lparr>am_err := None, am_tokensRows := rows, am_tokensTable := auditTokensToRows rows\<rparr>, [])
      | VerifyDone r \<Rightarrow>
          (m\<lparr>am_verifying := False, am_verifyResult :=
             (case r of
                Inl err \<Rightarrow> err
              | Inr (valid, n, brokenAt) \<Rightarrow>
                  (if valid then ''Hash chain valid ('' @ show_nat n @ '' events)''
                   else ''Hash chain BROKEN at event '' @ brokenAt @ '' ('' @ show_nat n @ '' events checked)''))\<rparr>, []))"

section \<open>Loads\<close>

definition loadAuditEvents :: "AuditIo \<Rightarrow> Params \<Rightarrow> int \<Rightarrow> int \<Rightarrow> string \<Rightarrow> error + AuditEvent list \<times> int" where
  "loadAuditEvents io base pg ps flt =
     (case ad_dial io of
        Some err \<Rightarrow> Err (''connect to daemon: '' @ err)
      | None \<Rightarrow>
          (case ad_query io ((applyFilterToParams base flt)(''limit'' \<mapsto> PInt ps, ''offset'' \<mapsto> PInt (pg * ps))) of
             CallFailed err \<Rightarrow> Err (''audit.query: '' @ err)
           | BadResult err \<Rightarrow> Err (''parse result: '' @ err)
           | Reply r \<Rightarrow> Ok (qr_Events r, int (qr_Total r))))"

definition loadAuditTokens :: "AuditIo \<Rightarrow> Params \<Rightarrow> error + TokenSummaryRow list" where
  "loadAuditTokens io base =
     (case ad_dial io of
        Some err \<Rightarrow> Err (''connect to daemon: '' @ err)
      | None \<Rightarrow>
          (case ad_tokens io (token_params base) of
             CallFailed err \<Rightarrow> Err (''audit.tokens: '' @ err)
           | BadResult err \<Rightarrow> Err (''parse token summary: '' @ err)
           | Reply rows \<Rightarrow> Ok rows))"

definition verifyAuditIntegrity :: "AuditIo \<Rightarrow> error + bool \<times> nat \<times> string" where
  "verifyAuditIntegrity io =
     (case ad_dial io of
        Some err \<Rightarrow> Err (''connect to daemon: '' @ err)
      | None \<Rightarrow>
          (case ad_verify io of
             CallFailed err \<Rightarrow> Err (''audit.verify: '' @ err)
           | BadResult err \<Rightarrow> Err (''parse verify result: '' @ err)
           | Reply r \<Rightarrow> Ok r))"

fun perform :: "AuditIo \<Rightarrow> AuditCmd \<Rightarrow> AuditMsg option" where
  "perform io (LoadEvents base pg ps flt) = Some (EventsLoaded (loadAuditEvents io base pg ps flt))"
| "perform io (LoadTokens base) = Some (TokensLoaded (loadAuditTokens io base))"
| "perform io RunVerify = Some (VerifyDone (verifyAuditIntegrity io))"
| "perform io _ = None"

section \<open>The daemon's answers\<close>

text \<open>The parameters as the daemon decodes them, a key that is missing as its zero value.\<close>

definition str_param :: "Params \<Rightarrow> string \<Rightarrow> string" where
  "str_param p k = (case p k of Some (PStr v) \<Rightarrow> v | _ \<Rightarrow> [])"

definition int_param :: "Params \<Rightarrow> string \<Rightarrow> int" where
  "int_param p k = (case p k of Some (PInt v) \<Rightarrow> v | _ \<Rightarrow> 0)"

definition params_struct :: "Params \<Rightarrow> QueryParams" where
  "params_struct p =
     \<lparr>qp_Since = str_param p ''since'', qp_Until = str_param p ''until'', qp_Agent = str_param p ''agent'',
      qp_Action = str_param p ''action'', qp_Session = str_param p ''session'', qp_Outcome = str_param p ''outcome'',
      qp_Triggered = (p ''triggered'' = Some (PBool True)), qp_Limit = int_param p ''limit'', qp_Offset = int_param p ''offset''\<rparr>"

text \<open>An error of a handler is \<open>rpc error -32000\<close> at the client.\<close>

fun reply_of :: "error + 'a \<Rightarrow> 'a Reply" where
  "reply_of (Inl err) = CallFailed (''rpc error -32000: '' @ err)"
| "reply_of (Inr r) = Reply r"

definition serve_audit :: "Store \<Rightarrow> AuditIo" where
  "serve_audit s =
     \<lparr>ad_dial = None,
      ad_query = \<lambda>p. reply_of (fst (QueryEvents s (query_filter (params_struct p)))), ad_array = \<lambda>_. [],
      ad_tokens = \<lambda>p. reply_of (fst (QueryTokenSummary s (zero_filter\<lparr>qf_Since := time_param (str_param p ''since''),
        qf_Until := time_param (str_param p ''until''), qf_Agent := str_param p ''agent''\<rparr>))),
      ad_verify = reply_of (fst (VerifyIntegrity s))\<rparr>"

text \<open>It answers as the handler of the daemon, given parameters that decode.\<close>

lemma serve_audit_handler:
  assumes "params \<noteq> []" "al_query A params = Ok (params_struct p)"
  shows "ad_query (serve_audit (lg_store (d_logger d))) p =
    (case QueryEvents (lg_store (d_logger d)) (query_filter (params_struct p)) of
       (Inl err, _) \<Rightarrow> CallFailed (''rpc error -32000: '' @ err) | (Inr r, _) \<Rightarrow> Reply r)"
    and "ad_query (serve_audit (lg_store (d_logger d))) p =
    (case fst (QueryEvents (lg_store (d_logger d)) (query_filter (params_struct p))) of
       Inr r \<Rightarrow> Reply r | Inl err \<Rightarrow> CallFailed (''rpc error -32000: '' @ err))"
    and "fst (handle_query A io params d) =
      map_sum id (\<lambda>r. Some (result_json A r)) (fst (QueryEvents (lg_store (d_logger d)) (query_filter (params_struct p))))"
  using assms by (cases "fst (QueryEvents (lg_store (d_logger d)) (query_filter (params_struct p)))";
    auto simp: serve_audit_def handle_query_def split: prod.splits sum.splits)+

text \<open>
  What the client reads of it: \<open>Dial\<close> gives the scanner of the connection a buffer of 1 MiB, and \<open>Call\<close>
  scans one line, so that an answer of a longer line is an error. Every call here is the first of its
  connection and has the identifier 1.
\<close>

definition reply_line :: "json \<Rightarrow> string" where
  "reply_line v = json_print (response_json (result_response (JNum ''1'') (Some v)))"

definition scanned :: "('a \<Rightarrow> json) \<Rightarrow> 'a Reply \<Rightarrow> 'a Reply" where
  "scanned enc r =
     (case r of
        Reply v \<Rightarrow> (if length (reply_line (enc v)) < MiB then r else CallFailed ''read: bufio.Scanner: token too long'')
      | _ \<Rightarrow> r)"

definition over_line :: "ApiLib \<Rightarrow> AuditIo \<Rightarrow> AuditIo" where
  "over_line A io = io
     \<lparr>ad_query := \<lambda>p. scanned (result_json A) (ad_query io p),
      ad_tokens := \<lambda>p. scanned (\<lambda>rows. JArr (map token_json rows)) (ad_tokens io p),
      ad_verify := scanned (\<lambda>(valid, n, brokenAt). json_map [(''valid'', JBool valid), (''total'', JNum (show_nat n)),
        (''broken_at'', JStr brokenAt)]) (ad_verify io)\<rparr>"

text \<open>That is what the scanner does with the line of an answer.\<close>

lemma scanned_scan_lines:
  assumes "clean_json (enc v)"
  shows "scanned enc (Reply v) =
    (if scan_lines MiB (as_line (reply_line (enc v))) = [] then CallFailed ''read: bufio.Scanner: token too long'' else Reply v)"
proof -
  have c: "clean_json (response_json (result_response (JNum ''1'') (Some (enc v))))"
    using assms by (simp add: response_json_def result_response_def id_member_def clean_def)
  have line: "newline \<notin> set (reply_line (enc v))" using clean_print [OF c] by (auto simp: reply_line_def clean_def newline_def list_all_iff)
  show ?thesis
  proof (cases "length (reply_line (enc v)) < MiB")
    case True
    then have "is_line MiB (reply_line (enc v))" using printed_is_line [OF c] by (simp add: reply_line_def)
    then show ?thesis using scan_lines_lines [of MiB "[reply_line (enc v)]"] True by (simp add: scanned_def)
  next
    case False
    then show ?thesis using line by (simp add: scanned_def scan_lines_def as_line_def)
  qed
qed

text \<open>What a filter selects of the stored events, in the order of their times' texts.\<close>

definition matching :: "QueryFilter \<Rightarrow> AuditEvent list \<Rightarrow> AuditEvent list" where
  "matching f es = map stored (sort_key (\<lambda>e. rfc3339nano (ev_Timestamp e)) (filter (filter_matches f) es))"

definition holds_events :: "Store \<Rightarrow> AuditEvent list \<Rightarrow> bool" where
  "holds_events s es \<longleftrightarrow> db_events s = map row_of es \<and> (\<forall>e \<in> set es. year4 (ev_Timestamp e)) \<and> (\<forall>n. db_fault s n = None)"

lemma QueryEvents_matching:
  assumes "holds_events s es" "0 < qf_Limit f \<or> qf_Offset f \<le> 0"
  shows "fst (QueryEvents s f) = Ok \<lparr>qr_Events = (if qf_Limit f > 0 then take (nat (qf_Limit f)) (drop (nat (qf_Offset f)) (matching f es)) else matching f es),
    qr_Total = length (matching f es)\<rparr>"
proof -
  let ?es = "filter (filter_matches f) es"
  have rs: "filter (selected (query_conditions f)) (db_events s) = map row_of ?es"
    using assms(1) by (simp add: holds_events_def filter_map o_def selected_row_of)
  have sorted_rows: "in_time_order (map row_of ?es) = map row_of (sort_key (\<lambda>e. rfc3339nano (ev_Timestamp e)) ?es)"
    by (simp add: in_time_order_def sort_key_map o_def)
  have m: "matching f es = map scan_event (map row_of (sort_key (\<lambda>e. rfc3339nano (ev_Timestamp e)) ?es))"
    using assms(1) by (auto simp: holds_events_def matching_def scan_row_of)
  then have n: "length (matching f es) = length ?es" by simp
  have ok: "\<forall>n. db_fault s n = None" using assms(1) by (simp add: holds_events_def)
  show ?thesis using assms(2) ok unfolding m
    by (auto simp: QueryEvents_def Let_def rs sorted_rows db_call_def page_def take_map drop_map simp del: map_map)
qed

lemma matching_paged [simp]: "matching (f\<lparr>qf_Limit := l, qf_Offset := n\<rparr>) es = matching f es"
  by (simp add: matching_def filter_matches_def cong: filter_cong)

lemma params_struct_paged:
  "query_filter (params_struct (p(''limit'' \<mapsto> PInt l, ''offset'' \<mapsto> PInt n))) =
     (query_filter (params_struct p))\<lparr>qf_Limit := l, qf_Offset := n\<rparr>"
  by (simp add: query_filter_def params_struct_def str_param_def int_param_def)

definition view_filter :: "Params \<Rightarrow> string \<Rightarrow> QueryFilter" where
  "view_filter base flt = query_filter (params_struct (applyFilterToParams base flt))"

lemma load_page:
  assumes "holds_events s es" "0 < ps" "0 \<le> pg"
  shows "loadAuditEvents (serve_audit s) base pg ps flt =
    (let xs = matching (view_filter base flt) es in Ok (take (nat ps) (drop (nat (pg * ps)) xs), int (length xs)))"
  using QueryEvents_matching [OF assms(1), of "(view_filter base flt)\<lparr>qf_Limit := ps, qf_Offset := pg * ps\<rparr>"] assms(2)
  by (simp add: loadAuditEvents_def serve_audit_def params_struct_paged view_filter_def Let_def)




section \<open>Paging\<close>










section \<open>Runs\<close>

type_synonym AuditRun = "AuditModel \<times> AuditCmd list"

definition pending :: "AuditCmd \<Rightarrow> bool" where
  "pending c \<longleftrightarrow> c \<noteq> BlinkFilter \<and> c \<noteq> QuitAudit"

text \<open>A key or a size comes in, or a command in flight is answered by the daemon as it is then: any of
  them, or with \<open>ordered\<close> the oldest.\<close>

text \<open>\<open>daemons\<close> are the daemons there may be when a command is answered: the trail grows meanwhile.\<close>

inductive audit_step :: "AuditIo set \<Rightarrow> (string \<Rightarrow> string \<Rightarrow> string) \<Rightarrow> bool \<Rightarrow> AuditRun \<Rightarrow> AuditRun \<Rightarrow> bool" for daemons typed ordered where
  came_in: "msg = AuditKey key \<or> msg = AuditResized w h \<Longrightarrow> audit_update typed msg m = (m', cmds) \<Longrightarrow>
     audit_step daemons typed ordered (m, fl) (m', fl @ filter pending cmds)"
| answered: "i < length fl \<Longrightarrow> ordered \<longrightarrow> i = 0 \<Longrightarrow> io \<in> daemons \<Longrightarrow> perform io (fl ! i) = Some msg \<Longrightarrow>
     audit_update typed msg m = (m', cmds) \<Longrightarrow> audit_step daemons typed ordered (m, fl) (m', take i fl @ drop (Suc i) fl)"

definition audit_start :: "Params \<Rightarrow> string \<Rightarrow> AuditRun" where
  "audit_start base mode = (let m = newAuditTUIModel base mode in (m, [audit_Init m]))"

definition audit_reaches :: "AuditIo set \<Rightarrow> (string \<Rightarrow> string \<Rightarrow> string) \<Rightarrow> bool \<Rightarrow> Params \<Rightarrow> string \<Rightarrow> AuditRun \<Rightarrow> bool" where
  "audit_reaches daemons typed ordered base mode = (audit_step daemons typed ordered)\<^sup>*\<^sup>* (audit_start base mode)"

text \<open>What holds however the answers come.\<close>

definition proper_load :: "Params \<Rightarrow> AuditCmd \<Rightarrow> bool" where
  "proper_load base c \<longleftrightarrow> (case c of LoadEvents b pg ps _ \<Rightarrow> b = base \<and> 0 \<le> pg \<and> 5 \<le> ps | LoadTokens b \<Rightarrow> b = base | _ \<Rightarrow> True)"

definition audit_inv :: "Params \<Rightarrow> AuditRun \<Rightarrow> bool" where
  "audit_inv base r \<longleftrightarrow> (case r of (m, fl) \<Rightarrow>
     am_queryParams m = base \<and> 5 \<le> am_pageSize m \<and> 0 \<le> am_page m \<and> am_mode m \<in> {''events'', ''tokens''} \<and>
     (am_filterActive m \<longrightarrow> am_mode m = ''events'') \<and> am_table m = auditEventsToRows (am_events m) \<and>
     list_all pending fl \<and> list_all (proper_load base) fl \<and> count_list fl RunVerify = (if am_verifying m then 1 else 0))"

lemma perform_cases:
  assumes "perform io c = Some msg"
  obtains (Events) b pg ps flt where "c = LoadEvents b pg ps flt" "msg = EventsLoaded (loadAuditEvents io b pg ps flt)"
  | (Tokens) b where "c = LoadTokens b" "msg = TokensLoaded (loadAuditTokens io b)"
  | (Verify) "c = RunVerify" "msg = VerifyDone (verifyAuditIntegrity io)"
  using assms by (cases "(io, c)" rule: perform.cases) auto

lemma count_list_removed: "i < length fl \<Longrightarrow> count_list fl c = count_list (take i fl @ drop (Suc i) fl) c + (if fl ! i = c then 1 else 0)"
  using arg_cong [OF id_take_nth_drop [of i fl], of "\<lambda>l. count_list l c"] by simp

lemma audit_inv_start: "audit_inv base (audit_start base mode)"
  by (simp add: audit_inv_def audit_start_def newAuditTUIModel_def audit_Init_def Let_def pending_def proper_load_def auditEventsToRows_def)

lemma if_chain:
  "r = (if c1 then a1 else if c2 then a2 else if c3 then (if b then a3 else a3') else if c4 then a4 else if c5 then a5 else if c6 then a6 else a7) \<Longrightarrow>
     r \<in> {a1, a7} \<or> c2 \<and> r = a2 \<or> b \<and> r = a3 \<or> \<not> b \<and> r = a3' \<or> c4 \<and> r = a4 \<or> c5 \<and> r = a5 \<or> c6 \<and> r = a6"
  by simp

lemma view_key_cases:
  assumes "view_key key m = (m', cmds)"
  obtains (Idle) "m' = m" "filter pending cmds = []"
  | (Filter) "am_mode m = ''events''" "m' = m\<lparr>am_filterActive := True\<rparr>" "filter pending cmds = []"
  | (To_Tokens) "am_mode m = ''events''" "m' = m\<lparr>am_mode := ''tokens''\<rparr>" "filter pending cmds = [LoadTokens (am_queryParams m)]"
  | (To_Events) "am_mode m \<noteq> ''events''" "(m', cmds) = reload (m\<lparr>am_mode := ''events''\<rparr>)"
  | (Verify) "am_mode m = ''events''" "\<not> am_verifying m" "m' = m\<lparr>am_verifying := True, am_verifyResult := []\<rparr>" "filter pending cmds = [RunVerify]"
  | (Next) "am_mode m = ''events''" "(m', cmds) = reload (m\<lparr>am_page := am_page m + 1\<rparr>)"
  | (Previous) "am_mode m = ''events''" "am_page m > 0" "(m', cmds) = reload (m\<lparr>am_page := am_page m - 1\<rparr>)"
  using if_chain [OF assms [unfolded view_key_def Let_def, symmetric]]
proof (elim disjE conjE)
  assume "(m', cmds) \<in> {(m, [QuitAudit]), (m, [])}"
  then have "m' = m" "cmds = [QuitAudit] \<or> cmds = []" by blast+
  then show ?thesis by (intro Idle) (auto simp: pending_def)
next
  assume "am_mode m = ''events''" "(m', cmds) = (m\<lparr>am_filterActive := True\<rparr>, [BlinkFilter])"
  then show ?thesis by (intro Filter) (simp_all add: pending_def)
next
  assume "am_mode m = ''events''" "(m', cmds) = (m\<lparr>am_mode := ''tokens''\<rparr>, [LoadTokens (am_queryParams m)])"
  then show ?thesis by (intro To_Tokens) (simp_all add: pending_def)
next
  assume "am_mode m \<noteq> ''events''" "(m', cmds) = reload (m\<lparr>am_mode := ''events''\<rparr>)"
  then show ?thesis by (rule To_Events)
next
  assume "am_mode m = ''events''" "\<not> am_verifying m" "(m', cmds) = (m\<lparr>am_verifying := True, am_verifyResult := []\<rparr>, [RunVerify])"
  then show ?thesis by (intro Verify) (simp_all add: pending_def)
next
  assume "am_mode m = ''events''" "(m', cmds) = reload (m\<lparr>am_page := am_page m + 1\<rparr>)"
  then show ?thesis by (rule Next)
next
  assume "am_mode m = ''events''" "0 < am_page m" "(m', cmds) = reload (m\<lparr>am_page := am_page m - 1\<rparr>)"
  then show ?thesis by (rule Previous)
qed

lemma filter_key_cases:
  assumes "filter_key typed key m = (m', cmds)"
  obtains (Typing) t where "m' = m\<lparr>am_filterInput := t\<rparr>" "cmds = []"
  | (Closed) "m' = m\<lparr>am_filterActive := False\<rparr>" "cmds = []"
  | (Entered) t i where "(m', cmds) = reload (m\<lparr>am_filterText := t, am_filterActive := False, am_filterInput := i, am_page := 0\<rparr>)"
proof (cases "key = ''enter''")
  case True
  then have "(m', cmds) = reload (m\<lparr>am_filterText := am_filterInput m, am_filterActive := False, am_filterInput := am_filterInput m, am_page := 0\<rparr>)"
    using assms by (simp add: filter_key_def)
  then show ?thesis by (rule Entered)
next
  case False
  show ?thesis
  proof (cases "key = ''esc''")
    case True
    show ?thesis
    proof (cases "am_filterText m = []")
      case True
      then show ?thesis using assms False \<open>key = ''esc''\<close> by (intro Closed) (simp_all add: filter_key_def)
    next
      case ft: False
      have "(m', cmds) = reload (m\<lparr>am_filterText := [], am_filterActive := False, am_filterInput := [], am_page := 0\<rparr>)"
        using assms ft \<open>key = ''esc''\<close> by (auto simp: filter_key_def reload_def)
      then show ?thesis by (rule Entered)
    qed
  next
    case esc: False
    then have "m' = m\<lparr>am_filterInput := typed key (am_filterInput m)\<rparr>" "cmds = []" using assms False by (simp_all add: filter_key_def)
    then show ?thesis by (rule Typing)
  qed
qed

lemma audit_inv_key:
  assumes "audit_inv base (m, fl)" "audit_update typed (AuditKey key) m = (m', cmds)"
  shows "audit_inv base (m', fl @ filter pending cmds)"
proof (cases "am_filterActive m")
  case True
  then have "filter_key typed key m = (m', cmds)" using assms(2) by (simp add: audit_update_def)
  then show ?thesis using assms(1)
    by (cases rule: filter_key_cases) (auto simp: audit_inv_def reload_def pending_def proper_load_def)
next
  case False
  then have "view_key key m = (m', cmds)" using assms(2) by (simp add: audit_update_def)
  then show ?thesis using assms(1) False
    by (cases rule: view_key_cases) (auto simp: audit_inv_def reload_def pending_def proper_load_def)
qed

lemma audit_inv_step:
  assumes "audit_step daemons typed ordered r r'" "audit_inv base r"
  shows "audit_inv base r'"
  using assms(1)
proof cases
  case (came_in msg key w h m m' cmds fl)
  show ?thesis using came_in(3)
  proof
    assume "msg = AuditKey key"
    then show ?thesis using audit_inv_key [of base m fl typed key m' cmds] assms(2) came_in(1,2,4) by simp
  next
    assume "msg = AuditResized w h"
    then have "m' = m\<lparr>am_width := w, am_height := h, am_pageSize := (if h - 12 < 5 then 5 else h - 12)\<rparr>" "cmds = []"
      using came_in(4) by (simp_all add: audit_update_def)
    then show ?thesis using assms(2) unfolding came_in(1,2) by (simp add: audit_inv_def)
  qed
next
  case (answered i fl io msg m m' cmds)
  have sub: "list_all P (take i fl @ drop (Suc i) fl)" if "list_all P fl" for P
    using that by (auto simp: list_all_iff dest: in_set_takeD in_set_dropD)
  have n: "count_list fl RunVerify = count_list (take i fl @ drop (Suc i) fl) RunVerify + (if fl ! i = RunVerify then 1 else 0)"
    by (rule count_list_removed [OF answered(3)])
  have "am_queryParams m' = am_queryParams m" "am_pageSize m' = am_pageSize m" "am_page m' = am_page m" "am_mode m' = am_mode m"
    "am_filterActive m' = am_filterActive m" "am_table m = auditEventsToRows (am_events m) \<longrightarrow> am_table m' = auditEventsToRows (am_events m')"
    "am_verifying m' = (am_verifying m \<and> fl ! i \<noteq> RunVerify)"
    using answered(6,7) by (cases rule: perform_cases [OF answered(6)]; auto simp: audit_update_def split: sum.splits)+
  then show ?thesis using assms(2) n sub unfolding answered(1,2) audit_inv_def by (auto split: if_splits)
qed

lemma audit_inv_reaches: "audit_reaches daemons typed ordered base mode r \<Longrightarrow> audit_inv base r"
  unfolding audit_reaches_def by (induction rule: rtranclp_induct) (blast intro: audit_inv_start audit_inv_step)+

text \<open>Answered in order, what is shown is current.\<close>

definition is_load :: "AuditCmd \<Rightarrow> bool" where
  "is_load c = (case c of LoadEvents _ _ _ _ \<Rightarrow> True | LoadTokens _ \<Rightarrow> True | _ \<Rightarrow> False)"

definition shows_page :: "AuditIo set \<Rightarrow> Params \<Rightarrow> AuditModel \<Rightarrow> bool" where
  "shows_page daemons base m \<longleftrightarrow> (\<exists>io \<in> daemons. \<exists>ps. 5 \<le> ps \<and> loadAuditEvents io base (am_page m) ps (am_filterText m) = Ok (am_events m, am_total m))"

definition up_to_date :: "AuditIo set \<Rightarrow> Params \<Rightarrow> AuditRun \<Rightarrow> bool" where
  "up_to_date daemons base r \<longleftrightarrow> (case r of (m, fl) \<Rightarrow> am_mode m = ''events'' \<longrightarrow>
     (if filter is_load fl = [] then am_err m = None \<longrightarrow> shows_page daemons base m
      else \<exists>ps. 5 \<le> ps \<and> last (filter is_load fl) = LoadEvents base (am_page m) ps (am_filterText m)))"

lemma up_to_date_start: "up_to_date daemons base (audit_start base mode)"
  by (auto simp: up_to_date_def audit_start_def audit_Init_def newAuditTUIModel_def is_load_def Let_def)

lemma up_to_date_same:
  "up_to_date daemons base (m, fl) \<Longrightarrow> am_mode m' = am_mode m \<Longrightarrow> am_err m' = am_err m \<Longrightarrow> am_page m' = am_page m \<Longrightarrow> am_filterText m' = am_filterText m \<Longrightarrow>
     am_events m' = am_events m \<Longrightarrow> am_total m' = am_total m \<Longrightarrow> filter is_load fl' = filter is_load fl \<Longrightarrow> up_to_date daemons base (m', fl')"
  unfolding up_to_date_def shows_page_def by simp

lemma up_to_date_reload:
  "audit_inv base (m0, fl) \<Longrightarrow> am_pageSize m = am_pageSize m0 \<Longrightarrow> am_queryParams m = am_queryParams m0 \<Longrightarrow> (m', cmds) = reload m \<Longrightarrow>
     up_to_date daemons base (m', fl @ filter pending cmds)"
  by (simp add: up_to_date_def reload_def audit_inv_def pending_def is_load_def)

lemma up_to_date_key:
  assumes "up_to_date daemons base (m, fl)" "audit_inv base (m, fl)" "audit_update typed (AuditKey key) m = (m', cmds)"
  shows "up_to_date daemons base (m', fl @ filter pending cmds)"
proof (cases "am_filterActive m")
  case True
  then have "filter_key typed key m = (m', cmds)" using assms(3) by (simp add: audit_update_def)
  then show ?thesis
  proof (cases rule: filter_key_cases)
    case (Entered t i)
    from up_to_date_reload [OF assms(2) _ _ Entered] show ?thesis by simp
  qed (auto intro: up_to_date_same [OF assms(1)])
next
  case False
  then have "view_key key m = (m', cmds)" using assms(3) by (simp add: audit_update_def)
  then show ?thesis
  proof (cases rule: view_key_cases)
    case To_Tokens
    then show ?thesis by (simp add: up_to_date_def)
  next
    case To_Events
    from up_to_date_reload [OF assms(2) _ _ To_Events(2)] show ?thesis by simp
  next
    case Next
    from up_to_date_reload [OF assms(2) _ _ Next(2)] show ?thesis by simp
  next
    case Previous
    from up_to_date_reload [OF assms(2) _ _ Previous(3)] show ?thesis by simp
  qed (auto intro: up_to_date_same [OF assms(1)] simp: is_load_def)
qed

lemma up_to_date_answer:
  assumes "up_to_date daemons base (m, c # fl)" "audit_inv base (m, c # fl)" "io \<in> daemons" "perform io c = Some msg" "audit_update typed msg m = (m', cmds)"
  shows "up_to_date daemons base (m', fl)"
  using assms(4)
proof (cases rule: perform_cases)
  case (Events b pg ps flt)
  show ?thesis
  proof (cases "loadAuditEvents io b pg ps flt")
    case (Inl err)
    then have "m' = m\<lparr>am_err := Some err\<rparr>" using assms(5) Events by (simp add: audit_update_def)
    then show ?thesis using assms(1) Events by (auto simp: up_to_date_def is_load_def)
  next
    case (Inr r)
    obtain evs n where r: "r = (evs, n)" by (cases r)
    have m': "m' = m\<lparr>am_err := None, am_events := evs, am_total := n, am_totalPages := page_count n (am_pageSize m), am_table := auditEventsToRows evs\<rparr>"
      using assms(5) Events Inr r by (simp add: audit_update_def)
    show ?thesis
    proof (cases "filter is_load fl = []")
      case True
      show ?thesis using assms(1,2,3) Events Inr r True
        by (auto simp: up_to_date_def is_load_def m' shows_page_def audit_inv_def proper_load_def)
    next
      case False
      then show ?thesis using assms(1) Events by (simp add: up_to_date_def is_load_def m')
    qed
  qed
next
  case (Tokens b)
  then have "am_mode m' = am_mode m" "am_page m' = am_page m" "am_filterText m' = am_filterText m"
    using assms(5) by (auto simp: audit_update_def split: sum.splits)
  then show ?thesis using assms(1) Tokens by (auto simp: up_to_date_def is_load_def split: if_splits)
next
  case Verify
  then show ?thesis using assms(5) by (auto intro!: up_to_date_same [OF assms(1)] simp: audit_update_def is_load_def)
qed

lemma up_to_date_step:
  assumes "audit_step daemons typed True r r'" "up_to_date daemons base r" "audit_inv base r"
  shows "up_to_date daemons base r'"
  using assms(1)
proof cases
  case (came_in msg key w h m m' cmds fl)
  show ?thesis using came_in(3)
  proof
    assume "msg = AuditKey key"
    then show ?thesis using up_to_date_key [of daemons base m fl typed key m' cmds] assms(2,3) came_in(1,2,4) by simp
  next
    assume "msg = AuditResized w h"
    then have "m' = m\<lparr>am_width := w, am_height := h, am_pageSize := (if h - 12 < 5 then 5 else h - 12)\<rparr>" "cmds = []"
      using came_in(4) by (simp_all add: audit_update_def)
    then show ?thesis unfolding came_in(2) by (intro up_to_date_same [OF assms(2) [unfolded came_in(1)]]) simp_all
  qed
next
  case (answered i fl io msg m m' cmds)
  then obtain c fl' where fl: "fl = c # fl'" by (cases fl) auto
  show ?thesis
    using up_to_date_answer [of daemons base m c fl' io msg typed m' cmds] assms(2,3) answered fl by simp
qed

lemma up_to_date_reaches:
  "audit_reaches daemons typed True base mode r \<Longrightarrow> up_to_date daemons base r"
proof -
  assume "audit_reaches daemons typed True base mode r"
  then have "up_to_date daemons base r \<and> audit_inv base r"
    unfolding audit_reaches_def
  proof (induction rule: rtranclp_induct)
    case base
    show ?case using up_to_date_start audit_inv_start by blast
  next
    case (step r r')
    then show ?case using up_to_date_step audit_inv_step by blast
  qed
  then show ?thesis by blast
qed

lemma load_over_line:
  "loadAuditEvents (over_line A io) base pg ps flt = Ok r \<Longrightarrow> loadAuditEvents io base pg ps flt = Ok r"
  by (auto simp: loadAuditEvents_def over_line_def scanned_def split: option.splits Reply.splits if_splits)

text \<open>The daemons whose trail is one of these.\<close>

definition daemons_of :: "ApiLib \<Rightarrow> AuditEvent list set \<Rightarrow> AuditIo set" where
  "daemons_of A trails = {over_line A (serve_audit s) | s. \<exists>es \<in> trails. holds_events s es}"

text \<open>C15: when nothing is loading, the view shows its page of what its filter selects. In any run in which the
  loads are answered in their order, by daemons whose trail is then one of \<open>trails\<close>, and nothing is loading and
  no error shown, the events in the table are those of the page the view is at, in pages of the size there
  was when it was asked for, of what the flags and the filter the view names select of one of these trails, and
  the number shown is the number of all it selects; a check of the integrity that is shown as running
  has not been answered yet.\<close>

theorem audit_view_current:
  assumes "audit_reaches (daemons_of A trails) typed True base mode (m, fl)"
  shows "(am_mode m = ''events'' \<and> filter is_load fl = [] \<and> am_err m = None \<longrightarrow>
      (\<exists>es \<in> trails. \<exists>ps \<ge> 5. let xs = matching (view_filter base (am_filterText m)) es in
         am_events m = take (nat ps) (drop (nat (am_page m * ps)) xs) \<and> am_total m = int (length xs))) \<and>
    am_table m = auditEventsToRows (am_events m) \<and> 5 \<le> am_pageSize m \<and> 0 \<le> am_page m \<and> (am_verifying m \<longleftrightarrow> RunVerify \<in> set fl)"
proof -
  have inv: "audit_inv base (m, fl)" by (rule audit_inv_reaches [OF assms])
  have page: "0 \<le> am_page m" using inv by (simp add: audit_inv_def)
  have "\<exists>es \<in> trails. \<exists>ps \<ge> 5. let xs = matching (view_filter base (am_filterText m)) es in
         am_events m = take (nat ps) (drop (nat (am_page m * ps)) xs) \<and> am_total m = int (length xs)"
    if "am_mode m = ''events''" "filter is_load fl = []" "am_err m = None"
  proof -
    have "shows_page (daemons_of A trails) base m" using up_to_date_reaches [OF assms] that by (simp add: up_to_date_def)
    then obtain s es ps where s: "es \<in> trails" "holds_events s es" "5 \<le> ps"
      and l: "loadAuditEvents (over_line A (serve_audit s)) base (am_page m) ps (am_filterText m) = Ok (am_events m, am_total m)"
      unfolding shows_page_def daemons_of_def by blast
    let ?xs = "matching (view_filter base (am_filterText m)) es"
    have "am_events m = take (nat ps) (drop (nat (am_page m * ps)) ?xs)" "am_total m = int (length ?xs)"
      using load_over_line [OF l] load_page [OF s(2) _ page, of ps base "am_filterText m"] s(3) by (simp_all add: Let_def)
    then show ?thesis using s(1,3) unfolding Let_def by blast
  qed
  moreover have "am_verifying m \<longleftrightarrow> RunVerify \<in> set fl"
    using inv count_list_0_iff [of fl RunVerify] by (auto simp: audit_inv_def split: if_splits)
  ultimately show ?thesis using inv by (auto simp: audit_inv_def)
qed

section \<open>Examples\<close>

definition trail_event :: "nat \<Rightarrow> AuditEvent" where
  "trail_event n = zero_event\<lparr>ev_ID := show_nat n, ev_AgentID := ''claude''\<rparr>"

definition trail :: "AuditEvent list" where "trail = map trail_event [0..<20]"

definition trail_db :: Store where "trail_db = empty_db\<lparr>db_events := map row_of trail\<rparr>"

lemma zero_time_text: "rfc3339nano zero_time = ''0001-01-01T00:00:00Z''"
  by code_simp

lemma year4_zero_time: "year4 zero_time"
  by (simp add: year4_def civil_def days_of_def year_of_def days_before_year_def zero_time_def day_ns_def second_def Let_def)

lemma holds_trail: "holds_events trail_db trail"
proof -
  have "year4 (ev_Timestamp e)" if "e \<in> set trail" for e
    using that year4_zero_time by (auto simp only: trail_def set_map trail_event_def zero_event_def AuditEvent.simps image_iff)
  then show ?thesis by (simp add: holds_events_def trail_db_def empty_db_def)
qed

lemma sort_key_same: "sort_key (\<lambda>_. c) xs = xs"
  by (induction xs) (simp, metis insort_is_Cons list.simps(8) sort_key_simps(2) order_refl)

lemma trail_matching: "matching (view_filter Map.empty []) trail = map stored trail"
proof -
  have "filter_matches (view_filter Map.empty []) e" for e
    by (simp add: view_filter_def applyFilterToParams_def query_filter_def params_struct_def str_param_def int_param_def
        time_param_def filter_matches_def)
  then show ?thesis by (simp add: matching_def trail_def sort_key_map trail_event_def zero_event_def sort_key_same del: upt_rec_numeral)
qed

lemma length_trail [simp]: "length trail = 20" by (simp add: trail_def)

lemma load_trail:
  "0 < ps \<Longrightarrow> 0 \<le> pg \<Longrightarrow> loadAuditEvents (serve_audit trail_db) Map.empty pg ps [] =
     Ok (take (nat ps) (drop (nat (pg * ps)) (map stored trail)), 20)"
  using load_page [OF holds_trail, of ps pg Map.empty "[]"] by (simp add: trail_matching Let_def)


text \<open>How the daemon prints the times and numbers of the example.\<close>

definition line_lib :: ApiLib where
  "line_lib = \<lparr>al_query = (\<lambda>_. Err []), al_tokens = (\<lambda>_. Err []), al_event = (\<lambda>_. Err []), al_payload = (\<lambda>_. None), al_gate = (\<lambda>_. Err []),
     al_outcome = (\<lambda>s. s), al_unmarshal = (\<lambda>_. None), al_glob = (\<lambda>_ _. Ok False), al_time = (\<lambda>_. []), al_float = (\<lambda>_. ''0'')\<rparr>"

text \<open>The length of what is printed is bounded by that of its strings.\<close>

lemma length_escape: "length (escape_string s) \<le> 6 * length s"
proof (induction s rule: escape_string.induct)
  case (1 s)
  show ?case
  proof (cases s)
    case (Cons c s')
    have b: "length (escape_byte c) \<le> 6" by (simp add: escape_byte_def backslash_def)
    have n: "utf8_len s \<le> length s"
      by (cases s rule: utf8_len.cases) (auto split: list.splits)
    have e: "escape_string s =
       (if in_range 0 127 c then escape_byte c @ escape_string s'
        else if utf8_len s = 0 then backslash @ ''ufffd'' @ escape_string s'
        else if take 3 s = [CHR 0xE2, CHR 0x80, CHR 0xA8] then backslash @ ''u2028'' @ escape_string (drop 3 s)
        else if take 3 s = [CHR 0xE2, CHR 0x80, CHR 0xA9] then backslash @ ''u2029'' @ escape_string (drop 3 s)
        else take (utf8_len s) s @ escape_string (drop (utf8_len s) s))"
      by (subst escape_string.simps) (simp only: Cons list.case)
    have three: "3 \<le> length s" if "take 3 s = [x, y, z]" for x y z using arg_cong [OF that, of length] by simp
    have l: "length s = Suc (length s')" by (simp add: Cons)
    show ?thesis
      using 1(1) [OF Cons] 1(2-5) [OF Cons] b n l three by (auto simp add: e backslash_def simp del: utf8_len.simps)
  qed (simp add: escape_string.simps)
qed

lemma length_join: "length (join ss sep) \<le> (\<Sum>s\<leftarrow>ss. length s + length sep)"
  by (induction ss sep rule: join.induct) auto

fun json_bound :: "json \<Rightarrow> nat" where
  "json_bound JNull = 4"
| "json_bound (JBool b) = 5"
| "json_bound (JNum n) = length n"
| "json_bound (JStr s) = 6 * length s + 2"
| "json_bound (JArr vs) = (\<Sum>v\<leftarrow>vs. json_bound v + 1) + 2"
| "json_bound (JRaw s) = length s"
| "json_bound (JObj kvs) = (\<Sum>kv\<leftarrow>kvs. 6 * length (fst kv) + json_bound (snd kv) + 4) + 2"

lemma json_bound: "length (json_print v) \<le> json_bound v"
proof (induction v rule: json_print.induct)
  case (5 vs)
  have "(\<Sum>s\<leftarrow>map json_print vs. length s + length '','') \<le> (\<Sum>v\<leftarrow>vs. json_bound v + 1)"
    unfolding map_map o_def by (rule sum_list_mono) (use 5 in simp)
  then show ?case using length_join [of "map json_print vs" "'',''"] by simp
next
  case (7 kvs)
  let ?p = "\<lambda>kv. quote_string (fst kv) @ '':'' @ json_print (snd kv)"
  have "(\<Sum>s\<leftarrow>map ?p kvs. length s + length '','') \<le> (\<Sum>kv\<leftarrow>kvs. 6 * length (fst kv) + json_bound (snd kv) + 4)"
    unfolding map_map o_def
  proof (rule sum_list_mono)
    fix kv assume "kv \<in> set kvs"
    then show "length (?p kv) + length '','' \<le> 6 * length (fst kv) + json_bound (snd kv) + 4"
      using 7 [of kv] length_escape [of "fst kv"] by (simp add: quote_string_def)
  qed
  then show ?case using length_join [of "map ?p kvs" "'',''"] by simp
qed (use length_escape in \<open>auto simp: quote_string_def\<close>)

lemma show_nat_length: "length (show_nat n) \<le> n + 1"
  by (induction n rule: show_nat.induct) (subst show_nat.simps, auto)

lemma trail_json_bound:
  "n < 20 \<Longrightarrow> json_bound (event_json rfc3339nano (\<lambda>_. ''0'') (stored (trail_event n))) \<le> 1000"
  using show_nat_length [of n] by (simp add: event_json_def stored_def trail_event_def zero_event_def zero_time_text opt_int_def omitempty_def)

lemma trail_line:
  assumes "set evs \<subseteq> set trail" "length evs \<le> 20"
  shows "length (reply_line (result_json line_lib \<lparr>qr_Events = map stored evs, qr_Total = 20\<rparr>)) < MiB"
proof -
  let ?j = "event_json rfc3339nano (\<lambda>_. ''0'')"
  have "(\<Sum>v\<leftarrow>map ?j (map stored evs). json_bound v + 1) \<le> (\<Sum>v\<leftarrow>evs. 1001)"
    unfolding map_map by (rule sum_list_mono) (use assms(1) trail_json_bound in \<open>fastforce simp: trail_def\<close>)
  then have "json_bound (slice_json (map ?j (map stored evs))) \<le> 30000"
    using assms(2) by (simp add: slice_json_def sum_list_triv)
  then have "json_bound (response_json (result_response (JNum ''1'') (Some (result_json line_lib \<lparr>qr_Events = map stored evs, qr_Total = 20\<rparr>)))) < MiB"
    using show_nat_length [of 20] by (simp add: response_json_def result_response_def id_member_def result_json_def line_lib_def MiB_def)
  then show ?thesis using json_bound le_less_trans unfolding reply_line_def by blast
qed


text \<open>A run: the first load is answered, \<open>n\<close> and \<open>p\<close> are pressed, and the two loads are answered, the later one first if
  \<open>late\<close>.\<close>

lemma audit_input:
  "audit_reaches daemons typed ordered base mode (m, fl) \<Longrightarrow> audit_update typed (AuditKey key) m = (m', cmds) \<Longrightarrow>
     audit_reaches daemons typed ordered base mode (m', fl @ filter pending cmds)"
  unfolding audit_reaches_def by (rule rtranclp.rtrancl_into_rtrancl) (auto intro: came_in)

lemma audit_answer:
  "audit_reaches daemons typed ordered base mode (m, fl) \<Longrightarrow> i < length fl \<Longrightarrow> ordered \<longrightarrow> i = 0 \<Longrightarrow> io \<in> daemons \<Longrightarrow> perform io (fl ! i) = Some msg \<Longrightarrow>
     audit_reaches daemons typed ordered base mode (fst (audit_update typed msg m), take i fl @ drop (Suc i) fl)"
  unfolding audit_reaches_def
  by (erule rtranclp.rtrancl_into_rtrancl) (auto intro: answered [where cmds = "snd (audit_update typed msg m)"])

definition trail_page :: "nat \<Rightarrow> AuditModel \<Rightarrow> AuditModel" where
  "trail_page pg m = (let evs = take 12 (drop (pg * 12) (map stored trail)) in
     m\<lparr>am_err := None, am_events := evs, am_total := 20, am_totalPages := 2, am_table := auditEventsToRows evs\<rparr>)"

definition trail_io :: AuditIo where "trail_io = over_line line_lib (serve_audit trail_db)"

lemma trail_io: "trail_io \<in> daemons_of line_lib {trail}"
  using holds_trail by (auto simp: trail_io_def daemons_of_def)

lemma trail_io_load:
  assumes "pg < 2"
  shows "loadAuditEvents trail_io Map.empty (int pg) 12 [] = Ok (take 12 (drop (pg * 12) (map stored trail)), 20)"
proof -
  have "set (take 12 (drop (pg * 12) trail)) \<subseteq> set trail" using set_take_subset set_drop_subset by fast
  from trail_line [OF this] have fits:
    "length (reply_line (result_json line_lib \<lparr>qr_Events = take 12 (drop (pg * 12) (map stored trail)), qr_Total = 20\<rparr>)) < MiB"
    by (simp add: take_map drop_map)
  have q: "fst (QueryEvents trail_db ((view_filter Map.empty [])\<lparr>qf_Limit := 12, qf_Offset := int pg * 12\<rparr>)) =
      Ok \<lparr>qr_Events = take 12 (drop (pg * 12) (map stored trail)), qr_Total = 20\<rparr>"
    using QueryEvents_matching [OF holds_trail, of "(view_filter Map.empty [])\<lparr>qf_Limit := 12, qf_Offset := int pg * 12\<rparr>"]
    by (simp add: trail_matching nat_mult_distrib)
  show ?thesis
    by (simp add: trail_io_def loadAuditEvents_def over_line_def serve_audit_def params_struct_paged view_filter_def [symmetric] q scanned_def fits)
qed

lemma trail_page_loaded:
  "am_pageSize m = 12 \<Longrightarrow> pg < 2 \<Longrightarrow>
     audit_update typed (EventsLoaded (loadAuditEvents trail_io Map.empty (int pg) 12 [])) m = (trail_page pg m, [])"
  by (simp add: trail_io_load audit_update_def trail_page_def page_count_def Let_def)

lemma audit_first_page:
  "audit_reaches (daemons_of line_lib {trail}) typed ordered Map.empty ''events'' (trail_page 0 (newAuditTUIModel Map.empty ''events''), [])"
proof -
  let ?m = "newAuditTUIModel Map.empty ''events''"
  have "audit_reaches (daemons_of line_lib {trail}) typed ordered Map.empty ''events'' (?m, [LoadEvents Map.empty 0 12 []])"
    by (simp add: audit_reaches_def audit_start_def audit_Init_def newAuditTUIModel_def Let_def)
  from audit_answer [OF this _ _ trail_io, of 0] show ?thesis
    using trail_page_loaded [of ?m 0 typed] by (simp add: newAuditTUIModel_def)
qed

theorem audit_view_current_witness:
  "\<exists>m. audit_reaches (daemons_of line_lib {trail}) (\<lambda>_ t. t) True Map.empty ''events'' (m, []) \<and> length (am_events m) = 12 \<and>
     (\<exists>ps \<ge> 5. am_events m = take (nat ps) (map stored trail))"
proof -
  let ?m = "trail_page 0 (newAuditTUIModel Map.empty ''events'')"
  note r = audit_first_page [of "\<lambda>_ t. t" True]
  have "\<exists>ps \<ge> 5. am_events ?m = take (nat ps) (map stored trail)"
    using audit_view_current [OF r] by (simp add: trail_page_def newAuditTUIModel_def Let_def trail_matching)
  moreover have "length (am_events ?m) = 12" by (simp add: trail_page_def Let_def)
  ultimately show ?thesis using r by blast
qed

text \<open>Out of order, the view shows another page than it says: on page one, with nothing loading and no error, the events of
  page two.\<close>

lemma audit_late_answer:
  "\<exists>m. audit_reaches (daemons_of line_lib {trail}) typed False Map.empty ''events'' (m, []) \<and> am_page m = 0 \<and> am_err m = None \<and> am_events m = map stored (drop 12 trail)"
proof -
  let ?m0 = "trail_page 0 (newAuditTUIModel Map.empty ''events'')"
  let ?m1 = "?m0\<lparr>am_page := 1\<rparr>"
  have new: "audit_update typed (AuditKey ''n'') ?m0 = (?m1, [LoadEvents Map.empty 1 12 []])"
    "audit_update typed (AuditKey ''p'') ?m1 = (?m0, [LoadEvents Map.empty 0 12 []])"
    by (simp_all add: audit_update_def view_key_def reload_def trail_page_def newAuditTUIModel_def Let_def)
  have "audit_reaches (daemons_of line_lib {trail}) typed False Map.empty ''events'' (?m1, [LoadEvents Map.empty 1 12 []])"
    using audit_input [OF audit_first_page new(1)] by (simp add: pending_def)
  from audit_input [OF this new(2)]
  have "audit_reaches (daemons_of line_lib {trail}) typed False Map.empty ''events'' (?m0, [LoadEvents Map.empty 1 12 [], LoadEvents Map.empty 0 12 []])"
    by (simp add: pending_def)
  from audit_answer [OF this _ _ trail_io, of 1]
  have "audit_reaches (daemons_of line_lib {trail}) typed False Map.empty ''events'' (trail_page 0 ?m0, [LoadEvents Map.empty 1 12 []])"
    using trail_page_loaded [of ?m0 0 typed] by (simp add: trail_page_def newAuditTUIModel_def Let_def)
  from audit_answer [OF this _ _ trail_io, of 0]
  have "audit_reaches (daemons_of line_lib {trail}) typed False Map.empty ''events'' (trail_page 1 (trail_page 0 ?m0), [])"
    using trail_page_loaded [of "trail_page 0 ?m0" 1 typed] by (simp add: trail_page_def newAuditTUIModel_def Let_def)
  moreover have "am_page (trail_page 1 (trail_page 0 ?m0)) = 0" "am_err (trail_page 1 (trail_page 0 ?m0)) = None"
    "am_events (trail_page 1 (trail_page 0 ?m0)) = map stored (drop 12 trail)"
    by (simp_all add: trail_page_def newAuditTUIModel_def Let_def drop_map)
  ultimately show ?thesis by blast
qed

end
