(* ===== verification/Start_View.thy ===== *)
theory Start_View
  imports Cert_Setup Watch_View
begin

text \<open>
  \<open>internal/cli/start.go\<close> and \<open>start_tui.go\<close>: the command that runs the daemon in the foreground, with the
  view over it: a state machine over keys, ticks, the lines of the daemon's log and its exit. The
  log reaches the view through a writer that cuts what is written into lines and a channel that drops lines
  when it is full. Colours, the spinner and \<open>View\<close> are left out; a panel is its title and its text.
\<close>

section \<open>The log writer\<close>

definition log_capacity :: nat where "log_capacity = 128"

definition log_send :: "string \<Rightarrow> string list \<Rightarrow> string list" where
  "log_send line ch =
     (let line = trim_space line
      in if line = [] then ch else if length ch < log_capacity then ch @ [line] else ch)"

text \<open>The loop of \<open>Write\<close> over the buffer, with the channel.\<close>

function log_write_loop :: "string \<Rightarrow> string list \<Rightarrow> string \<times> string list" where
  "log_write_loop buf ch =
     (if newline \<notin> set buf then (buf, ch)
      else let line = takeWhile (\<lambda>c. c \<noteq> newline) buf
           in log_write_loop (drop (Suc (length line)) buf) (log_send (trim_right (CHR 0x0D) line) ch))"
  by pat_completeness auto
termination by (relation "measure (length \<circ> fst)") (auto dest: length_pos_if_in_set)

declare log_write_loop.simps [simp del]

definition log_Write :: "string \<Rightarrow> string \<times> string list \<Rightarrow> string \<times> string list" where
  "log_Write p w = (case w of (buf, ch) \<Rightarrow> log_write_loop (buf @ p) ch)"

section \<open>The view\<close>

datatype StartState = StateStarting | StateRunning | StateStopping | StateStopped | StateWarning | StateError | StateDisabled

datatype StartLevel = LevelInfo | LevelWarn | LevelError

record StartEvent =
  vt_when :: time
  vt_level :: StartLevel
  vt_detail :: string

record StartModel =
  su_cfg :: Config
  su_width :: int
  su_startedAt :: time
  su_uptime :: string
  su_daemonState :: StartState
  su_logWatcherState :: StartState
  su_proxyState :: StartState
  su_proxyDetail :: string
  su_proxyNote :: string
  su_trustPanel :: "(string \<times> string) option"
  su_events :: "StartEvent list"
  su_shutdownNote :: string
  su_daemonRunErr :: "error option"

definition stateLabel :: "StartState \<Rightarrow> string" where
  "stateLabel st =
     (case st of StateStarting \<Rightarrow> ''starting'' | StateRunning \<Rightarrow> ''running'' | StateStopping \<Rightarrow> ''stopping'' | StateWarning \<Rightarrow> ''warning''
      | StateError \<Rightarrow> ''error'' | StateDisabled \<Rightarrow> ''disabled'' | StateStopped \<Rightarrow> ''stopped'')"

text \<open>The name of an icon; the spinner's is \<open>spinner\<close>.\<close>

definition stateIcon :: "StartState \<Rightarrow> string" where
  "stateIcon st =
     (case st of StateStarting \<Rightarrow> ''spinner'' | StateStopping \<Rightarrow> ''spinner'' | StateRunning \<Rightarrow> ''running'' | StateWarning \<Rightarrow> ''warning''
      | StateError \<Rightarrow> ''error'' | StateStopped \<Rightarrow> ''stopped'' | StateDisabled \<Rightarrow> ''stopped'')"

definition addEvent :: "time \<Rightarrow> StartLevel \<Rightarrow> string \<Rightarrow> StartModel \<Rightarrow> StartModel" where
  "addEvent now level detail m =
     m\<lparr>su_events := take 6 (\<lparr>vt_when = now, vt_level = level, vt_detail = detail\<rparr> # su_events m)\<rparr>"

definition blank_line :: string where "blank_line = [newline, newline]"

definition renderTrustPanel ::
  "CertLib \<Rightarrow> FileIo \<Rightarrow> TrustIo \<Rightarrow> TrustEnv \<Rightarrow> Files \<Rightarrow> Config \<Rightarrow> (string \<times> string) option \<times> string \<times> StartState" where
  "renderTrustPanel L io t env fs cfg =
     (if \<not> dp_Enabled (cf_Proxy cfg) then (None, [], StateDisabled)
      else
        let certPath = dp_CACert (cf_Proxy cfg);
            status = CheckTrust L io t certPath (dp_CAKey (cf_Proxy cfg)) fs;
            commands = CommandsForOS (te_goos env) (te_look env) certPath;
            mitm = ''Crabwise is configured to intercept HTTPS (MITM).'' @ blank_line
        in if \<not> tr_Exists status then
             (Some (''Action required: Generate the CA'',
                ''Crabwise proxy is enabled but the CA cert/key files are missing.'' @ blank_line @ ''Run:'' @ [newline] @ ''crabwise cert trust''),
              ''CA missing'', StateWarning)
           else if tr_Trusted status then (None, [], StateStarting)
           else if to_SystemTrustCmd commands \<noteq> [] then
             (Some (''Action required: Trust the CA ('' @ to_OS commands @ '')'',
                mitm @ ''Copy/paste:'' @ [newline] @ to_SystemTrustCmd commands @ blank_line @ ''Or copy it:'' @ [newline] @ ''crabwise cert trust --copy''),
              ''trust required'', StateWarning)
           else
             (Some (''Action required: Trust the CA'',
                mitm @ ''Manually add this CA to your system trust store:'' @ [newline] @ tr_CertPath status),
              ''trust required'', StateWarning))"

text \<open>The state the panel gives replaces the one set before it.\<close>

definition newStartTUIModel ::
  "CertLib \<Rightarrow> FileIo \<Rightarrow> TrustIo \<Rightarrow> TrustEnv \<Rightarrow> Files \<Rightarrow> time \<Rightarrow> time \<Rightarrow> Config \<Rightarrow> StartModel" where
  "newStartTUIModel L io t env fs now now' cfg =
     (let (panel, note, proxyState) = renderTrustPanel L io t env fs cfg
      in addEvent now' LevelInfo ''Starting daemon''
           \<lparr>su_cfg = cfg, su_width = 80, su_startedAt = now, su_uptime = ''0s'', su_daemonState = StateStarting,
            su_logWatcherState = (if lw_Enabled (cf_LogWatcher cfg) then StateStarting else StateDisabled), su_proxyState = proxyState,
            su_proxyDetail = (if dp_Enabled (cf_Proxy cfg) then dp_Listen (cf_Proxy cfg) else ''disabled''), su_proxyNote = note,
            su_trustPanel = panel, su_events = [], su_shutdownNote = [], su_daemonRunErr = None\<rparr>)"

definition started_state :: "StartState \<Rightarrow> StartState" where
  "started_state st = (if st = StateStarting then StateRunning else st)"

definition handleLogLine :: "time \<Rightarrow> string \<Rightarrow> StartModel \<Rightarrow> StartModel" where
  "handleLogLine now line m =
     (if has_prefix line ''daemon: started'' then
        addEvent now LevelInfo ''Daemon started''
          (m\<lparr>su_daemonState := StateRunning, su_logWatcherState := started_state (su_logWatcherState m), su_proxyState := started_state (su_proxyState m)\<rparr>)
      else if has_prefix line ''daemon: received '' then
        (let note = trim_suffix (trim_prefix line ''daemon: received '') '', shutting down''; note = (if note = [] then ''signal'' else note)
         in addEvent now LevelWarn (''Shutdown requested ('' @ note @ '')'') (m\<lparr>su_shutdownNote := note, su_daemonState := StateStopping\<rparr>))
      else if has_prefix line ''daemon: context cancelled'' then
        addEvent now LevelWarn ''Shutdown requested (context cancelled)'' (m\<lparr>su_shutdownNote := ''context cancelled'', su_daemonState := StateStopping\<rparr>)
      else if has_prefix line ''daemon: log watcher start error:'' then
        addEvent now LevelError (trim_prefix line ''daemon: '') (m\<lparr>su_logWatcherState := StateError\<rparr>)
      else if has_prefix line ''daemon: proxy init error:'' \<or> has_prefix line ''daemon: proxy server error:'' then
        addEvent now LevelError (trim_prefix line ''daemon: '') (m\<lparr>su_proxyState := StateError\<rparr>)
      else if contains (to_lower line) ''error'' then addEvent now LevelWarn line m
      else m)"

datatype StartMsg = StartKey string | StartResized int | SpinnerTicked | StartTicked | LogLine string | DaemonExited "error option"

datatype StartCmd = CancelDaemon | SpinOn | NextTick | QuitStart

definition start_Init :: "StartCmd list" where "start_Init = [SpinOn, NextTick]"

definition start_update :: "time \<Rightarrow> StartMsg \<Rightarrow> StartModel \<Rightarrow> StartModel \<times> StartCmd list" where
  "start_update now msg m =
     (case msg of
        StartKey key \<Rightarrow>
          (if key = ''q'' \<or> key = ''ctrl+c'' then
             (let m = (if su_daemonState m = StateRunning \<or> su_daemonState m = StateStarting then m\<lparr>su_daemonState := StateStopping\<rparr> else m)
              in (if su_shutdownNote m = [] then addEvent now LevelWarn ''Shutdown requested'' (m\<lparr>su_shutdownNote := ''stop requested''\<rparr>) else m,
                  [CancelDaemon]))
           else (m, []))
      | StartResized w \<Rightarrow> (m\<lparr>su_width := w\<rparr>, [])
      | SpinnerTicked \<Rightarrow> (m, [SpinOn])
      | StartTicked \<Rightarrow> (m\<lparr>su_uptime := FormatDuration (now - su_startedAt m)\<rparr>, [NextTick])
      | LogLine line \<Rightarrow> (handleLogLine now line m, [])
      | DaemonExited (Some err) \<Rightarrow>
          (addEvent now LevelError (''Daemon exited: '' @ err) (m\<lparr>su_daemonRunErr := Some err, su_daemonState := StateError\<rparr>), [QuitStart])
      | DaemonExited None \<Rightarrow>
          (addEvent now LevelInfo ''Daemon stopped'' (m\<lparr>su_daemonRunErr := None, su_daemonState := StateStopped,
             su_shutdownNote := (if su_shutdownNote m = [] then ''stopped'' else su_shutdownNote m)\<rparr>), [QuitStart]))"

section \<open>The command\<close>

text \<open>What is warned of before the daemon runs: missing files, or a reason with the command or the path to
  add by hand.\<close>

datatype StartWarning = FilesMissing | NotTrusted error "string + string"

datatype StartOutput = RunView Config | RunPlain Config "StartWarning list"

definition start_cmd ::
  "CertLib \<Rightarrow> FileIo \<Rightarrow> TrustIo \<Rightarrow> TrustEnv \<Rightarrow> Files \<Rightarrow> bool \<Rightarrow> error + Config \<Rightarrow> error + StartOutput" where
  "start_cmd L io t env fs plain config =
     (case config of
        Inl err \<Rightarrow> Err (''load config: '' @ err)
      | Inr cfg \<Rightarrow>
          (if \<not> plain then Ok (RunView cfg)
           else
             let certPath = dp_CACert (cf_Proxy cfg); status = CheckTrust L io t certPath (dp_CAKey (cf_Proxy cfg)) fs;
                 cmd = to_SystemTrustCmd (CommandsForOS (te_goos env) (te_look env) certPath)
             in Ok (RunPlain cfg
                  (if \<not> dp_Enabled (cf_Proxy cfg) then []
                   else if \<not> tr_Exists status then [FilesMissing]
                   else if \<not> tr_Trusted status then [NotTrusted (tr_Reason status) (if cmd \<noteq> [] then Inl cmd else Inr (tr_CertPath status))]
                   else []))))"

section \<open>Lines do not depend on the writes\<close>

definition line_text :: "string \<Rightarrow> string" where "line_text line = trim_space (trim_right (CHR 0x0D) line)"

text \<open>The lines of a log that is complete up to its last line end, without the blank ones.\<close>

definition log_texts :: "string \<Rightarrow> string list" where
  "log_texts w = filter (\<lambda>l. l \<noteq> []) (map line_text (butlast (split_at newline w)))"

lemma log_write_loop_split:
  "log_write_loop buf ch =
     (last (split_at newline buf), fold (\<lambda>l. log_send (trim_right (CHR 0x0D) l)) (butlast (split_at newline buf)) ch)"
proof (induction buf ch rule: log_write_loop.induct)
  case (1 buf ch)
  show ?case
  proof (cases "newline \<in> set buf")
    case False
    then show ?thesis by (simp add: log_write_loop.simps [of buf] split_at_whole)
  next
    case True
    define l where "l = takeWhile (\<lambda>c. c \<noteq> newline) buf"
    define r where "r = drop (Suc (length l)) buf"
    have n: "length l < length buf"
      using True takeWhile_eq_all_conv [of "\<lambda>c. c \<noteq> newline" buf] length_takeWhile_le [of "\<lambda>c. c \<noteq> newline" buf]
        takeWhile_dropWhile_id [of "\<lambda>c. c \<noteq> newline" buf]
      by (metis l_def append_eq_conv_conj le_neq_implies_less take_all_iff order_refl)
    have d: "dropWhile (\<lambda>c. c \<noteq> newline) buf = newline # r"
      using nth_length_takeWhile [of "\<lambda>c. c \<noteq> newline" buf] n Cons_nth_drop_Suc [OF n]
      by (simp add: dropWhile_eq_drop l_def [symmetric] r_def)
    have buf: "buf = l @ newline # r" using takeWhile_dropWhile_id [of "\<lambda>c. c \<noteq> newline" buf] d by (simp add: l_def)
    have free: "newline \<notin> set l" by (auto simp: l_def dest: set_takeWhileD)
    have "split_at newline buf = l # split_at newline r" using split_at_line [OF free] buf by simp
    then show ?thesis
      using 1 True by (simp add: log_write_loop.simps [of buf] l_def [symmetric] r_def [symmetric] Let_def)
  qed
qed

lemma log_sends:
  "\<exists>ys. fold (\<lambda>l. log_send (trim_right (CHR 0x0D) l)) ls ch = ch @ ys \<and>
     subseq ys (filter (\<lambda>l. l \<noteq> []) (map line_text ls)) \<and>
     (length ch + length (filter (\<lambda>l. l \<noteq> []) (map line_text ls)) \<le> log_capacity \<longrightarrow> ys = filter (\<lambda>l. l \<noteq> []) (map line_text ls))"
proof (induction ls arbitrary: ch)
  case (Cons l ls)
  let ?ch = "log_send (trim_right (CHR 0x0D) l) ch"
  obtain ys where ys: "fold (\<lambda>l. log_send (trim_right (CHR 0x0D) l)) ls ?ch = ?ch @ ys"
    "subseq ys (filter (\<lambda>l. l \<noteq> []) (map line_text ls))"
    "length ?ch + length (filter (\<lambda>l. l \<noteq> []) (map line_text ls)) \<le> log_capacity \<longrightarrow> ys = filter (\<lambda>l. l \<noteq> []) (map line_text ls)"
    using Cons.IH by blast
  consider "line_text l = []" "?ch = ch" | "line_text l \<noteq> []" "\<not> length ch < log_capacity" "?ch = ch" |
    "line_text l \<noteq> []" "?ch = ch @ [line_text l]"
    by (cases "line_text l = []"; cases "length ch < log_capacity") (auto simp: log_send_def line_text_def Let_def)
  then show ?case
  proof cases
    case 1
    then show ?thesis using ys by auto
  next
    case 2
    then show ?thesis using ys by (intro exI [of _ ys]) auto
  next
    case 3
    then show ?thesis using ys by (intro exI [of _ "line_text l # ys"]) auto
  qed
qed simp

lemma split_at_continued:
  "split_at c (w @ p) = butlast (split_at c w) @ split_at c (last (split_at c w) @ p)"
proof (cases "c \<in> set w")
  case True
  then obtain u t where "w = u @ c # t" "c \<notin> set t" by (metis split_list_last)
  then show ?thesis by (simp add: split_at_append split_at_whole butlast_append)
qed (simp add: split_at_whole)

datatype LogOp = Wrote string | Taken

type_synonym LogState = "string \<times> string list \<times> string list"

text \<open>The buffer, the channel and the lines the view was sent.\<close>

fun log_step :: "LogOp \<Rightarrow> LogState \<Rightarrow> LogState" where
  "log_step (Wrote p) (buf, ch, got) = (case log_Write p (buf, ch) of (buf, ch) \<Rightarrow> (buf, ch, got))"
| "log_step Taken (buf, [], got) = (buf, [], got)"
| "log_step Taken (buf, l # ch, got) = (buf, ch, got @ [l])"

fun written :: "LogOp list \<Rightarrow> string" where
  "written [] = []"
| "written (Wrote p # ops) = p @ written ops"
| "written (Taken # ops) = written ops"

lemma written_append: "written (ops @ ops') = written ops @ written ops'"
  by (induction ops rule: written.induct) auto

lemma log_run:
  assumes "fold log_step ops ([], [], []) = (buf, ch, got)"
  shows "buf = last (split_at newline (written ops)) \<and> subseq (got @ ch) (log_texts (written ops)) \<and>
    (length (log_texts (written ops)) \<le> log_capacity \<longrightarrow> got @ ch = log_texts (written ops))"
  using assms
proof (induction ops arbitrary: buf ch got rule: rev_induct)
  case Nil
  then show ?case by (simp add: log_texts_def)
next
  case (snoc op ops)
  obtain buf0 ch0 got0 where s: "fold log_step ops ([], [], []) = (buf0, ch0, got0)" by (cases "fold log_step ops ([], [], [])")
  note IH = snoc.IH [OF s]
  show ?case
  proof (cases op)
    case (Wrote p)
    let ?w = "written ops" and ?ls = "butlast (split_at newline (buf0 @ p))"
    have w: "split_at newline (?w @ p) = butlast (split_at newline ?w) @ split_at newline (buf0 @ p)"
      using split_at_continued [of newline ?w p] IH by simp
    have texts: "log_texts (?w @ p) = log_texts ?w @ filter (\<lambda>l. l \<noteq> []) (map line_text ?ls)"
      by (simp add: log_texts_def w butlast_append)
    obtain ys where ys: "fold (\<lambda>l. log_send (trim_right (CHR 0x0D) l)) ?ls ch0 = ch0 @ ys"
      "subseq ys (filter (\<lambda>l. l \<noteq> []) (map line_text ?ls))"
      "length ch0 + length (filter (\<lambda>l. l \<noteq> []) (map line_text ?ls)) \<le> log_capacity \<longrightarrow> ys = filter (\<lambda>l. l \<noteq> []) (map line_text ?ls)"
      using log_sends by blast
    have new: "buf = last (split_at newline (buf0 @ p))" "ch = ch0 @ ys" "got = got0"
      using snoc.prems s Wrote ys(1) by (simp_all add: log_Write_def log_write_loop_split)
    have len: "length ch0 \<le> length (log_texts ?w)" using IH list_emb_length [of "(=)" "got0 @ ch0" "log_texts ?w"] by simp
    have sub: "subseq ((got0 @ ch0) @ ys) (log_texts ?w @ filter (\<lambda>l. l \<noteq> []) (map line_text ?ls))"
      by (rule list_emb_append_mono) (use IH ys(2) in auto)
    show ?thesis unfolding Wrote written_append written.simps append_Nil2
    proof (intro conjI impI)
      show "buf = last (split_at newline (?w @ p))" using new w by simp
      show "subseq (got @ ch) (log_texts (?w @ p))" using sub new texts by simp
      assume "length (log_texts (?w @ p)) \<le> log_capacity"
      then show "got @ ch = log_texts (?w @ p)" using IH ys(3) new texts len by auto
    qed
  next
    case Taken
    then show ?thesis using snoc.prems s IH by (cases ch0) (auto simp: written_append)
  qed
qed

text \<open>C22: what the view is sent of the log does not depend on how it was written. However the daemon's output is cut into
  writes, and whenever the view takes a line, the lines sent are, in order, lines of the log that are complete,
  without the blank ones and the space around them; all of them, as long as there are not more than the
  channel holds, and otherwise some are missing but none is changed or torn.\<close>

theorem log_lines_independent:
  "case fold log_step ops ([], [], []) of (buf, ch, got) \<Rightarrow>
     subseq (got @ ch) (log_texts (written ops)) \<and>
     (length (log_texts (written ops)) \<le> 128 \<longrightarrow> got @ ch = log_texts (written ops))"
  using log_run [of ops] by (cases "fold log_step ops ([], [], [])") (simp add: log_capacity_def)

section \<open>What the view shows\<close>

definition start_run :: "(time \<times> StartMsg) list \<Rightarrow> StartModel \<Rightarrow> StartModel \<times> StartCmd list" where
  "start_run msgs m = fold (\<lambda>(now, msg) (m, cmds). let (m', new) = start_update now msg m in (m', cmds @ new)) msgs (m, [])"

text \<open>The error of the last exit.\<close>

fun exit_error :: "error option \<Rightarrow> time \<times> StartMsg \<Rightarrow> error option" where
  "exit_error err (_, DaemonExited e) = e"
| "exit_error err _ = err"

lemma start_run_snoc:
  "start_run (msgs @ [(now, msg)]) m0 =
     (let (m, cmds) = start_run msgs m0; (m', new) = start_update now msg m in (m', cmds @ new))"
  by (simp add: start_run_def split: prod.split)

lemma addEvent_same [simp]:
  "su_proxyState (addEvent now lv d m) = su_proxyState m" "su_daemonRunErr (addEvent now lv d m) = su_daemonRunErr m"
  "su_daemonState (addEvent now lv d m) = su_daemonState m" "length (su_events (addEvent now lv d m)) \<le> 6"
  by (simp_all add: addEvent_def)

lemma handleLogLine_proxy:
  "su_proxyState (handleLogLine now line m) =
     (if has_prefix line ''daemon: started'' then started_state (su_proxyState m)
      else if has_prefix line ''daemon: proxy init error:'' \<or> has_prefix line ''daemon: proxy server error:'' then
        (if has_prefix line ''daemon: received '' \<or> has_prefix line ''daemon: context cancelled'' \<or> has_prefix line ''daemon: log watcher start error:''
         then su_proxyState m else StateError)
      else su_proxyState m)"
  "su_daemonRunErr (handleLogLine now line m) = su_daemonRunErr m"
  "length (su_events m) \<le> 6 \<Longrightarrow> length (su_events (handleLogLine now line m)) \<le> 6"
  by (simp_all add: handleLogLine_def Let_def)

lemma start_update_error:
  "su_daemonRunErr (fst (start_update now msg m)) = exit_error (su_daemonRunErr m) (now, msg)"
  by (cases msg) (auto simp: start_update_def Let_def handleLogLine_proxy split: option.splits)

lemma start_update_facts:
  assumes "start_update now msg m = (m', new)"
  shows "QuitStart \<in> set new \<longleftrightarrow> (\<exists>e. msg = DaemonExited e)" "CancelDaemon \<in> set new \<longleftrightarrow> msg \<in> {StartKey ''q'', StartKey ''ctrl+c''}"
    "length (su_events m) \<le> 6 \<Longrightarrow> length (su_events m') \<le> 6"
    "su_proxyState m' \<noteq> su_proxyState m \<Longrightarrow> \<exists>line. msg = LogLine line \<and> (su_proxyState m' = StateError \<or>
       has_prefix line ''daemon: started'' \<and> su_proxyState m = StateStarting \<and> su_proxyState m' = StateRunning)"
    "su_daemonRunErr m' = exit_error (su_daemonRunErr m) (now, msg)"
  using assms start_update_error [of now msg m]
  by (auto simp: start_update_def Let_def handleLogLine_proxy started_state_def split: StartMsg.splits option.splits if_splits)

text \<open>the view over the daemon ends with the daemon, and its proxy runs only when trusted. It quits exactly when the
  daemon has exited, with the daemon's error as its own; a key cancels the daemon and no more; it keeps at most
  six events; and the proxy is shown as running only if it is enabled, its authority was trusted when the view
  started and the daemon has logged that it started.\<close>

theorem start_view_follows:
  assumes "start_run msgs (newStartTUIModel L io t env fs now now' cfg) = (m, cmds)"
  shows "(QuitStart \<in> set cmds \<longleftrightarrow> (\<exists>e. DaemonExited e \<in> snd ` set msgs)) \<and>
    (CancelDaemon \<in> set cmds \<longleftrightarrow> StartKey ''q'' \<in> snd ` set msgs \<or> StartKey ''ctrl+c'' \<in> snd ` set msgs) \<and>
    su_daemonRunErr m = foldl exit_error None msgs \<and>
    length (su_events m) \<le> 6 \<and>
    (su_proxyState m = StateRunning \<longrightarrow> dp_Enabled (cf_Proxy cfg) \<and>
       tr_Trusted (CheckTrust L io t (dp_CACert (cf_Proxy cfg)) (dp_CAKey (cf_Proxy cfg)) fs) \<and>
       (\<exists>line. LogLine line \<in> snd ` set msgs \<and> has_prefix line ''daemon: started''))"
proof -
  let ?m0 = "newStartTUIModel L io t env fs now now' cfg"
  let ?trusted = "dp_Enabled (cf_Proxy cfg) \<and> tr_Trusted (CheckTrust L io t (dp_CACert (cf_Proxy cfg)) (dp_CAKey (cf_Proxy cfg)) fs)"
  have first: "length (su_events ?m0) \<le> 6" "su_daemonRunErr ?m0 = None" "su_proxyState ?m0 \<noteq> StateRunning"
    "su_proxyState ?m0 = StateStarting \<longrightarrow> ?trusted"
    by (auto simp: newStartTUIModel_def renderTrustPanel_def Let_def addEvent_def split: prod.splits if_splits)
  have "(QuitStart \<in> set cmds \<longleftrightarrow> (\<exists>e. DaemonExited e \<in> snd ` set msgs)) \<and>
    (CancelDaemon \<in> set cmds \<longleftrightarrow> StartKey ''q'' \<in> snd ` set msgs \<or> StartKey ''ctrl+c'' \<in> snd ` set msgs) \<and>
    su_daemonRunErr m = foldl exit_error None msgs \<and> length (su_events m) \<le> 6 \<and>
    (su_proxyState m = StateStarting \<longrightarrow> ?trusted) \<and>
    (su_proxyState m = StateRunning \<longrightarrow> ?trusted \<and> (\<exists>line. LogLine line \<in> snd ` set msgs \<and> has_prefix line ''daemon: started''))"
    using assms
  proof (induction msgs arbitrary: m cmds rule: rev_induct)
    case Nil
    then show ?case using first by (auto simp: start_run_def)
  next
    case (snoc x msgs)
    obtain at msg where x: "x = (at, msg)" by (cases x)
    obtain m1 cmds1 where r: "start_run msgs ?m0 = (m1, cmds1)" by (cases "start_run msgs ?m0")
    obtain new where u: "start_update at msg m1 = (m, new)" "cmds = cmds1 @ new"
      using snoc.prems r by (auto simp: start_run_snoc x Let_def split: prod.splits)
    note IH = snoc.IH [OF r] and f = start_update_facts [OF u(1)]
    have proxy: "su_proxyState m = su_proxyState m1 \<or> su_proxyState m = StateError \<or>
        (\<exists>line. msg = LogLine line \<and> has_prefix line ''daemon: started'' \<and> su_proxyState m1 = StateStarting \<and> su_proxyState m = StateRunning)"
      using f(4) by blast
    have "(QuitStart \<in> set cmds \<longleftrightarrow> (\<exists>e. DaemonExited e \<in> snd ` set (msgs @ [x]))) \<and>
      (CancelDaemon \<in> set cmds \<longleftrightarrow> StartKey ''q'' \<in> snd ` set (msgs @ [x]) \<or> StartKey ''ctrl+c'' \<in> snd ` set (msgs @ [x]))"
      using IH f(1,2) by (auto simp: u(2) x)
    moreover have "su_daemonRunErr m = foldl exit_error None (msgs @ [x])"
      "length (su_events m) \<le> 6" using IH f(3) f(5) by (auto simp: x)
    moreover have "(su_proxyState m = StateStarting \<longrightarrow> ?trusted) \<and>
      (su_proxyState m = StateRunning \<longrightarrow> ?trusted \<and> (\<exists>line. LogLine line \<in> snd ` set (msgs @ [x]) \<and> has_prefix line ''daemon: started''))"
      using IH proxy by (auto simp: x)
    ultimately show ?case by blast
  qed
  then show ?thesis by blast
qed

theorem log_lines_independent_witness:
  "\<exists>buf ch got. fold log_step [Wrote ''dae'', Wrote (''mon: started'' @ [newline] @ ''  ''), Taken, Wrote [newline]] ([], [], []) = (buf, ch, got) \<and>
     got @ ch = [''daemon: started'']"
proof -
  let ?ops = "[Wrote ''dae'', Wrote (''mon: started'' @ [newline] @ ''  ''), Taken, Wrote [newline]]"
  have "log_texts (written ?ops) = [''daemon: started'']" by code_simp
  then show ?thesis using log_lines_independent [of ?ops] by (auto split: prod.splits)
qed

theorem start_view_follows_witness:
  "\<exists>m cmds. start_run [(1, LogLine ''daemon: started''), (2, StartKey ''q''), (3, DaemonExited (Some ''gone''))]
      (newStartTUIModel sample_certs sample_io
         \<lparr>ti_key = Ok ''K'', ti_serial = Ok ''1'', ti_now = 0, ti_pool = Ok True, ti_verify = \<lambda>_. Verified\<rparr>
         \<lparr>te_goos = ''linux'', te_look = \<lambda>_. True, te_pipe = \<lambda>_ _. None, te_shell = \<lambda>_. None\<rparr> sample_disk 0 0 zero_config) = (m, cmds) \<and>
     {CancelDaemon, QuitStart} \<subseteq> set cmds \<and> su_daemonRunErr m = Some ''gone'' \<and> su_proxyState m \<noteq> StateRunning"
proof -
  let ?m0 = "newStartTUIModel sample_certs sample_io
         \<lparr>ti_key = Ok ''K'', ti_serial = Ok ''1'', ti_now = 0, ti_pool = Ok True, ti_verify = \<lambda>_. Verified\<rparr>
         \<lparr>te_goos = ''linux'', te_look = \<lambda>_. True, te_pipe = \<lambda>_ _. None, te_shell = \<lambda>_. None\<rparr> sample_disk 0 0 zero_config"
  let ?msgs = "[(1, LogLine ''daemon: started''), (2, StartKey ''q''), (3, DaemonExited (Some ''gone''))]"
  obtain m cmds where r: "start_run ?msgs ?m0 = (m, cmds)" by (cases "start_run ?msgs ?m0")
  have "\<not> dp_Enabled (cf_Proxy zero_config)" by (simp add: zero_config_def)
  then show ?thesis using start_view_follows [OF r] r by auto
qed

end
