(* ===== verification/Daemon_Views.thy ===== *)
theory Daemon_Views
  imports Audit_View Classify
begin

text \<open>
  The other commands over the daemon's API and their views: \<open>internal/cli/commandments.go\<close> and
  \<open>commandments_tui.go\<close>, \<open>agents.go\<close> and \<open>agents_tui.go\<close>, \<open>status.go\<close> and \<open>status_tui.go\<close>, \<open>classify.go\<close>, \<open>stop.go\<close>
  and the text mode of \<open>watch.go\<close>. A command gives the lines it prints, a view is a state machine over keys and
  answers. What a call gives is a \<open>Reply\<close>; icons and the text of a JSON number are parameters, \<open>View\<close> and the
  widgets' own state are left out.
\<close>

definition check_mark :: string where "check_mark = [CHR 0xE2, CHR 0x9C, CHR 0x93]"
definition cross_mark :: string where "cross_mark = [CHR 0xE2, CHR 0x9C, CHR 0x96]"
definition circle_mark :: string where "circle_mark = [CHR 0xE2, CHR 0x97, CHR 0x8B]"
definition dash_mark :: string where "dash_mark = [CHR 0xE2, CHR 0x80, CHR 0x94]"

text \<open>A call over a new connection: \<open>prefix\<close> names the method, \<open>parse\<close> what its result is read as.\<close>

definition called :: "error option \<Rightarrow> string \<Rightarrow> string \<Rightarrow> 'a Reply \<Rightarrow> error + 'a" where
  "called dial method_name parse r =
     (case dial of
        Some err \<Rightarrow> Err (''connect to daemon: '' @ err)
      | None \<Rightarrow>
          (case r of CallFailed err \<Rightarrow> Err (method_name @ '': '' @ err) | BadResult err \<Rightarrow> Err (parse @ '': '' @ err) | Reply v \<Rightarrow> Ok v))"

section \<open>Commandments\<close>

text \<open>\<open>dialCommandmentsClient\<close> and a call: the configuration is only looked at for its socket.\<close>

definition with_commandments_client :: "error + Config \<Rightarrow> error + 'a \<Rightarrow> error + 'a" where
  "with_commandments_client config r = (case config of Inl err \<Rightarrow> Err (''load config: '' @ err) | Inr _ \<Rightarrow> r)"

definition commandmentsListPlain :: "error + Config \<Rightarrow> error option \<Rightarrow> CommandmentRuleSummary list Reply \<Rightarrow> error + string list" where
  "commandmentsListPlain config dial r =
     with_commandments_client config (map_sum id (\<lambda>rules.
       if rules = [] then [''No commandments loaded.'']
       else (pad_right 32 ''NAME'' @ '' '' @ pad_right 11 ''ENFORCEMENT'' @ '' '' @ pad_right 8 ''PRIORITY'' @ '' '' @ ''ENABLED'') #
         map (\<lambda>rule. pad_right 32 (crs_Name rule) @ '' '' @ pad_right 11 (crs_Enforcement rule) @ '' '' @
           pad_right 8 (show_int (crs_Priority rule)) @ '' '' @ (if crs_Enabled rule then ''true'' else ''false'')) rules)
       (called dial ''commandments.list'' ''parse result'' r))"

text \<open>\<open>%v\<close> of a list of strings.\<close>

definition show_strings :: "string list \<Rightarrow> string" where
  "show_strings ss = ''['' @ join ss '' '' @ '']''"

text \<open>What the dry run prints, plain: the event is judged by the daemon.\<close>

definition commandments_test :: "error + Config \<Rightarrow> error option \<Rightarrow> AuditEvalResult Reply \<Rightarrow> error + string list" where
  "commandments_test config dial r =
     with_commandments_client config (map_sum id (\<lambda>ev.
       (''Evaluated: '' @ show_strings (aer_Evaluated ev)) #
       (if aer_Triggered ev = [] then [''Triggered: []'']
        else ''Triggered:'' # map (\<lambda>tr. ''- '' @ atr_Name tr @ '' ('' @ atr_Enforcement tr @ '')'' @
          (if atr_Message tr \<noteq> [] then '': '' @ atr_Message tr else [])) (aer_Triggered ev)))
       (called dial ''commandments.test'' ''parse result'' r))"

definition commandments_reload :: "error + Config \<Rightarrow> error option \<Rightarrow> nat Reply \<Rightarrow> error + string list" where
  "commandments_reload config dial r =
     with_commandments_client config (map_sum id (\<lambda>n. [''Reloaded commandments ('' @ show_nat n @ '' rules).''])
       (called dial ''commandments.reload'' ''parse result'' r))"

record RulesModel =
  rv_table :: "string list list"
  rv_tableHeight :: int
  rv_rules :: "CommandmentRuleSummary list"
  rv_width :: int
  rv_height :: int
  rv_ruleCount :: nat
  rv_reloading :: bool
  rv_reloadMsg :: string
  rv_err :: "error option"

definition newCommandmentsTUIModel :: RulesModel where
  "newCommandmentsTUIModel =
     \<lparr>rv_table = [], rv_tableHeight = 10, rv_rules = [], rv_width = 80, rv_height = 24, rv_ruleCount = 0, rv_reloading = False,
      rv_reloadMsg = [], rv_err = None\<rparr>"

definition commandmentsRows :: "CommandmentRuleSummary list \<Rightarrow> string list list" where
  "commandmentsRows rules =
     map (\<lambda>rule. [crs_Name rule, crs_Enforcement rule, show_int (crs_Priority rule), if crs_Enabled rule then check_mark else circle_mark]) rules"

datatype RulesCmd = LoadRules | ReloadRules | QuitRules

datatype RulesMsg =
    RulesKey string
  | RulesResized int int
  | RulesLoaded "error + CommandmentRuleSummary list"
  | RulesReloaded "error + nat"

definition rules_height :: "RulesModel \<Rightarrow> RulesModel" where
  "rules_height m = m\<lparr>rv_tableHeight := (if rv_height m - 10 < 3 then 3 else rv_height m - 10)\<rparr>"

definition rules_update :: "RulesMsg \<Rightarrow> RulesModel \<Rightarrow> RulesModel \<times> RulesCmd list" where
  "rules_update msg m =
     (case msg of
        RulesKey key \<Rightarrow>
          (if key = ''q'' \<or> key = ''ctrl+c'' then (m, [QuitRules])
           else if key = ''r'' then (m\<lparr>rv_reloading := True, rv_reloadMsg := []\<rparr>, [ReloadRules])
           else (m, []))
      | RulesResized w h \<Rightarrow> (rules_height (m\<lparr>rv_width := w, rv_height := h\<rparr>), [])
      | RulesLoaded (Inl err) \<Rightarrow> (m\<lparr>rv_err := Some err\<rparr>, [])
      | RulesLoaded (Inr rules) \<Rightarrow>
          (rules_height (m\<lparr>rv_err := None, rv_rules := rules, rv_ruleCount := length rules, rv_table := commandmentsRows rules\<rparr>), [])
      | RulesReloaded r \<Rightarrow>
          (m\<lparr>rv_reloading := False, rv_reloadMsg :=
             (case r of Inl err \<Rightarrow> cross_mark @ '' Reload failed: '' @ err | Inr n \<Rightarrow> check_mark @ '' Reloaded '' @ show_nat n @ '' rules'')\<rparr>,
           [LoadRules]))"

definition loadCommandments :: "error option \<Rightarrow> CommandmentRuleSummary list Reply \<Rightarrow> RulesMsg" where
  "loadCommandments dial r = RulesLoaded (called dial ''commandments.list'' ''parse result'' r)"

definition reloadCommandments :: "error option \<Rightarrow> nat Reply \<Rightarrow> RulesMsg" where
  "reloadCommandments dial r = RulesReloaded (called dial ''commandments.reload'' ''parse result'' r)"

section \<open>Agents\<close>

definition runAgentsPlain :: "error option \<Rightarrow> AgentInfo list Reply \<Rightarrow> error + string list list" where
  "runAgentsPlain dial r =
     map_sum id (\<lambda>agents.
       if agents = [] then [[''No agents discovered.'']]
       else [''ID'', ''TYPE'', ''PID'', ''STATUS''] # map (\<lambda>a. [ai_ID a, ai_Type a, show_int (ai_PID a), ai_Status a]) agents)
       (called dial ''agents.list'' ''parse agents'' r)"

record AgentsModel =
  gm_table :: "string list list"
  gm_tableHeight :: int
  gm_agents :: "AgentInfo list"
  gm_width :: int
  gm_height :: int
  gm_err :: "error option"

definition newAgentsTUIModel :: AgentsModel where
  "newAgentsTUIModel = \<lparr>gm_table = [], gm_tableHeight = 10, gm_agents = [], gm_width = 80, gm_height = 24, gm_err = None\<rparr>"

definition agentsToRows :: "(string \<Rightarrow> string) \<Rightarrow> AgentInfo list \<Rightarrow> string list list" where
  "agentsToRows icon agents =
     map (\<lambda>a. [icon (ai_Status a), ai_ID a, ai_Type a, if ai_PID a \<noteq> 0 then show_int (ai_PID a) else dash_mark]) agents"

definition agentsSummary :: "AgentInfo list \<Rightarrow> string" where
  "agentsSummary agents =
     (let active = length (filter (\<lambda>a. equal_fold (ai_Status a) ''active'' \<or> equal_fold (ai_Status a) ''running'') agents)
      in show_nat active @ '' active, '' @ show_nat (length agents - active) @ '' inactive'')"

datatype AgentsCmd = LoadAgents | QuitAgents

datatype AgentsMsg = AgentsKey string | AgentsResized int int | AgentsLoaded "error + AgentInfo list"

definition agents_update :: "(string \<Rightarrow> string) \<Rightarrow> AgentsMsg \<Rightarrow> AgentsModel \<Rightarrow> AgentsModel \<times> AgentsCmd list" where
  "agents_update icon msg m =
     (case msg of
        AgentsKey key \<Rightarrow> (m, if key = ''q'' \<or> key = ''ctrl+c'' then [QuitAgents] else if key = ''r'' then [LoadAgents] else [])
      | AgentsResized w h \<Rightarrow> (m\<lparr>gm_width := w, gm_height := h, gm_tableHeight := (if h - 10 < 5 then 5 else h - 10)\<rparr>, [])
      | AgentsLoaded (Inl err) \<Rightarrow> (m\<lparr>gm_err := Some err, gm_agents := [], gm_table := []\<rparr>, [])
      | AgentsLoaded (Inr agents) \<Rightarrow> (m\<lparr>gm_err := None, gm_agents := agents, gm_table := agentsToRows icon agents\<rparr>, []))"

definition loadAgents :: "error option \<Rightarrow> AgentInfo list Reply \<Rightarrow> AgentsMsg" where
  "loadAgents dial r = AgentsLoaded (called dial ''agents.list'' ''parse agents'' r)"

section \<open>Status\<close>

type_synonym StatusMap = "string \<rightharpoonup> json"

text \<open>Numbers are decoded as \<open>float64\<close>: the integer part of one, whether it is positive, whether it is one, and
  the text of a value with \<open>%v\<close>.\<close>

record NumLib =
  nl_int :: "string \<Rightarrow> int"
  nl_positive :: "string \<Rightarrow> bool"
  nl_one :: "string \<Rightarrow> bool"
  nl_show :: "json option \<Rightarrow> string"

definition runStatusPlain :: "NumLib \<Rightarrow> error option \<Rightarrow> StatusMap Reply \<Rightarrow> error + string list" where
  "runStatusPlain N dial r =
     (case dial of
        Some _ \<Rightarrow> Ok [''Daemon is not running.'']
      | None \<Rightarrow>
          (case r of
             CallFailed err \<Rightarrow> Err (''status call: '' @ err)
           | BadResult err \<Rightarrow> Err (''parse status: '' @ err)
           | Reply st \<Rightarrow>
               (let v = (\<lambda>k. nl_show N (st k)) in
                Ok ([''Status:       running'', ''Uptime:       '' @ v ''uptime'', ''PID:          '' @ v ''pid'', ''Agents:       '' @ v ''agents'',
                  ''Queue depth:  '' @ v ''queue_depth'', ''Dropped:      '' @ v ''queue_dropped'', ''Unclassified: '' @ v ''unclassified_tool_count''] @
                (if st ''openclaw_connected'' = None then []
                 else [''OpenClaw:     '' @ (case st ''openclaw_connected'' of Some (JNum n) \<Rightarrow> if nl_one N n then ''connected'' else ''disconnected'' | _ \<Rightarrow> ''disconnected''),
                   ''OC sessions:  '' @ v ''openclaw_session_cache_size'', ''OC matches:   '' @ v ''openclaw_correlation_matches'',
                   ''OC ambiguous: '' @ v ''openclaw_correlation_ambiguous'']) @
                (if st ''proxy_requests_total'' = None then []
                 else [''Proxy reqs:   '' @ v ''proxy_requests_total'', ''Proxy blocked:'' @ v ''proxy_blocked_total'',
                   ''Proxy errors: '' @ v ''proxy_upstream_errors'', ''Map degraded: '' @ v ''mapping_degraded_count''])))))"

record StatusPoll =
  sp_connected :: bool
  sp_uptime :: string
  sp_pid :: "json option"
  sp_agents :: "json option"
  sp_queueDepth :: int
  sp_queueDropped :: "64 word"
  sp_proxyReqs :: "json option"
  sp_proxyBlocked :: "json option"
  sp_proxyErrors :: "json option"
  sp_mappingDegraded :: "json option"
  sp_unclassifiedTools :: "json option"
  sp_openclawConnected :: bool
  sp_openclawSessions :: "json option"
  sp_openclawMatches :: "json option"
  sp_openclawAmbiguous :: "json option"

definition no_status :: StatusPoll where
  "no_status = \<lparr>sp_connected = False, sp_uptime = [], sp_pid = None, sp_agents = None, sp_queueDepth = 0, sp_queueDropped = 0, sp_proxyReqs = None,
     sp_proxyBlocked = None, sp_proxyErrors = None, sp_mappingDegraded = None, sp_unclassifiedTools = None, sp_openclawConnected = False,
     sp_openclawSessions = None, sp_openclawMatches = None, sp_openclawAmbiguous = None\<rparr>"

definition status_num :: "(string \<Rightarrow> 'a) \<Rightarrow> 'a \<Rightarrow> json option \<Rightarrow> 'a" where
  "status_num f z v = (case v of Some (JNum n) \<Rightarrow> f n | _ \<Rightarrow> z)"

text \<open>A daemon that cannot be reached is no error, a result that cannot be decoded is one.\<close>

definition pollStatus :: "NumLib \<Rightarrow> error option \<Rightarrow> StatusMap Reply \<Rightarrow> error + StatusPoll" where
  "pollStatus N dial r =
     (case dial of
        Some _ \<Rightarrow> Ok no_status
      | None \<Rightarrow>
          (case r of
             CallFailed _ \<Rightarrow> Ok no_status
           | BadResult err \<Rightarrow> Err err
           | Reply st \<Rightarrow>
               Ok \<lparr>sp_connected = True, sp_uptime = (case st ''uptime'' of None \<Rightarrow> [] | Some v \<Rightarrow> nl_show N (Some v)), sp_pid = st ''pid'',
                 sp_agents = st ''agents'', sp_queueDepth = status_num (nl_int N) 0 (st ''queue_depth''),
                 sp_queueDropped = status_num (\<lambda>n. word_of_int (nl_int N n)) 0 (st ''queue_dropped''), sp_proxyReqs = st ''proxy_requests_total'',
                 sp_proxyBlocked = st ''proxy_blocked_total'', sp_proxyErrors = st ''proxy_upstream_errors'',
                 sp_mappingDegraded = st ''mapping_degraded_count'', sp_unclassifiedTools = st ''unclassified_tool_count'',
                 sp_openclawConnected = status_num (nl_positive N) False (st ''openclaw_connected''),
                 sp_openclawSessions = st ''openclaw_session_cache_size'', sp_openclawMatches = st ''openclaw_correlation_matches'',
                 sp_openclawAmbiguous = st ''openclaw_correlation_ambiguous''\<rparr>))"

record StatusModel =
  tv_width :: int
  tv_shown :: StatusPoll
  tv_proxyListen :: string
  tv_logWatcherEnabled :: bool
  tv_otelEnabled :: bool
  tv_pollInterval :: duration
  tv_err :: "error option"

definition newStatusTUIModel :: "Config \<Rightarrow> bool \<Rightarrow> StatusModel" where
  "newStatusTUIModel cfg otel =
     \<lparr>tv_width = 80, tv_shown = no_status, tv_proxyListen = dp_Listen (cf_Proxy cfg), tv_logWatcherEnabled = lw_Enabled (cf_LogWatcher cfg),
      tv_otelEnabled = otel, tv_pollInterval = 3 * second, tv_err = None\<rparr>"

datatype StatusCmd = PollStatus | NextPoll duration | QuitStatus

datatype StatusMsg = StatusKey string | StatusResized int | StatusPolled "error + StatusPoll" | StatusTicked

definition status_Init :: "StatusModel \<Rightarrow> StatusCmd list" where
  "status_Init m = [PollStatus, NextPoll (tv_pollInterval m)]"

definition status_update :: "StatusMsg \<Rightarrow> StatusModel \<Rightarrow> StatusModel \<times> StatusCmd list" where
  "status_update msg m =
     (case msg of
        StatusKey key \<Rightarrow> (m, if key = ''q'' \<or> key = ''ctrl+c'' then [QuitStatus] else if key = ''r'' then [PollStatus] else [])
      | StatusResized w \<Rightarrow> (m\<lparr>tv_width := w\<rparr>, [])
      | StatusPolled (Inl err) \<Rightarrow> (m\<lparr>tv_shown := (tv_shown m)\<lparr>sp_connected := False\<rparr>, tv_err := Some err\<rparr>, [])
      | StatusPolled (Inr st) \<Rightarrow> (m\<lparr>tv_shown := st, tv_err := None\<rparr>, [])
      | StatusTicked \<Rightarrow> (m, [PollStatus, NextPoll (tv_pollInterval m)]))"

section \<open>Classifying by hand\<close>

definition parseCSV :: "string \<Rightarrow> string list" where
  "parseCSV v = (if trim_space v = [] then [] else filter (\<lambda>part. part \<noteq> []) (map trim_space (split_at (CHR '','') v)))"

definition classify_cmd ::
  "(string \<Rightarrow> error + RegistryConfig) \<Rightarrow> (string \<Rightarrow> string \<Rightarrow> error + bool) \<Rightarrow> (string \<Rightarrow> ReadResult) \<Rightarrow> string \<Rightarrow>
   error + Config \<Rightarrow> string \<Rightarrow> string \<Rightarrow> string \<Rightarrow> error + string list" where
  "classify_cmd yaml glob readFile fallbackYAML config tool provider argKeysCSV =
     (case config of
        Inl err \<Rightarrow> Err (''load config: '' @ err)
      | Inr cfg \<Rightarrow>
          (case LoadRegistry yaml readFile (cf_ToolRegistryFile cfg) fallbackYAML of
             Inl err \<Rightarrow> Err (''load tool registry: '' @ err)
           | Inr registry \<Rightarrow>
               (let argKeys = NormalizeArgKeys (parseCSV argKeysCSV);
                    result = fst (Classify glob registry provider tool argKeys);
                    display = (if trim_space provider = [] then ''_default'' else trim_space provider)
                in Ok [''Tool:      '' @ tool, ''Provider:  '' @ display, ''Arg keys:  '' @ join argKeys '','', ''Category:  '' @ cl_Category result,
                     ''Effect:    '' @ cl_Effect result, ''Source:    '' @ cl_ClassificationSource result, ''Taxonomy:  '' @ cl_TaxonomyVersion result])))"

section \<open>Stopping\<close>

text \<open>\<open>so_alive pid i\<close> says whether the process still takes a signal at the \<open>i\<close>th check.\<close>

record StopIo =
  so_read :: "string \<Rightarrow> error + string"
  so_find :: "int \<Rightarrow> error option"
  so_term :: "int \<Rightarrow> error option"
  so_alive :: "int \<Rightarrow> nat \<Rightarrow> bool"

text \<open>What it does: the signal, and each wait of a tenth of a second.\<close>

datatype StopAct = SentTerm int | Waited

text \<open>The loop from check \<open>i\<close> on, with as many left: the waits, and whether the process had ended.\<close>

fun stop_wait :: "(nat \<Rightarrow> bool) \<Rightarrow> nat \<Rightarrow> nat \<Rightarrow> StopAct list \<times> bool" where
  "stop_wait alive i 0 = ([], False)"
| "stop_wait alive i (Suc n) =
     (if \<not> alive i then ([], True) else case stop_wait alive (Suc i) n of (acts, ended) \<Rightarrow> (Waited # acts, ended))"

definition stop_cmd :: "StopIo \<Rightarrow> error + Config \<Rightarrow> StopAct list \<times> error option" where
  "stop_cmd io config =
     (case config of
        Inl err \<Rightarrow> ([], Some (''load config: '' @ err))
      | Inr cfg \<Rightarrow>
     (case so_read io (dm_PIDFile (cf_Daemon cfg)) of
        Inl err \<Rightarrow> ([], Some (''no running daemon (read pid: '' @ err @ '')''))
      | Inr data \<Rightarrow>
     (case atoi (trim_space data) of
        None \<Rightarrow> ([], Some ''invalid pid file'')
      | Some pid \<Rightarrow>
     (case so_find io pid of
        Some err \<Rightarrow> ([], Some (''find process '' @ show_int pid @ '': '' @ err))
      | None \<Rightarrow>
     (case so_term io pid of
        Some err \<Rightarrow> ([], Some (''send SIGTERM to '' @ show_int pid @ '': '' @ err))
      | None \<Rightarrow>
          (case stop_wait (so_alive io pid) 0 30 of
             (acts, True) \<Rightarrow> (SentTerm pid # acts, None)
           | (acts, False) \<Rightarrow> (SentTerm pid # acts, Some (''daemon pid '' @ show_int pid @ '' did not stop within 3s'')))))))) "

section \<open>Watching as text\<close>

definition truncate_text :: "string \<Rightarrow> nat \<Rightarrow> string" where
  "truncate_text s n = (if length s \<le> n then s else take (n - 3) s @ ''...'')"

definition fullAgentLabel :: "string \<Rightarrow> string \<Rightarrow> string" where
  "fullAgentLabel agentID sessionID = (if agentID \<noteq> ''openclaw'' \<or> sessionID = [] then agentID else agentID @ '' '' @ sessionID)"

definition formatWatchTextEvent :: "(time \<Rightarrow> string) \<Rightarrow> AuditEvent \<Rightarrow> string" where
  "formatWatchTextEvent clock evt =
     clock (ev_Timestamp evt) @ '' ['' @ fullAgentLabel (ev_AgentID evt) (ev_SessionID evt) @ ''] '' @ pad_right 18 (ev_ActionType evt) @ '' '' @
     pad_right 10 (ev_Action evt) @ '' '' @ truncate_text (ev_Arguments evt) 60"

text \<open>The error of the stream, and whether it is one of a closed connection or file.\<close>

definition watchTextExitErr :: "bool \<Rightarrow> (error \<times> bool) option \<Rightarrow> error option" where
  "watchTextExitErr interrupted err =
     (case err of
        None \<Rightarrow> None
      | Some (msg, closed) \<Rightarrow>
          (if interrupted \<and> (closed \<or> contains msg ''use of closed network connection'' \<or> contains msg ''file already closed'') then None
           else Some msg))"

text \<open>What is printed for one line of the stream: \<open>decode\<close> gives its method and parameters, \<open>event\<close> an event.\<close>

definition watch_text_line :: "(string \<Rightarrow> (string \<times> string) option) \<Rightarrow> (string \<Rightarrow> AuditEvent option) \<Rightarrow> (time \<Rightarrow> string) \<Rightarrow> string \<Rightarrow> string option" where
  "watch_text_line decode event clock line =
     (case decode line of
        Some (method_name, params) \<Rightarrow> (if method_name = ''audit.event'' then map_option (formatWatchTextEvent clock) (event params) else None)
      | None \<Rightarrow> None)"

definition runWatchText ::
  "(string \<Rightarrow> (string \<times> string) option) \<Rightarrow> (string \<Rightarrow> AuditEvent option) \<Rightarrow> (time \<Rightarrow> string) \<Rightarrow> error option \<Rightarrow> error option \<Rightarrow>
   string list \<Rightarrow> bool \<Rightarrow> (error \<times> bool) option \<Rightarrow> string list \<times> error option" where
  "runWatchText decode event clock dial subscribe stream interrupted err =
     (case dial of
        Some err \<Rightarrow> ([], Some (''connect to daemon: '' @ err))
      | None \<Rightarrow>
          (case subscribe of
             Some err \<Rightarrow> ([], Some (''subscribe: '' @ err))
           | None \<Rightarrow> (''Watching for events... (Ctrl+C to stop)'' # List.map_filter (watch_text_line decode event clock) stream,
               watchTextExitErr interrupted err)))"

section \<open>Stopping finds the daemon\<close>

lemma stop_wait_ended: "snd (stop_wait alive i n) \<longleftrightarrow> (\<exists>k < n. \<not> alive (i + k))"
proof (induction alive i n rule: stop_wait.induct)
  case (2 alive i n)
  have "(\<exists>k < Suc n. \<not> alive (i + k)) \<longleftrightarrow> \<not> alive i \<or> (\<exists>k < n. \<not> alive (Suc i + k))"
    by (auto simp: less_Suc_eq_0_disj)
  then show ?case using 2 by (simp add: case_prod_beta)
qed simp

lemma stop_wait_acts: "set (fst (stop_wait alive i n)) \<subseteq> {Waited} \<and> length (fst (stop_wait alive i n)) \<le> n"
  by (induction alive i n rule: stop_wait.induct) (auto split: prod.splits)

lemma lead_len_none: "(\<And>q. q \<in> set qs \<Longrightarrow> q \<noteq> [] \<and> hd q \<notin> set s) \<Longrightarrow> lead_len qs s = 0"
proof (induction qs)
  case (Cons q qs)
  have "\<not> prefix q s" using Cons.prems [of q] by (auto simp: prefix_def)
  then show ?case using Cons by simp
qed simp

lemma trim_space_pid: "trim_space (show_int n) = show_int n"
proof -
  have chars: "33 \<le> (of_char c :: nat) \<and> (of_char c :: nat) < 127" if "c \<in> set (show_int n)" for c
    using that show_nat_digits [of "nat n"] show_nat_digits [of "nat (- n)"]
    by (auto simp: show_int_def less_eq_char_def split: if_splits)
  have spaces: "\<forall>q \<in> set space_seqs \<union> set (map rev space_seqs). q \<noteq> [] \<and> \<not> (33 \<le> (of_char (hd q) :: nat) \<and> (of_char (hd q) :: nat) < 127)"
    by (simp add: space_seqs_def)
  have "lead_len space_seqs (show_int n) = 0" "lead_len (map rev space_seqs) (rev (show_int n)) = 0"
    by (rule lead_len_none; use spaces chars in \<open>simp only: Un_iff set_rev Ball_def\<close>; blast)+
  then show ?thesis by (simp add: trim_space_def trim_front_fix)
qed

lemma atoi_show_int: "- (2 ^ 63) \<le> n \<Longrightarrow> n < 2 ^ 63 \<Longrightarrow> atoi (show_int n) = Some n"
proof -
  assume n: "- (2 ^ 63) \<le> n" "n < 2 ^ 63"
  have d: "list_all (\<lambda>c. CHR ''0'' \<le> c \<and> c \<le> CHR ''9'') (show_nat k)" for k using show_nat_digits [of k] by (simp add: list_all_iff)
  show ?thesis
  proof (cases "n < 0")
    case True
    then show ?thesis using n d [of "nat (- n)"] by (simp add: atoi_def show_int_def Let_def)
  next
    case False
    obtain c t where c: "show_nat (nat n) = c # t" by (metis show_nat_not_Nil neq_Nil_conv)
    have "CHR ''0'' \<le> c" using show_nat_digits [of "nat n"] c by simp
    then have "c \<noteq> CHR ''-''" "c \<noteq> CHR ''+''" by (auto simp: less_eq_char_def)
    then show ?thesis using False n d [of "nat n"] c read_show_nat [of "nat n"] by (simp add: atoi_def show_int_def Let_def)
  qed
qed

text \<open>C37: \<open>crabwise stop\<close> signals the process whose number \<open>writePID\<close> put in the PID file, once, and ends. If that process takes
  the signal, it is the only one that is signalled, by one \<open>SIGTERM\<close>; the command then looks at most thirty
  times whether the process is there, and reports success exactly if one of these looks found it gone.
  That the process is still the daemon that wrote the file is not checked.\<close>

theorem stop_signals_daemon:
  assumes "writePID other pid old = Ok data" "- (2 ^ 63) \<le> pid" "pid < 2 ^ 63"
    "so_read io (dm_PIDFile (cf_Daemon cfg)) = Ok data" "so_find io pid = None" "so_term io pid = None"
  shows "\<exists>acts. fst (stop_cmd io (Ok cfg)) = SentTerm pid # acts \<and> set acts \<subseteq> {Waited} \<and> length acts \<le> 30 \<and>
    (snd (stop_cmd io (Ok cfg)) = None \<longleftrightarrow> (\<exists>k < 30. \<not> so_alive io pid k))"
proof -
  have "data = show_int pid" using assms(1) by (auto simp: writePID_def split: option.splits if_splits)
  then have "atoi (trim_space data) = Some pid" using trim_space_pid atoi_show_int assms(2,3) by simp
  moreover obtain acts ended where w: "stop_wait (so_alive io pid) 0 30 = (acts, ended)" by (cases "stop_wait (so_alive io pid) 0 30")
  ultimately have "fst (stop_cmd io (Ok cfg)) = SentTerm pid # acts" "snd (stop_cmd io (Ok cfg)) = None \<longleftrightarrow> ended"
    using assms(4-6) by (cases ended; simp add: stop_cmd_def)+
  moreover have "ended \<longleftrightarrow> (\<exists>k < 30. \<not> so_alive io pid k)" using stop_wait_ended [of "so_alive io pid" 0 30] w by simp
  ultimately show ?thesis using stop_wait_acts [of "so_alive io pid" 0 30] w by auto
qed

theorem stop_signals_daemon_witness:
  "\<exists>acts. stop_cmd \<lparr>so_read = \<lambda>_. Ok (show_int 42), so_find = \<lambda>_. None, so_term = \<lambda>_. None, so_alive = \<lambda>_ k. k < 3\<rparr> (Ok zero_config) =
     (SentTerm 42 # acts, None) \<and> set acts \<subseteq> {Waited}"
proof -
  let ?io = "\<lparr>so_read = \<lambda>_. Ok (show_int 42), so_find = \<lambda>_. None, so_term = \<lambda>_. None, so_alive = \<lambda>_ k. k < 3\<rparr>"
  have p: "writePID (\<lambda>_. False) 42 None = Ok (show_int 42)" by (simp add: writePID_def)
  obtain acts where a: "fst (stop_cmd ?io (Ok zero_config)) = SentTerm 42 # acts" "set acts \<subseteq> {Waited}"
    "snd (stop_cmd ?io (Ok zero_config)) = None \<longleftrightarrow> (\<exists>k < 30. \<not> so_alive ?io 42 k)"
    using stop_signals_daemon [OF p, of ?io zero_config] by auto
  have "\<exists>k < 30. \<not> so_alive ?io 42 k" by (rule exI [of _ "3 :: nat"]) simp
  with a(3) have "snd (stop_cmd ?io (Ok zero_config)) = None" by (rule iffD2)
  then show ?thesis using a(1,2) by (metis prod.collapse)
qed

section \<open>The views show the daemon\<close>

text \<open>The daemon's answers to the calls of the views, as its handlers give them.\<close>

definition serve_reload :: "DaemonLib \<Rightarrow> DaemonIo \<Rightarrow> Daemon \<Rightarrow> nat Reply \<times> Daemon" where
  "serve_reload DL io d =
     (case reloadRuntime DL io d of ((n, Some err), d') \<Rightarrow> (CallFailed (''rpc error -32000: '' @ err), d') | ((n, None), d') \<Rightarrow> (Reply n, d'))"

definition rules_json :: "CommandmentRuleSummary list \<Rightarrow> json" where
  "rules_json rs = JArr (map summary_json rs)"

definition serve_rules :: "Daemon \<Rightarrow> CommandmentRuleSummary list Reply" where
  "serve_rules d = scanned rules_json (Reply (cmd_List (d_commandments d)))"

lemma serve_reload_handler:
  "handle_reload DL ao params d =
     (case reloadRuntime DL (ao_reload ao) d of
        ((n, None), d') \<Rightarrow> (Ok (Some (json_map [(''ok'', JBool True), (''rules_loaded'', JNum (show_nat n))])), d')
      | ((n, Some err), d') \<Rightarrow> (Err err, d'))"
  "fst (handle_list io params d) = Ok (Some (rules_json (cmd_List (d_commandments d))))"
  by (auto simp: handle_reload_def handle_list_def rules_json_def split: prod.splits option.splits)

text \<open>\<open>r\<close> pressed: the reload is asked for and answered, then the list.\<close>

definition press_reload :: "DaemonLib \<Rightarrow> DaemonIo \<Rightarrow> Daemon \<Rightarrow> RulesModel \<Rightarrow> RulesModel \<times> Daemon" where
  "press_reload DL io d m =
     (let m = fst (rules_update (RulesKey ''r'') m);
          (r, d) = serve_reload DL io d;
          m = fst (rules_update (reloadCommandments None r) m)
      in (fst (rules_update (loadCommandments None (serve_rules d)) m), d))"

lemma settings_and_queue_rules: "settings_and_queue d d' \<Longrightarrow> d_commandments d' = d_commandments d"
  by (auto simp: settings_and_queue_def)

text \<open>after a reload the view shows the rules in force. Whatever the reload of the daemon met, once its answer and the list are
  there the table has the rules of the daemon's service, in its order, and their number, or an error where the list does
  not fit the client's line; the message is that of success, with the number of the rules, exactly if rules,
  registry and configuration could be read. It says that the reload failed also when the rules were
  replaced and only the configuration could not be read.\<close>

theorem reload_view_shows:
  "case press_reload DL io d m of (m', d') \<Rightarrow>
     (let rs = cmd_List (d_commandments d')
      in \<not> rv_reloading m' \<and>
         (if length (reply_line (rules_json rs)) < MiB
          then rv_table m' = commandmentsRows rs \<and> rv_ruleCount m' = length rs \<and> rv_err m' = None
          else rv_err m' = Some ''commandments.list: read: bufio.Scanner: token too long'') \<and>
         (case (load_commandments DL io (d_cfg d), loadToolRegistryCandidate DL io (d_cfg d)) of
            (Inr svc, Inr reg) \<Rightarrow> d_commandments d' = Loaded svc \<and>
              (if failed (read_config DL io (d_cfgPath d)) = None
               then rv_reloadMsg m' = check_mark @ '' Reloaded '' @ show_nat (length rs) @ '' rules''
               else \<exists>err. rv_reloadMsg m' = cross_mark @ '' Reload failed: commandments.reload: '' @ err)
          | _ \<Rightarrow> d_commandments d' = d_commandments d \<and>
              (\<exists>err. rv_reloadMsg m' = cross_mark @ '' Reload failed: commandments.reload: '' @ err)))"
proof -
  obtain n e d' where r: "reloadRuntime DL io d = ((n, e), d')" by (metis surj_pair)
  let ?rs = "cmd_List (d_commandments d')"
  have served: "serve_reload DL io d = (case e of Some err \<Rightarrow> CallFailed (''rpc error -32000: '' @ err) | None \<Rightarrow> Reply n, d')"
    by (simp add: serve_reload_def r split: option.split)
  obtain m' where m': "press_reload DL io d m = (m', d')" "\<not> rv_reloading m'"
    "if length (reply_line (rules_json ?rs)) < MiB
     then rv_table m' = commandmentsRows ?rs \<and> rv_ruleCount m' = length ?rs \<and> rv_err m' = None
     else rv_err m' = Some ''commandments.list: read: bufio.Scanner: token too long''"
    "rv_reloadMsg m' = (case e of Some err \<Rightarrow> cross_mark @ '' Reload failed: commandments.reload: '' @ (''rpc error -32000: '' @ err)
       | None \<Rightarrow> check_mark @ '' Reloaded '' @ show_nat n @ '' rules'')"
    by (cases e; cases "length (reply_line (rules_json ?rs)) < MiB")
      (simp_all add: press_reload_def served rules_update_def reloadCommandments_def loadCommandments_def called_def serve_rules_def
        scanned_def rules_height_def Let_def)
  have frame: ?thesis if "d_commandments d' = d_commandments d" "e \<noteq> None"
    "isl (load_commandments DL io (d_cfg d)) \<or> isl (loadToolRegistryCandidate DL io (d_cfg d))"
    using that m' by (cases "load_commandments DL io (d_cfg d)"; cases "loadToolRegistryCandidate DL io (d_cfg d)") (auto simp: Let_def)
  show ?thesis
  proof (cases "load_commandments DL io (d_cfg d)")
    case (Inl err)
    then have "settings_and_queue d d'" "e \<noteq> None"
      using r before_install_settings [of d DL io] by (auto simp: reloadRuntime_before Let_def reload_error_def failed_def)
    then show ?thesis using frame Inl by (simp add: settings_and_queue_rules)
  next
    case c: (Inr svc)
    show ?thesis
    proof (cases "loadToolRegistryCandidate DL io (d_cfg d)")
      case (Inl err)
      then have "settings_and_queue d d'" "e \<noteq> None"
        using r c before_install_settings [of d DL io] by (auto simp: reloadRuntime_before Let_def reload_error_def failed_def)
      then show ?thesis using frame Inl by (simp add: settings_and_queue_rules)
    next
      case reg: (Inr reg)
      have "d_commandments d' = Loaded svc" using reload_installs [OF c reg] r by (simp add: judged_by_def)
      moreover have "n = length ?rs" "e = None \<longleftrightarrow> failed (read_config DL io (d_cfgPath d)) = None"
        using r by (auto simp: reloadRuntime_before Let_def c reg reload_error_def failed_def split: sum.splits)
      ultimately show ?thesis using m' c reg by (auto simp: Let_def)
    qed
  qed
qed

text \<open>The status as the daemon sends it; a key is there once.\<close>

definition serve_status :: "time \<Rightarrow> int \<Rightarrow> Daemon \<Rightarrow> StatusMap Reply" where
  "serve_status now pid d = Reply (map_of (statusSnapshot now pid d))"

lemma status_lookups:
  "map_of (statusSnapshot now pid d) ''queue_depth'' = Some (count_json (length (q_ch (d_queue d))))"
  "map_of (statusSnapshot now pid d) ''queue_dropped'' = Some (count_json (unat (q_dropped (d_queue d))))"
  "map_of (statusSnapshot now pid d) ''agents'' = Some (count_json (CountAgents (d_registry d)))"
  "map_of (statusSnapshot now pid d) ''proxy_requests_total'' = None \<longleftrightarrow> d_proxy d = None"
  by (simp_all add: statusSnapshot_def Let_def Stats_of_def Snapshot_def split: option.split prod.split)

lemma status_gateway:
  obtains k where "map_of (statusSnapshot now pid d) ''openclaw_connected'' = Some (count_json k)" "k \<le> 1"
    "0 < k \<longleftrightarrow> (\<exists>c cache. d_openclaw d = Some (c, cache) \<and> gc_connected c)"
proof (rule that [of "case d_openclaw d of Some (c, _) \<Rightarrow> of_bool (gc_connected c) | None \<Rightarrow> 0"])
qed (auto simp: statusSnapshot_def Let_def Stats_of_def Snapshot_def Connected_gateway_def split: option.split prod.split)

text \<open>the status view shows the daemon's numbers, and notices when it is gone. For numbers that decode to themselves, a poll that
  is answered shows the depth and the drops of the daemon's queue, the number of its agents as sent, whether the
  gateway is connected, and requests only if there is a proxy; a poll that finds no daemon shows it as not
  running, without an error, and forgets the numbers.\<close>

theorem status_view_shows:
  assumes "\<And>n. n < 2 ^ 53 \<Longrightarrow> nl_int N (show_nat n) = int n" "\<And>n. n < 2 ^ 53 \<Longrightarrow> nl_positive N (show_nat n) = (0 < n)"
  shows "let m' = fst (status_update (StatusPolled (pollStatus N None (serve_status now pid d))) m) in
    sp_connected (tv_shown m') \<and> tv_err m' = None \<and>
    (length (q_ch (d_queue d)) < 2 ^ 53 \<longrightarrow> sp_queueDepth (tv_shown m') = int (length (q_ch (d_queue d)))) \<and>
    (unat (q_dropped (d_queue d)) < 2 ^ 53 \<longrightarrow> sp_queueDropped (tv_shown m') = q_dropped (d_queue d)) \<and>
    sp_agents (tv_shown m') = Some (JNum (show_nat (CountAgents (d_registry d)))) \<and>
    (sp_openclawConnected (tv_shown m') \<longleftrightarrow> (\<exists>c cache. d_openclaw d = Some (c, cache) \<and> gc_connected c)) \<and>
    (sp_proxyReqs (tv_shown m') = None \<longleftrightarrow> d_proxy d = None) \<and>
    tv_shown (fst (status_update (StatusPolled (pollStatus N (Some err) r)) m)) = no_status"
proof -
  have w: "word_of_int (int (unat x)) = x" for x :: "64 word" by simp
  obtain k where k: "map_of (statusSnapshot now pid d) ''openclaw_connected'' = Some (count_json k)" "k \<le> 1"
    "0 < k \<longleftrightarrow> (\<exists>c cache. d_openclaw d = Some (c, cache) \<and> gc_connected c)" by (rule status_gateway)
  have "nl_positive N (show_nat k) = (0 < k)" using assms(2) [of k] k(2) by simp
  then show ?thesis
    using assms(1) k(1,3) status_lookups(4) [of now pid d]
    by (simp add: status_update_def pollStatus_def serve_status_def Let_def status_num_def status_lookups(1-3) count_json_def w)
qed

theorem status_view_shows_witness:
  "\<forall>logger. \<exists>m'. fst (status_update (StatusPolled (pollStatus
      \<lparr>nl_int = \<lambda>s. int (read_nat_from 0 s), nl_positive = \<lambda>s. 0 < read_nat_from 0 s, nl_one = \<lambda>s. s = ''1'', nl_show = \<lambda>_. []\<rparr> None
      (serve_status 0 7 (boot sample_daemon_lib sample_daemon_io sample_run_io sample_daemon_cfg [] logger))))
    (newStatusTUIModel sample_daemon_cfg False)) = m' \<and> sp_queueDepth (tv_shown m') = 1 \<and> sp_proxyReqs (tv_shown m') = None"
proof
  fix logger
  let ?d = "boot sample_daemon_lib sample_daemon_io sample_run_io sample_daemon_cfg [] logger"
  let ?N = "\<lparr>nl_int = \<lambda>s. int (read_nat_from 0 s), nl_positive = \<lambda>s. 0 < read_nat_from 0 s, nl_one = \<lambda>s. s = ''1'', nl_show = \<lambda>_. []\<rparr> :: NumLib"
  have "0 < qc_Capacity (cf_Queue sample_daemon_cfg)" by (simp add: sample_daemon_cfg_def)
  then obtain evt where "q_ch (d_queue ?d) = [EventItem evt]" using boot_queue_failed [OF sample_no_rules] by blast
  then show "\<exists>m'. fst (status_update (StatusPolled (pollStatus ?N None (serve_status 0 7 ?d))) (newStatusTUIModel sample_daemon_cfg False)) = m' \<and>
      sp_queueDepth (tv_shown m') = 1 \<and> sp_proxyReqs (tv_shown m') = None"
    using status_view_shows [of ?N 0 7 ?d "newStatusTUIModel sample_daemon_cfg False"] by (simp add: Let_def)
qed

end
