(* ===== verification/Spec2Isabelle.thy ===== *)
theory Spec2Isabelle
  imports Audit_Trail Classify Proxy_Enforcement Proxy_Connect Discovery Raw_Payload Notify Ipc Log_Watcher Config Daemon_Runs Log_Following Watch_View Service_Env Settings_View Cert_Setup Audit_View Start_View Daemon_Views
begin

text \<open>
  A verification development for crabwise, a local daemon that watches, audits and gates what
  AI agents do. This root theory imports the others.

  The program. Adapters (the proxy under internal/adapter/proxy, the OpenClaw observer, the log
  watcher) turn what agents do into audit events. The events go through a bounded queue
  (internal/queue) to the audit logger (internal/audit), which asks the commandments
  (internal/commandments, behind the service of internal/daemon) what applies, escalates the
  outcome, redacts, chains hashes and writes batches to the store (internal/store). The proxy
  asks the same commandments before it forwards a request and before it releases an answer.

  The theories, in the order of their imports.
  \<^item> Go_Prelude, Go_Path, Go_Time, Go_Time_Parse, Go_Json: what the code uses of Go's library
    (strings, paths, times and their texts, JSON output), with lemmas.
  \<^item> Audit_Event: events.go, the event, its canonical bytes and its hash.
  \<^item> Event_Queue: queue.go, as a step relation with interleaved senders and a closer.
  \<^item> Matchers, Schema, Rule_Engine, Redaction: the commandments.
  \<^item> Event_Store, Logger, Sqlite_Store, Audit_Trail: the logger over the interface of a store
    (a locale), the store and its queries (its interpretation), and the two together.
  \<^item> Classify: the registry that classifies tools, behind the classifier interface (a locale).
  \<^item> Commandments_Service: the service (an interpretation of the commandments interface) and
    the gate.
  \<^item> Tool_Use, Proxy_Stream, Proxy_Mapping, Proxy_Routing, Proxy, Proxy_Enforcement: the proxy,
    from the tool calls of an answer to its handler and what it enforces.
  \<^item> Proxy_Connect: building and reloading the proxy, the CONNECT method and the certificate cache.
  \<^item> OpenClaw: the correlation of proxy requests with an observed agent's chats.
  \<^item> Go_Scan, Log_Parsers, Log_Watcher: the agents' logs, from lines to events and offsets.
  \<^item> Log_Following: the watcher that starts, scans, is notified and polls, composed with the store
    and the logger's batches, growing logs and crashes.
  \<^item> Discovery: the registry of agents and the scanners that fill it.
  \<^item> Raw_Payload: the stored request bodies, their retention and quota.
  \<^item> Notify: alerts for blocked events, over the interface of a rate-limited backend (a locale).
  \<^item> Ipc: the daemon's line-based RPC, its server and its client.
  \<^item> Ipc_Server: the life of the server (start, accept, stop) and the subscribing call.
  \<^item> Watch_View: the live view of the command line, a state machine over keys, lines and polls.
  \<^item> Service_Env: proxy variables for wrapped commands and for services, over the interface of a
    service manager (a locale), which the systemd manager is shown to meet.
  \<^item> Settings_View: the editor of the configuration, a state machine over keys that writes files.
  \<^item> Audit_View: the audit command and the view that pages through the trail, a step relation over
    keys and answers, composed with the store's queries and with the line limit of the RPC client.
  \<^item> Cert_Setup: making, loading and checking the certificate authority, and the init command.
  \<^item> Start_View: the command that runs the daemon under a view, with the writer that cuts its log into lines.
  \<^item> Daemon_Views: the commands and views of rules, agents and status, and the commands classify, stop
    and watch, composed with the daemon's reload and status.
  \<^item> Config: the configuration, its defaults and its validation.
  \<^item> OpenClaw_Gateway, OpenClaw_Client: the observer of a gateway, its frames and sessions, and its
    client with the reading loop, as a step relation over requests, answers and hang-ups.
  \<^item> Daemon, Daemon_Api, Daemon_Runs: the daemon's state, its start, reload and status, the methods
    it serves, and the runs that interleave them.

  Conventions. A struct is a record, an error a sum with the message, a machine integer a word,
  a string its bytes. Go maps that are ranged over are association lists in an arbitrary
  order. Third-party code, regular expressions, SQL's engine, the clock and random identifiers
  are arguments, collected in records (Lib, JsonLib, Gjson, ProxyLib, Io).

  Limits of the runs. The runs of the logger (\<open>lstep\<close>) have one evaluator and one redactor throughout: a reload, which
  replaces both between two events, is a step of the daemon's runs, not of the logger's. The runs of the log
  watcher (\<open>watching\<close>) have room in the channel and the queue. The gateway's client dials once, as the
  adapter does. An answer of the RPC server counts as written or not, whether it was the encoder or the
  connection that refused it.

  Not modelled: the layout (\<open>View\<close>) of the terminal interfaces, their colours and banners, and the wording of
  the command line, telemetry export, the cryptography behind keys and certificates, the sockets,
  websockets and HTTP servers themselves, and the signals and the shutdown of the daemon.
\<close>

end
